(* ===== verification/PyString.thy ===== *)
theory PyString
  imports Prelude
begin

text \<open>
  Python's \<open>str\<close> operations the source uses, on Isabelle's \<^typ>\<open>string\<close>. A character
  stands for a code point of Latin-1 (0 to 255). Case conversion is the one of Python on
  that range, except for the three characters whose image leaves it (the micro sign, y with
  diaeresis and, for \<open>casefold\<close>, again the micro sign), which stay as they are.
\<close>

section \<open>Character classes\<close>

definition ord_of :: "char \<Rightarrow> nat" where
  "ord_of c = of_char c"

definition is_upper :: "char \<Rightarrow> bool" where
  "is_upper c = (let n = ord_of c in (65 \<le> n \<and> n \<le> 90) \<or> (192 \<le> n \<and> n \<le> 222 \<and> n \<noteq> 215))"

definition is_lower_shiftable :: "char \<Rightarrow> bool" where
  "is_lower_shiftable c =
     (let n = ord_of c in (97 \<le> n \<and> n \<le> 122) \<or> (224 \<le> n \<and> n \<le> 254 \<and> n \<noteq> 247))"

definition is_digit :: "char \<Rightarrow> bool" where
  "is_digit c = (let n = ord_of c in 48 \<le> n \<and> n \<le> 57)"

definition is_ascii_alpha :: "char \<Rightarrow> bool" where
  "is_ascii_alpha c = (let n = ord_of c in (65 \<le> n \<and> n \<le> 90) \<or> (97 \<le> n \<and> n \<le> 122))"

text \<open>\<open>str.isspace\<close>, what \<open>strip\<close> removes and what the regular expression \<open>\s\<close> matches.\<close>

definition is_space :: "char \<Rightarrow> bool" where
  "is_space c = (let n = ord_of c in
     (9 \<le> n \<and> n \<le> 13) \<or> (28 \<le> n \<and> n \<le> 32) \<or> n = 133 \<or> n = 160)"

definition lower_char :: "char \<Rightarrow> char" where
  "lower_char c = (if is_upper c then char_of (ord_of c + 32) else c)"

definition upper_char :: "char \<Rightarrow> string" where
  "upper_char c =
     (if is_lower_shiftable c then [char_of (ord_of c - 32)]
      else if ord_of c = 223 then ''SS'' else [c])"

definition fold_char :: "char \<Rightarrow> string" where
  "fold_char c = (if ord_of c = 223 then ''ss'' else [lower_char c])"

definition str_lower :: "string \<Rightarrow> string" where
  "str_lower s = map lower_char s"

definition str_upper :: "string \<Rightarrow> string" where
  "str_upper s = concat (map upper_char s)"

definition str_casefold :: "string \<Rightarrow> string" where
  "str_casefold s = concat (map fold_char s)"

lemma ord_of_less: "ord_of c < 256"
  by (simp add: ord_of_def)

lemma ord_of_char_of: "n < 256 \<Longrightarrow> ord_of (char_of n) = n"
  by (simp add: ord_of_def)

lemma lower_char_idem [simp]: "lower_char (lower_char c) = lower_char c"
proof (cases "is_upper c")
  case True
  then have "ord_of c + 32 < 256" by (auto simp: is_upper_def Let_def)
  then have "ord_of (lower_char c) = ord_of c + 32"
    using True by (simp add: lower_char_def ord_of_char_of)
  then have "\<not> is_upper (lower_char c)"
    using True by (auto simp: is_upper_def Let_def)
  then show ?thesis by (simp add: lower_char_def)
qed (simp add: lower_char_def)

lemma str_lower_idem [simp]: "str_lower (str_lower s) = str_lower s"
  by (simp add: str_lower_def)

lemma str_lower_append [simp]: "str_lower (s @ t) = str_lower s @ str_lower t"
  by (simp add: str_lower_def)

lemma length_str_lower [simp]: "length (str_lower s) = length s"
  by (simp add: str_lower_def)

lemma str_lower_Nil_iff [simp]: "str_lower s = [] \<longleftrightarrow> s = []"
  by (simp add: str_lower_def)

section \<open>Stripping, prefixes, splitting\<close>

definition lstrip_by :: "(char \<Rightarrow> bool) \<Rightarrow> string \<Rightarrow> string" where
  "lstrip_by p s = dropWhile p s"

definition rstrip_by :: "(char \<Rightarrow> bool) \<Rightarrow> string \<Rightarrow> string" where
  "rstrip_by p s = rev (dropWhile p (rev s))"

definition str_strip :: "string \<Rightarrow> string" where
  "str_strip s = rstrip_by is_space (lstrip_by is_space s)"

definition starts_with :: "string \<Rightarrow> string \<Rightarrow> bool" where
  "starts_with p s = (take (length p) s = p)"

definition ends_with :: "string \<Rightarrow> string \<Rightarrow> bool" where
  "ends_with p s = (length p \<le> length s \<and> drop (length s - length p) s = p)"

text \<open>\<open>needle in haystack\<close>.\<close>

fun contains_str :: "string \<Rightarrow> string \<Rightarrow> bool" where
  "contains_str p [] = (p = [])"
| "contains_str p (c # s) = (starts_with p (c # s) \<or> contains_str p s)"

text \<open>\<open>s.partition(c)\<close> and \<open>s.rpartition(c)\<close> for a one-character separator.\<close>

definition str_partition :: "char \<Rightarrow> string \<Rightarrow> string \<times> bool \<times> string" where
  "str_partition c s =
     (let h = takeWhile (\<lambda>x. x \<noteq> c) s; r = dropWhile (\<lambda>x. x \<noteq> c) s
      in (h, r \<noteq> [], drop 1 r))"

definition str_rpartition :: "char \<Rightarrow> string \<Rightarrow> string \<times> bool \<times> string" where
  "str_rpartition c s =
     (let (t, found, h) = str_partition c (rev s)
      in if found then (rev h, True, rev t) else ([], False, s))"

text \<open>\<open>s.split(c)\<close>: always at least one piece.\<close>

fun str_split :: "char \<Rightarrow> string \<Rightarrow> string list" where
  "str_split c [] = [[]]"
| "str_split c (x # s) =
     (if x = c then [] # str_split c s
      else (case str_split c s of [] \<Rightarrow> [[x]] | p # ps \<Rightarrow> (x # p) # ps))"

fun str_join :: "string \<Rightarrow> string list \<Rightarrow> string" where
  "str_join sep [] = []"
| "str_join sep [p] = p"
| "str_join sep (p # q # ps) = p @ sep @ str_join sep (q # ps)"

lemma str_split_not_Nil [simp]: "str_split c s \<noteq> []"
  by (induction s) (auto split: list.splits)

lemma str_join_split: "str_join [c] (str_split c s) = s"
proof (induction s)
  case Nil
  then show ?case by simp
next
  case (Cons x s)
  obtain p ps where sp: "str_split c s = p # ps"
    by (cases "str_split c s") auto
  show ?case
  proof (cases "x = c")
    case True
    then show ?thesis using Cons sp by simp
  next
    case False
    then show ?thesis using Cons sp by (cases ps) auto
  qed
qed

lemma str_split_no_sep: "p \<in> set (str_split c s) \<Longrightarrow> c \<notin> set p"
  by (induction s arbitrary: p) (auto split: list.splits if_splits)

lemma starts_with_append [simp]: "starts_with p (p @ s)"
  by (simp add: starts_with_def)

lemma starts_with_iff: "starts_with p s \<longleftrightarrow> (\<exists>t. s = p @ t)"
  unfolding starts_with_def by (metis append_eq_conv_conj append_take_drop_id)

lemma str_partition_join:
  "str_partition c s = (h, True, t) \<Longrightarrow> s = h @ c # t \<and> c \<notin> set h"
proof -
  assume a: "str_partition c s = (h, True, t)"
  then have h: "h = takeWhile (\<lambda>x. x \<noteq> c) s" and r: "dropWhile (\<lambda>x. x \<noteq> c) s \<noteq> []"
    and t: "t = drop 1 (dropWhile (\<lambda>x. x \<noteq> c) s)"
      by (auto simp: str_partition_def Let_def)
  from r obtain x xs where d: "dropWhile (\<lambda>x. x \<noteq> c) s = x # xs" by (cases "dropWhile (\<lambda>x. x \<noteq> c) s") auto
  then have "x = c" by (simp add: dropWhile_eq_Cons_conv)
  then show ?thesis
    using h t d takeWhile_dropWhile_id [of "\<lambda>x. x \<noteq> c" s] by (auto dest: set_takeWhileD)
qed

lemma str_partition_not_found:
  "str_partition c s = (h, False, t) \<Longrightarrow> h = s \<and> t = [] \<and> c \<notin> set s"
proof -
  assume a: "str_partition c s = (h, False, t)"
  then have c: "c \<notin> set s" by (auto simp: str_partition_def Let_def dropWhile_eq_Nil_conv)
  then have tw: "takeWhile (\<lambda>x. x \<noteq> c) s = s" and dw: "dropWhile (\<lambda>x. x \<noteq> c) s = []"
    by (auto simp: takeWhile_eq_all_conv dropWhile_eq_Nil_conv)
  from a [unfolded str_partition_def Let_def tw dw] c show ?thesis by simp
qed

lemma dropWhile_hd: "dropWhile p s = c # t \<Longrightarrow> \<not> p c"
  by (simp add: dropWhile_eq_Cons_conv)

lemma rstrip_by_idem [simp]: "rstrip_by p (rstrip_by p s) = rstrip_by p s"
  by (simp add: rstrip_by_def)

section \<open>Integers from text\<close>

text \<open>
  \<open>int(text)\<close> for decimal text: surrounding whitespace, an optional sign, digits with
  single underscores between them. \<^term>\<open>None\<close> is the \<open>ValueError\<close>.
\<close>

definition digit_val :: "char \<Rightarrow> int" where
  "digit_val c = int (ord_of c) - 48"

fun digits_from :: "int \<Rightarrow> string \<Rightarrow> int option" where
  "digits_from acc [] = Some acc"
| "digits_from acc (c # s) =
     (if is_digit c then digits_from (acc * 10 + digit_val c) s
      else if c = CHR ''_'' then
        (case s of [] \<Rightarrow> None
         | d # s' \<Rightarrow> if is_digit d then digits_from (acc * 10 + digit_val d) s' else None)
      else None)"

definition unsigned_of_text :: "string \<Rightarrow> int option" where
  "unsigned_of_text s =
     (case s of [] \<Rightarrow> None
      | c # t \<Rightarrow> if is_digit c then digits_from (digit_val c) t else None)"

definition int_of_text :: "string \<Rightarrow> int option" where
  "int_of_text s =
     (case str_strip s of [] \<Rightarrow> None
      | c # t \<Rightarrow>
          if c = CHR ''-'' then map_option uminus (unsigned_of_text t)
          else if c = CHR ''+'' then unsigned_of_text t
          else unsigned_of_text (c # t))"

lemma digit_val_nonneg: "is_digit c \<Longrightarrow> 0 \<le> digit_val c"
  by (simp add: is_digit_def digit_val_def Let_def)

lemma digits_from_nonneg: "0 \<le> acc \<Longrightarrow> digits_from acc s = Some n \<Longrightarrow> 0 \<le> n"
  by (induction acc s arbitrary: n rule: digits_from.induct)
     (auto split: if_splits list.splits simp: digit_val_nonneg)

lemma unsigned_of_text_nonneg: "unsigned_of_text s = Some n \<Longrightarrow> 0 \<le> n"
  by (auto simp: unsigned_of_text_def split: list.splits if_splits
           intro: digits_from_nonneg [OF digit_val_nonneg])

end
