(* ===== verification/Errors.thy ===== *)
theory Errors
  imports PyString
begin

text \<open>
  The exception hierarchy of \<open>utils/exceptions.py\<close> and the status table of
  \<open>utils/status_map.py\<close>. A class of the library is a constructor of \<open>exc_class\<close>; every
  other class (the standard library's, a dependency's, the caller's) is \<open>Ext\<close> with its
  name, and an exception object carries its own list of classes, so that nothing is assumed
  of a hierarchy that is not under \<open>src/\<close>.
\<close>

section \<open>Classes\<close>

datatype exc_class =
    AsyncGatewayError
  | ConfigurationError
  | UnsupportedVerbError
  | ProcessorError
  | SerializationError
  | UnsafeXmlError
  | PathContainmentError
  | LocalWriteError
  | TransportError
  | ConnectError
  | DnsError
  | TlsError
  | HostKeyError
  | GatewayTimeoutError
  | ResponseTooLargeError
  | ResponseTooDeepError
  | CircuitOpenError
  | StackExhaustedError
  | GcsCapacityError
  | ProtocolError
  | HttpStatusError
  | JsonRpcError
  | JsonRpcProtocolError
  | GraphqlError
  | GraphqlProtocolError
  | S3StatusError
  | GcsStatusError
  | GrpcStatusError
  | FtpStatusError
  | SftpStatusError
  | SoapFaultError
  | AbortableServiceError
  | GrpcAbortableStatusFailure
  | Ext string

text \<open>The direct base of each class, as the \<open>class\<close> statements give it.\<close>

fun base_of :: "exc_class \<Rightarrow> exc_class option" where
  "base_of AsyncGatewayError = Some (Ext ''Exception'')"
| "base_of UnsupportedVerbError = Some ConfigurationError"
| "base_of UnsafeXmlError = Some SerializationError"
| "base_of ConnectError = Some TransportError"
| "base_of DnsError = Some TransportError"
| "base_of TlsError = Some TransportError"
| "base_of HostKeyError = Some TransportError"
| "base_of GatewayTimeoutError = Some TransportError"
| "base_of ResponseTooLargeError = Some TransportError"
| "base_of ResponseTooDeepError = Some TransportError"
| "base_of HttpStatusError = Some ProtocolError"
| "base_of JsonRpcError = Some ProtocolError"
| "base_of JsonRpcProtocolError = Some ProtocolError"
| "base_of GraphqlError = Some ProtocolError"
| "base_of GraphqlProtocolError = Some ProtocolError"
| "base_of S3StatusError = Some ProtocolError"
| "base_of GcsStatusError = Some ProtocolError"
| "base_of GrpcStatusError = Some ProtocolError"
| "base_of FtpStatusError = Some ProtocolError"
| "base_of SftpStatusError = Some ProtocolError"
| "base_of SoapFaultError = Some ProtocolError"
| "base_of (Ext n) = None"
| "base_of _ = Some AsyncGatewayError"

text \<open>
  The method resolution order of a class of the library: the chain of its bases, at most
  three of them below \<open>Exception\<close>, then Python's own \<open>Exception\<close>, \<open>BaseException\<close>.
\<close>

definition lib_mro :: "exc_class \<Rightarrow> exc_class list" where
  "lib_mro c =
     (case base_of c of None \<Rightarrow> [c]
      | Some b \<Rightarrow> c # (case base_of b of None \<Rightarrow> [b, Ext ''BaseException'']
        | Some b' \<Rightarrow> b # (case base_of b' of None \<Rightarrow> [b', Ext ''BaseException'']
          | Some b'' \<Rightarrow> [b', b'', Ext ''BaseException''])))"

fun is_lib :: "exc_class \<Rightarrow> bool" where
  "is_lib (Ext _) = False"
| "is_lib _ = True"

text \<open>\<open>isinstance(error, classes)\<close>, for an object whose classes are \<open>mro\<close>.\<close>

definition is_instance :: "exc_class list \<Rightarrow> exc_class list \<Rightarrow> bool" where
  "is_instance mro classes = list_ex (\<lambda>c. c \<in> set mro) classes"

section \<open>Codes and statuses\<close>

fun code_of :: "exc_class \<Rightarrow> string" where
  "code_of ConfigurationError = ''CONFIG''"
| "code_of UnsupportedVerbError = ''CONFIG''"
| "code_of ProcessorError = ''PROCESSOR''"
| "code_of SerializationError = ''SERIALIZATION''"
| "code_of UnsafeXmlError = ''XML_UNSAFE''"
| "code_of PathContainmentError = ''PATH''"
| "code_of LocalWriteError = ''PATH''"
| "code_of TransportError = ''TRANSPORT''"
| "code_of ConnectError = ''CONNECT''"
| "code_of DnsError = ''DNS''"
| "code_of TlsError = ''TLS''"
| "code_of HostKeyError = ''HOST_KEY''"
| "code_of GatewayTimeoutError = ''TIMEOUT''"
| "code_of ResponseTooLargeError = ''RESPONSE_TOO_LARGE''"
| "code_of ResponseTooDeepError = ''RESPONSE_TOO_DEEP''"
| "code_of CircuitOpenError = ''CIRCUIT_OPEN''"
| "code_of StackExhaustedError = ''STACK_EXHAUSTED''"
| "code_of GcsCapacityError = ''GCS_CAPACITY''"
| "code_of ProtocolError = ''PROTOCOL''"
| "code_of HttpStatusError = ''HTTP_STATUS''"
| "code_of JsonRpcError = ''JSONRPC_ERROR''"
| "code_of JsonRpcProtocolError = ''JSONRPC_PROTOCOL''"
| "code_of GraphqlError = ''GRAPHQL_ERROR''"
| "code_of GraphqlProtocolError = ''GRAPHQL_PROTOCOL''"
| "code_of S3StatusError = ''S3_STATUS''"
| "code_of GcsStatusError = ''GCS_STATUS''"
| "code_of GrpcStatusError = ''GRPC_STATUS''"
| "code_of FtpStatusError = ''FTP_STATUS''"
| "code_of SftpStatusError = ''SFTP_STATUS''"
| "code_of SoapFaultError = ''SOAP_FAULT''"
| "code_of _ = ''GATEWAY''"

definition DEFAULT_STATUS :: int where
  "DEFAULT_STATUS = 502"

definition STATUS_BY_CODE :: "(string, int) dict" where
  "STATUS_BY_CODE =
    [(''GATEWAY'', 502), (''TRANSPORT'', 502), (''PROTOCOL'', 502),
     (''CONFIG'', 400), (''PROCESSOR'', 500), (''SERIALIZATION'', 502),
     (''XML_UNSAFE'', 502), (''PATH'', 400), (''CONNECT'', 502), (''DNS'', 502),
     (''TLS'', 502), (''HOST_KEY'', 495), (''TIMEOUT'', 504),
     (''RESPONSE_TOO_LARGE'', 502), (''RESPONSE_TOO_DEEP'', 502),
     (''CIRCUIT_OPEN'', 503), (''STACK_EXHAUSTED'', 502), (''GCS_CAPACITY'', 503),
     (''HTTP_STATUS'', 502), (''JSONRPC_ERROR'', 502), (''JSONRPC_PROTOCOL'', 502),
     (''GRAPHQL_ERROR'', 502), (''GRAPHQL_PROTOCOL'', 502), (''S3_STATUS'', 502),
     (''GCS_STATUS'', 502), (''GRPC_STATUS'', 502), (''FTP_STATUS'', 500),
     (''SFTP_STATUS'', 500), (''SOAP_FAULT'', 502)]"

definition WARNING_CODES :: "string list" where
  "WARNING_CODES =
    [''HTTP_STATUS'', ''JSONRPC_ERROR'', ''GRAPHQL_ERROR'', ''S3_STATUS'', ''GCS_STATUS'',
     ''GRPC_STATUS'', ''FTP_STATUS'', ''SFTP_STATUS'', ''SOAP_FAULT'', ''CIRCUIT_OPEN'']"

definition status_for :: "string \<Rightarrow> int option \<Rightarrow> int" where
  "status_for code override =
     (case override of Some s \<Rightarrow> s | None \<Rightarrow> dict_get_or STATUS_BY_CODE code DEFAULT_STATUS)"

section \<open>Raised exceptions\<close>

text \<open>
  What a function of the library raises: the class and the status override its constructor
  was given. The message is modelled where it is observable (the envelope and the cause
  chain), not here. \<open>gw_status\<close> is the attribute \<open>AsyncGatewayError.__init__\<close> sets.
\<close>

datatype exn = Exn (exn_class: exc_class) (exn_override: "int option")

definition gw_status :: "exn \<Rightarrow> int" where
  "gw_status e = status_for (code_of (exn_class e)) (exn_override e)"

abbreviation raise_as :: "exc_class \<Rightarrow> exn + 'a" where
  "raise_as c \<equiv> Inl (Exn c None)"

abbreviation config_error :: exn where
  "config_error \<equiv> Exn ConfigurationError None"

text \<open>
  An exception object: its classes (most derived first), its text, the status a library
  exception carries, and the objects its \<open>__cause__\<close> and \<open>__context__\<close> name. Objects are
  numbered, because a cause chain is followed by identity.
\<close>

record exc_obj =
  ex_mro :: "exc_class list"
  ex_text :: string
  ex_status :: int
  ex_cause :: "nat option"
  ex_context :: "nat option"

definition ex_class :: "exc_obj \<Rightarrow> exc_class" where
  "ex_class e = (case ex_mro e of [] \<Rightarrow> Ext ''BaseException'' | c # _ \<Rightarrow> c)"

text \<open>What \<open>AsyncGatewayError.__init__\<close> builds, for any class of the library.\<close>

definition new_gateway_error :: "exc_class \<Rightarrow> string \<Rightarrow> int option \<Rightarrow> exc_obj" where
  "new_gateway_error c message override =
     \<lparr>ex_mro = lib_mro c, ex_text = message, ex_status = status_for (code_of c) override,
      ex_cause = None, ex_context = None\<rparr>"

text \<open>
  \<open>__reduce__\<close> rebuilds an exception from \<open>(str(self), self.status_code)\<close>;
  \<open>GcsCapacityError\<close>, whose constructor takes the message alone, from \<open>(str(self),)\<close>.
  The private gRPC marker inherits the two-argument form while its own constructor takes
  one argument, so rebuilding it is Python's \<open>TypeError\<close>.
\<close>

definition reduce_args :: "exc_obj \<Rightarrow> string \<times> int option" where
  "reduce_args e =
     (if ex_class e = GcsCapacityError then (ex_text e, None)
      else (ex_text e, Some (ex_status e)))"

definition rebuild :: "exc_obj \<Rightarrow> exn + exc_obj" where
  "rebuild e =
     (let (message, override) = reduce_args e
      in if ex_class e = GrpcAbortableStatusFailure then raise_as (Ext ''TypeError'')
         else Inr (new_gateway_error (ex_class e) message override))"

text \<open>\<open>faults_of\<close>: the first column of a classification table.\<close>

definition faults_of :: "(exc_class \<times> exc_class) list \<Rightarrow> exc_class list" where
  "faults_of table = map fst table"

section \<open>Facts\<close>

lemma lib_mro_head: "lib_mro c = c # tl (lib_mro c)"
  by (auto simp: lib_mro_def split: option.splits)

lemma lib_mro_self [simp, intro]: "c \<in> set (lib_mro c)"
  using lib_mro_head [of c] by (metis list.set_intros(1))

lemma lib_mro_gateway: "is_lib c \<Longrightarrow> AsyncGatewayError \<in> set (lib_mro c)"
  by (cases c) (simp_all add: lib_mro_def)

lemma lib_mro_distinct: "distinct (lib_mro c)"
  by (cases c) (simp_all add: lib_mro_def)

lemma is_instance_iff: "is_instance mro classes \<longleftrightarrow> set mro \<inter> set classes \<noteq> {}"
  by (auto simp: is_instance_def list_ex_iff)

lemma is_instance_mono: "is_instance mro cs \<Longrightarrow> set cs \<subseteq> set ds \<Longrightarrow> is_instance mro ds"
  by (auto simp: is_instance_iff)

lemma code_registered: "is_lib c \<Longrightarrow> code_of c \<in> set (dict_keys STATUS_BY_CODE)"
  by (cases c) (simp_all add: STATUS_BY_CODE_def)

lemma status_table_range: "(code, s) \<in> set STATUS_BY_CODE \<Longrightarrow> 400 \<le> s \<and> s \<le> 599"
  by (auto simp: STATUS_BY_CODE_def)

lemma status_for_override [simp]: "status_for code (Some s) = s"
  by (simp add: status_for_def)

lemma status_for_range: "400 \<le> status_for code None \<and> status_for code None \<le> 599"
proof (cases "map_of STATUS_BY_CODE code")
  case None
  then show ?thesis by (simp add: status_for_def dict_get_or_def DEFAULT_STATUS_def)
next
  case (Some s)
  then have "(code, s) \<in> set STATUS_BY_CODE" by (rule map_of_SomeD)
  then show ?thesis
    using Some status_table_range by (simp add: status_for_def dict_get_or_def)
qed

lemma ex_class_new [simp]: "ex_class (new_gateway_error c m s) = c"
  by (simp add: ex_class_def new_gateway_error_def, subst lib_mro_head, simp)

lemma rebuild_new:
  assumes "c = GcsCapacityError \<longrightarrow> override = None" and "c \<noteq> GrpcAbortableStatusFailure"
  shows "rebuild (new_gateway_error c message override) =
    Inr (new_gateway_error c message override)"
proof (cases "c = GcsCapacityError")
  case True
  then show ?thesis
    using assms by (simp add: rebuild_def reduce_args_def) (simp add: new_gateway_error_def)
next
  case False
  then show ?thesis
    using assms by (simp add: rebuild_def reduce_args_def) (simp add: new_gateway_error_def)
qed

end
