(* ===== verification/Pyval.thy ===== *)
theory Pyval
  imports Complex_Main Errors
begin

text \<open>
  Dynamically typed values: what a caller may put in \<open>protocol_info\<close>, in a configuration
  mapping or in a payload, and what a JSON body decodes to. A validator of the source that
  tests \<open>isinstance\<close> is a case distinction on this type.

  Finite floats are exact rationals: the comparisons the source makes are those of IEEE
  numbers, infinities and not-a-number included, and rounding is not modelled.
\<close>

section \<open>Floats\<close>

datatype pyfloat = FFin rat | FInf | FNegInf | FNaN

fun flt_less :: "pyfloat \<Rightarrow> pyfloat \<Rightarrow> bool" where
  "flt_less FNaN _ = False"
| "flt_less _ FNaN = False"
| "flt_less (FFin a) (FFin b) = (a < b)"
| "flt_less (FFin a) FInf = True"
| "flt_less (FFin a) FNegInf = False"
| "flt_less FInf _ = False"
| "flt_less FNegInf FNegInf = False"
| "flt_less FNegInf _ = True"

fun flt_eq :: "pyfloat \<Rightarrow> pyfloat \<Rightarrow> bool" where
  "flt_eq FNaN _ = False"
| "flt_eq _ FNaN = False"
| "flt_eq a b = (a = b)"

definition flt_le :: "pyfloat \<Rightarrow> pyfloat \<Rightarrow> bool" where
  "flt_le a b = (flt_less a b \<or> flt_eq a b)"

text \<open>\<open>int(x)\<close> truncates towards zero, and raises for the values that have no integer part.\<close>

fun int_of_float :: "pyfloat \<Rightarrow> exn + int" where
  "int_of_float (FFin r) = Inr (if 0 \<le> r then \<lfloor>r\<rfloor> else \<lceil>r\<rceil>)"
| "int_of_float FNaN = raise_as (Ext ''ValueError'')"
| "int_of_float _ = raise_as (Ext ''OverflowError'')"

section \<open>Values\<close>

datatype pyval =
    PNone
  | PBool bool
  | PInt int
  | PFloat pyfloat
  | PStr string
  | PBytes string
  | PList "pyval list"
  | PTuple "pyval list"
  | PSet "pyval list"
  | PDict "(pyval \<times> pyval) list"
  | PBasicAuth string string
  | PFun nat
  | PExcClass exc_class
  | PExcObj nat
  | PPath string
  | PObj string

text \<open>The tests the source makes with \<open>isinstance\<close> and \<open>callable\<close>.\<close>

fun is_str :: "pyval \<Rightarrow> bool" where
  "is_str (PStr _) = True"
| "is_str _ = False"

fun is_bool :: "pyval \<Rightarrow> bool" where
  "is_bool (PBool _) = True"
| "is_bool _ = False"

fun is_mapping :: "pyval \<Rightarrow> bool" where
  "is_mapping (PDict _) = True"
| "is_mapping _ = False"

text \<open>\<open>collections.abc.Sequence\<close>; a \<open>BasicAuth\<close> is a named tuple.\<close>

fun is_sequence :: "pyval \<Rightarrow> bool" where
  "is_sequence (PStr _) = True"
| "is_sequence (PBytes _) = True"
| "is_sequence (PList _) = True"
| "is_sequence (PTuple _) = True"
| "is_sequence (PBasicAuth _ _) = True"
| "is_sequence _ = False"

fun is_collection :: "pyval \<Rightarrow> bool" where
  "is_collection (PSet _) = True"
| "is_collection (PDict _) = True"
| "is_collection v = is_sequence v"

fun is_callable :: "pyval \<Rightarrow> bool" where
  "is_callable (PFun _) = True"
| "is_callable (PExcClass _) = True"
| "is_callable _ = False"

text \<open>The elements iteration yields; a string yields its characters.\<close>

fun elements :: "pyval \<Rightarrow> pyval list" where
  "elements (PStr s) = map (\<lambda>c. PStr [c]) s"
| "elements (PBytes b) = map (\<lambda>c. PInt (int (ord_of c))) b"
| "elements (PList xs) = xs"
| "elements (PTuple xs) = xs"
| "elements (PSet xs) = xs"
| "elements (PDict kvs) = map fst kvs"
| "elements (PBasicAuth l p) = [PStr l, PStr p, PStr ''latin1'']"
| "elements _ = []"

text \<open>Truth value testing.\<close>

fun py_truth :: "pyval \<Rightarrow> bool" where
  "py_truth PNone = False"
| "py_truth (PBool b) = b"
| "py_truth (PInt n) = (n \<noteq> 0)"
| "py_truth (PFloat f) = (f \<noteq> FFin 0)"
| "py_truth (PStr s) = (s \<noteq> [])"
| "py_truth (PBytes s) = (s \<noteq> [])"
| "py_truth (PList xs) = (xs \<noteq> [])"
| "py_truth (PTuple xs) = (xs \<noteq> [])"
| "py_truth (PSet xs) = (xs \<noteq> [])"
| "py_truth (PDict kvs) = (kvs \<noteq> [])"
| "py_truth _ = True"

section \<open>Mappings with string keys\<close>

text \<open>The entries of a mapping, and \<open>d.get(k)\<close> / \<open>k in d\<close> for a string key.\<close>

fun entries :: "pyval \<Rightarrow> (pyval, pyval) dict" where
  "entries (PDict kvs) = kvs"
| "entries _ = []"

definition dget :: "pyval \<Rightarrow> string \<Rightarrow> pyval option" where
  "dget d k = map_of (entries d) (PStr k)"

definition dget_or :: "pyval \<Rightarrow> string \<Rightarrow> pyval \<Rightarrow> pyval" where
  "dget_or d k v = (case dget d k of None \<Rightarrow> v | Some w \<Rightarrow> w)"

definition dhas :: "pyval \<Rightarrow> string \<Rightarrow> bool" where
  "dhas d k = (dget d k \<noteq> None)"

definition dset :: "pyval \<Rightarrow> string \<Rightarrow> pyval \<Rightarrow> pyval" where
  "dset d k v = PDict (dict_set (entries d) (PStr k) v)"

lemma dget_dset [simp, dict_simps]:
  "dget (dset d k v) k' = (if k' = k then Some v else dget d k')"
  by (simp add: dget_def dset_def)

lemma dhas_dset [simp, dict_simps]: "dhas (dset d k v) k' \<longleftrightarrow> k' = k \<or> dhas d k'"
  by (simp add: dhas_def)

section \<open>Numbers\<close>

text \<open>\<open>isinstance(value, int) and not isinstance(value, bool)\<close>, with the value.\<close>

fun as_int :: "pyval \<Rightarrow> int option" where
  "as_int (PInt n) = Some n"
| "as_int _ = None"

text \<open>The numeric reading of an \<open>int\<close> or a \<open>float\<close> that is not a \<open>bool\<close>.\<close>

fun as_number :: "pyval \<Rightarrow> pyfloat option" where
  "as_number (PInt n) = Some (FFin (of_int n))"
| "as_number (PFloat f) = Some f"
| "as_number _ = None"

lemma as_number_PBool [simp]: "as_number (PBool b) = None"
  by simp

lemma as_int_Some: "as_int v = Some n \<longleftrightarrow> v = PInt n"
  by (cases v) auto

lemma flt_less_irrefl [simp]: "\<not> flt_less a a"
  by (cases a) auto

lemma flt_less_trans: "flt_less a b \<Longrightarrow> flt_less b c \<Longrightarrow> flt_less a c"
  by (cases a; cases b; cases c) auto

lemma flt_less_FFin: "flt_less (FFin a) b \<longleftrightarrow> (\<exists>r. b = FFin r \<and> a < r) \<or> b = FInf"
  by (cases b) auto

end
