(* ===== verification/Breaker_Config.thy ===== *)
theory Breaker_Config
  imports Pyval
begin

text \<open>
  The configuration half of \<open>helpers/internal/circuit_breaker_helper.py\<close>: the validators
  of \<open>circuit_breaker_config\<close> and \<open>retry_config\<close>, and the retry policy they build. The two
  objects of \<open>pyfailsafe\<close> that are built (\<open>RetryPolicy\<close> and its backoff) are the records of
  the arguments their constructors get; what the library does with them is a parameter of
  the breaker model.
\<close>

section \<open>Constants\<close>

definition CIRCUIT_BREAKER_RETRY :: int where "CIRCUIT_BREAKER_RETRY = 5"
definition CIRCUIT_BREAKER_TIMEOUT :: pyfloat where "CIRCUIT_BREAKER_TIMEOUT = FFin 60"
definition CIRCUIT_BREAKER_DELAY :: pyfloat where "CIRCUIT_BREAKER_DELAY = FFin (1 / 10)"
definition CIRCUIT_BREAKER_MAX_DELAY :: pyfloat where "CIRCUIT_BREAKER_MAX_DELAY = FFin 10"
definition CIRCUIT_BREAKER_JITTER :: bool where "CIRCUIT_BREAKER_JITTER = True"
definition CIRCUIT_BREAKER_BACKOFF :: string where "CIRCUIT_BREAKER_BACKOFF = ''exponential''"

definition BACKOFF_NAMES :: "string list" where
  "BACKOFF_NAMES = [''constant'', ''exponential'']"

definition RETRY_CONFIG_KEYS :: "string list" where
  "RETRY_CONFIG_KEYS =
    [''name'', ''allowed_retries'', ''retriable_exceptions'', ''abortable_exceptions'',
     ''on_retries_exhausted'', ''on_failed_attempt'', ''on_abort'', ''delay'', ''max_delay'',
     ''jitter'', ''backoff'']"

definition BREAKER_CONFIG_KEYS :: "string list" where
  "BREAKER_CONFIG_KEYS =
    [''maximum_failures'', ''timeout'', ''retry_config'', ''clock'', ''sleep'']"

section \<open>Setting validators\<close>

definition is_number :: "pyval \<Rightarrow> bool" where
  "is_number v = (as_number v \<noteq> None)"

definition validated_number ::
    "pyval \<Rightarrow> string \<Rightarrow> pyfloat \<Rightarrow> pyfloat \<Rightarrow> exn + pyfloat" where
  "validated_number config key dflt minimum =
     (case dget config key of
        None \<Rightarrow> Inr dflt
      | Some value \<Rightarrow>
          (case as_number value of
             None \<Rightarrow> Inl config_error
           | Some x \<Rightarrow> if flt_less x minimum then Inl config_error else Inr x))"

definition validated_bool :: "pyval \<Rightarrow> string \<Rightarrow> bool \<Rightarrow> exn + bool" where
  "validated_bool config key dflt =
     (case dget config key of
        None \<Rightarrow> Inr dflt
      | Some (PBool b) \<Rightarrow> Inr b
      | Some _ \<Rightarrow> Inl config_error)"

text \<open>
  The message of the rejection sorts the unknown keys: Python orders strings among
  themselves and numbers among themselves, and comparing across the two raises
  \<open>TypeError\<close> before the \<open>ConfigurationError\<close> is built. Keys are strings, numbers or
  \<open>None\<close> here; the order among two keys of another kind is not modelled.
\<close>

definition sortable :: "pyval list \<Rightarrow> bool" where
  "sortable vs \<longleftrightarrow> length vs \<le> 1 \<or> list_all is_str vs
     \<or> list_all (\<lambda>v. is_bool v \<or> as_number v \<noteq> None) vs"

definition reject_unknown_keys :: "pyval \<Rightarrow> string list \<Rightarrow> exn + unit" where
  "reject_unknown_keys config allowed =
     (let unknown = filter (\<lambda>k. k \<notin> PStr ` set allowed) (dict_keys (entries config))
      in if unknown = [] then Inr ()
         else if sortable unknown then Inl config_error
         else raise_as (Ext ''TypeError''))"

fun exception_classes :: "pyval list \<Rightarrow> exn + exc_class list" where
  "exception_classes [] = Inr []"
| "exception_classes (PExcClass c # xs) =
     rbind (exception_classes xs) (\<lambda>cs. Inr (c # cs))"
| "exception_classes (_ # xs) = Inl config_error"

definition validated_exceptions :: "pyval \<Rightarrow> string \<Rightarrow> exn + exc_class list option" where
  "validated_exceptions config key =
     (case dget_or config key PNone of
        PNone \<Rightarrow> Inr None
      | PStr _ \<Rightarrow> Inl config_error
      | PBytes _ \<Rightarrow> Inl config_error
      | value \<Rightarrow>
          if is_sequence value
          then rbind (exception_classes (elements value)) (\<lambda>cs. Inr (Some cs))
          else Inl config_error)"

definition validated_callable :: "pyval \<Rightarrow> string \<Rightarrow> exn + pyval option" where
  "validated_callable config key =
     (case dget_or config key PNone of
        PNone \<Rightarrow> Inr None
      | value \<Rightarrow> if is_callable value then Inr (Some value) else Inl config_error)"

section \<open>The retry policy\<close>

datatype backoff = Exponential rat rat bool | Constant rat

record retry_policy =
  allowed_retries :: int
  rp_backoff :: backoff
  rp_retriable :: "exc_class list option"
  rp_abortable :: "exc_class list option"

text \<open>
  \<open>timedelta(seconds=x)\<close>: no value for not-a-number and the infinities, and none from a
  billion days on. (Its rounding to microseconds is not modelled.)
\<close>

fun timedelta :: "pyfloat \<Rightarrow> exn + rat" where
  "timedelta (FFin r) =
     (if \<bar>r\<bar> < 86400 * 1000000000 then Inr r else raise_as (Ext ''OverflowError''))"
| "timedelta FNaN = raise_as (Ext ''ValueError'')"
| "timedelta _ = raise_as (Ext ''OverflowError'')"

definition get_retry_policy ::
    "int \<Rightarrow> pyfloat \<Rightarrow> pyfloat \<Rightarrow> bool \<Rightarrow> string \<Rightarrow> exc_class list option \<Rightarrow> exc_class list option
      \<Rightarrow> exn + retry_policy" where
  "get_retry_policy retries delay max_delay jitter backoff retriable abortable =
     (if backoff \<notin> set BACKOFF_NAMES then Inl config_error
      else rbind
        (if backoff = ''exponential''
         then rbind (timedelta delay) (\<lambda>d.
              rbind (timedelta max_delay) (\<lambda>m. Inr (Exponential d m jitter)))
         else rbind (timedelta delay) (\<lambda>d. Inr (Constant d)))
        (\<lambda>computation. Inr \<lparr>allowed_retries = retries, rp_backoff = computation,
           rp_retriable = retriable, rp_abortable = abortable\<rparr>))"

text \<open>Membership in a frozenset hashes the value first; a list or a mapping has no hash.\<close>

fun hashable :: "pyval \<Rightarrow> bool" where
  "hashable (PList _) = False"
| "hashable (PDict _) = False"
| "hashable (PTuple xs) = list_all hashable xs"
| "hashable _ = True"

record retry_settings =
  rs_retries :: int
  rs_delay :: pyfloat
  rs_max_delay :: pyfloat
  rs_jitter :: bool
  rs_backoff :: string
  rs_retriable :: "exc_class list option"
  rs_abortable :: "exc_class list option"
  rs_on_exhausted :: "pyval option"
  rs_on_failed :: "pyval option"
  rs_on_abort :: "pyval option"

text \<open>\<open>not is_number(r) or r != int(r) or r < 0\<close>, then \<open>int(r)\<close>.\<close>

definition whole_number :: "pyval \<Rightarrow> exn + int" where
  "whole_number v =
     (case as_number v of
        None \<Rightarrow> Inl config_error
      | Some x \<Rightarrow> rbind (int_of_float x) (\<lambda>n.
          if \<not> flt_eq x (FFin (of_int n)) \<or> flt_less x (FFin 0) then Inl config_error
          else Inr n))"

definition backoff_name :: "pyval \<Rightarrow> exn + string" where
  "backoff_name v =
     (if \<not> hashable v then raise_as (Ext ''TypeError'')
      else (case v of PStr s \<Rightarrow> if s \<in> set BACKOFF_NAMES then Inr s else Inl config_error
            | _ \<Rightarrow> Inl config_error))"

definition validated_retry_config :: "pyval \<Rightarrow> exn + retry_settings" where
  "validated_retry_config config =
     rbind (ensure (is_mapping config) config_error) (\<lambda>_.
     rbind (reject_unknown_keys config RETRY_CONFIG_KEYS) (\<lambda>_.
     rbind (case dget config ''allowed_retries'' of
              None \<Rightarrow> Inl config_error | Some v \<Rightarrow> whole_number v) (\<lambda>retries.
     rbind (ensure (dget_or config ''name'' PNone = PNone
                    \<or> is_str (dget_or config ''name'' PNone)) config_error) (\<lambda>_.
     rbind (backoff_name (dget_or config ''backoff'' (PStr CIRCUIT_BREAKER_BACKOFF))) (\<lambda>backoff.
     rbind (validated_number config ''delay'' CIRCUIT_BREAKER_DELAY (FFin 0)) (\<lambda>delay.
     rbind (validated_number config ''max_delay'' CIRCUIT_BREAKER_MAX_DELAY (FFin 0)) (\<lambda>max_delay.
     rbind (validated_bool config ''jitter'' CIRCUIT_BREAKER_JITTER) (\<lambda>jitter.
     rbind (validated_exceptions config ''retriable_exceptions'') (\<lambda>retriable.
     rbind (validated_exceptions config ''abortable_exceptions'') (\<lambda>abortable.
     rbind (validated_callable config ''on_retries_exhausted'') (\<lambda>exhausted.
     rbind (validated_callable config ''on_failed_attempt'') (\<lambda>failed.
     rbind (validated_callable config ''on_abort'') (\<lambda>abort.
     Inr \<lparr>rs_retries = retries, rs_delay = delay, rs_max_delay = max_delay,
          rs_jitter = jitter, rs_backoff = backoff, rs_retriable = retriable,
          rs_abortable = abortable, rs_on_exhausted = exhausted, rs_on_failed = failed,
          rs_on_abort = abort\<rparr>)))))))))))))"

section \<open>The breaker settings\<close>

record breaker_settings =
  bs_maximum_failures :: int
  bs_reset_timeout :: pyfloat
  bs_retry_policy :: "retry_policy option"
  bs_on_exhausted :: "pyval option"
  bs_on_failed :: "pyval option"
  bs_on_abort :: "pyval option"
  bs_clock :: "pyval option"
  bs_sleep :: "pyval option"

text \<open>The last part of \<open>validated_breaker_config\<close>: the nested \<open>retry_config\<close>, when given.\<close>

definition with_retry_config :: "pyval \<Rightarrow> breaker_settings \<Rightarrow> exn + breaker_settings" where
  "with_retry_config config settings =
     (if dget_or config ''retry_config'' PNone = PNone then Inr settings
      else rbind (validated_retry_config (dget_or config ''retry_config'' PNone)) (\<lambda>retry.
           rbind (get_retry_policy (rs_retries retry) (rs_delay retry) (rs_max_delay retry)
                    (rs_jitter retry) (rs_backoff retry) (rs_retriable retry)
                    (rs_abortable retry)) (\<lambda>policy.
           Inr (settings\<lparr>bs_on_exhausted := rs_on_exhausted retry,
                  bs_on_failed := rs_on_failed retry, bs_on_abort := rs_on_abort retry,
                  bs_retry_policy := Some policy\<rparr>))))"

definition validated_breaker_config :: "pyval \<Rightarrow> exn + breaker_settings" where
  "validated_breaker_config config =
     rbind (ensure (is_mapping config) config_error) (\<lambda>_.
     rbind (reject_unknown_keys config BREAKER_CONFIG_KEYS) (\<lambda>_.
     rbind (validated_number config ''maximum_failures''
              (FFin (of_int CIRCUIT_BREAKER_RETRY)) (FFin 0)) (\<lambda>fl.
     rbind (int_of_float fl) (\<lambda>n.
     rbind (ensure (flt_eq fl (FFin (of_int n))) config_error) (\<lambda>_.
     rbind (validated_number config ''timeout'' CIRCUIT_BREAKER_TIMEOUT (FFin 0)) (\<lambda>timeout.
     rbind (validated_callable config ''clock'') (\<lambda>clock.
     rbind (validated_callable config ''sleep'') (\<lambda>sleep.
     with_retry_config config
       \<lparr>bs_maximum_failures = n, bs_reset_timeout = timeout, bs_retry_policy = None,
        bs_on_exhausted = None, bs_on_failed = None, bs_on_abort = None,
        bs_clock = clock, bs_sleep = sleep\<rparr>))))))))"

section \<open>What the validators guarantee\<close>

lemma validated_number_bound:
  "validated_number config key d m = Inr x \<Longrightarrow> \<not> flt_less d m \<Longrightarrow> \<not> flt_less x m"
  by (auto simp: validated_number_def split: option.splits if_splits)

lemma int_of_float_whole:
  assumes "int_of_float x = Inr n" and "flt_eq x (FFin (of_int n))" and "\<not> flt_less x (FFin 0)"
  shows "x = FFin (of_int n) \<and> 0 \<le> n"
  using assms by (cases x) auto

lemma whole_number_nonneg: "whole_number v = Inr n \<Longrightarrow> 0 \<le> n"
  by (auto simp: whole_number_def rbind_eq_Inr split: option.splits if_splits
           dest: int_of_float_whole)

lemma reject_unknown_keys_ok:
  "reject_unknown_keys config allowed = Inr () \<longleftrightarrow>
     set (dict_keys (entries config)) \<subseteq> PStr ` set allowed"
proof -
  have "filter (\<lambda>k. k \<notin> PStr ` set allowed) (dict_keys (entries config)) = []
      \<longleftrightarrow> set (dict_keys (entries config)) \<subseteq> PStr ` set allowed"
    by (auto simp: filter_empty_conv)
  then show ?thesis by (auto simp: reject_unknown_keys_def Let_def)
qed

lemma exception_classes_Inr_iff:
  "exception_classes vs = Inr cs \<longleftrightarrow> vs = map PExcClass cs"
  by (induction vs arbitrary: cs rule: exception_classes.induct)
     (auto simp: rbind_eq_Inr Cons_eq_map_conv)

lemma validated_retry_config_retries:
  "validated_retry_config config = Inr s \<Longrightarrow> 0 \<le> rs_retries s"
  by (auto simp: validated_retry_config_def rbind_eq_Inr split: option.splits
           intro: whole_number_nonneg)

lemma validated_retry_config_backoff:
  "validated_retry_config config = Inr s \<Longrightarrow> rs_backoff s \<in> set BACKOFF_NAMES"
  by (auto simp: validated_retry_config_def rbind_eq_Inr backoff_name_def
           split: if_splits pyval.splits)

lemma with_retry_config_frame:
  "with_retry_config config s = Inr t \<Longrightarrow>
     bs_maximum_failures t = bs_maximum_failures s \<and> bs_reset_timeout t = bs_reset_timeout s"
  by (auto simp: with_retry_config_def rbind_eq_Inr split: if_splits)

lemma get_retry_policy_retries:
  "get_retry_policy n d m j b r a = Inr p \<Longrightarrow> allowed_retries p = n"
  by (auto simp: get_retry_policy_def rbind_eq_Inr split: if_splits)

lemma with_retry_config_policy:
  assumes "with_retry_config config s = Inr t" and "bs_retry_policy s = None"
    and "bs_retry_policy t = Some p"
  shows "0 \<le> allowed_retries p"
  using assms
  by (auto simp: with_retry_config_def rbind_eq_Inr get_retry_policy_retries
           intro: validated_retry_config_retries split: if_splits)

lemma validated_breaker_config_keys:
  "validated_breaker_config config = Inr s \<Longrightarrow>
     is_mapping config \<and> set (dict_keys (entries config)) \<subseteq> PStr ` set BREAKER_CONFIG_KEYS"
proof -
  assume a: "validated_breaker_config config = Inr s"
  then have "is_mapping config" and "reject_unknown_keys config BREAKER_CONFIG_KEYS = Inr ()"
    by (auto simp: validated_breaker_config_def rbind_eq_Inr ensure_eq_Inr)
  then show ?thesis by (simp only: reject_unknown_keys_ok simp_thms)
qed

lemma validated_breaker_config_bounds:
  assumes "validated_breaker_config config = Inr s"
  shows "0 \<le> bs_maximum_failures s \<and> \<not> flt_less (bs_reset_timeout s) (FFin 0)"
proof -
  from assms obtain fl n timeout s0 where
      fl: "validated_number config ''maximum_failures''
             (FFin (of_int CIRCUIT_BREAKER_RETRY)) (FFin 0) = Inr fl"
      and n: "int_of_float fl = Inr n" "flt_eq fl (FFin (of_int n))"
      and tm: "validated_number config ''timeout'' CIRCUIT_BREAKER_TIMEOUT (FFin 0) = Inr timeout"
      and s: "with_retry_config config s0 = Inr s"
      and s0: "bs_maximum_failures s0 = n" "bs_reset_timeout s0 = timeout"
    unfolding validated_breaker_config_def rbind_eq_Inr ensure_eq_Inr by fastforce
  have "\<not> flt_less fl (FFin 0)"
    using validated_number_bound [OF fl] by (simp add: CIRCUIT_BREAKER_RETRY_def)
  then have "0 \<le> n" using int_of_float_whole [OF n] by blast
  moreover have "\<not> flt_less timeout (FFin 0)"
    using validated_number_bound [OF tm] by (simp add: CIRCUIT_BREAKER_TIMEOUT_def)
  ultimately show ?thesis
    using with_retry_config_frame [OF s] s0 by simp
qed

end
