(* ===== verification/Breaker.thy ===== *)
theory Breaker
  imports Breaker_Config
begin

text \<open>
  The state machine and the retry loop of \<open>CircuitBreakerHelper\<close>
  (\<open>helpers/internal/circuit_breaker_helper.py\<close>). One method is one function on the
  breaker's state; a reading of the injected clock is an argument. The coroutine \<open>run\<close> is
  cut at its two awaits (the call and the backoff sleep), because those are the points at
  which another coroutine sharing the breaker can run:
  \<^item> \<open>begin_attempt\<close>: from the head of the loop to the await of the call, or the refusal;
  \<^item> \<open>finish_call\<close>: from the outcome of the call to the sleep, or to the end of the loop;
  \<^item> \<open>finish_sleep\<close>: from the end of the sleep through the \<open>finally\<close> clause and the head of
    the loop to the next await.
\<close>

section \<open>State\<close>

datatype breaker_state = Closed | Open | HalfOpen

record breaker =
  maximum_failures :: int
  reset_timeout :: pyfloat
  br_policy :: "retry_policy option"
  on_retries_exhausted :: "pyval option"
  on_failed_attempt :: "pyval option"
  on_abort :: "pyval option"
  clock_of :: pyval
  sleep_of :: pyval
  br_state :: breaker_state
  failures :: int
  opened_at :: rat
  trial_taken :: bool

definition new_breaker ::
    "int \<Rightarrow> pyfloat \<Rightarrow> retry_policy option \<Rightarrow> pyval option \<Rightarrow> pyval option \<Rightarrow> pyval option
      \<Rightarrow> pyval \<Rightarrow> pyval \<Rightarrow> breaker" where
  "new_breaker maximum reset policy exhausted failed abort clock sleep =
     \<lparr>maximum_failures = maximum, reset_timeout = reset, br_policy = policy,
      on_retries_exhausted = exhausted, on_failed_attempt = failed, on_abort = abort,
      clock_of = clock, sleep_of = sleep,
      br_state = Closed, failures = 0, opened_at = 0, trial_taken = False\<rparr>"

section \<open>Transitions\<close>

definition claim_trial :: "breaker \<Rightarrow> bool \<times> breaker" where
  "claim_trial b = (if trial_taken b then (False, b) else (True, b\<lparr>trial_taken := True\<rparr>))"

definition allows_execution :: "rat \<Rightarrow> breaker \<Rightarrow> bool \<times> breaker" where
  "allows_execution now b =
     (case br_state b of
        Closed \<Rightarrow> (True, b)
      | Open \<Rightarrow>
          if flt_less (FFin (now - opened_at b)) (reset_timeout b) then (False, b)
          else claim_trial (b\<lparr>br_state := HalfOpen, trial_taken := False\<rparr>)
      | HalfOpen \<Rightarrow> claim_trial b)"

definition record_success :: "breaker \<Rightarrow> breaker" where
  "record_success b = b\<lparr>br_state := Closed, failures := 0\<rparr>"

definition open_circuit :: "rat \<Rightarrow> breaker \<Rightarrow> breaker" where
  "open_circuit now b = b\<lparr>br_state := Open, opened_at := now, failures := 0\<rparr>"

definition record_failure :: "rat \<Rightarrow> breaker \<Rightarrow> breaker" where
  "record_failure now b =
     (if br_state b = HalfOpen then open_circuit now b
      else let b' = b\<lparr>failures := failures b + 1\<rparr>
           in if failures b' \<ge> maximum_failures b' then open_circuit now b' else b')"

text \<open>The \<open>finally\<close> clause of one attempt.\<close>

definition release_trial :: "bool \<Rightarrow> breaker \<Rightarrow> breaker" where
  "release_trial trialling b = (if trialling then b\<lparr>trial_taken := False\<rparr> else b)"

section \<open>Classification\<close>

definition RETRIABLE_FAILURES :: "exc_class list" where
  "RETRIABLE_FAILURES =
    [AsyncGatewayError, Ext ''asyncio.TimeoutError'', Ext ''OSError'',
     Ext ''aiohttp.ClientError'', Ext ''asyncssh.Error'', Ext ''aioftp.AIOFTPException'']"

definition DEFAULT_ABORTABLE_EXCEPTIONS :: "exc_class list" where
  "DEFAULT_ABORTABLE_EXCEPTIONS =
    [AbortableServiceError, GrpcAbortableStatusFailure, ConfigurationError,
     ResponseTooLargeError, LocalWriteError, PathContainmentError,
     Ext ''aioftp.errors.InvalidCommand'']"

text \<open>
  What the loop asks of \<open>pyfailsafe\<close>: \<open>RetryPolicy.should_abort\<close>,
  \<open>RetryPolicy._is_retriable_exception\<close> and \<open>Backoff.for_attempt\<close>. They are parameters.
\<close>

record failsafe =
  fs_should_abort :: "retry_policy \<Rightarrow> exc_obj \<Rightarrow> bool"
  fs_is_retriable :: "retry_policy \<Rightarrow> exc_obj \<Rightarrow> bool"
  fs_for_attempt :: "backoff \<Rightarrow> int \<Rightarrow> rat"

definition should_abort :: "failsafe \<Rightarrow> breaker \<Rightarrow> exc_obj \<Rightarrow> bool" where
  "should_abort fs b e =
     (if is_instance (ex_mro e) DEFAULT_ABORTABLE_EXCEPTIONS then True
      else (case br_policy b of None \<Rightarrow> False | Some p \<Rightarrow> fs_should_abort fs p e))"

definition should_retry :: "failsafe \<Rightarrow> breaker \<Rightarrow> int \<Rightarrow> exc_obj \<Rightarrow> bool" where
  "should_retry fs b attempts e =
     (case br_policy b of None \<Rightarrow> False
      | Some p \<Rightarrow> if attempts > allowed_retries p then False else fs_is_retriable fs p e)"

definition backoff_for :: "failsafe \<Rightarrow> breaker \<Rightarrow> int \<Rightarrow> rat" where
  "backoff_for fs b attempts =
     (case br_policy b of None \<Rightarrow> 0 | Some p \<Rightarrow> fs_for_attempt fs (rp_backoff p) attempts)"

section \<open>The retry loop\<close>

datatype 'a outcome = Returns 'a | Raises exc_obj

datatype 'a final =
    Returned 'a
  | Propagated exc_obj
  | CircuitOpened "exc_obj option"
  | Exhausted exc_obj

text \<open>
  Where the coroutine is: not yet started or between attempts, awaiting the call, awaiting
  the backoff sleep, or ended. \<open>attempts\<close>, \<open>recent\<close> and \<open>trialling\<close> are its locals.
\<close>

datatype 'a pc =
    Ready int "exc_obj option"
  | InCall int "exc_obj option" bool
  | InSleep int exc_obj bool rat
  | Done "'a final"

text \<open>
  \<open>_invoke\<close>: \<open>cb\<close> tells what calling a callable raises, \<open>None\<close> when it returns.
\<close>

definition invoke :: "(pyval \<Rightarrow> exc_obj option) \<Rightarrow> pyval option \<Rightarrow> exc_obj option" where
  "invoke cb callback = (case callback of None \<Rightarrow> None | Some f \<Rightarrow> cb f)"

definition begin_attempt ::
    "rat \<Rightarrow> breaker \<Rightarrow> int \<Rightarrow> exc_obj option \<Rightarrow> breaker \<times> 'a pc" where
  "begin_attempt now b attempts recent =
     (let (allowed, b') = allows_execution now b
      in if allowed then (b', InCall (attempts + 1) recent (br_state b' = HalfOpen))
         else (b', Done (CircuitOpened recent)))"

definition finish_call ::
    "failsafe \<Rightarrow> (pyval \<Rightarrow> exc_obj option) \<Rightarrow> rat \<Rightarrow> 'a outcome \<Rightarrow> int \<Rightarrow> bool \<Rightarrow> breaker
      \<Rightarrow> breaker \<times> 'a pc" where
  "finish_call fs cb now out attempts trialling b =
     (case out of
        Returns x \<Rightarrow> (release_trial trialling (record_success b), Done (Returned x))
      | Raises e \<Rightarrow>
          if \<not> is_instance (ex_mro e) RETRIABLE_FAILURES
          then (release_trial trialling b, Done (Propagated e))
          else if should_abort fs b e
          then (release_trial trialling b,
                Done (Propagated (case invoke cb (on_abort b) of Some e' \<Rightarrow> e' | None \<Rightarrow> e)))
          else
            let b' = record_failure now b in
            (case invoke cb (on_failed_attempt b') of
               Some e' \<Rightarrow> (release_trial trialling b', Done (Propagated e'))
             | None \<Rightarrow>
                 if \<not> should_retry fs b' attempts e
                 then (release_trial trialling b',
                       Done (case invoke cb (on_retries_exhausted b') of
                               Some e' \<Rightarrow> Propagated e' | None \<Rightarrow> Exhausted e))
                 else (b', InSleep attempts e trialling (backoff_for fs b' attempts))))"

definition finish_sleep ::
    "rat \<Rightarrow> exc_obj option \<Rightarrow> int \<Rightarrow> exc_obj \<Rightarrow> bool \<Rightarrow> breaker \<Rightarrow> breaker \<times> 'a pc" where
  "finish_sleep now interrupted attempts recent trialling b =
     (let b' = release_trial trialling b
      in case interrupted of
           Some e \<Rightarrow> (b', Done (Propagated e))
         | None \<Rightarrow> begin_attempt now b' attempts (Some recent))"

text \<open>
  \<open>run\<close> with nothing interleaved: each entry of the script is what the environment answers
  during one attempt (the clock at the loop head, the call's outcome, the clock when a
  failure is recorded, the callbacks, the sleep). \<open>None\<close>: the script ended first.
\<close>

record 'a turn =
  t_enter :: rat
  t_outcome :: "'a outcome"
  t_failed :: rat
  t_callbacks :: "pyval \<Rightarrow> exc_obj option"
  t_sleep :: "exc_obj option"

fun run_alone ::
    "failsafe \<Rightarrow> breaker \<Rightarrow> int \<Rightarrow> exc_obj option \<Rightarrow> 'a turn list \<Rightarrow> (breaker \<times> 'a final) option"
where
  "run_alone fs b attempts recent [] = None"
| "run_alone fs b attempts recent (t # ts) =
     (case begin_attempt (t_enter t) b attempts recent of
        (b1, InCall n r trialling) \<Rightarrow>
          (case finish_call fs (t_callbacks t) (t_failed t) (t_outcome t) n trialling b1 of
             (b2, InSleep m e tr d) \<Rightarrow>
               (case t_sleep t of
                  Some x \<Rightarrow> Some (release_trial tr b2, Propagated x)
                | None \<Rightarrow> run_alone fs (release_trial tr b2) m (Some e) ts)
           | (b2, Done f) \<Rightarrow> Some (b2, f)
           | _ \<Rightarrow> None)
      | (b1, Done f) \<Rightarrow> Some (b1, f)
      | _ \<Rightarrow> None)"


section \<open>Facts shared by the proofs\<close>

named_theorems breaker_defs \<open>definitions of the transitions\<close>

lemmas [breaker_defs] =
  claim_trial_def allows_execution_def record_success_def open_circuit_def
  record_failure_def release_trial_def

text \<open>What no method writes: the settings of the breaker.\<close>

definition settings_of ::
    "breaker \<Rightarrow> int \<times> pyfloat \<times> retry_policy option \<times> pyval option \<times> pyval option \<times> pyval option
      \<times> pyval \<times> pyval" where
  "settings_of b = (maximum_failures b, reset_timeout b, br_policy b, on_retries_exhausted b,
     on_failed_attempt b, on_abort b, clock_of b, sleep_of b)"

lemma settings_transitions [simp]:
  "settings_of (snd (allows_execution now b)) = settings_of b"
  "settings_of (record_success b) = settings_of b"
  "settings_of (record_failure now b) = settings_of b"
  "settings_of (release_trial t b) = settings_of b"
  by (auto simp: settings_of_def breaker_defs Let_def split: breaker_state.splits)

lemma begin_attempt_fst: "begin_attempt now b n r = (b', p) \<Longrightarrow> b' = snd (allows_execution now b)"
  by (cases "allows_execution now b") (auto simp: begin_attempt_def split: if_splits)

lemma settings_begin: "begin_attempt now b n r = (b', p) \<Longrightarrow> settings_of b' = settings_of b"
  by (drule begin_attempt_fst) simp

lemma settings_finish_call:
  "finish_call fs cb now out n t b = (b', p) \<Longrightarrow> settings_of b' = settings_of b"
  by (auto simp: finish_call_def Let_def split: outcome.splits option.splits if_splits)

lemma settings_finish_sleep:
  "finish_sleep now i n e t b = (b', p) \<Longrightarrow> settings_of b' = settings_of b"
  by (auto simp: finish_sleep_def Let_def split: option.splits dest: settings_begin)

lemma settings_policy: "settings_of b = settings_of c \<Longrightarrow> br_policy b = br_policy c"
  by (simp add: settings_of_def)

text \<open>The failure count stays below the threshold; a zero threshold counts as one.\<close>

definition wf_breaker :: "breaker \<Rightarrow> bool" where
  "wf_breaker b \<longleftrightarrow> 0 \<le> failures b \<and> failures b < max 1 (maximum_failures b)"

lemma wf_new_breaker [simp]: "wf_breaker (new_breaker m r p x f a c s)"
  by (simp add: wf_breaker_def new_breaker_def)

lemma wf_transitions [simp]:
  "wf_breaker b \<Longrightarrow> wf_breaker (snd (allows_execution now b))"
  "wf_breaker (record_success b)"
  "wf_breaker b \<Longrightarrow> wf_breaker (record_failure now b)"
  "wf_breaker b \<Longrightarrow> wf_breaker (release_trial t b)"
  by (auto simp: wf_breaker_def breaker_defs Let_def split: breaker_state.splits)

lemma wf_begin: "begin_attempt now b n r = (b', p) \<Longrightarrow> wf_breaker b \<Longrightarrow> wf_breaker b'"
  by (drule begin_attempt_fst) simp

lemma wf_finish_call:
  "finish_call fs cb now out n t b = (b', p) \<Longrightarrow> wf_breaker b \<Longrightarrow> wf_breaker b'"
  by (auto simp: finish_call_def Let_def split: outcome.splits option.splits if_splits)

lemma wf_finish_sleep:
  "finish_sleep now i n e t b = (b', p) \<Longrightarrow> wf_breaker b \<Longrightarrow> wf_breaker b'"
  by (auto simp: finish_sleep_def Let_def split: option.splits dest: wf_begin)

text \<open>The retries a breaker's policy allows.\<close>

definition budget :: "breaker \<Rightarrow> int" where
  "budget b = (case br_policy b of None \<Rightarrow> 0 | Some p \<Rightarrow> allowed_retries p)"

lemma budget_settings: "settings_of b = settings_of c \<Longrightarrow> budget b = budget c"
  by (drule settings_policy) (simp add: budget_def)

lemma should_retry_budget: "should_retry fs b n e \<Longrightarrow> n \<le> budget b"
  by (auto simp: should_retry_def budget_def split: option.splits if_splits)

lemma begin_attempt_cases:
  "begin_attempt now b n r = (b', p) \<Longrightarrow>
     (p = InCall (n + 1) r (br_state b' = HalfOpen)) \<or> p = Done (CircuitOpened r)"
  by (auto simp: begin_attempt_def Let_def split: prod.splits if_splits)

lemma finish_call_cases:
  assumes "finish_call fs cb now out n t b = (b', p)"
  shows "(\<exists>e. p = InSleep n e t (backoff_for fs b' n) \<and> n \<le> budget b) \<or> (\<exists>f. p = Done f)"
proof -
  have "budget (record_failure now b) = budget b"
    by (rule budget_settings) simp
  then show ?thesis
    using assms
    by (auto simp: finish_call_def Let_def split: outcome.splits option.splits if_splits
             dest: should_retry_budget)
qed

text \<open>Only claiming and releasing touch the trial flag, and only a half-open circuit claims.\<close>

lemma trial_record [simp]:
  "trial_taken (record_success b) = trial_taken b"
  "trial_taken (record_failure now b) = trial_taken b"
  "trial_taken (release_trial t b) = (trial_taken b \<and> \<not> t)"
  by (auto simp: breaker_defs Let_def)

lemma trial_begin:
  assumes "begin_attempt now b n r = (b', p)"
  shows "p = InCall (n + 1) r True \<and> br_state b' = HalfOpen \<and> trial_taken b'
       \<or> p = InCall (n + 1) r False \<and> b' = b \<and> br_state b = Closed
       \<or> p = Done (CircuitOpened r) \<and> b' = b"
  using assms
  by (auto simp: begin_attempt_def allows_execution_def claim_trial_def Let_def
           split: breaker_state.splits if_splits)

lemma trial_finish_call:
  assumes "finish_call fs cb now out n t b = (b', p)"
  shows "(\<exists>e d. p = InSleep n e t d) \<and> trial_taken b' = trial_taken b
       \<or> (\<exists>f. p = Done f) \<and> trial_taken b' = (trial_taken b \<and> \<not> t)"
  using assms
  by (auto simp: finish_call_def Let_def split: outcome.splits option.splits if_splits)

section \<open>Admission\<close>

text \<open>Several coroutines entering in turn, none of them having finished.\<close>

fun admit_all :: "rat list \<Rightarrow> breaker \<Rightarrow> bool list \<times> breaker" where
  "admit_all [] b = ([], b)"
| "admit_all (now # nows) b =
     (let (a, b') = allows_execution now b; (as, b'') = admit_all nows b'
      in (a # as, b''))"

lemma admit_all_claimed:
  assumes "br_state b = HalfOpen" and "trial_taken b"
  shows "admit_all nows b = (replicate (length nows) False, b)"
  using assms by (induction nows) (simp_all add: allows_execution_def claim_trial_def)

lemma admit_all_not_closed:
  assumes "br_state b \<noteq> Closed"
  shows "length (filter (\<lambda>a. a) (fst (admit_all nows b))) \<le> 1"
  using assms
proof (induction nows arbitrary: b)
  case Nil
  then show ?case by simp
next
  case (Cons now nows)
  obtain a b' where step: "allows_execution now b = (a, b')"
    by (cases "allows_execution now b") auto
  show ?case
  proof (cases a)
    case True
    then have "br_state b' = HalfOpen \<and> trial_taken b'"
      using step Cons.prems
      by (auto simp: allows_execution_def claim_trial_def split: breaker_state.splits if_splits)
    then show ?thesis using step True by (simp add: admit_all_claimed)
  next
    case False
    have "br_state b' \<noteq> Closed"
      using step Cons.prems
      by (auto simp: allows_execution_def claim_trial_def split: breaker_state.splits if_splits)
    then have "length (filter (\<lambda>a. a) (fst (admit_all nows b'))) \<le> 1" by (rule Cons.IH)
    then show ?thesis using step False by (auto split: prod.splits)
  qed
qed

section \<open>Counting\<close>

definition fail_times :: "rat list \<Rightarrow> breaker \<Rightarrow> breaker" where
  "fail_times nows b = fold record_failure nows b"

lemma fail_times_below:
  assumes "br_state b = Closed" and "failures b + int (length nows) < max 1 (maximum_failures b)"
    and "0 \<le> failures b"
  shows "fail_times nows b = b\<lparr>failures := failures b + int (length nows)\<rparr>"
  using assms
proof (induction nows arbitrary: b)
  case Nil
  then show ?case by (simp add: fail_times_def)
next
  case (Cons now nows)
  have "record_failure now b = b\<lparr>failures := failures b + 1\<rparr>"
    using Cons.prems by (simp add: record_failure_def Let_def)
  then have "fail_times (now # nows) b = fail_times nows (b\<lparr>failures := failures b + 1\<rparr>)"
    by (simp add: fail_times_def)
  also have "\<dots> = (b\<lparr>failures := failures b + 1\<rparr>)
      \<lparr>failures := failures (b\<lparr>failures := failures b + 1\<rparr>) + int (length nows)\<rparr>"
    using Cons.prems by (intro Cons.IH) simp_all
  also have "\<dots> = b\<lparr>failures := failures b + int (length (now # nows))\<rparr>"
    by (simp add: add.assoc add.commute)
  finally show ?case .
qed

section \<open>An undisturbed run ends\<close>

lemma run_alone_step:
  fixes t :: "'a turn"
  assumes "run_alone fs b n r (t # ts) = None" and "0 \<le> budget b"
  obtains b' e where "settings_of b' = settings_of b" and "n + 1 \<le> budget b"
    and "run_alone fs b' (n + 1) (Some e) ts = None"
proof -
  obtain b1 and p :: "'a pc" where beg: "begin_attempt (t_enter t) b n r = (b1, p)"
    by (cases "begin_attempt (t_enter t) b n r :: breaker \<times> 'a pc") auto
  from assms(1) beg have p: "p = InCall (n + 1) r (br_state b1 = HalfOpen)"
    using begin_attempt_cases [OF beg] by auto
  obtain b2 q where fin: "finish_call fs (t_callbacks t) (t_failed t) (t_outcome t) (n + 1)
      (br_state b1 = HalfOpen) b1 = (b2, q)"
    by (cases "finish_call fs (t_callbacks t) (t_failed t) (t_outcome t) (n + 1)
      (br_state b1 = HalfOpen) b1") auto
  have set: "settings_of b1 = settings_of b" "settings_of b2 = settings_of b1"
    using settings_begin [OF beg] settings_finish_call [OF fin] by auto
  from assms(1) beg p fin obtain e where
      q: "q = InSleep (n + 1) e (br_state b1 = HalfOpen) (backoff_for fs b2 (n + 1))"
      and le: "n + 1 \<le> budget b1" and "t_sleep t = None"
    using finish_call_cases [OF fin] by (auto split: option.splits)
  then have "run_alone fs (release_trial (br_state b1 = HalfOpen) b2) (n + 1) (Some e) ts = None"
    using assms(1) beg p fin by simp
  then show ?thesis
    using that [of "release_trial (br_state b1 = HalfOpen) b2" e] set le
      budget_settings [OF set(1)] by simp
qed

lemma run_alone_ends:
  assumes "0 \<le> n" and "0 \<le> budget b" and "n \<le> budget b"
    and "budget b - n < int (length ts)"
  shows "run_alone fs b n r ts \<noteq> None"
  using assms
proof (induction ts arbitrary: b n r)
  case Nil
  then show ?case by simp
next
  case (Cons t ts)
  show ?case
  proof
    assume none: "run_alone fs b n r (t # ts) = None"
    then obtain b' e where *: "settings_of b' = settings_of b" "n + 1 \<le> budget b"
        "run_alone fs b' (n + 1) (Some e) ts = None"
      using Cons.prems(2) by (rule run_alone_step)
    have "budget b' = budget b" by (rule budget_settings) (rule *(1))
    then have "run_alone fs b' (n + 1) (Some e) ts \<noteq> None"
      using Cons.prems *(2) by (intro Cons.IH) auto
    with *(3) show False by simp
  qed
qed


section \<open>Properties\<close>

text \<open>
  No thundering herd: when a circuit is not closed, any number of coroutines asking for
  admission in turn, at any clock readings and before any of them has finished, get at most
  one permission between them.
\<close>

theorem half_open_admits_one:
  assumes "br_state b \<noteq> Closed"
  shows "length (filter (\<lambda>a. a) (fst (admit_all nows b))) \<le> 1"
  using assms by (rule admit_all_not_closed)

theorem half_open_admits_one_witness:
  "length (filter (\<lambda>a. a) (fst (admit_all [59, 60, 60, 61]
     (open_circuit 0 (new_breaker 5 (FFin 60) None None None None PNone PNone))))) \<le> 1
   \<and> fst (admit_all [59, 60, 60, 61]
     (open_circuit 0 (new_breaker 5 (FFin 60) None None None None PNone PNone)))
     = [False, True, False, False]"
  using half_open_admits_one
    [of "open_circuit 0 (new_breaker 5 (FFin 60) None None None None PNone PNone)"
        "[59, 60, 60, 61]"]
  by (simp add: open_circuit_def) code_simp

text \<open>
  An abortable exception is never counted: whatever the policy (or without one), a call
  that ends in one of the library's own refusals leaves the circuit's state, failure count
  and opening time as they were, ends the loop, and reaches the caller as itself unless the
  abort callback raises.
\<close>

theorem refusal_is_not_counted:
  assumes "is_instance (ex_mro e) DEFAULT_ABORTABLE_EXCEPTIONS"
    and "finish_call fs cb now (Raises e) n t b = (b', p)"
  shows "br_state b' = br_state b \<and> failures b' = failures b \<and> opened_at b' = opened_at b
    \<and> (invoke cb (on_abort b) = None \<longrightarrow> p = Done (Propagated e))
    \<and> (t \<longrightarrow> \<not> trial_taken b')"
  using assms
  by (auto simp: finish_call_def should_abort_def release_trial_def split: if_splits)

theorem refusal_is_not_counted_witness:
  "fst (finish_call \<lparr>fs_should_abort = (\<lambda>_ _. False), fs_is_retriable = (\<lambda>_ _. True),
      fs_for_attempt = (\<lambda>_ _. 0)\<rparr> (\<lambda>_. None) 7
      (Raises (new_gateway_error UnsupportedVerbError ''verb'' None)) 1 False
      (new_breaker 1 (FFin 60) None None None None PNone PNone) :: breaker \<times> pyval pc)
    = new_breaker 1 (FFin 60) None None None None PNone PNone"
proof -
  let ?e = "new_gateway_error UnsupportedVerbError ''verb'' None"
  let ?b = "new_breaker 1 (FFin 60) None None None None PNone PNone"
  let ?fs = "\<lparr>fs_should_abort = (\<lambda>_ _. False), fs_is_retriable = (\<lambda>_ _. True),
    fs_for_attempt = (\<lambda>_ _. 0)\<rparr>"
  have i: "is_instance (ex_mro ?e) DEFAULT_ABORTABLE_EXCEPTIONS" by code_simp
  obtain b' and p :: "pyval pc" where f: "finish_call ?fs (\<lambda>_. None) 7 (Raises ?e) 1 False ?b = (b', p)"
    by fastforce
  have "settings_of b' = settings_of ?b" by (rule settings_finish_call [OF f])
  moreover have "trial_taken b' = trial_taken ?b"
    using trial_finish_call [OF f] by auto
  ultimately have "b' = ?b"
    using refusal_is_not_counted [OF i f] by (simp add: settings_of_def)
  then show ?thesis using f by simp
qed

text \<open>
  The circuit opens exactly at its threshold: from a fresh breaker, counted failures with
  no success between them leave the circuit closed and counted while there are fewer than
  \<open>maximum_failures\<close> of them, and that many (one, for a threshold of zero) open it at the time
  of the last, with the count reset.
\<close>

theorem opens_at_threshold:
  assumes b_def: "b = new_breaker m r p x f a c s"
  shows "(int (length nows) < max 1 m \<longrightarrow>
           fail_times nows b = b\<lparr>failures := int (length nows)\<rparr>) \<and>
         (int (length nows) + 1 = max 1 m \<longrightarrow>
           fail_times (nows @ [now]) b = b\<lparr>br_state := Open, opened_at := now, failures := 0\<rparr>)"
proof -
  have below: "fail_times nows b = b\<lparr>failures := int (length nows)\<rparr>"
    if "int (length nows) < max 1 m"
    using fail_times_below [of b nows] that by (simp add: b_def new_breaker_def)
  have "fail_times (nows @ [now]) b = b\<lparr>br_state := Open, opened_at := now, failures := 0\<rparr>"
    if "int (length nows) + 1 = max 1 m"
    using below that
    by (simp add: fail_times_def record_failure_def open_circuit_def Let_def b_def new_breaker_def)
  then show ?thesis using below by blast
qed

theorem opens_at_threshold_witness:
  "fail_times [1, 2, 3] (new_breaker 3 (FFin 60) None None None None PNone PNone)
   = (new_breaker 3 (FFin 60) None None None None PNone PNone)
       \<lparr>br_state := Open, opened_at := 3, failures := 0\<rparr>"
  using opens_at_threshold [OF refl, of "[1, 2]" 3 "FFin 60" None None None None PNone PNone 3]
  by simp

text \<open>
  The retry loop ends: an undisturbed \<open>run\<close> needs at most \<open>allowed_retries + 1\<close> calls (one
  without a policy) to return, raise or be refused, whatever the environment answers.
\<close>

theorem run_returns:
  assumes "\<forall>q. br_policy b = Some q \<longrightarrow> 0 \<le> allowed_retries q"
    and "length ts = Suc (nat (budget b))"
  shows "\<exists>b' f. run_alone fs b 0 None ts = Some (b', f)"
proof -
  have "0 \<le> budget b" using assms(1) by (simp add: budget_def split: option.split)
  then have "run_alone fs b 0 None ts \<noteq> None"
    using assms(2) by (intro run_alone_ends) auto
  then show ?thesis by auto
qed

theorem run_returns_witness:
  "\<exists>b' f. run_alone \<lparr>fs_should_abort = (\<lambda>_ _. False), fs_is_retriable = (\<lambda>_ _. True),
      fs_for_attempt = (\<lambda>_ _. 0)\<rparr> (new_breaker 5 (FFin 60) None None None None PNone PNone) 0 None
      [\<lparr>t_enter = 0, t_outcome = Returns (42 :: int), t_failed = 0, t_callbacks = (\<lambda>_. None),
        t_sleep = None\<rparr>] = Some (b', f)"
  by (rule run_returns) (simp_all add: new_breaker_def budget_def)

end
