(* ===== verification/Breaker_System.thy ===== *)
theory Breaker_System
  imports Breaker
begin

text \<open>
  Any number of coroutines in \<open>run\<close> on one shared breaker. A step is one coroutine moving
  from one await to the next, atomically, as on one event loop; which coroutine moves and
  what the environment answers is open. The clock never runs backwards.
\<close>

section \<open>Steps\<close>

record 'a system =
  sys_brk :: breaker
  sys_clock :: rat
  sys_tasks :: "nat \<Rightarrow> 'a pc"

definition init_system :: "breaker \<Rightarrow> 'a system" where
  "init_system b = \<lparr>sys_brk = b, sys_clock = 0, sys_tasks = (\<lambda>_. Ready 0 None)\<rparr>"

definition update_system :: "'a system \<Rightarrow> nat \<Rightarrow> rat \<Rightarrow> breaker \<times> 'a pc \<Rightarrow> 'a system" where
  "update_system s i now r =
     s\<lparr>sys_brk := fst r, sys_clock := now, sys_tasks := (sys_tasks s)(i := snd r)\<rparr>"

inductive sys_step :: "failsafe \<Rightarrow> nat \<Rightarrow> 'a system \<Rightarrow> 'a system \<Rightarrow> bool" for fs where
  enter: "sys_tasks s i = Ready n r \<Longrightarrow> sys_clock s \<le> now \<Longrightarrow>
     sys_step fs i s (update_system s i now (begin_attempt now (sys_brk s) n r))"
| answer: "sys_tasks s i = InCall n r t \<Longrightarrow> sys_clock s \<le> now \<Longrightarrow>
     sys_step fs i s (update_system s i now (finish_call fs cb now out n t (sys_brk s)))"
| wake: "sys_tasks s i = InSleep n e t d \<Longrightarrow> sys_clock s \<le> now \<Longrightarrow>
     sys_step fs i s (update_system s i now (finish_sleep now intr n e t (sys_brk s)))"

inductive sys_reachable :: "failsafe \<Rightarrow> breaker \<Rightarrow> 'a system \<Rightarrow> bool" for fs b where
  start: "sys_reachable fs b (init_system b)"
| move: "sys_reachable fs b s \<Longrightarrow> sys_step fs i s s' \<Longrightarrow> sys_reachable fs b s'"

text \<open>A coroutine that holds the half-open trial: its attempt began on a half-open circuit.\<close>

fun in_trial :: "'a pc \<Rightarrow> bool" where
  "in_trial (InCall _ _ t) = t"
| "in_trial (InSleep _ _ t _) = t"
| "in_trial _ = False"

text \<open>
  A quiet step: if it moves the circuit from open to half-open, no other coroutine is still
  inside an earlier trial.
\<close>

definition quiet_step :: "nat \<Rightarrow> 'a system \<Rightarrow> 'a system \<Rightarrow> bool" where
  "quiet_step i s s' \<longleftrightarrow>
     (br_state (sys_brk s) = Open \<and> br_state (sys_brk s') = HalfOpen
        \<longrightarrow> (\<forall>j. j \<noteq> i \<longrightarrow> \<not> in_trial (sys_tasks s j)))"

inductive quiet_reachable :: "failsafe \<Rightarrow> breaker \<Rightarrow> 'a system \<Rightarrow> bool" for fs b where
  start: "quiet_reachable fs b (init_system b)"
| move: "quiet_reachable fs b s \<Longrightarrow> sys_step fs i s s' \<Longrightarrow> quiet_step i s s'
     \<Longrightarrow> quiet_reachable fs b s'"

section \<open>Simplification\<close>

lemma update_system_simps [simp]:
  "sys_brk (update_system s i now r) = fst r"
  "sys_clock (update_system s i now r) = now"
  "sys_tasks (update_system s i now r) = (sys_tasks s)(i := snd r)"
  by (simp_all add: update_system_def)

lemma init_system_simps [simp]:
  "sys_brk (init_system b) = b"
  "sys_clock (init_system b) = 0"
  "sys_tasks (init_system b) = (\<lambda>_. Ready 0 None)"
  by (simp_all add: init_system_def)

section \<open>Settings and the failure count\<close>

lemma sys_step_brk:
  assumes "sys_step fs i s s'"
  shows "settings_of (sys_brk s') = settings_of (sys_brk s)
    \<and> (wf_breaker (sys_brk s) \<longrightarrow> wf_breaker (sys_brk s'))"
  using assms
proof cases
  case (enter n r now)
  obtain b' p where "begin_attempt now (sys_brk s) n r = (b', p :: 'a pc)" by fastforce
  then show ?thesis using enter by (auto dest: settings_begin wf_begin)
next
  case (answer n r t now cb out)
  obtain b' p where "finish_call fs cb now out n t (sys_brk s) = (b', p :: 'a pc)" by fastforce
  then show ?thesis using answer by (auto dest: settings_finish_call wf_finish_call)
next
  case (wake n e t d now intr)
  obtain b' p where "finish_sleep now intr n e t (sys_brk s) = (b', p :: 'a pc)" by fastforce
  then show ?thesis using wake by (auto dest: settings_finish_sleep wf_finish_sleep)
qed

lemma reachable_brk:
  "sys_reachable fs b s \<Longrightarrow>
     settings_of (sys_brk s) = settings_of b \<and> (wf_breaker b \<longrightarrow> wf_breaker (sys_brk s))"
proof (induction rule: sys_reachable.induct)
  case (move s i s')
  then show ?case using sys_step_brk [OF move.hyps(2)] by simp
qed simp

section \<open>The number of attempts\<close>

fun attempts_ok :: "int \<Rightarrow> 'a pc \<Rightarrow> bool" where
  "attempts_ok m (Ready n _) = (0 \<le> n \<and> n \<le> m)"
| "attempts_ok m (InCall n _ _) = (1 \<le> n \<and> n \<le> m + 1)"
| "attempts_ok m (InSleep n _ _ _) = (1 \<le> n \<and> n \<le> m)"
| "attempts_ok m (Done _) = True"

lemma attempts_begin:
  "begin_attempt now b n r = (b', p) \<Longrightarrow> 0 \<le> n \<Longrightarrow> n \<le> m \<Longrightarrow> attempts_ok m p"
  by (drule begin_attempt_cases) auto

lemma attempts_finish_call:
  "finish_call fs cb now out n t b = (b', p) \<Longrightarrow> 1 \<le> n \<Longrightarrow> budget b = m \<Longrightarrow> attempts_ok m p"
  by (drule finish_call_cases) auto

lemma attempts_finish_sleep:
  "finish_sleep now i n e t b = (b', p) \<Longrightarrow> 1 \<le> n \<Longrightarrow> n \<le> m \<Longrightarrow> attempts_ok m p"
  by (auto simp: finish_sleep_def Let_def split: option.splits intro: attempts_begin)

lemma sys_step_attempts:
  assumes "sys_step fs i s s'" and "budget (sys_brk s) = m" and "attempts_ok m (sys_tasks s i)"
  shows "attempts_ok m (sys_tasks s' i)"
  using assms(1)
proof cases
  case (enter n r now)
  obtain b' p where "begin_attempt now (sys_brk s) n r = (b', p :: 'a pc)" by fastforce
  then show ?thesis using enter assms by (auto intro: attempts_begin)
next
  case (answer n r t now cb out)
  obtain b' p where "finish_call fs cb now out n t (sys_brk s) = (b', p :: 'a pc)" by fastforce
  then show ?thesis using answer assms by (auto intro: attempts_finish_call)
next
  case (wake n e t d now intr)
  obtain b' p where "finish_sleep now intr n e t (sys_brk s) = (b', p :: 'a pc)" by fastforce
  then show ?thesis using wake assms by (auto intro: attempts_finish_sleep)
qed

lemma sys_step_frame: "sys_step fs i s s' \<Longrightarrow> j \<noteq> i \<Longrightarrow> sys_tasks s' j = sys_tasks s j"
  by (auto elim: sys_step.cases)

lemma reachable_attempts:
  assumes "sys_reachable fs b s" and "0 \<le> budget b"
  shows "attempts_ok (budget b) (sys_tasks s j)"
  using assms
proof (induction arbitrary: j rule: sys_reachable.induct)
  case start
  then show ?case by simp
next
  case (move s i s')
  have "budget (sys_brk s) = budget b"
    using reachable_brk [OF move.hyps(1)] by (intro budget_settings) simp
  then show ?case
    using sys_step_attempts [OF move.hyps(2)] sys_step_frame [OF move.hyps(2)] move.IH move.prems
    by (cases "j = i") auto
qed

section \<open>The half-open trial\<close>

text \<open>What one step does to the trial flag and to the coroutine that moved.\<close>

lemma trial_step:
  assumes "sys_step fs i s s'"
  shows "(trial_taken (sys_brk s') \<longleftrightarrow> trial_taken (sys_brk s)) \<and>
           (in_trial (sys_tasks s' i) \<longleftrightarrow> in_trial (sys_tasks s i))
       \<or> in_trial (sys_tasks s i) \<and> \<not> trial_taken (sys_brk s') \<and> \<not> in_trial (sys_tasks s' i)
       \<or> trial_taken (sys_brk s') \<and> in_trial (sys_tasks s' i) \<and>
           (br_state (sys_brk s) = Open \<and> br_state (sys_brk s') = HalfOpen
            \<or> \<not> trial_taken (sys_brk s) \<or> in_trial (sys_tasks s i))"
  using assms
proof cases
  case (enter n r now)
  obtain b' p where beg: "begin_attempt now (sys_brk s) n r = (b', p :: 'a pc)" by fastforce
  have "\<not> trial_taken (sys_brk s) \<or> br_state (sys_brk s) = Open" if "p = InCall (n + 1) r True"
    using beg that
    by (auto simp: begin_attempt_def allows_execution_def claim_trial_def Let_def
             split: breaker_state.splits if_splits)
  then show ?thesis using enter beg trial_begin [OF beg] by auto
next
  case (answer n r t now cb out)
  obtain b' p where "finish_call fs cb now out n t (sys_brk s) = (b', p :: 'a pc)" by fastforce
  then show ?thesis using answer trial_finish_call [of fs cb now out n t "sys_brk s" b' p]
    by (cases t) (auto simp: finish_call_def Let_def
      split: outcome.splits option.splits if_splits)
next
  case (wake n e t d now intr)
  obtain b' p where fin: "finish_sleep now intr n e t (sys_brk s) = (b', p :: 'a pc)" by fastforce
  show ?thesis
  proof (cases intr)
    case (Some x)
    then show ?thesis using wake fin by (cases t) (auto simp: finish_sleep_def Let_def)
  next
    case None
    then have beg: "begin_attempt now (release_trial t (sys_brk s)) n (Some e) = (b', p)"
      using fin by (simp add: finish_sleep_def Let_def)
    have "\<not> trial_taken (release_trial t (sys_brk s)) \<or> br_state (sys_brk s) = Open"
      if "p = InCall (n + 1) (Some e) True"
      using beg that
      by (auto simp: begin_attempt_def allows_execution_def claim_trial_def release_trial_def
               Let_def split: breaker_state.splits if_splits)
    then show ?thesis using wake fin trial_begin [OF beg] by (cases t) auto
  qed
qed

text \<open>The claim is never leaked: while it is held, some coroutine inside a trial holds it.\<close>

lemma reachable_claim_held:
  assumes "sys_reachable fs b s" and "\<not> trial_taken b"
  shows "trial_taken (sys_brk s) \<Longrightarrow> \<exists>i. in_trial (sys_tasks s i)"
  using assms
proof (induction rule: sys_reachable.induct)
  case start
  then show ?case by simp
next
  case (move s i s')
  show ?case
  proof (cases "in_trial (sys_tasks s' i)")
    case True
    then show ?thesis ..
  next
    case False
    then have old: "trial_taken (sys_brk s)" "\<not> in_trial (sys_tasks s i)"
      using trial_step [OF move.hyps(2)] move.prems(1) by auto
    then obtain j where "in_trial (sys_tasks s j)" using move.IH move.prems(2) by blast
    then have "in_trial (sys_tasks s' j)"
      using old(2) sys_step_frame [OF move.hyps(2)] by (cases "j = i") auto
    then show ?thesis ..
  qed
qed

text \<open>With quiet steps, the flag and the coroutines inside a trial agree, and there is one.\<close>

definition trial_inv :: "'a system \<Rightarrow> bool" where
  "trial_inv s \<longleftrightarrow>
     (\<forall>i j. in_trial (sys_tasks s i) \<longrightarrow> in_trial (sys_tasks s j) \<longrightarrow> i = j) \<and>
     (trial_taken (sys_brk s) \<longleftrightarrow> (\<exists>i. in_trial (sys_tasks s i)))"

lemma trial_inv_step:
  assumes "sys_step fs i s s'" and "quiet_step i s s'" and "trial_inv s"
  shows "trial_inv s'"
proof -
  have frame: "in_trial (sys_tasks s' j) \<longleftrightarrow> in_trial (sys_tasks s j)" if "j \<noteq> i" for j
    using sys_step_frame [OF assms(1) that] by simp
  have alone: "\<not> in_trial (sys_tasks s j)"
    if "br_state (sys_brk s) = Open \<and> br_state (sys_brk s') = HalfOpen
          \<or> \<not> trial_taken (sys_brk s) \<or> in_trial (sys_tasks s i)" and "j \<noteq> i" for j
    using that assms(2,3) unfolding quiet_step_def trial_inv_def by blast
  show ?thesis
    using trial_step [OF assms(1)]
  proof (elim disjE)
    assume "(trial_taken (sys_brk s') \<longleftrightarrow> trial_taken (sys_brk s)) \<and>
      (in_trial (sys_tasks s' i) \<longleftrightarrow> in_trial (sys_tasks s i))"
    then have "\<And>j. in_trial (sys_tasks s' j) \<longleftrightarrow> in_trial (sys_tasks s j)"
      using frame by (metis (no_types))
    then show ?thesis
      using assms(3) \<open>_ \<and> _\<close> unfolding trial_inv_def by simp
  next
    assume a: "in_trial (sys_tasks s i) \<and> \<not> trial_taken (sys_brk s') \<and> \<not> in_trial (sys_tasks s' i)"
    then have "\<not> in_trial (sys_tasks s' j)" for j
      using alone frame by (cases "j = i") blast+
    then show ?thesis using a unfolding trial_inv_def by blast
  next
    assume a: "trial_taken (sys_brk s') \<and> in_trial (sys_tasks s' i) \<and>
      (br_state (sys_brk s) = Open \<and> br_state (sys_brk s') = HalfOpen
       \<or> \<not> trial_taken (sys_brk s) \<or> in_trial (sys_tasks s i))"
    then have "\<not> in_trial (sys_tasks s' j)" if "j \<noteq> i" for j
      using alone frame that by blast
    then show ?thesis using a unfolding trial_inv_def by metis
  qed
qed

lemma quiet_reachable_inv:
  assumes "quiet_reachable fs b s" and "\<not> trial_taken b"
  shows "trial_inv s"
  using assms
proof (induction rule: quiet_reachable.induct)
  case start
  then show ?case by (simp add: trial_inv_def)
next
  case (move s i s')
  then show ?case by (blast intro: trial_inv_step)
qed


section \<open>Executing a schedule\<close>

text \<open>A schedule names the coroutine that moves and what the environment answers it.\<close>

datatype 'a move =
    Enter rat
  | Answer rat "'a outcome"
  | Wake rat

fun exec_move :: "failsafe \<Rightarrow> 'a system \<Rightarrow> nat \<times> 'a move \<Rightarrow> 'a system option" where
  "exec_move fs s (i, Enter now) =
     (case sys_tasks s i of
        Ready n r \<Rightarrow> if sys_clock s \<le> now
          then Some (update_system s i now (begin_attempt now (sys_brk s) n r)) else None
      | _ \<Rightarrow> None)"
| "exec_move fs s (i, Answer now out) =
     (case sys_tasks s i of
        InCall n r t \<Rightarrow> if sys_clock s \<le> now
          then Some (update_system s i now
                 (finish_call fs (\<lambda>_. None) now out n t (sys_brk s))) else None
      | _ \<Rightarrow> None)"
| "exec_move fs s (i, Wake now) =
     (case sys_tasks s i of
        InSleep n e t d \<Rightarrow> if sys_clock s \<le> now
          then Some (update_system s i now
                 (finish_sleep now None n e t (sys_brk s))) else None
      | _ \<Rightarrow> None)"

fun exec_schedule :: "failsafe \<Rightarrow> 'a system \<Rightarrow> (nat \<times> 'a move) list \<Rightarrow> 'a system option" where
  "exec_schedule fs s [] = Some s"
| "exec_schedule fs s (m # ms) =
     (case exec_move fs s m of None \<Rightarrow> None | Some s' \<Rightarrow> exec_schedule fs s' ms)"

lemma exec_move_step: "exec_move fs s (i, m) = Some s' \<Longrightarrow> sys_step fs i s s'"
  by (cases m) (auto split: pc.splits if_splits intro: sys_step.intros)

lemma exec_schedule_reachable:
  "sys_reachable fs b s \<Longrightarrow> exec_schedule fs s ms = Some s' \<Longrightarrow> sys_reachable fs b s'"
proof (induction fs s ms rule: exec_schedule.induct)
  case (2 fs s m ms)
  then show ?case
    by (cases m) (auto split: option.splits dest: exec_move_step intro: sys_reachable.move)
qed simp

text \<open>
  A breaker whose reset timeout (50 milliseconds) is below its backoff (100 milliseconds),
  from an accepted configuration.
\<close>

definition quick_reset_config :: pyval where
  "quick_reset_config = PDict
    [(PStr ''maximum_failures'', PInt 1),
     (PStr ''timeout'', PFloat (FFin (1 / 20))),
     (PStr ''retry_config'', PDict
       [(PStr ''allowed_retries'', PInt 2), (PStr ''backoff'', PStr ''constant''),
        (PStr ''delay'', PFloat (FFin (1 / 10)))])]"

definition quick_reset_policy :: retry_policy where
  "quick_reset_policy = \<lparr>allowed_retries = 2, rp_backoff = Constant (1 / 10),
     rp_retriable = None, rp_abortable = None\<rparr>"

definition quick_reset_breaker :: breaker where
  "quick_reset_breaker = new_breaker 1 (FFin (1 / 20)) (Some quick_reset_policy)
     None None None (PFun 0) (PFun 1)"

lemma quick_reset_accepted:
  "validated_breaker_config quick_reset_config =
     Inr \<lparr>bs_maximum_failures = 1, bs_reset_timeout = FFin (1 / 20),
       bs_retry_policy = Some quick_reset_policy, bs_on_exhausted = None, bs_on_failed = None,
       bs_on_abort = None, bs_clock = None, bs_sleep = None\<rparr>"
  by code_simp

text \<open>\<open>pyfailsafe\<close> with no exception lists and a constant backoff.\<close>

definition plain_failsafe :: failsafe where
  "plain_failsafe = \<lparr>fs_should_abort = (\<lambda>_ _. False), fs_is_retriable = (\<lambda>_ _. True),
     fs_for_attempt = (\<lambda>d _. case d of Constant r \<Rightarrow> r | Exponential r _ _ \<Rightarrow> r)\<rparr>"

definition refused_connection :: exc_obj where
  "refused_connection = \<lparr>ex_mro = [Ext ''ConnectionRefusedError'', Ext ''OSError''],
     ex_text = ''refused'', ex_status = 0, ex_cause = None, ex_context = None\<rparr>"

text \<open>
  Coroutine 0 fails its closed-circuit attempt and, after its backoff, its half-open trial;
  while it sleeps again coroutine 1 claims the next trial, and the end of the sleep releases
  that claim and takes it a second time.
\<close>

definition double_trial_schedule :: "(nat \<times> pyval move) list" where
  "double_trial_schedule =
    [(0, Enter 0), (0, Answer 0 (Raises refused_connection)),
     (0, Wake (1 / 10)), (0, Answer (1 / 10) (Raises refused_connection)),
     (1, Enter (4 / 25)),
     (0, Wake (1 / 5))]"


text \<open>A coroutine with the breaker to itself only makes quiet steps.\<close>

lemma solo_schedule_quiet:
  assumes "quiet_reachable fs b s" and "\<forall>j. j \<noteq> i \<longrightarrow> \<not> in_trial (sys_tasks s j)"
    and "exec_schedule fs s (map (Pair i) ms) = Some s'"
  shows "quiet_reachable fs b s'"
  using assms
proof (induction ms arbitrary: s)
  case Nil
  then show ?case by simp
next
  case (Cons m ms)
  then obtain t where t: "exec_move fs s (i, m) = Some t"
      "exec_schedule fs t (map (Pair i) ms) = Some s'"
    by (auto split: option.splits)
  have step: "sys_step fs i s t" by (rule exec_move_step) (rule t(1))
  have "quiet_step i s t" using Cons.prems(2) by (simp add: quiet_step_def)
  then have "quiet_reachable fs b t" by (rule quiet_reachable.move [OF Cons.prems(1) step])
  moreover have "\<forall>j. j \<noteq> i \<longrightarrow> \<not> in_trial (sys_tasks t j)"
    using Cons.prems(2) sys_step_frame [OF step] by simp
  ultimately show ?case using t(2) by (rule Cons.IH)
qed

section \<open>Properties\<close>

text \<open>
  C28. Half-open exclusivity. As long as the circuit enters half-open only when no earlier
  trial is still in flight, at most one coroutine is inside a half-open trial at any time,
  however the coroutines interleave and whatever they are answered.
\<close>

theorem half_open_trial_exclusive:
  assumes "quiet_reachable fs (new_breaker m r p x f a c sl) s"
    and "in_trial (sys_tasks s i)" and "in_trial (sys_tasks s j)"
  shows "i = j"
proof -
  have "trial_inv s"
    using assms(1) by (rule quiet_reachable_inv) (simp add: new_breaker_def)
  then show ?thesis using assms(2,3) unfolding trial_inv_def by blast
qed

theorem half_open_trial_exclusive_witness:
  "\<exists>s. quiet_reachable plain_failsafe quick_reset_breaker (s :: pyval system)
     \<and> {j. in_trial (sys_tasks s j)} = {0}"
proof -
  define ms where "ms = [Enter 0, Answer 0 (Raises refused_connection), Wake (1 / 10) :: pyval move]"
  let ?run = "exec_schedule plain_failsafe (init_system quick_reset_breaker) (map (Pair 0) ms)"
  have "map_option (\<lambda>s. in_trial (sys_tasks s 0)) ?run = Some True"
    unfolding ms_def by code_simp
  then obtain s where s: "?run = Some s" "in_trial (sys_tasks s 0)" by auto
  have "quiet_reachable plain_failsafe quick_reset_breaker s"
    by (rule solo_schedule_quiet [OF quiet_reachable.start _ s(1)]) simp
  then have "j = 0" if "in_trial (sys_tasks s j)" for j
    using half_open_trial_exclusive [OF _ that s(2)] unfolding quick_reset_breaker_def by blast
  then show ?thesis
    using s(2) \<open>quiet_reachable plain_failsafe quick_reset_breaker s\<close> by blast
qed

text \<open>
  Without that proviso exclusivity fails in the code as it is: with an accepted
  configuration whose reset timeout is shorter than its backoff, a coroutine that wakes from
  the backoff of its failed trial releases the claim of the coroutine now on trial and
  claims again, so that two trial calls are in flight on a half-open circuit.
\<close>

theorem half_open_admits_two_trials:
  "validated_breaker_config quick_reset_config =
     Inr \<lparr>bs_maximum_failures = 1, bs_reset_timeout = FFin (1 / 20),
       bs_retry_policy = Some quick_reset_policy, bs_on_exhausted = None, bs_on_failed = None,
       bs_on_abort = None, bs_clock = None, bs_sleep = None\<rparr>
   \<and> (\<exists>s n m r. sys_reachable plain_failsafe quick_reset_breaker s
        \<and> br_state (sys_brk s) = HalfOpen
        \<and> sys_tasks s 0 = InCall n r True \<and> sys_tasks s 1 = (InCall m None True :: pyval pc))"
proof -
  let ?run = "exec_schedule plain_failsafe (init_system quick_reset_breaker) double_trial_schedule"
  have "map_option (\<lambda>s. (br_state (sys_brk s), sys_tasks s 0, sys_tasks s 1)) ?run =
      Some (HalfOpen, InCall 3 (Some refused_connection) True, InCall 1 None True)"
    by code_simp
  then obtain s where s: "?run = Some s" "br_state (sys_brk s) = HalfOpen"
      "sys_tasks s 0 = InCall 3 (Some refused_connection) True"
      "sys_tasks s 1 = InCall 1 None True"
    by auto
  have "sys_reachable plain_failsafe quick_reset_breaker s"
    by (rule exec_schedule_reachable [OF sys_reachable.start s(1)])
  then show ?thesis using s quick_reset_accepted by blast
qed

text \<open>
  C29. The half-open claim is never leaked: in every reachable state of any number of
  coroutines, a half-open circuit refuses a call only while some coroutine is inside a trial,
  so no route out of an attempt (success, counted failure, abort, cancellation) can leave the
  destination locked out.
\<close>

theorem half_open_never_locked_out:
  assumes "sys_reachable fs (new_breaker m r p x f a c sl) s"
    and "br_state (sys_brk s) = HalfOpen"
    and "\<not> fst (allows_execution now (sys_brk s))"
  shows "\<exists>i. in_trial (sys_tasks s i)"
proof -
  have "trial_taken (sys_brk s)"
    using assms(2,3) by (auto simp: allows_execution_def claim_trial_def split: if_splits)
  then show ?thesis
    using reachable_claim_held [OF assms(1)] by (simp add: new_breaker_def)
qed

theorem half_open_never_locked_out_witness:
  "\<exists>s. sys_reachable plain_failsafe quick_reset_breaker (s :: pyval system)
     \<and> \<not> fst (allows_execution (1 / 10) (sys_brk s)) \<and> (\<exists>i. in_trial (sys_tasks s i))"
proof -
  let ?run = "exec_schedule plain_failsafe (init_system quick_reset_breaker)
    (take 3 double_trial_schedule)"
  have "map_option (\<lambda>s. (br_state (sys_brk s), fst (allows_execution (1 / 10) (sys_brk s)))) ?run =
      Some (HalfOpen, False)"
    by code_simp
  then obtain s where s: "?run = Some s" "br_state (sys_brk s) = HalfOpen"
      "\<not> fst (allows_execution (1 / 10) (sys_brk s))"
    by auto
  have "sys_reachable plain_failsafe quick_reset_breaker s"
    by (rule exec_schedule_reachable [OF sys_reachable.start s(1)])
  then show ?thesis
    using s half_open_never_locked_out unfolding quick_reset_breaker_def by blast
qed

text \<open>
  C30. The retry budget bounds the work: in every reachable state, whatever else shares the
  breaker, no coroutine is beyond attempt \<open>allowed_retries + 1\<close> (one attempt without a
  policy), and the failure count of the breaker stays below its threshold.
\<close>

theorem attempts_within_budget:
  assumes "sys_reachable fs (new_breaker m r p x f a c sl) s"
    and "\<forall>q. p = Some q \<longrightarrow> 0 \<le> allowed_retries q"
    and "sys_tasks s i = InCall n e t"
  shows "n \<le> (case p of None \<Rightarrow> 1 | Some q \<Rightarrow> allowed_retries q + 1)
    \<and> 0 \<le> failures (sys_brk s) \<and> failures (sys_brk s) < max 1 m"
proof -
  let ?b = "new_breaker m r p x f a c sl"
  have budget: "budget ?b = (case p of None \<Rightarrow> 0 | Some q \<Rightarrow> allowed_retries q)"
    by (simp add: budget_def new_breaker_def)
  have "attempts_ok (budget ?b) (sys_tasks s i)"
    using assms(1,2) by (intro reachable_attempts) (auto simp: budget split: option.split)
  moreover have "maximum_failures (sys_brk s) = m"
    using reachable_brk [OF assms(1)] by (simp add: settings_of_def new_breaker_def)
  moreover have "wf_breaker (sys_brk s)"
    using reachable_brk [OF assms(1)] wf_new_breaker by blast
  ultimately show ?thesis
    using assms(3) budget by (auto simp: wf_breaker_def split: option.splits)
qed

theorem attempts_within_budget_witness:
  "\<exists>s n e t. sys_reachable plain_failsafe quick_reset_breaker s \<and> n = (3::int)
     \<and> sys_tasks s 0 = (InCall n e t :: pyval pc) \<and> n \<le> 3 \<and> failures (sys_brk s) < 1"
proof -
  obtain s m e where s: "sys_reachable plain_failsafe quick_reset_breaker s"
      "sys_tasks s 0 = (InCall 3 e True :: pyval pc)"
  proof -
    let ?run = "exec_schedule plain_failsafe (init_system quick_reset_breaker) double_trial_schedule"
    have "map_option (\<lambda>s. sys_tasks s 0) ?run = Some (InCall 3 (Some refused_connection) True)"
      by code_simp
    then obtain s where "?run = Some s" "sys_tasks s 0 = InCall 3 (Some refused_connection) True"
      by auto
    then show ?thesis
      using that exec_schedule_reachable [OF sys_reachable.start] by blast
  qed
  then have "(3::int) \<le> 3 \<and> failures (sys_brk s) < 1"
    using attempts_within_budget [of plain_failsafe 1 "FFin (1 / 20)" "Some quick_reset_policy"
        None None None "PFun 0" "PFun 1" s 0 3 e True]
    by (simp add: quick_reset_breaker_def quick_reset_policy_def)
  then show ?thesis using s by blast
qed

end
