(* ===== verification/Registry.thy ===== *)
theory Registry
  imports Breaker
begin

text \<open>
  \<open>helpers/internal/breaker_registry.py\<close>: the process-wide registry of breakers, one per
  destination, bounded, evicting the least recently used. Breakers are objects with
  identity: the registry maps a destination to the number of an object on a heap. The
  contract of a bounded least-recently-used cache is the locale \<open>lru_cache\<close>, and the
  registry is an interpretation of it.
\<close>

section \<open>The contract of a least-recently-used cache\<close>

definition last_n :: "nat \<Rightarrow> 'k list \<Rightarrow> 'k list" where
  "last_n n ks = drop (length ks - n) ks"

lemma length_last_n [simp]: "length (last_n n ks) = min n (length ks)"
  by (simp add: last_n_def)

lemma set_last_n: "set (last_n n ks) \<subseteq> set ks"
  by (simp add: last_n_def set_drop_subset)

lemma distinct_last_n: "distinct ks \<Longrightarrow> distinct (last_n n ks)"
  by (simp add: last_n_def)

lemma last_n_short: "length ks \<le> n \<Longrightarrow> last_n n ks = ks"
  by (simp add: last_n_def)

lemma last_n_snoc: "last_n (Suc n) (ks @ [k]) = last_n n ks @ [k]"
  by (simp add: last_n_def)

lemma last_n_nested: "m \<le> n \<Longrightarrow> last_n m (last_n n ks) = last_n m ks"
  by (cases "n \<le> length ks") (simp_all add: last_n_def)

lemma last_n_last_n: "last_n n (last_n n ks @ [k]) = last_n n (ks @ [k])"
proof (cases n)
  case 0
  then show ?thesis by (simp add: last_n_def)
next
  case (Suc m)
  then show ?thesis using last_n_nested [of m n ks] by (simp add: last_n_snoc)
qed

lemma last_n_append: "n \<le> length ys \<Longrightarrow> last_n n (xs @ ys) = last_n n ys"
  by (simp add: last_n_def)

lemma filter_neq_remove1: "distinct xs \<Longrightarrow> filter (\<lambda>x. x \<noteq> k) xs = remove1 k xs"
  by (induction xs) (auto simp: filter_id_conv)

locale lru_cache =
  fixes keys :: "'s \<Rightarrow> 'k list"
    and key_of :: "'c \<Rightarrow> 'k"
    and accepted :: "'c \<Rightarrow> bool"
    and use :: "'s \<Rightarrow> 'c \<Rightarrow> 's"
    and bound :: nat
    and empty :: 's
  assumes keys_empty: "keys empty = []"
    and use_rejected: "\<not> accepted c \<Longrightarrow> use s c = s"
    and use_hit: "accepted c \<Longrightarrow> key_of c \<in> set (keys s) \<Longrightarrow>
      keys (use s c) = filter (\<lambda>x. x \<noteq> key_of c) (keys s) @ [key_of c]"
    and use_miss: "accepted c \<Longrightarrow> key_of c \<notin> set (keys s) \<Longrightarrow>
      keys (use s c) = last_n bound (keys s @ [key_of c])"
begin

definition used :: "'c list \<Rightarrow> 'k list" where
  "used cs = map key_of (filter accepted cs)"

lemma used_simps [simp]:
  "used [] = []"
  "used (cs @ ds) = used cs @ used ds"
  "used (c # cs) = (if accepted c then key_of c # used cs else used cs)"
  by (simp_all add: used_def)

lemma remdups_snoc: "remdups (ks @ [k]) = filter (\<lambda>x. x \<noteq> k) (remdups ks) @ [k]"
  by (induction ks) auto

text \<open>
  The cache holds the \<open>bound\<close> keys used last, in the order of their last use.
\<close>

lemma keys_uses: "keys (foldl use empty cs) = last_n bound (remdups (used cs))"
proof (induction cs rule: rev_induct)
  case Nil
  then show ?case by (simp add: keys_empty last_n_def)
next
  case (snoc c cs)
  define k where "k = key_of c"
  define R where "R = remdups (used cs)"
  have IH: "keys (foldl use empty cs) = last_n bound R" using snoc by (simp add: R_def)
  have R: "R = take (length R - bound) R @ last_n bound R"
    by (simp add: last_n_def)
  have dR: "distinct R" by (simp add: R_def)
  have "keys (foldl use empty (cs @ [c])) = last_n bound (remdups (used (cs @ [c])))"
    if acc: "accepted c"
  proof (cases "k \<in> set (last_n bound R)")
    case True
    then have out: "k \<notin> set (take (length R - bound) R)"
      using dR R by (metis disjoint_iff distinct_append)
    have pos: "bound > 0" using True by (cases bound) (auto simp: last_n_def)
    have "filter (\<lambda>x. x \<noteq> k) R = take (length R - bound) R @ filter (\<lambda>x. x \<noteq> k) (last_n bound R)"
      by (subst R) (use out in \<open>auto simp: filter_id_conv\<close>)
    moreover have "length (filter (\<lambda>x. x \<noteq> k) (last_n bound R)) = length (last_n bound R) - 1"
      using True distinct_last_n [OF dR, of bound]
      by (simp add: filter_neq_remove1 length_remove1 del: length_last_n)
    ultimately have "last_n bound (filter (\<lambda>x. x \<noteq> k) R @ [k])
        = filter (\<lambda>x. x \<noteq> k) (last_n bound R) @ [k]"
      using pos by (cases "length R \<le> bound") (auto simp: last_n_def)
    then show ?thesis
      using True IH acc
      by (simp add: use_hit remdups_snoc R_def [symmetric] k_def [symmetric])
  next
    case False
    have "last_n bound (filter (\<lambda>x. x \<noteq> k) R @ [k]) = last_n bound (R @ [k])"
    proof (cases bound)
      case 0
      then show ?thesis by (simp add: last_n_def)
    next
      case (Suc n)
      have keep: "filter (\<lambda>x. x \<noteq> k) (last_n bound R) = last_n bound R"
        using False by (auto simp: filter_id_conv)
      show ?thesis
      proof (cases "length R \<le> bound")
        case True
        then show ?thesis using keep by (simp add: last_n_short)
      next
        case False
        then have len: "n \<le> length (last_n bound R)" using Suc by simp
        have "filter (\<lambda>x. x \<noteq> k) R
            = filter (\<lambda>x. x \<noteq> k) (take (length R - bound) R) @ last_n bound R"
          by (subst R) (simp only: filter_append keep)
        then have "last_n n (filter (\<lambda>x. x \<noteq> k) R) = last_n n (last_n bound R)"
          using len by (simp add: last_n_append)
        also have "\<dots> = last_n n R" using len R by (metis last_n_append)
        finally show ?thesis using Suc by (simp add: last_n_snoc)
      qed
    qed
    then show ?thesis
      using False IH acc
      by (simp add: use_miss remdups_snoc R_def [symmetric] k_def [symmetric] last_n_last_n)
  qed
  then show ?case using snoc by (cases "accepted c") (simp_all add: use_rejected)
qed

lemma size_bounded: "length (keys (foldl use empty cs)) \<le> bound"
  by (simp add: keys_uses)

lemma keys_distinct: "distinct (keys (foldl use empty cs))"
  by (simp add: keys_uses distinct_last_n)

text \<open>A key is still cached as long as fewer than \<open>bound\<close> keys were used after it.\<close>

lemma last_n_remdups_recent:
  "card (set ks) < bound \<Longrightarrow> k \<in> set (last_n bound (remdups (pre @ k # ks)))"
proof (induction pre)
  case Nil
  have "length (remdups (k # ks)) \<le> bound"
    using Nil by (simp add: length_remdups_card_conv card_insert_if)
  then show ?case by (simp add: last_n_short)
next
  case (Cons p pre)
  then have "k \<in> set (last_n bound (remdups (pre @ k # ks)))" by simp
  moreover have "set (last_n bound xs) \<subseteq> set (last_n bound (p # xs))" for xs
    by (cases "bound \<le> length xs") (auto simp: last_n_def Suc_diff_le)
  ultimately show ?case by auto
qed

lemma survives:
  assumes "accepted c" and "card (set (used cs)) < bound"
  shows "key_of c \<in> set (keys (foldl use empty (pre @ c # cs)))"
  using last_n_remdups_recent [OF assms(2)] assms(1) by (simp add: keys_uses del: foldl_append)

end

section \<open>The registry\<close>

type_synonym breaker_key = "string \<times> string \<times> int"

definition BREAKER_REGISTRY_MAX :: int where
  "BREAKER_REGISTRY_MAX = 256"

record registry =
  reg_entries :: "(breaker_key, nat) dict"
  reg_heap :: "nat \<rightharpoonup> breaker"
  reg_next :: nat

definition empty_registry :: registry where
  "empty_registry = \<lparr>reg_entries = [], reg_heap = Map.empty, reg_next = 0\<rparr>"

text \<open>\<open>CircuitBreakerHelper(**settings)\<close> once clock and sleep are settled.\<close>

definition breaker_from :: "breaker_settings \<Rightarrow> pyval \<Rightarrow> pyval \<Rightarrow> breaker" where
  "breaker_from settings clock sleep =
     new_breaker (bs_maximum_failures settings) (bs_reset_timeout settings)
       (bs_retry_policy settings) (bs_on_exhausted settings) (bs_on_failed settings)
       (bs_on_abort settings) clock sleep"

text \<open>
  \<open>while len(_BREAKERS) > maximum: _BREAKERS.popitem(last=False)\<close>. With a negative bound the
  loop reaches the empty dictionary, whose \<open>popitem\<close> raises \<open>KeyError\<close>.
\<close>

fun evict :: "int \<Rightarrow> (breaker_key, nat) dict \<Rightarrow> (exn + unit) \<times> (breaker_key, nat) dict" where
  "evict maximum [] = (if 0 > maximum then raise_as (Ext ''KeyError'') else Inr (), [])"
| "evict maximum (e # es) =
     (if int (length (e # es)) > maximum then evict maximum es else (Inr (), e # es))"

definition get_breaker ::
    "breaker_key \<Rightarrow> pyval \<Rightarrow> pyval \<Rightarrow> pyval \<Rightarrow> int \<Rightarrow> registry \<Rightarrow> (exn + nat) \<times> registry" where
  "get_breaker key config clock sleep maximum reg =
     (case validated_breaker_config (if config = PNone then PDict [] else config) of
        Inl e \<Rightarrow> (Inl e, reg)
      | Inr settings0 \<Rightarrow>
          let settings = settings0\<lparr>bs_clock := Some clock, bs_sleep := Some sleep\<rparr> in
          (case map_of (reg_entries reg) key of
             Some existing \<Rightarrow>
               (Inr existing,
                reg\<lparr>reg_entries := filter (\<lambda>e. fst e \<noteq> key) (reg_entries reg) @ [(key, existing)]\<rparr>)
           | None \<Rightarrow>
               let fresh = reg_next reg;
                   heap = (reg_heap reg)(fresh \<mapsto>
                     breaker_from settings (the (bs_clock settings)) (the (bs_sleep settings)));
                   (done, kept) = evict maximum (reg_entries reg @ [(key, fresh)])
               in (rbind done (\<lambda>_. Inr fresh),
                   reg\<lparr>reg_entries := kept, reg_heap := heap, reg_next := Suc fresh\<rparr>)))"

definition registry_size :: "registry \<Rightarrow> nat" where
  "registry_size reg = length (reg_entries reg)"

definition reset_registry :: "registry \<Rightarrow> registry" where
  "reset_registry reg = reg\<lparr>reg_entries := []\<rparr>"

text \<open>A history of calls under the default bound.\<close>

record lookup =
  lk_key :: breaker_key
  lk_config :: pyval
  lk_clock :: pyval
  lk_sleep :: pyval

definition lookup_accepted :: "lookup \<Rightarrow> bool" where
  "lookup_accepted c = is_ok (validated_breaker_config
     (if lk_config c = PNone then PDict [] else lk_config c))"

definition perform :: "registry \<Rightarrow> lookup \<Rightarrow> registry" where
  "perform reg c = snd (get_breaker (lk_key c) (lk_config c) (lk_clock c) (lk_sleep c)
     BREAKER_REGISTRY_MAX reg)"

definition perform_all :: "lookup list \<Rightarrow> registry" where
  "perform_all cs = foldl perform empty_registry cs"

section \<open>The registry is a least-recently-used cache\<close>

lemma evict_last_n: "0 \<le> m \<Longrightarrow> evict m es = (Inr (), last_n (nat m) es)"
proof (induction es)
  case Nil
  then show ?case by (simp add: last_n_def)
next
  case (Cons e es)
  show ?case
  proof (cases "int (length (e # es)) > m")
    case True
    then have "length (e # es) - nat m = Suc (length es - nat m)"
      using Cons.prems by simp
    then show ?thesis using True Cons by (simp add: last_n_def)
  next
    case False
    then show ?thesis by (simp add: last_n_short)
  qed
qed

lemma map_last_n: "map f (last_n n xs) = last_n n (map f xs)"
  by (simp add: last_n_def drop_map)

lemma map_fst_filter: "map fst (filter (\<lambda>e. fst e \<noteq> k) es) = filter (\<lambda>x. x \<noteq> k) (map fst es)"
  by (induction es) auto

lemma perform_rejected: "\<not> lookup_accepted c \<Longrightarrow> perform reg c = reg"
  by (auto simp: perform_def lookup_accepted_def get_breaker_def split: sum.split)

lemma get_breaker_hit:
  assumes "lookup_accepted c" and "map_of (reg_entries reg) (lk_key c) = Some i"
  shows "get_breaker (lk_key c) (lk_config c) (lk_clock c) (lk_sleep c) m reg =
    (Inr i, reg\<lparr>reg_entries := filter (\<lambda>e. fst e \<noteq> lk_key c) (reg_entries reg) @ [(lk_key c, i)]\<rparr>)"
  using assms by (auto simp: lookup_accepted_def is_ok_iff get_breaker_def Let_def)

lemma get_breaker_miss:
  assumes "validated_breaker_config (if config = PNone then PDict [] else config) = Inr st"
    and "map_of (reg_entries reg) key = None" and "0 \<le> m"
  shows "get_breaker key config clock sleep m reg =
    (Inr (reg_next reg),
     reg\<lparr>reg_entries := last_n (nat m) (reg_entries reg @ [(key, reg_next reg)]),
         reg_heap := (reg_heap reg)(reg_next reg \<mapsto> breaker_from st clock sleep),
         reg_next := Suc (reg_next reg)\<rparr>)"
  using assms by (auto simp: get_breaker_def Let_def evict_last_n breaker_from_def)

lemma perform_hit:
  assumes "lookup_accepted c" and "map_of (reg_entries reg) (lk_key c) = Some i"
  shows "perform reg c =
    reg\<lparr>reg_entries := filter (\<lambda>e. fst e \<noteq> lk_key c) (reg_entries reg) @ [(lk_key c, i)]\<rparr>"
  using get_breaker_hit [OF assms] by (simp add: perform_def)

lemma perform_miss:
  assumes "lookup_accepted c" and "map_of (reg_entries reg) (lk_key c) = None"
  obtains h where "perform reg c =
    reg\<lparr>reg_entries := last_n 256 (reg_entries reg @ [(lk_key c, reg_next reg)]),
        reg_heap := h, reg_next := Suc (reg_next reg)\<rparr>"
proof -
  obtain st where "validated_breaker_config
      (if lk_config c = PNone then PDict [] else lk_config c) = Inr st"
    using assms(1) by (auto simp: lookup_accepted_def is_ok_iff)
  from get_breaker_miss [OF this assms(2), of 256] show ?thesis
    using that by (simp add: perform_def BREAKER_REGISTRY_MAX_def)
qed

interpretation reg_lru: lru_cache "\<lambda>reg. dict_keys (reg_entries reg)" lk_key lookup_accepted
  perform 256 empty_registry
proof unfold_locales
  show "dict_keys (reg_entries empty_registry) = []" by (simp add: empty_registry_def)
  show "perform reg c = reg" if "\<not> lookup_accepted c" for reg c
    using that by (rule perform_rejected)
  show "dict_keys (reg_entries (perform reg c)) =
      filter (\<lambda>x. x \<noteq> lk_key c) (dict_keys (reg_entries reg)) @ [lk_key c]"
    if "lookup_accepted c" and "lk_key c \<in> set (dict_keys (reg_entries reg))" for reg c
  proof -
    note lk = that
    obtain i where "map_of (reg_entries reg) (lk_key c) = Some i"
      using lk(2) by (cases "map_of (reg_entries reg) (lk_key c)") (auto simp: map_of_eq_None_iff)
    then show ?thesis by (simp add: perform_hit lk(1) map_fst_filter)
  qed
  show "dict_keys (reg_entries (perform reg c)) =
      last_n 256 (dict_keys (reg_entries reg) @ [lk_key c])"
    if "lookup_accepted c" and "lk_key c \<notin> set (dict_keys (reg_entries reg))" for reg c
  proof -
    note lk = that
    have "map_of (reg_entries reg) (lk_key c) = None" using lk(2) by (simp add: map_of_eq_None_iff)
    then obtain h where "perform reg c =
        reg\<lparr>reg_entries := last_n 256 (reg_entries reg @ [(lk_key c, reg_next reg)]),
            reg_heap := h, reg_next := Suc (reg_next reg)\<rparr>"
      using perform_miss [OF lk(1)] by blast
    then show ?thesis by (simp add: map_last_n)
  qed
qed

section \<open>Identity of the breakers\<close>

definition wf_registry :: "registry \<Rightarrow> bool" where
  "wf_registry reg \<longleftrightarrow> wf_dict (reg_entries reg) \<and> distinct (map snd (reg_entries reg))
     \<and> (\<forall>i \<in> set (map snd (reg_entries reg)). i < reg_next reg)"

lemma wf_perform:
  assumes "wf_registry reg"
  shows "wf_registry (perform reg c)"
proof (cases "lookup_accepted c")
  case False
  then show ?thesis using assms by (simp add: perform_rejected)
next
  case acc: True
  show ?thesis
  proof (cases "map_of (reg_entries reg) (lk_key c)")
    case None
    then obtain h where p: "perform reg c =
        reg\<lparr>reg_entries := last_n 256 (reg_entries reg @ [(lk_key c, reg_next reg)]),
            reg_heap := h, reg_next := Suc (reg_next reg)\<rparr>"
      using perform_miss [OF acc] by blast
    have "wf_registry (reg\<lparr>reg_entries := reg_entries reg @ [(lk_key c, reg_next reg)],
        reg_heap := h, reg_next := Suc (reg_next reg)\<rparr>)"
      using assms None by (force simp: wf_registry_def wf_dict_def map_of_eq_None_iff)
    then show ?thesis
      unfolding p wf_registry_def wf_dict_def
      using set_last_n [of 256 "map snd (reg_entries reg @ [(lk_key c, reg_next reg)])"]
      by (auto simp: map_last_n intro: distinct_last_n)
  next
    case (Some i)
    then have "(lk_key c, i) \<in> set (reg_entries reg)" by (rule map_of_SomeD)
    moreover have "snd e \<noteq> i" if "e \<in> set (reg_entries reg)" "fst e \<noteq> lk_key c" for e
      using that calculation assms unfolding wf_registry_def
      by (metis distinct_map fst_conv inj_on_def snd_conv)
    ultimately show ?thesis
      using assms perform_hit [OF acc Some]
      by (auto simp: wf_registry_def wf_dict_def distinct_map inj_on_def)
  qed
qed

lemma wf_perform_all: "wf_registry (perform_all cs)"
proof (induction cs rule: rev_induct)
  case Nil
  then show ?case by (simp add: perform_all_def wf_registry_def wf_dict_def empty_registry_def)
next
  case (snoc c cs)
  then show ?case using wf_perform by (simp add: perform_all_def)
qed

text \<open>An entry that stays in the registry keeps its breaker.\<close>

lemma map_of_last_n:
  assumes "distinct (map fst es)" and "k \<in> set (map fst (last_n n es))"
  shows "map_of (last_n n es) k = map_of es k"
proof -
  have "es = take (length es - n) es @ last_n n es" by (simp add: last_n_def)
  moreover from this have "k \<notin> set (map fst (take (length es - n) es))"
    using assms by (metis disjoint_iff distinct_append map_append)
  then have "map_of (take (length es - n) es) k = None" by (simp add: map_of_eq_None_iff)
  ultimately show ?thesis
    by (metis map_add_None map_add_def map_of_append option.exhaust option.simps(4) option.simps(5))
qed

lemma map_of_filter_other: "k \<noteq> k' \<Longrightarrow> map_of (filter (\<lambda>e. fst e \<noteq> k') es) k = map_of es k"
  by (induction es) auto

lemma map_of_filter_self: "map_of (filter (\<lambda>e. fst e \<noteq> k) es) k = None"
  by (induction es) auto

lemma perform_keeps:
  assumes "wf_registry reg" and "map_of (reg_entries reg) k = Some i"
    and "k \<in> set (dict_keys (reg_entries (perform reg c)))"
  shows "map_of (reg_entries (perform reg c)) k = Some i"
proof (cases "lookup_accepted c")
  case False
  then show ?thesis using assms(2) by (simp add: perform_rejected)
next
  case acc: True
  show ?thesis
  proof (cases "map_of (reg_entries reg) (lk_key c)")
    case None
    then obtain h where p: "perform reg c =
        reg\<lparr>reg_entries := last_n 256 (reg_entries reg @ [(lk_key c, reg_next reg)]),
            reg_heap := h, reg_next := Suc (reg_next reg)\<rparr>"
      using perform_miss [OF acc] by blast
    have "distinct (map fst (reg_entries reg @ [(lk_key c, reg_next reg)]))"
      using assms(1) None by (auto simp: wf_registry_def wf_dict_def map_of_eq_None_iff)
    from map_of_last_n [OF this] show ?thesis
      using assms(2,3) p by (simp add: map_add_def)
  next
    case (Some j)
    then show ?thesis
      using assms(2) perform_hit [OF acc Some]
      by (cases "k = lk_key c")
         (simp_all add: map_add_def map_of_filter_other map_of_filter_self)
  qed
qed


lemma foldl_keeps:
  assumes "wf_registry reg" and "map_of (reg_entries reg) k = Some i"
    and "\<And>ds es. cs = ds @ es \<Longrightarrow> k \<in> set (dict_keys (reg_entries (foldl perform reg ds)))"
  shows "map_of (reg_entries (foldl perform reg cs)) k = Some i \<and> wf_registry (foldl perform reg cs)"
  using assms
proof (induction cs rule: rev_induct)
  case Nil
  then show ?case by simp
next
  case (snoc c cs)
  have "k \<in> set (dict_keys (reg_entries (foldl perform reg ds)))" if "cs = ds @ es" for ds es
    using snoc.prems(3) [of ds "es @ [c]"] that by simp
  then have IH: "map_of (reg_entries (foldl perform reg cs)) k = Some i"
      "wf_registry (foldl perform reg cs)"
    using snoc.IH snoc.prems(1,2) by blast+
  have "k \<in> set (dict_keys (reg_entries (perform (foldl perform reg cs) c)))"
    using snoc.prems(3) [of "cs @ [c]" "[]"] by simp
  then show ?case using perform_keeps [OF IH(2,1)] wf_perform [OF IH(2)] by simp
qed

text \<open>After an accepted call the destination maps to the breaker the call returned.\<close>

lemma get_breaker_stores:
  assumes "lookup_accepted c"
    and "fst (get_breaker (lk_key c) (lk_config c) (lk_clock c) (lk_sleep c)
           BREAKER_REGISTRY_MAX reg) = Inr i"
  shows "map_of (reg_entries (perform reg c)) (lk_key c) = Some i"
proof (cases "map_of (reg_entries reg) (lk_key c)")
  case None
  obtain st where st: "validated_breaker_config
      (if lk_config c = PNone then PDict [] else lk_config c) = Inr st"
    using assms(1) by (auto simp: lookup_accepted_def is_ok_iff)
  have "last_n 256 (reg_entries reg @ [(lk_key c, reg_next reg)])
      = last_n 255 (reg_entries reg) @ [(lk_key c, reg_next reg)]"
    using last_n_snoc [of 255] by simp
  moreover have "map_of (last_n 255 (reg_entries reg)) (lk_key c) = None"
    using None set_last_n [of 255 "reg_entries reg"] by (auto simp: map_of_eq_None_iff)
  ultimately show ?thesis
    using get_breaker_miss [OF st None, of 256] assms(2)
    by (simp add: perform_def BREAKER_REGISTRY_MAX_def map_add_def)
next
  case (Some j)
  then show ?thesis
    using get_breaker_hit [OF assms(1) Some] assms(2)
    by (simp add: perform_def map_add_def map_of_filter_self)
qed

lemma card_used_prefix:
  "card (set (reg_lru.used (ds @ es))) < n \<Longrightarrow> card (set (reg_lru.used ds)) < n"
  by (erule le_less_trans [rotated]) (auto intro: card_mono)

section \<open>Properties\<close>

text \<open>
  C33. The registry refines a least-recently-used cache of 256 destinations: after any history
  of calls, the destinations it holds, in order, are the last 256 distinct destinations of
  the accepted calls by their last use, and calls with a rejected configuration leave no
  trace.
\<close>

theorem registry_is_lru:
  "dict_keys (reg_entries (perform_all cs)) =
     last_n 256 (remdups (map lk_key (filter lookup_accepted cs)))
   \<and> registry_size (perform_all cs) \<le> 256"
proof
  show "dict_keys (reg_entries (perform_all cs)) =
      last_n 256 (remdups (map lk_key (filter lookup_accepted cs)))"
    unfolding perform_all_def reg_lru.keys_uses reg_lru.used_def ..
  show "registry_size (perform_all cs) \<le> 256"
    using reg_lru.size_bounded [of cs] by (simp only: perform_all_def registry_size_def length_map)
qed

text \<open>
  Failures accumulate across requests: an accepted call for a destination returns the very
  breaker an earlier accepted call for it returned, as long as fewer than 256 other
  destinations were used in between, whatever configurations the calls carried.
\<close>

theorem same_breaker_while_recent:
  assumes "lookup_accepted c" and "lookup_accepted d" and "lk_key d = lk_key c"
    and "fst (get_breaker (lk_key c) (lk_config c) (lk_clock c) (lk_sleep c)
           BREAKER_REGISTRY_MAX (perform_all pre)) = Inr i"
    and "card (set (map lk_key (filter lookup_accepted mid))) < 256"
  shows "fst (get_breaker (lk_key d) (lk_config d) (lk_clock d) (lk_sleep d)
           BREAKER_REGISTRY_MAX (perform_all (pre @ c # mid))) = Inr i"
proof -
  let ?reg = "perform (perform_all pre) c"
  have start: "map_of (reg_entries ?reg) (lk_key c) = Some i"
    using assms(1,4) by (rule get_breaker_stores)
  have wf: "wf_registry ?reg" by (rule wf_perform) (rule wf_perform_all)
  have "lk_key c \<in> set (dict_keys (reg_entries (foldl perform ?reg ds)))" if "mid = ds @ es" for ds es
  proof -
    have "card (set (reg_lru.used ds)) < 256"
      using assms(5) unfolding that reg_lru.used_def [symmetric] by (rule card_used_prefix)
    then show ?thesis
      using reg_lru.survives [OF assms(1), of ds pre] by (simp add: perform_all_def)
  qed
  then have "map_of (reg_entries (foldl perform ?reg mid)) (lk_key c) = Some i"
    using foldl_keeps [OF wf start] by blast
  then have "map_of (reg_entries (perform_all (pre @ c # mid))) (lk_key d) = Some i"
    using assms(3) by (simp add: perform_all_def)
  from get_breaker_hit [OF assms(2) this] show ?thesis by simp
qed

definition plain_lookup :: "string \<Rightarrow> lookup" where
  "plain_lookup host = \<lparr>lk_key = (''https'', host, 443), lk_config = PNone,
     lk_clock = PFun 0, lk_sleep = PFun 1\<rparr>"

lemma plain_lookup_accepted: "lookup_accepted (plain_lookup h)"
  by (simp add: plain_lookup_def lookup_accepted_def) code_simp

theorem same_breaker_while_recent_witness:
  "fst (get_breaker (''https'', ''a'', 443) PNone (PFun 0) (PFun 1) BREAKER_REGISTRY_MAX
     (perform_all [plain_lookup ''a'', plain_lookup ''b''])) = Inr 0"
proof -
  have "fst (get_breaker (''https'', ''a'', 443) PNone (PFun 0) (PFun 1) BREAKER_REGISTRY_MAX
      (perform_all [])) = Inr 0"
    by code_simp
  then show ?thesis
    using same_breaker_while_recent [of "plain_lookup ''a''" "plain_lookup ''a''" "[]" 0
        "[plain_lookup ''b'']"] plain_lookup_accepted
    by (simp add: plain_lookup_def)
qed

text \<open>
  One flaky host cannot open another's circuit: in the registry two different
  destinations never share a breaker.
\<close>

theorem destinations_are_isolated:
  assumes "map_of (reg_entries (perform_all cs)) k = Some i"
    and "map_of (reg_entries (perform_all cs)) k' = Some i"
  shows "k = k'"
proof -
  have "distinct (map snd (reg_entries (perform_all cs)))"
    using wf_perform_all [of cs] by (simp add: wf_registry_def)
  then show ?thesis
    using assms [THEN map_of_SomeD] unfolding distinct_map inj_on_def by fastforce
qed

theorem destinations_are_isolated_witness:
  "map_of (reg_entries (perform_all [plain_lookup ''a'', plain_lookup ''b'']))
     (''https'', ''a'', 443) = Some 0
   \<and> {k. map_of (reg_entries (perform_all [plain_lookup ''a'', plain_lookup ''b''])) k = Some 0}
       = {(''https'', ''a'', 443)}"
proof -
  have a: "map_of (reg_entries (perform_all [plain_lookup ''a'', plain_lookup ''b'']))
     (''https'', ''a'', 443) = Some 0"
    by code_simp
  then show ?thesis using destinations_are_isolated [OF _ a] by blast
qed

text \<open>
  A clock or a sleep given in \<open>circuit_breaker_config\<close> is validated and then dropped: the
  breaker a call creates carries the two keyword arguments of \<open>get_breaker\<close>, whatever the
  configuration says, and a call site that passes none gets their defaults.
\<close>

theorem configured_clock_is_ignored:
  assumes "map_of (reg_entries reg) key = None" and "0 \<le> m"
    and "fst (get_breaker key config clock sleep m reg) = Inr i"
  shows "\<exists>b. reg_heap (snd (get_breaker key config clock sleep m reg)) i = Some b
    \<and> clock_of b = clock \<and> sleep_of b = sleep"
proof -
  obtain st where "validated_breaker_config (if config = PNone then PDict [] else config) = Inr st"
    using assms(3) by (auto simp: get_breaker_def split: sum.splits)
  from get_breaker_miss [OF this assms(1,2)] show ?thesis
    using assms(3) by (auto simp: breaker_from_def new_breaker_def)
qed

theorem configured_clock_is_ignored_witness:
  "\<exists>b. reg_heap (snd (get_breaker (''ftp'', ''h'', 21) (PDict [(PStr ''clock'', PFun 7)])
      (PFun 0) (PFun 1) 256 empty_registry)) 0 = Some b \<and> clock_of b = PFun 0 \<and> sleep_of b = PFun 1"
proof (rule configured_clock_is_ignored)
  show "fst (get_breaker (''ftp'', ''h'', 21) (PDict [(PStr ''clock'', PFun 7)])
      (PFun 0) (PFun 1) 256 empty_registry) = Inr 0"
    by code_simp
qed (simp_all add: empty_registry_def)

end
