(* ===== verification/Redaction_Pairs.thy ===== *)
theory Redaction_Pairs
  imports PyString
begin

text \<open>
  \<open>utils/redaction.py\<close>, the part that hides \<open>name=value\<close> pairs: the sets of sensitive
  names, the test that decides whether a name is one of them, and the regular expression
  \<open>_pair_pattern\<close> as a left-to-right scanner that splits a text into single characters and
  pairs. Replacing the matches of the pattern is a map over what the scanner finds, and the
  theory proves that scanning the masked text finds exactly the masked tokens again.
\<close>

section \<open>Constants\<close>

definition REDACTED :: string where
  "REDACTED = ''***redacted***''"

definition SENSITIVE_HEADERS :: "string list" where
  "SENSITIVE_HEADERS =
    [''authorization'', ''proxy-authorization'', ''cookie'', ''set-cookie'', ''x-api-key'']"

definition SENSITIVE_NAMES :: "string list" where
  "SENSITIVE_NAMES =
    [''api_key'', ''apikey'', ''access_token'', ''refresh_token'', ''token'', ''secret'',
     ''password'', ''passwd'', ''signature'', ''sig'', ''key'', ''auth'']"

definition ALL_SENSITIVE_NAMES :: "string list" where
  "ALL_SENSITIVE_NAMES = SENSITIVE_NAMES @ SENSITIVE_HEADERS"

definition PAYLOAD_REDACTION_DEPTH :: nat where
  "PAYLOAD_REDACTION_DEPTH = 4"

section \<open>Sensitive names\<close>

text \<open>
  \<open>urllib.parse.unquote\<close>: a percent escape of an ASCII character is decoded, and so is the
  two-byte UTF-8 sequence of a character of Latin-1. Any other escape stands for a character
  this model has no value for and stays as it is.
\<close>

definition hex_val :: "char \<Rightarrow> nat option" where
  "hex_val c = (let n = ord_of c in
     if 48 \<le> n \<and> n \<le> 57 then Some (n - 48)
     else if 65 \<le> n \<and> n \<le> 70 then Some (n - 55)
     else if 97 \<le> n \<and> n \<le> 102 then Some (n - 87)
     else None)"

text \<open>The byte of the escape a text starts with.\<close>

fun escape_at :: "string \<Rightarrow> nat option" where
  "escape_at (p # a # b # s) =
     (if p = CHR ''%'' then
        (case (hex_val a, hex_val b) of (Some x, Some y) \<Rightarrow> Some (16 * x + y) | _ \<Rightarrow> None)
      else None)"
| "escape_at _ = None"

function unquote :: "string \<Rightarrow> string" where
  "unquote [] = []"
| "unquote (c # s) =
     (case escape_at (c # s) of
        None \<Rightarrow> c # unquote s
      | Some n \<Rightarrow>
          if n < 128 then char_of n # unquote (drop 2 s)
          else (case escape_at (drop 2 s) of
              None \<Rightarrow> c # unquote s
            | Some m \<Rightarrow>
                if (n = 194 \<or> n = 195) \<and> 128 \<le> m \<and> m < 192
                then char_of (64 * (n - 192) + (m - 128)) # unquote (drop 5 s)
                else c # unquote s))"
  by pat_completeness auto
termination by (relation "measure length") auto

definition is_sensitive :: "string \<Rightarrow> string list \<Rightarrow> bool" where
  "is_sensitive name sensitive =
     (str_casefold name \<in> set sensitive \<or> str_casefold (unquote name) \<in> set sensitive)"

definition sensitive_names :: "string list \<Rightarrow> string list" where
  "sensitive_names extra_params = SENSITIVE_NAMES @ map str_casefold extra_params"

section \<open>The pair pattern\<close>

definition is_delim :: "char \<Rightarrow> bool" where
  "is_delim c = (c \<in> {CHR ''?'', CHR ''#'', CHR ''&'', CHR '';''})"

text \<open>
  The three character classes of \<open>_pair_pattern\<close>; \<^term>\<open>ws\<close> is \<open>whitespace_ends_a_value\<close>.
\<close>

definition value_char :: "bool \<Rightarrow> char \<Rightarrow> bool" where
  "value_char ws c = (\<not> is_delim c \<and> \<not> (ws \<and> is_space c))"

definition name_char :: "bool \<Rightarrow> char \<Rightarrow> bool" where
  "name_char ws c = (value_char ws c \<and> c \<noteq> CHR ''='')"

text \<open>
  The pattern tried at the start of a text: delimiter, name, value and what follows the
  match. The name is greedy and cannot give a character back, because every character it
  took differs from the \<open>=\<close> that has to come next.
\<close>

fun pair_at :: "bool \<Rightarrow> string \<Rightarrow> (char \<times> string \<times> string \<times> string) option" where
  "pair_at ws [] = None"
| "pair_at ws (d # s) =
     (let name = takeWhile (name_char ws) s; rest = dropWhile (name_char ws) s
      in if is_delim d \<and> name \<noteq> [] \<and> take 1 rest = ''=''
         then Some (d, name, takeWhile (value_char ws) (drop 1 rest),
                    dropWhile (value_char ws) (drop 1 rest))
         else None)"

datatype token = Lit char | Pair char string string

fun render :: "token \<Rightarrow> string" where
  "render (Lit c) = [c]"
| "render (Pair d name val) = d # name @ ''='' @ val"

definition render_all :: "token list \<Rightarrow> string" where
  "render_all ts = concat (map render ts)"

lemma pair_at_shorter: "pair_at ws (c # s) = Some (d, n, v, r) \<Longrightarrow> length r < Suc (length s)"
proof -
  assume "pair_at ws (c # s) = Some (d, n, v, r)"
  then have "r = dropWhile (value_char ws) (drop 1 (dropWhile (name_char ws) s))"
    by (auto simp: Let_def split: if_splits)
  moreover have "length (dropWhile (value_char ws) (drop 1 t)) \<le> length t" for t :: string
    using length_dropWhile_le [of "value_char ws" "drop 1 t"] by simp
  ultimately show ?thesis
    using le_trans length_dropWhile_le by (metis le_imp_less_Suc)
qed

text \<open>
  The scanner: where the pattern matches, a pair and then the rest of the text; elsewhere
  one character.
\<close>

function scan :: "bool \<Rightarrow> string \<Rightarrow> token list" where
  "scan ws [] = []"
| "scan ws (c # s) =
     (case pair_at ws (c # s) of
        None \<Rightarrow> Lit c # scan ws s
      | Some (d, name, val, rest) \<Rightarrow> Pair d name val # scan ws rest)"
  by pat_completeness auto
termination
  by (relation "measure (\<lambda>(_, s). length s)") (auto dest: pair_at_shorter simp del: pair_at.simps)

text \<open>\<open>mask_pair\<close>, the replacement function of \<open>_mask_in_string\<close>.\<close>

fun mask_pair :: "string list \<Rightarrow> token \<Rightarrow> token" where
  "mask_pair sensitive (Lit c) = Lit c"
| "mask_pair sensitive (Pair d name val) =
     (if is_sensitive name sensitive then Pair d name REDACTED else Pair d name val)"

text \<open>\<open>pairs.sub(mask_pair, text)\<close>.\<close>

definition sub_pairs :: "bool \<Rightarrow> string list \<Rightarrow> string \<Rightarrow> string" where
  "sub_pairs ws sensitive text = render_all (map (mask_pair sensitive) (scan ws text))"

section \<open>Facts about the scanner\<close>

lemma render_all_simps [simp]:
  "render_all [] = []"
  "render_all (t # ts) = render t @ render_all ts"
  "render_all (ts @ us) = render_all ts @ render_all us"
  by (simp_all add: render_all_def)

lemma name_char_not_delim: "name_char ws c \<Longrightarrow> \<not> is_delim c"
  by (simp add: name_char_def value_char_def)

lemma value_char_not_delim: "value_char ws c \<Longrightarrow> \<not> is_delim c"
  by (simp add: value_char_def)

lemma eq_is_value_char [simp]: "value_char ws (CHR ''='')"
  by (simp add: value_char_def is_delim_def is_space_def ord_of_def)

lemma eq_not_delim [simp]: "\<not> is_delim (CHR ''='')"
  by (simp add: is_delim_def)

lemma REDACTED_value_chars [simp]: "list_all (value_char ws) REDACTED"
  by (simp add: REDACTED_def value_char_def is_delim_def is_space_def ord_of_def)

lemma REDACTED_not_Nil [simp]: "REDACTED \<noteq> []"
  by (simp add: REDACTED_def)

lemma pair_at_Some:
  assumes "pair_at ws s = Some (d, name, val, rest)"
  shows "s = d # name @ ''='' @ val @ rest" and "is_delim d" and "name \<noteq> []"
    and "list_all (name_char ws) name" and "list_all (value_char ws) val"
    and "rest \<noteq> [] \<Longrightarrow> \<not> value_char ws (hd rest)"
proof -
  from assms obtain t where s: "s = d # t" and d: "is_delim d"
    and n: "name = takeWhile (name_char ws) t" "name \<noteq> []"
    and e: "take 1 (dropWhile (name_char ws) t) = ''=''"
    and v: "val = takeWhile (value_char ws) (drop 1 (dropWhile (name_char ws) t))"
    and r: "rest = dropWhile (value_char ws) (drop 1 (dropWhile (name_char ws) t))"
    by (cases s) (auto simp: Let_def split: if_splits)
  have "dropWhile (name_char ws) t = ''='' @ drop 1 (dropWhile (name_char ws) t)"
    using e by (metis append_take_drop_id)
  then have "t = name @ ''='' @ val @ rest"
    using n v r by (metis takeWhile_dropWhile_id)
  then show "s = d # name @ ''='' @ val @ rest" using s by simp
  show "is_delim d" "name \<noteq> []" using d n by auto
  show "list_all (name_char ws) name" "list_all (value_char ws) val"
    unfolding n v list_all_iff by (auto dest: set_takeWhileD)
  show "rest \<noteq> [] \<Longrightarrow> \<not> value_char ws (hd rest)" unfolding r by (rule hd_dropWhile)
qed

lemma render_scan: "render_all (scan ws s) = s"
proof (induction ws s rule: scan.induct)
  case (2 ws c s)
  show ?case
  proof (cases "pair_at ws (c # s)")
    case None
    then show ?thesis using 2 by (simp del: pair_at.simps)
  next
    case (Some p)
    obtain d n v r where p: "p = (d, n, v, r)" by (cases p) auto
    then show ?thesis
      using 2(2) [of "(d, n, v, r)"] Some pair_at_Some(1) [of ws "c # s" d n v r]
      by (simp del: pair_at.simps)
  qed
qed simp

lemma pair_at_match:
  assumes "is_delim d" "name \<noteq> []" "list_all (name_char ws) name" "list_all (value_char ws) val"
    and "rest = [] \<or> \<not> value_char ws (hd rest)"
  shows "pair_at ws (d # name @ ''='' @ val @ rest) = Some (d, name, val, rest)"
proof -
  have ne: "\<not> name_char ws (CHR ''='')" by (simp add: name_char_def)
  have t: "takeWhile (name_char ws) (name @ ''='' @ val @ rest) = name"
    and dn: "dropWhile (name_char ws) (name @ ''='' @ val @ rest) = ''='' @ val @ rest"
    using assms(3) ne by (simp_all add: list_all_iff takeWhile_all dropWhile_all)
  have "takeWhile (value_char ws) (val @ rest) = val"
    and "dropWhile (value_char ws) (val @ rest) = rest"
    using assms(4,5)
    by (cases rest; simp add: list_all_iff takeWhile_all dropWhile_all)+
  then show ?thesis using t dn assms(1,2) by simp
qed

text \<open>Whether a pair starts at a character depends on the text up to the next delimiter.\<close>

lemma pair_at_None_iff:
  "pair_at ws (c # s) = None \<longleftrightarrow>
     \<not> (is_delim c \<and> takeWhile (name_char ws) s \<noteq> []
        \<and> take 1 (dropWhile (name_char ws) s) = ''='')"
  by (simp add: Let_def)

lemma run_in_prefix:
  "takeWhile (name_char ws) s = takeWhile (name_char ws) (takeWhile (\<lambda>c. \<not> is_delim c) s)"
  by (induction s) (auto dest: name_char_not_delim)

lemma stop_in_prefix:
  "take 1 (dropWhile (name_char ws) s) = ''='' \<longleftrightarrow>
     take 1 (dropWhile (name_char ws) (takeWhile (\<lambda>c. \<not> is_delim c) s)) = ''=''"
  by (induction s) (auto dest: name_char_not_delim)

lemma pair_at_None_cong:
  assumes "takeWhile (\<lambda>c. \<not> is_delim c) s = takeWhile (\<lambda>c. \<not> is_delim c) s'"
  shows "pair_at ws (c # s) = None \<longleftrightarrow> pair_at ws (c # s') = None"
  unfolding pair_at_None_iff
  by (subst (1 2) run_in_prefix, subst (1 2) stop_in_prefix) (simp only: assms)

section \<open>Scanning is stable under masking\<close>

text \<open>The token lists the scanner produces.\<close>

fun scanned :: "bool \<Rightarrow> token list \<Rightarrow> bool" where
  "scanned ws [] = True"
| "scanned ws (Lit c # ts) = (pair_at ws (c # render_all ts) = None \<and> scanned ws ts)"
| "scanned ws (Pair d name val # ts) =
     (is_delim d \<and> name \<noteq> [] \<and> list_all (name_char ws) name \<and> list_all (value_char ws) val
      \<and> (render_all ts = [] \<or> \<not> value_char ws (hd (render_all ts))) \<and> scanned ws ts)"

lemma scanned_scan: "scanned ws (scan ws s)"
proof (induction ws s rule: scan.induct)
  case (2 ws c s)
  show ?case
  proof (cases "pair_at ws (c # s)")
    case None
    then show ?thesis using 2(1) by (simp add: render_scan del: pair_at.simps)
  next
    case (Some p)
    obtain d n v r where p: "p = (d, n, v, r)" by (cases p) auto
    then show ?thesis
      using 2(2) [of "(d, n, v, r)"] Some pair_at_Some [of ws "c # s" d n v r]
      by (auto simp: render_scan simp del: pair_at.simps)
  qed
qed simp

lemma scan_render: "scanned ws ts \<Longrightarrow> scan ws (render_all ts) = ts"
proof (induction ws ts rule: scanned.induct)
  case (3 ws d name val ts)
  then show ?case
    using pair_at_match [of d name ws val "render_all ts"] by (simp del: pair_at.simps)
qed (simp_all del: pair_at.simps)

lemma prefix_mask [simp]:
  "scanned ws ts \<Longrightarrow>
   takeWhile (\<lambda>c. \<not> is_delim c) (render_all (map (mask_pair sens) ts))
     = takeWhile (\<lambda>c. \<not> is_delim c) (render_all ts)"
  by (induction ws ts rule: scanned.induct) auto

lemma head_mask:
  "ts \<noteq> [] \<Longrightarrow> render_all (map (mask_pair sens) ts) \<noteq> []
     \<and> render_all ts \<noteq> [] \<and> hd (render_all (map (mask_pair sens) ts)) = hd (render_all ts)"
  by (cases ts; cases "hd ts") auto

lemma scanned_mask: "scanned ws ts \<Longrightarrow> scanned ws (map (mask_pair sens) ts)"
proof (induction ws ts rule: scanned.induct)
  case (2 ws c ts)
  then show ?case
    using pair_at_None_cong [OF prefix_mask [of ws ts sens], of ws c] by (simp del: pair_at.simps)
next
  case (3 ws d name val ts)
  then show ?case
    using head_mask [of ts sens] by (cases "ts = []") auto
qed simp

lemma scan_prefix: "list_all (\<lambda>c. \<not> is_delim c) pre \<Longrightarrow> scan ws (pre @ s) = map Lit pre @ scan ws s"
proof (induction pre)
  case (Cons c pre)
  then have "pair_at ws (c # pre @ s) = None" by (simp add: pair_at_None_iff del: pair_at.simps)
  then show ?case using Cons by (simp del: pair_at.simps)
qed simp

lemma render_all_Lit [simp]: "render_all (map Lit s) = s"
  by (induction s) auto

lemma mask_pair_Lit [simp]: "map (mask_pair sens) (map Lit s) = map Lit s"
  by simp

lemma sub_pairs_prefix:
  "list_all (\<lambda>c. \<not> is_delim c) pre \<Longrightarrow> sub_pairs ws sens (pre @ s) = pre @ sub_pairs ws sens s"
  using mask_pair_Lit [of sens pre]
  by (simp add: sub_pairs_def scan_prefix del: mask_pair_Lit map_map)

lemma sub_pairs_Nil_iff [simp]: "sub_pairs ws sens s = [] \<longleftrightarrow> s = []"
proof -
  have "render_all (map (mask_pair sens) ts) = [] \<longleftrightarrow> ts = []" for ts
    using head_mask [of ts sens] by (cases "ts = []") auto
  moreover have "scan ws s = [] \<longleftrightarrow> s = []"
    by (cases s) (auto split: option.splits)
  ultimately show ?thesis by (simp add: sub_pairs_def)
qed

lemma hd_sub_pairs: "s \<noteq> [] \<Longrightarrow> hd (sub_pairs ws sens s) = hd s"
proof -
  assume s: "s \<noteq> []"
  then have "scan ws s \<noteq> []" by (cases s) (auto split: option.splits)
  then show ?thesis
    using head_mask [of "scan ws s" sens] by (simp add: sub_pairs_def render_scan)
qed

lemma mask_pair_idem [simp]: "mask_pair sens (mask_pair sens t) = mask_pair sens t"
  by (cases t) auto

section \<open>Properties\<close>

text \<open>
  C39. Masking the pairs of a text touches nothing but sensitive values: what the pattern finds in a text
  makes up the text, and in the masked text it finds exactly the same pairs, the delimiters, the names
  and the text between them unchanged, with the value of each name that is sensitive, as it stands
  or percent-decoded and without regard to case, replaced by the mark and every other value as it
  was. So a second pass over the output of the first cannot find a sensitive value that
  the first one missed.
\<close>

theorem masking_keeps_the_structure:
  "render_all (scan ws s) = s \<and> scan ws (sub_pairs ws sensitive s) = map (\<lambda>t. case t of
       Lit c \<Rightarrow> Lit c
     | Pair d name val \<Rightarrow> Pair d name
         (if str_casefold name \<in> set sensitive \<or> str_casefold (unquote name) \<in> set sensitive
          then ''***redacted***'' else val)) (scan ws s)"
proof -
  have "scan ws (sub_pairs ws sensitive s) = map (mask_pair sensitive) (scan ws s)"
    unfolding sub_pairs_def by (intro scan_render scanned_mask scanned_scan)
  moreover have "mask_pair sensitive = (\<lambda>t. case t of
       Lit c \<Rightarrow> Lit c
     | Pair d name val \<Rightarrow> Pair d name
         (if str_casefold name \<in> set sensitive \<or> str_casefold (unquote name) \<in> set sensitive
          then ''***redacted***'' else val))"
    by (rule ext) (auto simp: is_sensitive_def REDACTED_def split: token.split)
  ultimately show ?thesis by (simp add: render_scan)
qed

end
