(* ===== verification/Url.thy ===== *)
theory Url
  imports Redaction_Urls Errors
begin

text \<open>
  \<open>urllib.parse\<close> as the source uses it (Python 3.12): \<open>urlsplit\<close> with its lazy \<open>hostname\<close> and
  \<open>port\<close>, \<open>urlunsplit\<close>, \<open>urlparse\<close> and \<open>urljoin\<close>. What the \<open>ipaddress\<close> module says of a
  bracketed host is the argument \<open>ip6\<close>. On Latin-1 text \<open>_checknetloc\<close> never raises.
\<close>

section \<open>Splitting\<close>

record split_url =
  su_scheme :: string
  su_netloc :: string
  su_path :: string
  su_query :: string
  su_fragment :: string

abbreviation value_error :: exn where
  "value_error \<equiv> Exn (Ext ''ValueError'') None"

definition is_hex :: "char \<Rightarrow> bool" where
  "is_hex c = (hex_val c \<noteq> None)"

definition bracketed_host_ok :: "(string \<Rightarrow> bool) \<Rightarrow> string \<Rightarrow> bool" where
  "bracketed_host_ok ip6 h =
     (if starts_with ''v'' h then
        let rest = dropWhile is_hex (drop 1 h)
        in takeWhile is_hex (drop 1 h) \<noteq> [] \<and> starts_with ''.'' rest \<and> 2 \<le> length rest
      else ip6 h)"

definition bracketed_netloc_ok :: "(string \<Rightarrow> bool) \<Rightarrow> string \<Rightarrow> bool" where
  "bracketed_netloc_ok ip6 netloc =
     (let (_, _, hostport) = str_rpartition (CHR ''@'') netloc;
          (pre, found, bracketed) = str_partition (CHR ''['') hostport
      in if found then
           let (h, _, port) = str_partition (CHR '']'') bracketed
           in pre = [] \<and> (port = [] \<or> starts_with '':'' port) \<and> bracketed_host_ok ip6 h
         else bracketed_host_ok ip6 (fst (str_partition (CHR '':'') hostport)))"

definition netloc_ok :: "(string \<Rightarrow> bool) \<Rightarrow> string \<Rightarrow> bool" where
  "netloc_ok ip6 netloc =
     (let opens = CHR ''['' \<in> set netloc; closes = CHR '']'' \<in> set netloc
      in (opens \<longleftrightarrow> closes) \<and> (opens \<longrightarrow> bracketed_netloc_ok ip6 netloc))"

text \<open>
  The scheme and what follows it. The default scheme is used where the text names none; the
  callers pass the empty text or a scheme that was itself split off.
\<close>

definition split_scheme :: "string \<Rightarrow> string \<Rightarrow> string \<times> string" where
  "split_scheme dflt u =
     (case find_char (CHR '':'') u of
        Some i \<Rightarrow>
          if 0 < i \<and> is_ascii_alpha (hd u) \<and> list_all scheme_char (take i u)
          then (str_lower (take i u), drop (i + 1) u) else (dflt, u)
      | None \<Rightarrow> (dflt, u))"

definition urlsplit :: "(string \<Rightarrow> bool) \<Rightarrow> string \<Rightarrow> string \<Rightarrow> exn + split_url" where
  "urlsplit ip6 dflt url =
     (let u = filter (\<lambda>c. \<not> is_url_ignored c) (lstrip_by is_c0_or_space url);
          (scheme, rest) = split_scheme dflt u;
          has_netloc = (take 2 rest = ''//'');
          netloc = (if has_netloc then takeWhile (\<lambda>c. \<not> is_authority_end c) (drop 2 rest) else []);
          rest2 = (if has_netloc then dropWhile (\<lambda>c. \<not> is_authority_end c) (drop 2 rest) else rest);
          (rest3, _, fragment) = str_partition (CHR ''#'') rest2;
          (path, _, query) = str_partition (CHR ''?'') rest3
      in if netloc_ok ip6 netloc
         then Inr \<lparr>su_scheme = scheme, su_netloc = netloc, su_path = path, su_query = query,
                   su_fragment = fragment\<rparr>
         else Inl value_error)"

definition host_and_port :: "string \<Rightarrow> string \<times> string option" where
  "host_and_port netloc =
     (let (_, _, hostinfo) = str_rpartition (CHR ''@'') netloc;
          (_, bracket, bracketed) = str_partition (CHR ''['') hostinfo;
          (hostname, port) =
            (if bracket then
               let (h, _, p) = str_partition (CHR '']'') bracketed;
                   (_, _, p') = str_partition (CHR '':'') p
               in (h, p')
             else let (h, _, p) = str_partition (CHR '':'') hostinfo in (h, p))
      in (hostname, if port = [] then None else Some port))"

definition su_hostname :: "split_url \<Rightarrow> string option" where
  "su_hostname s =
     (let h = fst (host_and_port (su_netloc s))
      in if h = [] then None
         else let (name, percent, zone) = str_partition (CHR ''%'') h
              in Some (str_lower name @ (if percent then ''%'' else []) @ zone))"

text \<open>Reading the port is where a port that is no port raises.\<close>

definition su_port :: "split_url \<Rightarrow> exn + int option" where
  "su_port s =
     (case snd (host_and_port (su_netloc s)) of
        None \<Rightarrow> Inr None
      | Some p \<Rightarrow>
          if list_all is_digit p then
            (case unsigned_of_text p of
               Some n \<Rightarrow> if n \<le> 65535 then Inr (Some n) else Inl value_error
             | None \<Rightarrow> Inl value_error)
          else Inl value_error)"

section \<open>Joining\<close>

definition USES_RELATIVE :: "string list" where
  "USES_RELATIVE =
    ['''', ''ftp'', ''http'', ''gopher'', ''nntp'', ''imap'', ''wais'', ''file'', ''https'',
     ''shttp'', ''mms'', ''prospero'', ''rtsp'', ''rtsps'', ''rtspu'', ''sftp'', ''svn'',
     ''svn+ssh'', ''ws'', ''wss'']"

definition USES_PARAMS :: "string list" where
  "USES_PARAMS =
    ['''', ''ftp'', ''hdl'', ''prospero'', ''http'', ''imap'', ''https'', ''shttp'', ''rtsp'',
     ''rtsps'', ''rtspu'', ''sip'', ''sips'', ''mms'', ''sftp'', ''tel'']"

definition urlunsplit :: "split_url \<Rightarrow> string" where
  "urlunsplit s =
     (let path = su_path s;
          u1 = (if su_netloc s \<noteq> [] \<or> (su_scheme s \<noteq> [] \<and> su_scheme s \<in> set NETLOC_SCHEMES
                    \<and> take 2 path \<noteq> ''//'')
                then ''//'' @ su_netloc s @ (if path \<noteq> [] \<and> take 1 path \<noteq> ''/'' then ''/'' @ path else path)
                else path);
          u2 = (if su_scheme s \<noteq> [] then su_scheme s @ '':'' @ u1 else u1);
          u3 = (if su_query s \<noteq> [] then u2 @ ''?'' @ su_query s else u2)
      in if su_fragment s \<noteq> [] then u3 @ ''#'' @ su_fragment s else u3)"

text \<open>\<open>_splitparams\<close>, guarded as in \<open>urlparse\<close>: the path and its parameters.\<close>

definition split_params :: "string \<Rightarrow> string \<Rightarrow> string \<times> string" where
  "split_params scheme path =
     (if scheme \<in> set USES_PARAMS \<and> CHR '';'' \<in> set path then
        let (dir, slash, base) = str_rpartition (CHR ''/'') path;
            (pre, found, params) = str_partition (CHR '';'') base
        in if found then (dir @ (if slash then ''/'' else []) @ pre, params) else (path, [])
      else (path, []))"

text \<open>\<open>urlunparse\<close>: parameters are put back behind the path.\<close>

definition urlunparse :: "string \<Rightarrow> string \<Rightarrow> string \<Rightarrow> string \<Rightarrow> string \<Rightarrow> string \<Rightarrow> string" where
  "urlunparse scheme netloc path params query fragment =
     urlunsplit \<lparr>su_scheme = scheme, su_netloc = netloc,
       su_path = (if params = [] then path else path @ '';'' @ params),
       su_query = query, su_fragment = fragment\<rparr>"

fun resolve_segments :: "string list \<Rightarrow> string list \<Rightarrow> string list" where
  "resolve_segments acc [] = acc"
| "resolve_segments acc (seg # segs) =
     (if seg = ''..'' then resolve_segments (butlast acc) segs
      else if seg = ''.'' then resolve_segments acc segs
      else resolve_segments (acc @ [seg]) segs)"

text \<open>\<open>segments[1:-1] = filter(None, segments[1:-1])\<close>.\<close>

definition filter_inner :: "string list \<Rightarrow> string list" where
  "filter_inner segs =
     (if length segs \<le> 2 then segs
      else hd segs # filter (\<lambda>s. s \<noteq> []) (butlast (tl segs)) @ [last segs])"

definition join_path :: "string \<Rightarrow> string \<Rightarrow> string" where
  "join_path bpath path =
     (let base_parts = str_split (CHR ''/'') bpath;
          base = (if last base_parts \<noteq> [] then butlast base_parts else base_parts);
          segments = (if take 1 path = ''/'' then str_split (CHR ''/'') path
                      else filter_inner (base @ str_split (CHR ''/'') path));
          resolved = resolve_segments [] segments;
          resolved2 = (if last segments \<in> {''.'', ''..''} then resolved @ [[]] else resolved);
          joined = str_join ''/'' resolved2
      in if joined = [] then ''/'' else joined)"

definition urljoin :: "(string \<Rightarrow> bool) \<Rightarrow> string \<Rightarrow> string \<Rightarrow> exn + string" where
  "urljoin ip6 base url =
     (if base = [] then Inr url
      else if url = [] then Inr base
      else rbind (urlsplit ip6 [] base) (\<lambda>b. rbind (urlsplit ip6 (su_scheme b) url) (\<lambda>u.
        let (bpath, bparams) = split_params (su_scheme b) (su_path b);
            (path, params) = split_params (su_scheme u) (su_path u);
            scheme = su_scheme u
        in Inr (
          if scheme \<noteq> su_scheme b \<or> scheme \<notin> set USES_RELATIVE then url
          else if scheme \<in> set NETLOC_SCHEMES \<and> su_netloc u \<noteq> [] then
            urlunparse scheme (su_netloc u) path params (su_query u) (su_fragment u)
          else
            let netloc = (if scheme \<in> set NETLOC_SCHEMES then su_netloc b else su_netloc u)
            in if path = [] \<and> params = [] then
                 urlunparse scheme netloc bpath bparams
                   (if su_query u = [] then su_query b else su_query u) (su_fragment u)
               else urlunparse scheme netloc (join_path bpath path) params (su_query u)
                      (su_fragment u)))))"

section \<open>Facts\<close>

lemma str_lower_scheme [simp]: "split_scheme [] u = (s, r) \<Longrightarrow> str_lower s = s"
  by (auto simp: split_scheme_def split: option.splits if_splits)

lemma urlsplit_scheme_lower: "urlsplit ip6 [] u = Inr s \<Longrightarrow> str_lower (su_scheme s) = su_scheme s"
  by (auto simp: urlsplit_def Let_def split: prod.splits if_splits)

lemma urlsplit_value_error: "urlsplit ip6 d u = Inl e \<Longrightarrow> e = value_error"
  by (auto simp: urlsplit_def Let_def split: prod.splits if_splits)

lemma urljoin_value_error: "urljoin ip6 b u = Inl e \<Longrightarrow> e = value_error"
  by (auto simp: urljoin_def rbind_eq_Inl Let_def case_prod_beta split: if_splits
      dest: urlsplit_value_error)

lemma su_port_value_error: "su_port s = Inl e \<Longrightarrow> e = value_error"
  by (auto simp: su_port_def split: option.splits if_splits)

lemma su_port_range: "su_port s = Inr (Some n) \<Longrightarrow> 0 \<le> n \<and> n \<le> 65535"
  by (auto simp: su_port_def unsigned_of_text_nonneg split: option.splits if_splits)

end
