(* ===== verification/Causes.thy ===== *)
theory Causes
  imports Errors Redaction_Urls
begin

text \<open>
  \<open>_cause_chain\<close> and \<open>unwrap_cause\<close> of \<open>utils/exceptions.py\<close>: following the causes of an
  exception, by identity, and making of them the two texts the envelope carries. A heap gives
  the exception object each identity denotes.
\<close>

section \<open>Operations\<close>

text \<open>\<open>type(exc).__name__\<close>; the name of a class that is not the library's carries its module.\<close>

fun class_name :: "exc_class \<Rightarrow> string" where
  "class_name AsyncGatewayError = ''AsyncGatewayError''"
| "class_name ConfigurationError = ''ConfigurationError''"
| "class_name UnsupportedVerbError = ''UnsupportedVerbError''"
| "class_name ProcessorError = ''ProcessorError''"
| "class_name SerializationError = ''SerializationError''"
| "class_name UnsafeXmlError = ''UnsafeXmlError''"
| "class_name PathContainmentError = ''PathContainmentError''"
| "class_name LocalWriteError = ''LocalWriteError''"
| "class_name TransportError = ''TransportError''"
| "class_name ConnectError = ''ConnectError''"
| "class_name DnsError = ''DnsError''"
| "class_name TlsError = ''TlsError''"
| "class_name HostKeyError = ''HostKeyError''"
| "class_name GatewayTimeoutError = ''GatewayTimeoutError''"
| "class_name ResponseTooLargeError = ''ResponseTooLargeError''"
| "class_name ResponseTooDeepError = ''ResponseTooDeepError''"
| "class_name CircuitOpenError = ''CircuitOpenError''"
| "class_name StackExhaustedError = ''StackExhaustedError''"
| "class_name GcsCapacityError = ''GcsCapacityError''"
| "class_name ProtocolError = ''ProtocolError''"
| "class_name HttpStatusError = ''HttpStatusError''"
| "class_name JsonRpcError = ''JsonRpcError''"
| "class_name JsonRpcProtocolError = ''JsonRpcProtocolError''"
| "class_name GraphqlError = ''GraphqlError''"
| "class_name GraphqlProtocolError = ''GraphqlProtocolError''"
| "class_name S3StatusError = ''S3StatusError''"
| "class_name GcsStatusError = ''GcsStatusError''"
| "class_name GrpcStatusError = ''GrpcStatusError''"
| "class_name FtpStatusError = ''FtpStatusError''"
| "class_name SftpStatusError = ''SftpStatusError''"
| "class_name SoapFaultError = ''SoapFaultError''"
| "class_name AbortableServiceError = ''AbortableServiceError''"
| "class_name GrpcAbortableStatusFailure = ''_GrpcAbortableStatusFailure''"
| "class_name (Ext n) = snd (snd (str_rpartition (CHR ''.'') n))"

definition CAUSE_CHAIN_MAX_DEPTH :: nat where
  "CAUSE_CHAIN_MAX_DEPTH = 10"

definition following :: "(nat \<Rightarrow> exc_obj) \<Rightarrow> nat \<Rightarrow> nat option" where
  "following heap link =
     (case ex_cause (heap link) of Some c \<Rightarrow> Some c | None \<Rightarrow> ex_context (heap link))"

text \<open>
  The loop of \<open>_cause_chain\<close> with \<open>n\<close> turns left. Its set \<open>seen\<close> holds the members of the
  chain and nothing else.
\<close>

fun chain_loop :: "(nat \<Rightarrow> exc_obj) \<Rightarrow> nat \<Rightarrow> nat \<Rightarrow> nat list \<Rightarrow> nat list" where
  "chain_loop heap 0 link chain = chain"
| "chain_loop heap (Suc n) link chain =
     (case following heap link of
        None \<Rightarrow> chain
      | Some f \<Rightarrow> if f \<in> set chain then chain else chain_loop heap n f (chain @ [f]))"

definition cause_chain :: "(nat \<Rightarrow> exc_obj) \<Rightarrow> nat \<Rightarrow> nat \<Rightarrow> nat list" where
  "cause_chain heap exc max_depth = chain_loop heap max_depth exc [exc]"

definition unwrap_cause ::
  "(nat \<Rightarrow> exc_obj) \<Rightarrow> nat \<Rightarrow> nat \<Rightarrow> string list \<Rightarrow> string \<times> string option" where
  "unwrap_cause heap exc max_depth redact_params =
     (let chain = cause_chain heap exc max_depth;
          texts = filter (\<lambda>l. ex_text (heap l) \<noteq> []) (tl chain);
          own = ex_text (heap exc); own_type = class_name (ex_class (heap exc))
      in if texts = []
         then (redact_text (if own = [] then own_type else own) redact_params, None)
         else
           let deepest = heap (last texts);
               cause = class_name (ex_class deepest) @ '': '' @ ex_text deepest;
               message = (if own = [] then own_type @ '': '' @ ex_text deepest else own)
           in (redact_text message redact_params, Some (redact_text cause redact_params)))"

section \<open>The chain\<close>

text \<open>
  What a chain is: each member follows the one before it, none occurs twice, and it ends where
  nothing new follows or where the bound is reached.
\<close>

definition linked :: "(nat \<Rightarrow> exc_obj) \<Rightarrow> nat list \<Rightarrow> bool" where
  "linked heap chain = successively (\<lambda>a b. following heap a = Some b) chain"

lemma linked_snoc:
  "linked heap chain \<Longrightarrow> chain \<noteq> [] \<Longrightarrow> following heap (last chain) = Some f \<Longrightarrow> linked heap (chain @ [f])"
  by (simp add: linked_def successively_append_iff)

lemma chain_loop_extends: "\<exists>t. chain_loop heap n link chain = chain @ t \<and> length t \<le> n"
proof (induction heap n link chain rule: chain_loop.induct)
  case (2 heap n link chain)
  show ?case
  proof (cases "following heap link")
    case (Some f)
    then show ?thesis
      using 2 [OF Some] by (cases "f \<in> set chain") force+
  qed simp
qed simp

lemma chain_loop_linked:
  "linked heap chain \<Longrightarrow> distinct chain \<Longrightarrow> chain \<noteq> [] \<Longrightarrow> last chain = link \<Longrightarrow>
   linked heap (chain_loop heap n link chain) \<and> distinct (chain_loop heap n link chain)"
proof (induction heap n link chain rule: chain_loop.induct)
  case (2 heap n link chain)
  show ?case
  proof (cases "following heap link")
    case (Some f)
    then show ?thesis using 2(1) [OF Some] linked_snoc [of heap chain f] 2(2-5) by (cases "f \<in> set chain") auto
  qed (use 2 in simp)
qed simp

lemma chain_loop_stops:
  "chain \<noteq> [] \<Longrightarrow> last chain = link \<Longrightarrow> r = chain_loop heap n link chain \<Longrightarrow>
   length r = length chain + n \<or> following heap (last r) = None
     \<or> (\<exists>f \<in> set r. following heap (last r) = Some f)"
proof (induction heap n link chain rule: chain_loop.induct)
  case (2 heap n link chain)
  show ?case
  proof (cases "following heap link")
    case (Some f)
    then show ?thesis using 2(1) [OF Some] 2(2-4) by (cases "f \<in> set chain") auto
  qed (use 2 in simp)
qed simp

lemma chain_nonempty [simp]: "cause_chain heap exc n \<noteq> []" "hd (cause_chain heap exc n) = exc"
  using chain_loop_extends [of heap n exc "[exc]"] by (auto simp: cause_chain_def)

lemma class_name_not_Nil: "is_lib c \<Longrightarrow> class_name c \<noteq> []"
  by (cases c) simp_all

section \<open>Properties\<close>

text \<open>
  C40. Following causes ends, whatever the heap: the chain starts with the exception itself, has
  at most the bound and one links, never visits an exception twice, each link is the cause (or
  else the context) of the one before, and it stops short of the bound only where nothing
  follows or where what follows was visited. So a cycle of causes is cut, not followed.
\<close>

theorem cause_chain_ends:
  "hd (cause_chain heap exc n) = exc \<and> length (cause_chain heap exc n) \<le> n + 1
   \<and> distinct (cause_chain heap exc n) \<and> linked heap (cause_chain heap exc n)
   \<and> (length (cause_chain heap exc n) = n + 1 \<or> following heap (last (cause_chain heap exc n)) = None
      \<or> the (following heap (last (cause_chain heap exc n))) \<in> set (cause_chain heap exc n))"
proof -
  have "length (cause_chain heap exc n) \<le> n + 1"
    using chain_loop_extends [of heap n exc "[exc]"] by (auto simp: cause_chain_def)
  moreover have "linked heap (cause_chain heap exc n)" "distinct (cause_chain heap exc n)"
    using chain_loop_linked [of heap "[exc]" exc n] by (simp_all add: cause_chain_def linked_def)
  ultimately show ?thesis
    using chain_loop_stops [of "[exc]" exc "cause_chain heap exc n" heap n]
    by (auto simp: cause_chain_def [symmetric] option.the_def split: option.splits)
qed

text \<open>
  The message of a library exception is never empty, however empty its own text and its
  causes are, and both texts come out of the redactor: there is a text of which the message is
  the redaction.
\<close>

theorem message_is_never_empty:
  assumes "is_lib (ex_class (heap exc))"
  shows "fst (unwrap_cause heap exc n params) \<noteq> []
    \<and> fst (unwrap_cause heap exc n params) \<in> range (\<lambda>s. redact_text s params)
    \<and> snd (unwrap_cause heap exc n params) \<in> insert None (range (\<lambda>s. Some (redact_text s params)))"
  using class_name_not_Nil [OF assms] by (auto simp: unwrap_cause_def Let_def redact_text_not_Nil)

theorem message_is_never_empty_witness:
  "fst (unwrap_cause (\<lambda>_. new_gateway_error CircuitOpenError [] None) 0 CAUSE_CHAIN_MAX_DEPTH []) \<noteq> []"
  using message_is_never_empty [of "\<lambda>_. new_gateway_error CircuitOpenError [] None" 0] by simp

end
