(* ===== verification/Redaction.thy ===== *)
theory Redaction
  imports Redaction_Urls Pyval
begin

text \<open>
  \<open>utils/redaction.py\<close>, the part that hides values inside structures: header and cookie
  mappings, and the recursion of \<open>_redact_recursive\<close> over a payload. The text of a key that is
  no string is what its class makes of \<open>str(key)\<close>, the argument \<open>str_of\<close> of the definitions.
\<close>

section \<open>Operations\<close>

definition key_text :: "(pyval \<Rightarrow> string) \<Rightarrow> pyval \<Rightarrow> string" where
  "key_text str_of k = (case k of PStr s \<Rightarrow> s | _ \<Rightarrow> str_of k)"

definition normalise_param_names :: "(pyval \<Rightarrow> string) \<Rightarrow> pyval \<Rightarrow> string list" where
  "normalise_param_names str_of raw =
     (case raw of
        PNone \<Rightarrow> []
      | PStr s \<Rightarrow> [str_casefold s]
      | _ \<Rightarrow> if is_collection raw then map (\<lambda>n. str_casefold (key_text str_of n)) (elements raw)
            else [str_casefold (key_text str_of raw)])"

definition redact_headers :: "(string, string) dict \<Rightarrow> (string, string) dict" where
  "redact_headers headers =
     map (\<lambda>(name, val). (name, if str_casefold name \<in> set SENSITIVE_HEADERS then REDACTED else val))
       headers"

definition redact_cookies :: "(string, string) dict \<Rightarrow> (string, string) dict" where
  "redact_cookies cookies = map (\<lambda>(name, _). (name, REDACTED)) cookies"

text \<open>The tests are in the order of the source: a \<open>BasicAuth\<close> is masked at any depth.\<close>

fun redact_recursive :: "(pyval \<Rightarrow> string) \<Rightarrow> string list \<Rightarrow> nat \<Rightarrow> pyval \<Rightarrow> pyval" where
  "redact_recursive str_of names depth (PBasicAuth l p) = PStr REDACTED"
| "redact_recursive str_of names 0 v = v"
| "redact_recursive str_of names (Suc depth) (PDict kvs) =
     PDict (map (\<lambda>(k, item).
       (k, if str_casefold (key_text str_of k) \<in> set names then PStr REDACTED
           else redact_recursive str_of names depth item)) kvs)"
| "redact_recursive str_of names (Suc depth) (PList xs) =
     PList (map (redact_recursive str_of names depth) xs)"
| "redact_recursive str_of names (Suc depth) (PTuple xs) =
     PList (map (redact_recursive str_of names depth) xs)"
| "redact_recursive str_of names (Suc depth) v = v"

definition redact_payload :: "(pyval \<Rightarrow> string) \<Rightarrow> pyval \<Rightarrow> pyval" where
  "redact_payload str_of payload =
     redact_recursive str_of SENSITIVE_NAMES PAYLOAD_REDACTION_DEPTH payload"

definition redact_value :: "(pyval \<Rightarrow> string) \<Rightarrow> string list \<Rightarrow> pyval \<Rightarrow> pyval" where
  "redact_value str_of extra_params v =
     (case v of
        PBasicAuth l p \<Rightarrow> PStr REDACTED
      | PStr s \<Rightarrow> PStr (redact_url (redact_text s extra_params) extra_params)
      | _ \<Rightarrow> redact_recursive str_of ALL_SENSITIVE_NAMES PAYLOAD_REDACTION_DEPTH v)"

section \<open>What must not be left\<close>

text \<open>
  A value shows a secret within a depth when it is a \<open>BasicAuth\<close>, or when a mapping reached
  through that many containers has a sensitive name with a value that is not the mark.
\<close>

fun shows_secret :: "(pyval \<Rightarrow> string) \<Rightarrow> string list \<Rightarrow> nat \<Rightarrow> pyval \<Rightarrow> bool" where
  "shows_secret str_of names depth (PBasicAuth l p) = True"
| "shows_secret str_of names 0 v = False"
| "shows_secret str_of names (Suc depth) (PDict kvs) =
     list_ex (\<lambda>(k, item).
       if str_casefold (key_text str_of k) \<in> set names then item \<noteq> PStr REDACTED
       else shows_secret str_of names depth item) kvs"
| "shows_secret str_of names (Suc depth) (PList xs) = list_ex (shows_secret str_of names depth) xs"
| "shows_secret str_of names (Suc depth) (PTuple xs) = list_ex (shows_secret str_of names depth) xs"
| "shows_secret str_of names (Suc depth) v = False"

text \<open>The specification of what is kept: equal up to masked places and tuples read as lists.\<close>

fun same_shape :: "nat \<Rightarrow> pyval \<Rightarrow> pyval \<Rightarrow> bool" where
  "same_shape 0 a b = (a = b \<or> b = PStr REDACTED)"
| "same_shape (Suc depth) a b = (b = PStr REDACTED \<or>
     (case a of
        PDict kvs \<Rightarrow> (case b of PDict kvs' \<Rightarrow>
            map fst kvs' = map fst kvs \<and> list_all2 (\<lambda>x y. same_shape depth (snd x) (snd y)) kvs kvs'
          | _ \<Rightarrow> False)
      | PList xs \<Rightarrow> (case b of PList ys \<Rightarrow> list_all2 (same_shape depth) xs ys | _ \<Rightarrow> False)
      | PTuple xs \<Rightarrow> (case b of PList ys \<Rightarrow> list_all2 (same_shape depth) xs ys | _ \<Rightarrow> False)
      | _ \<Rightarrow> b = a))"

section \<open>Lemmas\<close>

lemma mark_shows_nothing [simp]: "\<not> shows_secret str_of names depth (PStr REDACTED)"
  by (cases depth) simp_all

lemma redact_recursive_clean:
  "\<not> shows_secret str_of names depth (redact_recursive str_of names depth v)"
proof (induction str_of names depth v rule: redact_recursive.induct)
  case (3 str_of names depth kvs)
  then show ?case by (auto simp: list_ex_iff split: if_splits)
qed (auto simp: list_ex_iff)

lemma redact_recursive_idem:
  "redact_recursive str_of names depth (redact_recursive str_of names depth v) =
     redact_recursive str_of names depth v"
proof (induction str_of names depth v rule: redact_recursive.induct)
  case (1 str_of names depth l p)
  show ?case by (cases depth) simp_all
qed auto

lemma same_shape_mark [simp]: "same_shape depth a (PStr REDACTED)"
  by (cases depth) simp_all

lemma redact_recursive_shape: "same_shape depth v (redact_recursive str_of names depth v)"
proof (induction str_of names depth v rule: redact_recursive.induct)
  case (3 str_of names depth kvs)
  have "same_shape depth item (redact_recursive str_of names depth item)"
    if "(k, item) \<in> set kvs" "str_casefold (key_text str_of k) \<notin> set names" for k item
    using 3 [OF that(1) refl that(2)] .
  then show ?case by (auto simp: list_all2_map2 comp_def case_prod_beta list_all2_same)
qed (auto simp: list_all2_conv_all_nth)

section \<open>Properties\<close>

text \<open>
  The payload echo carries no secret within the depth: after \<open>redact_payload\<close> no mapping
  reached through fewer than four containers has a sensitive name with a value of its own, and no
  \<open>BasicAuth\<close> is left there; everything else is as it was, keys, order and leaves, and a second
  redaction changes nothing.
\<close>

theorem payload_echo_is_masked:
  "\<not> shows_secret str_of SENSITIVE_NAMES PAYLOAD_REDACTION_DEPTH (redact_payload str_of v)
   \<and> same_shape PAYLOAD_REDACTION_DEPTH v (redact_payload str_of v)
   \<and> redact_payload str_of (redact_payload str_of v) = redact_payload str_of v"
  by (simp add: redact_payload_def redact_recursive_clean redact_recursive_shape redact_recursive_idem)

text \<open>
  Every header the library calls sensitive is masked, in any spelling of its name, and no
  other header is changed; the order and the names stay. Every cookie value is masked.
\<close>

theorem headers_and_cookies_are_masked:
  "dict_keys (redact_headers hs) = dict_keys hs
   \<and> filter (\<lambda>(n, v). str_casefold n \<in> set SENSITIVE_HEADERS \<and> v \<noteq> REDACTED) (redact_headers hs) = []
   \<and> filter (\<lambda>(n, v). str_casefold n \<notin> set SENSITIVE_HEADERS) (redact_headers hs)
       = filter (\<lambda>(n, v). str_casefold n \<notin> set SENSITIVE_HEADERS) hs
   \<and> redact_cookies cs = map (\<lambda>n. (n, REDACTED)) (dict_keys cs)"
  by (induction hs) (auto simp: redact_headers_def redact_cookies_def)

end
