(* ===== verification/Envelope.thy ===== *)
theory Envelope
  imports Causes Redaction
begin

text \<open>
  \<open>utils/envelope.py\<close>: the response envelope as a record, built once and sealed once, and the
  clock of \<open>helpers/common/date_helper.py\<close>. The time of day and the monotonic clock are
  arguments. The request tracer and the two processor responses are filled in by the entry
  point.
\<close>

section \<open>State\<close>

record gateway_error =
  ge_type :: string
  ge_code :: string
  ge_message :: string
  ge_cause :: "string option"

record envelope =
  env_ok :: bool
  env_status :: int
  env_protocol :: string
  env_url :: string
  env_request_time :: string
  env_latency :: rat
  env_payload :: pyval
  env_text :: string
  env_json :: pyval
  env_headers :: "(string, string) dict"
  env_cookies :: "(string, string) dict"
  env_error :: "gateway_error option"
  env_details :: "(string, pyval) dict"
  env_tracer :: "pyval list"
  env_pre :: pyval
  env_post :: pyval

definition STATUS_UNSET :: int where
  "STATUS_UNSET = 0"

section \<open>Operations\<close>

definition elapsed_since :: "rat \<Rightarrow> rat \<Rightarrow> rat" where
  "elapsed_since now started = max 0 (now - started)"

definition new_envelope :: "string \<Rightarrow> string \<Rightarrow> string \<Rightarrow> pyval \<Rightarrow> string list \<Rightarrow> envelope" where
  "new_envelope now_iso url protocol payload redact_query_params =
     \<lparr>env_ok = False, env_status = STATUS_UNSET, env_protocol = protocol,
      env_url = redact_url url redact_query_params, env_request_time = now_iso,
      env_latency = 0, env_payload = payload, env_text = [], env_json = PNone,
      env_headers = [], env_cookies = [], env_error = None, env_details = [],
      env_tracer = [], env_pre = PNone, env_post = PNone\<rparr>"

definition seal :: "(pyval \<Rightarrow> string) \<Rightarrow> rat \<Rightarrow> int \<Rightarrow> rat \<Rightarrow> envelope \<Rightarrow> envelope" where
  "seal str_of now status started env =
     env\<lparr>env_status := status, env_latency := elapsed_since now started,
         env_payload := redact_payload str_of (env_payload env)\<rparr>"

definition finalise_ok :: "(pyval \<Rightarrow> string) \<Rightarrow> rat \<Rightarrow> int \<Rightarrow> rat \<Rightarrow> envelope \<Rightarrow> envelope" where
  "finalise_ok str_of now status started env =
     seal str_of now status started (env\<lparr>env_ok := True, env_error := None\<rparr>)"

definition finalise_error ::
  "(pyval \<Rightarrow> string) \<Rightarrow> rat \<Rightarrow> (nat \<Rightarrow> exc_obj) \<Rightarrow> nat \<Rightarrow> rat \<Rightarrow> string list \<Rightarrow> envelope \<Rightarrow> envelope" where
  "finalise_error str_of now heap exc started redact_query_params env =
     (let (message, cause) = unwrap_cause heap exc CAUSE_CHAIN_MAX_DEPTH redact_query_params
      in seal str_of now (ex_status (heap exc)) started
           (env\<lparr>env_ok := False,
                env_error := Some \<lparr>ge_type = class_name (ex_class (heap exc)),
                  ge_code = code_of (ex_class (heap exc)), ge_message = message, ge_cause = cause\<rparr>\<rparr>))"

section \<open>Invariants\<close>

text \<open>What every envelope that was finalised satisfies.\<close>

definition sealed :: "(pyval \<Rightarrow> string) \<Rightarrow> envelope \<Rightarrow> bool" where
  "sealed str_of env \<longleftrightarrow>
     (env_ok env \<longleftrightarrow> env_error env = None)
     \<and> (case env_error env of None \<Rightarrow> True | Some e \<Rightarrow> ge_message e \<noteq> [] \<and> ge_type e \<noteq> [])
     \<and> 0 \<le> env_latency env
     \<and> \<not> shows_secret str_of SENSITIVE_NAMES PAYLOAD_REDACTION_DEPTH (env_payload env)"

text \<open>The part of an envelope that finalising leaves alone: what the remote answered.\<close>

definition answer_of :: "envelope \<Rightarrow> string \<times> pyval \<times> (string, string) dict \<times> (string, string) dict
    \<times> (string, pyval) dict \<times> string \<times> string \<times> string" where
  "answer_of env = (env_text env, env_json env, env_headers env, env_cookies env, env_details env,
     env_url env, env_protocol env, env_request_time env)"

lemma seal_sealed:
  assumes "env_ok env \<longleftrightarrow> env_error env = None"
    and "case env_error env of None \<Rightarrow> True | Some e \<Rightarrow> ge_message e \<noteq> [] \<and> ge_type e \<noteq> []"
  shows "sealed str_of (seal str_of now status started env)"
  using assms
  by (simp add: sealed_def seal_def elapsed_since_def redact_payload_def redact_recursive_clean)

lemma unwrap_message_not_Nil:
  "class_name (ex_class (heap exc)) \<noteq> [] \<Longrightarrow> fst (unwrap_cause heap exc n params) \<noteq> []"
  by (auto simp: unwrap_cause_def Let_def redact_text_not_Nil)

lemma finalise_ok_sealed: "sealed str_of (finalise_ok str_of now status started env)"
  unfolding finalise_ok_def by (rule seal_sealed) simp_all

lemma finalise_error_named_sealed:
  assumes "class_name (ex_class (heap exc)) \<noteq> []"
  shows "sealed str_of (finalise_error str_of now heap exc started params env)"
  using unwrap_message_not_Nil [of heap exc CAUSE_CHAIN_MAX_DEPTH params, OF assms] assms
  by (auto simp: finalise_error_def split: prod.splits intro!: seal_sealed)

lemma finalise_error_sealed:
  assumes "is_lib (ex_class (heap exc))"
  shows "sealed str_of (finalise_error str_of now heap exc started params env)"
  using class_name_not_Nil [OF assms] by (rule finalise_error_named_sealed)

section \<open>Properties\<close>

text \<open>
  Both ways of finalising an envelope establish its invariant: \<open>ok\<close> is true exactly when
  there is no error, an error has a type and a message that are not empty, the latency is not
  negative whatever the clock did, and the payload echo is masked. A finalised success carries
  the status it was given, a finalised failure the status and the code of its exception.
\<close>

theorem finalised_envelopes_are_sealed:
  assumes "is_lib (ex_class (heap exc))"
  shows "sealed str_of (finalise_ok str_of now status started env)
    \<and> env_status (finalise_ok str_of now status started env) = status
    \<and> sealed str_of (finalise_error str_of now heap exc started params env)
    \<and> \<not> env_ok (finalise_error str_of now heap exc started params env)
    \<and> env_status (finalise_error str_of now heap exc started params env) = ex_status (heap exc)
    \<and> map_option ge_code (env_error (finalise_error str_of now heap exc started params env))
        = Some (code_of (ex_class (heap exc)))"
  using finalise_ok_sealed finalise_error_sealed [of heap exc, OF assms]
  by (simp add: finalise_ok_def finalise_error_def seal_def split: prod.split)

theorem finalised_envelopes_are_sealed_witness:
  "env_status (finalise_error (\<lambda>_. []) 3 (\<lambda>_. new_gateway_error GatewayTimeoutError [] None) 0 5 []
     (new_envelope ''t'' ''https://h/'' ''HTTPS'' PNone [])) = 504"
proof -
  have "ex_status (new_gateway_error GatewayTimeoutError [] None) = 504"
    by (simp add: new_gateway_error_def status_for_def dict_get_or_def STATUS_BY_CODE_def)
  then show ?thesis
    using finalised_envelopes_are_sealed [of "\<lambda>_. new_gateway_error GatewayTimeoutError [] None" 0
      "\<lambda>_. []" 3 200 5 "new_envelope ''t'' ''https://h/'' ''HTTPS'' PNone []" "[]"]
    by simp
qed

text \<open>
  Finalising keeps what the remote answered: text, decoded body, headers, cookies and
  protocol details of an envelope survive a failure as they survive a success, and finalising a
  finalised envelope again, as the entry point does when a post processor fails, changes nothing
  but the verdict.
\<close>

theorem finalising_keeps_the_answer:
  "answer_of (finalise_ok str_of now status started env) = answer_of env
   \<and> answer_of (finalise_error str_of now heap exc started params env) = answer_of env
   \<and> env_payload (finalise_error str_of now heap exc started params
        (finalise_ok str_of now' status started env)) = env_payload (finalise_ok str_of now' status started env)"
  by (simp add: answer_of_def finalise_ok_def finalise_error_def seal_def redact_payload_def
      redact_recursive_idem split: prod.split)

end
