(* ===== verification/Base.thy ===== *)
theory Base
  imports Url Registry Envelope
begin

text \<open>
  \<open>helpers/internal/base.py\<close>: what every protocol client shares. The validation of
  \<open>protocol_info\<close> against a client's inventory of keys, the port, the credentials, the
  destination a call is dispatched to (the key of the breaker registry), and the constructor
  that looks the breaker up.
\<close>

section \<open>Constants\<close>

definition HTTP_TIMEOUT :: int where
  "HTTP_TIMEOUT = 15"

definition UNKNOWN_PORT :: int where
  "UNKNOWN_PORT = -1"

definition PORT_RANGE_LOW :: int where
  "PORT_RANGE_LOW = 0"

definition PORT_RANGE_HIGH :: int where
  "PORT_RANGE_HIGH = 65535"

definition DEFAULT_PORTS :: "(string, int) dict" where
  "DEFAULT_PORTS = [(''http'', 80), (''https'', 443), (''ftp'', 21), (''sftp'', 22)]"

definition COMMON_PROTOCOL_INFO_KEYS :: "string list" where
  "COMMON_PROTOCOL_INFO_KEYS =
    [''certificate'', ''circuit_breaker_config'', ''port'', ''redact_query_params'', ''timeout'']"

definition SECURITY_SENSITIVE_OPTION_FRAGMENTS :: "string list" where
  "SECURITY_SENSITIVE_OPTION_FRAGMENTS =
    [''agent'', ''api_key'', ''auth'', ''cert'', ''cookie'', ''credential'', ''header'',
     ''host_key'', ''client_key'', ''key_passphrase'', ''known_host'', ''password'',
     ''private_key'', ''public_key'', ''redirect'', ''scheme'', ''secret'', ''ssl'', ''tls'',
     ''token'', ''verify'']"

section \<open>Validating protocol_info\<close>

definition is_security_sensitive_option :: "string \<Rightarrow> bool" where
  "is_security_sensitive_option name =
     (let normalised = map (\<lambda>c. if c = CHR ''-'' then CHR ''_'' else c) (str_lower name)
      in list_ex (\<lambda>fragment. contains_str fragment normalised) SECURITY_SENSITIVE_OPTION_FRAGMENTS)"

fun str_keys :: "(pyval, pyval) dict \<Rightarrow> string list" where
  "str_keys [] = []"
| "str_keys ((PStr s, v) # d) = s # str_keys d"
| "str_keys (_ # d) = str_keys d"

text \<open>
  The copy of the mapping, and whether a deprecation warning was issued for unknown keys.
  \<open>allowed\<close> is the closed inventory of a new selector, \<open>accepted\<close> the open one of a legacy
  selector.
\<close>

definition validated_protocol_info ::
  "pyval \<Rightarrow> string list \<Rightarrow> string list option \<Rightarrow> string list option \<Rightarrow> exn + (pyval \<times> bool)" where
  "validated_protocol_info info required allowed accepted =
     rbind (ensure (info = PNone \<or> is_mapping info) config_error) (\<lambda>_.
       let d = entries info; names = str_keys d in
       rbind (ensure (list_all (\<lambda>(k, _). is_str k) d) config_error) (\<lambda>_.
       rbind (ensure (set required \<subseteq> set names) config_error) (\<lambda>_.
         (case allowed of
            Some ks \<Rightarrow>
              rbind (ensure (set names \<subseteq> set ks) config_error) (\<lambda>_. Inr (PDict d, False))
          | None \<Rightarrow>
              (case accepted of
                 None \<Rightarrow> Inr (PDict d, False)
               | Some ks \<Rightarrow>
                   let unknown = filter (\<lambda>n. n \<notin> set ks) names
                   in if unknown = [] then Inr (PDict d, False)
                      else if list_ex is_security_sensitive_option unknown then Inl config_error
                      else Inr (PDict d, True))))))"

definition validated_port :: "pyval \<Rightarrow> exn + int option" where
  "validated_port port =
     (case port of
        PNone \<Rightarrow> Inr None
      | PInt n \<Rightarrow> if PORT_RANGE_LOW \<le> n \<and> n \<le> PORT_RANGE_HIGH then Inr (Some n) else Inl config_error
      | _ \<Rightarrow> Inl config_error)"

text \<open>
  \<open>getattr(auth, name, None)\<close>: the attributes of an object that is no \<open>BasicAuth\<close> are those
  its class gives it, the argument \<open>attr\<close>.
\<close>

fun auth_attr :: "(pyval \<Rightarrow> string \<Rightarrow> pyval) \<Rightarrow> pyval \<Rightarrow> string \<Rightarrow> pyval" where
  "auth_attr attr (PBasicAuth l p) name =
     (if name = ''login'' then PStr l else if name = ''password'' then PStr p
      else attr (PBasicAuth l p) name)"
| "auth_attr attr v name = attr v name"

definition credentials_of :: "(pyval \<Rightarrow> string \<Rightarrow> pyval) \<Rightarrow> pyval \<Rightarrow> exn + (string \<times> string)" where
  "credentials_of attr auth =
     (case (auth_attr attr auth ''login'', auth_attr attr auth ''password'') of
        (PStr l, PStr p) \<Rightarrow> Inr (l, p)
      | _ \<Rightarrow> Inl config_error)"

section \<open>The destination\<close>

text \<open>\<open>isdigit\<close> also holds of the three superscript digits of Latin-1.\<close>

definition is_unicode_digit :: "char \<Rightarrow> bool" where
  "is_unicode_digit c = (is_digit c \<or> ord_of c \<in> {178, 179, 185})"

definition has_numeric_port :: "string \<Rightarrow> bool" where
  "has_numeric_port netloc =
     (let (_, _, tail) = str_rpartition (CHR '']'') netloc;
          (_, colon, candidate) = str_rpartition (CHR '':'') tail
      in colon \<and> candidate \<noteq> [] \<and> list_all is_unicode_digit candidate)"

definition destination_of ::
  "(string \<Rightarrow> bool) \<Rightarrow> string \<Rightarrow> string \<Rightarrow> int option \<Rightarrow> exn + breaker_key" where
  "destination_of ip6 protocol url port =
     (case urlsplit ip6 [] (if contains_str ''://'' url then url else ''//'' @ url) of
        Inl _ \<Rightarrow> Inl config_error
      | Inr parsed \<Rightarrow>
          let family = str_lower (if su_scheme parsed = [] then protocol else su_scheme parsed);
              host = str_lower (case su_hostname parsed of None \<Rightarrow> [] | Some h \<Rightarrow> h)
          in rbind (case port of
                 Some n \<Rightarrow> Inr (Some n)
               | None \<Rightarrow> if has_numeric_port (su_netloc parsed) then su_port parsed else Inr None)
               (\<lambda>p. Inr (family, host,
                   case p of Some n \<Rightarrow> n | None \<Rightarrow> dict_get_or DEFAULT_PORTS family UNKNOWN_PORT)))"

section \<open>The constructor\<close>

record base_request =
  br_url :: string
  br_auth :: pyval
  br_info :: pyval
  br_redact :: "string list"
  br_start :: rat
  br_timeout :: pyval
  br_certificate :: pyval
  br_breaker :: nat

text \<open>
  \<open>BaseRequestClass.__init__\<close>: the clock is read before anything can raise, the destination is
  worked out before the registry is asked. A port in \<open>protocol_info\<close> was validated by the
  entry point; \<open>None\<close> and an absent key read alike.
\<close>

definition info_port :: "pyval \<Rightarrow> int option" where
  "info_port info = (case dget_or info ''port'' PNone of PInt n \<Rightarrow> Some n | _ \<Rightarrow> None)"

definition new_request ::
  "(string \<Rightarrow> bool) \<Rightarrow> rat \<Rightarrow> pyval \<Rightarrow> pyval \<Rightarrow> string \<Rightarrow> pyval \<Rightarrow> envelope \<Rightarrow> pyval \<Rightarrow> string list
    \<Rightarrow> registry \<Rightarrow> (exn + base_request) \<times> registry" where
  "new_request ip6 now clock sleep url auth response info redact_params reg =
     (case destination_of ip6 (env_protocol response) url (info_port info) of
        Inl e \<Rightarrow> (Inl e, reg)
      | Inr key \<Rightarrow>
          (case get_breaker key (dget_or info ''circuit_breaker_config'' (PDict [])) clock sleep
                  BREAKER_REGISTRY_MAX reg of
             (Inl e, reg') \<Rightarrow> (Inl e, reg')
           | (Inr b, reg') \<Rightarrow>
               (Inr \<lparr>br_url = url, br_auth = auth, br_info = PDict (entries info),
                     br_redact = redact_params, br_start = now,
                     br_timeout = dget_or info ''timeout'' (PInt HTTP_TIMEOUT),
                     br_certificate = dget_or info ''certificate'' PNone, br_breaker = b\<rparr>,
                reg')))"

section \<open>Facts\<close>

lemma str_keys_mem: "k \<in> set (str_keys d) \<longleftrightarrow> PStr k \<in> set (map fst d)"
  by (induction d rule: str_keys.induct) auto

lemma validated_protocol_info_ok:
  "validated_protocol_info info required allowed accepted = Inr (r, w) \<Longrightarrow>
     r = PDict (entries info) \<and> list_all (\<lambda>(k, _). is_str k) (entries info)
     \<and> set required \<subseteq> set (str_keys (entries info))
     \<and> (case allowed of Some ks \<Rightarrow> set (str_keys (entries info)) \<subseteq> set ks | None \<Rightarrow>
         (case accepted of Some ks \<Rightarrow>
             \<not> list_ex is_security_sensitive_option
               (filter (\<lambda>n. n \<notin> set ks) (str_keys (entries info)))
           | None \<Rightarrow> True))"
  by (auto simp: validated_protocol_info_def rbind_eq_Inr ensure_eq_Inr Let_def
      split: option.splits if_splits)

lemma validated_port_range:
  "validated_port v = Inr (Some n) \<Longrightarrow> v = PInt n \<and> 0 \<le> n \<and> n \<le> 65535"
  by (auto simp: validated_port_def PORT_RANGE_LOW_def PORT_RANGE_HIGH_def
      split: pyval.splits if_splits)

text \<open>What a plain authority, a host name and a port, is split into.\<close>

definition host_char :: "char \<Rightarrow> bool" where
  "host_char c = (scheme_char c)"

lemma host_char_plain:
  "host_char c \<Longrightarrow> \<not> is_url_ignored c \<and> \<not> is_c0_or_space c \<and> \<not> is_authority_end c
     \<and> c \<notin> {CHR ''@'', CHR '':'', CHR ''['', CHR '']'', CHR ''#'', CHR ''?'', CHR ''%''}"
  by (auto simp: host_char_def scheme_char_def is_url_ignored_def is_c0_or_space_def
      is_authority_end_def is_ascii_alpha_def is_digit_def ord_of_def Let_def)

lemma digit_is_host_char: "is_digit c \<Longrightarrow> host_char c"
  by (simp add: host_char_def scheme_char_def)

lemma str_partition_at: "c \<notin> set h \<Longrightarrow> str_partition c (h @ c # t) = (h, True, t)"
proof -
  assume "c \<notin> set h"
  then have "takeWhile (\<lambda>x. x \<noteq> c) (h @ c # t) = h" "dropWhile (\<lambda>x. x \<noteq> c) (h @ c # t) = c # t"
    by (induction h) auto
  then show ?thesis by (simp add: str_partition_def)
qed

lemma str_partition_absent: "c \<notin> set h \<Longrightarrow> str_partition c h = (h, False, [])"
proof -
  assume "c \<notin> set h"
  then have "takeWhile (\<lambda>x. x \<noteq> c) h = h" "dropWhile (\<lambda>x. x \<noteq> c) h = []" by (induction h) auto
  then show ?thesis unfolding str_partition_def Let_def by (simp only: drop_Nil simp_thms)
qed

lemma str_rpartition_absent: "c \<notin> set h \<Longrightarrow> str_rpartition c h = ([], False, h)"
  by (simp add: str_rpartition_def str_partition_absent)

lemma str_rpartition_at: "c \<notin> set t \<Longrightarrow> str_rpartition c (h @ c # t) = (h, True, t)"
  by (simp add: str_rpartition_def str_partition_at)

lemma urlsplit_plain_authority:
  assumes "list_all host_char host" "list_all is_digit p"
  shows "urlsplit ip6 [] (''//'' @ host @ '':'' @ p) =
    Inr \<lparr>su_scheme = [], su_netloc = host @ '':'' @ p, su_path = [], su_query = [], su_fragment = []\<rparr>"
proof -
  let ?n = "host @ '':'' @ p"
  have colon: "\<not> is_url_ignored (CHR '':'')" "\<not> is_authority_end (CHR '':'')"
    by (simp_all add: is_url_ignored_def is_authority_end_def ord_of_def)
  have "c \<in> set ?n \<Longrightarrow> host_char c \<or> c = CHR '':''" for c
    using assms digit_is_host_char unfolding list_all_iff by auto
  then have plain: "\<not> is_url_ignored c" "\<not> is_authority_end c" "c \<noteq> CHR ''[''" "c \<noteq> CHR '']''"
    "c \<noteq> CHR ''#''" "c \<noteq> CHR ''?''" if "c \<in> set ?n" for c
    using host_char_plain [of c] colon that by (cases "c = CHR '':''"; blast)+
  have slash: "\<not> is_c0_or_space (CHR ''/'')" "\<not> is_url_ignored (CHR ''/'')" "\<not> is_ascii_alpha (CHR ''/'')"
    by (simp_all add: is_c0_or_space_def is_url_ignored_def is_ascii_alpha_def ord_of_def)
  have keep: "filter (\<lambda>c. \<not> is_url_ignored c) ?n = ?n"
    using plain(1) by (intro filter_True ballI)
  have u: "filter (\<lambda>c. \<not> is_url_ignored c) (lstrip_by is_c0_or_space (''//'' @ ?n)) = ''//'' @ ?n"
    using slash keep by (simp add: lstrip_by_def)
  have sch: "split_scheme [] (''//'' @ ?n) = ([], ''//'' @ ?n)"
    using slash by (simp add: split_scheme_def split: option.split)
  have tw: "takeWhile (\<lambda>c. \<not> is_authority_end c) ?n = ?n"
    using plain(2) by (simp only: takeWhile_eq_all_conv) blast
  then have dw: "dropWhile (\<lambda>c. \<not> is_authority_end c) ?n = []"
    by (metis append_self_conv takeWhile_dropWhile_id)
  have "CHR ''['' \<notin> set ?n" "CHR '']'' \<notin> set ?n" using plain(3,4) by blast+
  then have ok: "netloc_ok ip6 ?n" unfolding netloc_ok_def Let_def by (simp only: simp_thms)
  have nf: "?n = host @ CHR '':'' # p" by simp
  show ?thesis
    unfolding urlsplit_def u sch Let_def
    by (simp add: tw [unfolded nf] dw [unfolded nf] ok [unfolded nf] str_partition_absent
        del: takeWhile_eq_all_conv dropWhile_eq_Nil_conv)
qed

lemma contains_str_set: "contains_str p s \<Longrightarrow> set p \<subseteq> set s"
proof (induction p s rule: contains_str.induct)
  case (2 p c s)
  then show ?case by (metis contains_str.simps(2) set_append starts_with_iff set_subset_Cons subset_trans sup_ge1)
qed simp

lemma digits_numeric: "list_all is_digit p \<Longrightarrow> list_all is_unicode_digit p"
  by (auto simp: list_all_iff is_unicode_digit_def)

section \<open>Properties\<close>

text \<open>
  A destination is normalised: its family and host are in lower case, its port is the one
  the call was given, or else one an address can have, or else the family's default or the mark
  for an unknown port, which no address can have. A URL that cannot be split is a configuration
  error.
\<close>

theorem destinations_are_normalised:
  assumes "destination_of ip6 protocol url port = Inr (family, host, n)"
  shows "str_lower family = family \<and> str_lower host = host
    \<and> n \<in> {m. port = Some m} \<union> {0..65535} \<union> {UNKNOWN_PORT} \<and> UNKNOWN_PORT \<notin> {0..65535}"
proof -
  have "dict_get_or DEFAULT_PORTS f UNKNOWN_PORT \<in> {0..65535} \<union> {UNKNOWN_PORT}" for f
    by (simp add: dict_get_or_def DEFAULT_PORTS_def)
  then show ?thesis
    using assms su_port_range
    by (auto simp: destination_of_def Let_def rbind_eq_Inr UNKNOWN_PORT_def
        split: sum.splits option.splits if_splits)
qed

theorem destinations_are_normalised_witness:
  "str_lower ''ftp'' = ''ftp'' \<and> (21::int) \<in> {m. (None::int option) = Some m} \<union> {0..65535} \<union> {UNKNOWN_PORT}"
proof -
  have "destination_of (\<lambda>_. False) ''FTP'' ''Files.Example.org'' None = Inr (''ftp'', ''files.example.org'', 21)"
    by code_simp
  from destinations_are_normalised [OF this] show ?thesis by simp
qed

text \<open>
  A port that no address can have makes the lookup of the destination raise Python's bare
  \<open>ValueError\<close>: for every host name, every protocol and every decimal number above 65535 that
  is not already overridden by \<open>protocol_info\<close>. The test that guards the reading of the port
  looks at its digits and not at its value.
\<close>

theorem port_out_of_range_is_a_bare_value_error:
  assumes "list_all host_char host" and "list_all is_digit p"
    and "unsigned_of_text p = Some n" and "65535 < n"
  shows "destination_of ip6 protocol (host @ '':'' @ p) None = Inl (Exn (Ext ''ValueError'') None)"
proof -
  let ?n = "host @ '':'' @ p"
  have p: "p \<noteq> []" using assms(3) by (auto simp: unsigned_of_text_def)
  have digits: "c \<in> set p \<Longrightarrow> host_char c" for c
    using assms(2) digit_is_host_char by (auto simp: list_all_iff)
  have free: "c \<notin> set host" "c \<notin> set p"
    if "c \<in> {CHR ''@'', CHR '':'', CHR ''['', CHR '']'', CHR ''/''}" for c
  proof -
    have "\<not> host_char c"
      using that host_char_plain [of c] by (auto simp: is_authority_end_def)
    then show "c \<notin> set host" "c \<notin> set p" using assms(1) digits by (auto simp: list_all_iff)
  qed
  have "CHR ''/'' \<notin> set ?n" using free [of "CHR ''/''"] by simp
  then have "\<not> contains_str ''://'' ?n" using contains_str_set [of "''://''" ?n] by auto
  then have split: "urlsplit ip6 [] (if contains_str ''://'' ?n then ?n else ''//'' @ ?n) =
      Inr \<lparr>su_scheme = [], su_netloc = ?n, su_path = [], su_query = [], su_fragment = []\<rparr>"
    using urlsplit_plain_authority [OF assms(1,2)] by simp
  have part: "str_partition (CHR '':'') ?n = (host, True, p)"
    using str_partition_at [OF free(1) [of "CHR '':''"]] by simp
  have "CHR ''@'' \<notin> set ?n" "CHR ''['' \<notin> set ?n" "CHR '']'' \<notin> set ?n"
    using free by simp_all
  then have hp: "host_and_port ?n = (host, Some p)"
    using part p by (simp add: host_and_port_def str_rpartition_absent str_partition_absent)
  have "has_numeric_port ?n"
    using \<open>CHR '']'' \<notin> set ?n\<close> str_rpartition_at [OF free(2) [of "CHR '':''"], of host] p
      digits_numeric [OF assms(2)]
    by (simp add: has_numeric_port_def str_rpartition_absent)
  then show ?thesis
    unfolding destination_of_def split using hp assms(2-4) by (simp add: su_port_def)
qed

theorem port_out_of_range_is_a_bare_value_error_witness:
  "destination_of (\<lambda>_. False) ''FTP'' ''files.example.org:99999'' None = Inl (Exn (Ext ''ValueError'') None)"
proof -
  have "list_all host_char ''files.example.org'' \<and> list_all is_digit ''99999''
      \<and> unsigned_of_text ''99999'' = Some 99999"
    by code_simp
  then show ?thesis
    using port_out_of_range_is_a_bare_value_error [of "''files.example.org''" "''99999''" 99999] by simp
qed

end
