(* ===== verification/Filters.thy ===== *)
theory Filters
  imports Redaction
begin

text \<open>
  \<open>helpers/internal/__init__.py\<close>, \<open>filters_helper.py\<close> and \<open>response_helper.py\<close>: the media type
  of a message, the filter a body is built with, query parameters, the TLS setting of a call,
  and the decoding of a JSON body. The JSON codec (\<open>orjson\<close>), \<open>aiohttp.FormData\<close> and the TLS
  context are not under \<open>src/\<close>: the codec is the arguments \<open>dumps\<close> and \<open>loads\<close>, form data is the
  list of the fields added to it, a context is the record of the two flags the source reads.
\<close>

section \<open>Media types\<close>

definition CONTENT_TYPE_HEADER :: string where
  "CONTENT_TYPE_HEADER = ''content-type''"

definition JSON_MEDIA_TYPE :: string where
  "JSON_MEDIA_TYPE = ''application/json''"

definition FORM_MEDIA_TYPE :: string where
  "FORM_MEDIA_TYPE = ''application/x-www-form-urlencoded''"

definition JSON_MEDIA_SUFFIX :: string where
  "JSON_MEDIA_SUFFIX = ''+json''"

definition MULTIPART_MEDIA_PREFIX :: string where
  "MULTIPART_MEDIA_PREFIX = ''multipart/''"

definition RAW_BODY_MEDIA_TYPES :: "string list" where
  "RAW_BODY_MEDIA_TYPES = [''application/soap+xml'', ''application/xml'', ''text/xml'']"

definition normalise_media_type :: "string \<Rightarrow> string" where
  "normalise_media_type v =
     (if v = [] then [] else str_lower (str_strip (fst (str_partition (CHR '';'') v))))"

fun media_type_of :: "(string, string) dict \<Rightarrow> string" where
  "media_type_of [] = []"
| "media_type_of ((name, v) # headers) =
     (if str_lower name = CONTENT_TYPE_HEADER then normalise_media_type v else media_type_of headers)"

definition is_json_media_type :: "string \<Rightarrow> bool" where
  "is_json_media_type t = (t = JSON_MEDIA_TYPE \<or> ends_with JSON_MEDIA_SUFFIX t)"

datatype request_filter = FormFilter | JsonFilter | RawFilter

definition filter_for_media_type :: "string \<Rightarrow> pyval \<Rightarrow> request_filter" where
  "filter_for_media_type t payload =
     (if t = FORM_MEDIA_TYPE then FormFilter
      else if is_json_media_type t then JsonFilter
      else if t \<in> set RAW_BODY_MEDIA_TYPES then RawFilter
      else (case payload of PStr _ \<Rightarrow> RawFilter | PBytes _ \<Rightarrow> RawFilter | _ \<Rightarrow> JsonFilter))"

section \<open>Query parameters and bodies\<close>

definition is_get :: "string \<Rightarrow> bool" where
  "is_get request_type = (str_lower (str_strip request_type) = ''get'')"

text \<open>
  \<open>dumps\<close> is \<open>orjson.dumps(...).decode()\<close>, with \<^term>\<open>None\<close> its \<open>TypeError\<close>; \<open>iso_text\<close> is
  \<open>isoformat()\<close> of a date, time or datetime; \<open>str_of\<close> is \<open>str()\<close> of anything else.
\<close>

definition coerce_query_value ::
  "(pyval \<Rightarrow> string option) \<Rightarrow> (pyval \<Rightarrow> string option) \<Rightarrow> (pyval \<Rightarrow> string) \<Rightarrow> pyval \<Rightarrow> exn + string" where
  "coerce_query_value dumps iso_text str_of v =
     (case v of
        PBool b \<Rightarrow> Inr (if b then ''true'' else ''false'')
      | PNone \<Rightarrow> Inr []
      | PStr s \<Rightarrow> Inr s
      | _ \<Rightarrow>
        (case iso_text v of
           Some s \<Rightarrow> Inr s
         | None \<Rightarrow>
           (case v of
              PInt n \<Rightarrow> Inr (str_of v)
            | PFloat f \<Rightarrow> Inr (str_of v)
            | _ \<Rightarrow>
              if is_mapping v \<or> (case v of PBytes _ \<Rightarrow> False | _ \<Rightarrow> is_sequence v)
              then (case dumps v of Some s \<Rightarrow> Inr s | None \<Rightarrow> raise_as (Ext ''TypeError''))
              else Inr (str_of v))))"

fun list_items :: "pyval \<Rightarrow> pyval list option" where
  "list_items (PList xs) = Some xs"
| "list_items (PTuple xs) = Some xs"
| "list_items (PBasicAuth l p) = Some (elements (PBasicAuth l p))"
| "list_items _ = None"

text \<open>A top-level list or tuple repeats its key, one pair per element.\<close>

fun build_query_params ::
  "(pyval \<Rightarrow> exn + string) \<Rightarrow> (pyval, pyval) dict \<Rightarrow> exn + (pyval \<times> string) list" where
  "build_query_params coerce [] = Inr []"
| "build_query_params coerce ((key, v) # data) =
     rbind (rmap coerce (case list_items v of Some xs \<Rightarrow> xs | None \<Rightarrow> [v])) (\<lambda>texts.
     rbind (build_query_params coerce data) (\<lambda>rest.
     Inr (map (\<lambda>t. (key, t)) texts @ rest)))"

text \<open>
  The keyword arguments a filter contributes to the transport call. The last two are the bodies of
  an upload: the stream of the chunks of a file, and a form with one file field (its key, the file
  name, the content type and the stream).
\<close>

datatype body_filters =
    NoBody
  | Params "(pyval \<times> string) list"
  | JsonBody pyval
  | DataBody pyval
  | FormBody "(pyval \<times> pyval) list"
  | StreamBody "string list"
  | FileForm pyval string string "string list"

fun form_fields :: "(pyval \<Rightarrow> string option) \<Rightarrow> (pyval, pyval) dict \<Rightarrow> exn + (pyval \<times> pyval) list" where
  "form_fields dumps [] = Inr []"
| "form_fields dumps ((key, v) # data) =
     rbind (if is_mapping v
            then (case dumps v of Some s \<Rightarrow> Inr (PStr s) | None \<Rightarrow> raise_as (Ext ''TypeError''))
            else Inr v) (\<lambda>w.
     rbind (form_fields dumps data) (\<lambda>rest. Inr ((key, w) # rest)))"

definition form_filters :: "(pyval \<Rightarrow> string option) \<Rightarrow> pyval \<Rightarrow> exn + body_filters" where
  "form_filters dumps data =
     (if is_mapping data then rbind (form_fields dumps (entries data)) (\<lambda>fs. Inr (FormBody fs))
      else raise_as (Ext ''AttributeError''))"

definition json_filters ::
  "(pyval \<Rightarrow> string option) \<Rightarrow> (pyval \<Rightarrow> exn + string) \<Rightarrow> pyval \<Rightarrow> string \<Rightarrow> exn + body_filters" where
  "json_filters dumps coerce data request_type =
     (if is_get request_type then
        (if is_mapping data then rbind (build_query_params coerce (entries data)) (\<lambda>ps. Inr (Params ps))
         else Inr NoBody)
      else if is_mapping data then Inr (JsonBody data)
      else (case data of
          PStr s \<Rightarrow> Inr (DataBody data)
        | PBytes s \<Rightarrow> Inr (DataBody data)
        | _ \<Rightarrow> (case dumps data of Some s \<Rightarrow> Inr (DataBody (PStr s)) | None \<Rightarrow> Inl config_error)))"

definition raw_filters :: "pyval \<Rightarrow> exn + body_filters" where
  "raw_filters data = (if data = PNone then Inr NoBody else Inr (DataBody data))"

definition run_filter ::
  "request_filter \<Rightarrow> (pyval \<Rightarrow> string option) \<Rightarrow> (pyval \<Rightarrow> exn + string) \<Rightarrow> pyval \<Rightarrow> string
    \<Rightarrow> exn + body_filters" where
  "run_filter f dumps coerce data request_type =
     (case f of FormFilter \<Rightarrow> form_filters dumps data
      | JsonFilter \<Rightarrow> json_filters dumps coerce data request_type
      | RawFilter \<Rightarrow> raw_filters data)"

section \<open>TLS\<close>

text \<open>\<open>os.fspath\<close> of the two kinds of path the source accepts.\<close>

fun path_text :: "pyval \<Rightarrow> string option" where
  "path_text (PStr s) = Some s"
| "path_text (PPath s) = Some s"
| "path_text _ = None"

definition normalised_certificate :: "pyval \<Rightarrow> exn + (string \<times> string)" where
  "normalised_certificate certificate =
     (case certificate of
        PStr _ \<Rightarrow> Inl config_error
      | PBytes _ \<Rightarrow> Inl config_error
      | PPath _ \<Rightarrow> Inl config_error
      | _ \<Rightarrow>
        if \<not> is_sequence certificate then Inl config_error
        else (case elements certificate of
            [a, b] \<Rightarrow>
              (case (path_text a, path_text b) of
                 (Some p, Some q) \<Rightarrow> Inr (p, q) | _ \<Rightarrow> Inl config_error)
          | _ \<Rightarrow> Inl config_error))"

record tls_context =
  check_hostname :: bool
  cert_required :: bool

text \<open>How loading the certificate and key may end: loaded, needing a pass phrase, an \<open>OSError\<close>.\<close>

datatype load_outcome = Loaded tls_context | NeedsPassphrase | LoadFailed

definition build_client_ssl_context ::
  "(string \<Rightarrow> string \<Rightarrow> load_outcome) \<Rightarrow> string \<Rightarrow> string \<Rightarrow> exn + tls_context" where
  "build_client_ssl_context load cert key =
     (case load cert key of
        NeedsPassphrase \<Rightarrow> Inl config_error
      | LoadFailed \<Rightarrow> Inl config_error
      | Loaded ctx \<Rightarrow>
          if check_hostname ctx \<and> cert_required ctx then Inr ctx else Inl config_error)"

datatype ssl_setting = Verify | NoVerify | ClientContext tls_context

definition get_ssl_config ::
  "(string \<Rightarrow> string \<Rightarrow> load_outcome) \<Rightarrow> pyval \<Rightarrow> pyval \<Rightarrow> exn + ssl_setting" where
  "get_ssl_config load certificate verify_ssl =
     (if py_truth certificate then
        rbind (normalised_certificate certificate) (\<lambda>(cert, key).
        rbind (build_client_ssl_context load cert key) (\<lambda>ctx. Inr (ClientContext ctx)))
      else if verify_ssl = PBool False then Inr NoVerify
      else Inr Verify)"

section \<open>JSON bodies\<close>

definition application_json_response :: "(string \<Rightarrow> pyval option) \<Rightarrow> string \<Rightarrow> exn + pyval" where
  "application_json_response loads response =
     (if response = [] then Inr PNone
      else (case loads response of
          Some v \<Rightarrow> Inr v | None \<Rightarrow> Inl (Exn SerializationError None)))"

section \<open>Properties\<close>

lemma build_query_params_keys:
  "build_query_params coerce data = Inr ps \<Longrightarrow> set (map fst ps) \<subseteq> set (map fst data)"
proof (induction coerce data arbitrary: ps rule: build_query_params.induct)
  case (2 coerce key v data)
  then obtain ts rest where "build_query_params coerce data = Inr rest"
      and ps: "ps = map (\<lambda>t. (key, t)) ts @ rest"
    by (auto simp: rbind_eq_Inr)
  then have "set (map fst rest) \<subseteq> set (map fst data)" using 2 by blast
  then show ?case unfolding ps by auto
qed simp

lemma json_filters_get:
  "is_get rt \<Longrightarrow> json_filters dumps coerce data rt = Inr f \<Longrightarrow> f = NoBody \<or> (\<exists>ps. f = Params ps)"
  by (auto simp: json_filters_def rbind_eq_Inr split: if_splits)

text \<open>
  A call verifies its server unless it was told not to in so many words: verification is off
  exactly when \<open>verify_ssl\<close> is the value \<open>False\<close> (no other falsy value) and no certificate was
  given; a client certificate is only ever used in a context that checks both the host name and
  the certificate; and a certificate that cannot be used is a configuration error, never a
  connection without it.
\<close>

theorem tls_is_off_only_on_request:
  "(get_ssl_config load certificate verify = Inr NoVerify
      \<longleftrightarrow> verify = PBool False \<and> \<not> py_truth certificate)
   \<and> get_ssl_config load certificate verify \<notin> {Inr (ClientContext c) |c. \<not> (check_hostname c \<and> cert_required c)}
   \<and> (py_truth certificate \<longleftrightarrow>
        get_ssl_config load certificate verify \<in> insert (Inl config_error) (range (\<lambda>c. Inr (ClientContext c))))"
  by (auto simp: get_ssl_config_def normalised_certificate_def build_client_ssl_context_def rbind_def
      split: sum.splits pyval.splits list.splits option.splits load_outcome.splits if_splits)

text \<open>
  A GET never sends its payload as a body: with the JSON filter, in any spelling of the verb,
  the filter contributes query parameters or nothing, and the parameters carry only keys of the
  payload.
\<close>

theorem get_payload_is_never_a_body:
  assumes "is_get request_type" and "json_filters dumps coerce data request_type = Inr f"
  shows "f \<in> insert NoBody (Params ` {ps. set (map fst ps) \<subseteq> set (map fst (entries data))})"
  using assms build_query_params_keys by (auto simp: json_filters_def rbind_eq_Inr split: if_splits)

theorem get_payload_is_never_a_body_witness:
  "Params [(PStr ''a'', ''1''), (PStr ''a'', ''2'')]
     \<in> insert NoBody (Params ` {ps. set (map fst ps) \<subseteq> {PStr ''a''}})"
proof -
  have "is_get '' Get ''" by code_simp
  moreover have "json_filters (\<lambda>_. None) (\<lambda>v. case v of PStr s \<Rightarrow> Inr s | _ \<Rightarrow> Inr [])
      (PDict [(PStr ''a'', PList [PStr ''1'', PStr ''2''])]) '' Get '' =
        Inr (Params [(PStr ''a'', ''1''), (PStr ''a'', ''2'')])"
    using calculation by (simp add: json_filters_def)
  ultimately show ?thesis by (drule_tac get_payload_is_never_a_body) simp_all
qed

end
