(* ===== verification/Reads.thy ===== *)
theory Reads
  imports Filters
begin

text \<open>
  Reading a response: \<open>utils/http_file_config.py\<close> (the verbs, the declared length, the capped
  iteration) and, from \<open>helpers/internal/request_helper.py\<close>, the walk over a multipart body and
  \<open>read_response\<close>. Bytes are strings. What the transport delivers is data: the chunks of a
  stream with the way it ends, the parts of a multipart body as a tree. The UTF-8 codec and the
  guarded file writer (its own component) are arguments.
\<close>

section \<open>Verbs\<close>

definition HTTP_VERBS :: "string list" where
  "HTTP_VERBS = [''delete'', ''get'', ''head'', ''options'', ''patch'', ''post'', ''put'']"

definition validated_verb :: "pyval \<Rightarrow> string list \<Rightarrow> exn + string" where
  "validated_verb verb allowed =
     (case verb of
        PStr s \<Rightarrow>
          let name = str_lower (str_strip s)
          in if name = [] \<or> name \<notin> set allowed then Inl (Exn UnsupportedVerbError None) else Inr name
      | _ \<Rightarrow> Inl (Exn UnsupportedVerbError None))"

text \<open>\<open>offers\<close>: the names of which the client has a callable.\<close>

definition resolve_verb :: "(string \<Rightarrow> bool) \<Rightarrow> pyval \<Rightarrow> string list \<Rightarrow> exn + string" where
  "resolve_verb offers verb allowed =
     rbind (validated_verb verb allowed) (\<lambda>name.
       if offers name then Inr name else Inl (Exn UnsupportedVerbError None))"

section \<open>Bounds on a body\<close>

definition MAX_RESPONSE_BYTES :: int where
  "MAX_RESPONSE_BYTES = 67108864"

definition MAX_MULTIPART_DEPTH :: nat where
  "MAX_MULTIPART_DEPTH = 64"

definition CONTENT_LENGTH_HEADER :: string where
  "CONTENT_LENGTH_HEADER = ''content-length''"

definition too_large :: exn where
  "too_large = Exn ResponseTooLargeError None"

definition too_deep :: exn where
  "too_deep = Exn ResponseTooDeepError None"

text \<open>The largest length a header declares; headers may repeat.\<close>

fun longest_declared :: "int option \<Rightarrow> (string \<times> string) list \<Rightarrow> int option" where
  "longest_declared longest [] = longest"
| "longest_declared longest ((name, v) # headers) =
     longest_declared
       (if str_lower name \<noteq> CONTENT_LENGTH_HEADER then longest
        else (case int_of_text v of
            None \<Rightarrow> longest
          | Some d \<Rightarrow> Some (case longest of None \<Rightarrow> d | Some l \<Rightarrow> max l d)))
       headers"

definition guard_declared_length :: "(string \<times> string) list \<Rightarrow> int \<Rightarrow> exn + unit" where
  "guard_declared_length headers cap =
     (case longest_declared None headers of
        None \<Rightarrow> Inr ()
      | Some n \<Rightarrow> if n > cap then Inl too_large else Inr ())"

text \<open>A stream: the chunks in the order they arrive, and the failure it ends with, if any.\<close>

record stream =
  st_chunks :: "string list"
  st_failure :: "exn option"

text \<open>\<open>iter_capped\<close>: the chunks that are yielded, and what stops the iteration.\<close>

fun iter_capped :: "int \<Rightarrow> int \<Rightarrow> string list \<Rightarrow> exn option \<Rightarrow> string list \<times> exn option" where
  "iter_capped cap sofar [] failure = ([], failure)"
| "iter_capped cap sofar (chunk # chunks) failure =
     (let sofar' = sofar + int (length chunk)
      in if sofar' > cap then ([], Some too_large)
         else let (yielded, stop) = iter_capped cap sofar' chunks failure
              in (chunk # yielded, stop))"

section \<open>Multipart bodies\<close>

datatype part = Leaf "string list" | Multi "part list"

text \<open>The inner loop: an empty chunk ends the part.\<close>

fun read_part :: "int \<Rightarrow> int \<Rightarrow> string list \<Rightarrow> string list \<Rightarrow> (int \<times> string list) \<times> exn option" where
  "read_part cap sofar parts [] = ((sofar, parts), None)"
| "read_part cap sofar parts (chunk # chunks) =
     (if chunk = [] then ((sofar, parts), None)
      else let sofar' = sofar + int (length chunk)
           in if sofar' > cap then ((sofar', parts), Some too_large)
              else read_part cap sofar' (parts @ [chunk]) chunks)"

text \<open>
  \<open>_drain_multipart\<close>: the stack holds, per open reader, the parts it has still to give; its
  top is the first element. A reader is popped when it has no more.
\<close>

lemma size_Multi_less: "size_list size ps < size (Multi ps)"
  by simp

function drain ::
  "nat \<Rightarrow> int \<Rightarrow> part list list \<Rightarrow> int \<Rightarrow> string list \<Rightarrow> (int \<times> string list) \<times> exn option" where
  "drain depth_cap cap [] sofar parts = ((sofar, parts), None)"
| "drain depth_cap cap ([] # stack) sofar parts = drain depth_cap cap stack sofar parts"
| "drain depth_cap cap ((Leaf chunks # rest) # stack) sofar parts =
     (case read_part cap sofar parts chunks of
        ((sofar', parts'), Some e) \<Rightarrow> ((sofar', parts'), Some e)
      | ((sofar', parts'), None) \<Rightarrow> drain depth_cap cap (rest # stack) sofar' parts')"
| "drain depth_cap cap ((Multi ps # rest) # stack) sofar parts =
     (let depth = length (rest # stack) + 1
      in if depth > depth_cap then ((sofar, parts), Some too_deep)
         else drain depth_cap cap (ps # rest # stack) sofar parts)"
  by pat_completeness auto
termination
  by (relation "measure (\<lambda>(_, _, stack, _, _). size_list (\<lambda>ps. size_list size ps) stack)") auto

definition drain_multipart :: "int \<Rightarrow> nat \<Rightarrow> part list \<Rightarrow> string list \<times> exn option" where
  "drain_multipart cap depth_cap body =
     (let ((_, parts), stop) = drain depth_cap cap [body] 0 [] in (parts, stop))"

section \<open>Reading a response\<close>

record http_result =
  hr_status :: int
  hr_headers :: "(string, string) dict"
  hr_cookies :: "(string, string) dict"
  hr_text :: string
  hr_decode_error :: bool

text \<open>
  What the transport hands over: status, raw headers (repeats included), cookies, the stream for
  a requested chunk size, and the parts if the body is read as multipart.
\<close>

record response =
  rs_status :: int
  rs_headers :: "(string \<times> string) list"
  rs_cookies :: "(string, string) dict"
  rs_stream :: "pyval \<Rightarrow> stream"
  rs_parts :: "part list"

text \<open>\<open>dict(resp.headers)\<close>: of a repeated header the last line wins, at the first position.\<close>

fun header_dict :: "(string, string) dict \<Rightarrow> (string \<times> string) list \<Rightarrow> (string, string) dict" where
  "header_dict d [] = d"
| "header_dict d ((name, v) # headers) = header_dict (dict_set d name v) headers"

definition CHUNK_SIZE_CONSTANT :: int where
  "CHUNK_SIZE_CONSTANT = 65536"

definition DEFAULT_DOWNLOAD_FILEPATH :: string where
  "DEFAULT_DOWNLOAD_FILEPATH = ''response.txt''"

text \<open>\<open>config.get(key) or fallback\<close>.\<close>

definition setting_or :: "pyval \<Rightarrow> string \<Rightarrow> pyval \<Rightarrow> pyval" where
  "setting_or config key fallback =
     (let v = dget_or config key PNone in if py_truth v then v else fallback)"

text \<open>
  The guarded writer: opening it refuses or not, and what is written is kept only when the body
  of the \<open>async with\<close> ends without an exception. A file that was kept is a path and its bytes.
\<close>

type_synonym saved = "(string \<times> string) option"

definition save_chunks ::
  "(pyval \<Rightarrow> bool \<Rightarrow> exn + string) \<Rightarrow> pyval \<Rightarrow> bool \<Rightarrow> string list \<times> exn option \<Rightarrow> (exn + string list) \<times> saved" where
  "save_chunks opens target overwrite body =
     (case opens target overwrite of
        Inl e \<Rightarrow> (Inl e, None)
      | Inr path \<Rightarrow>
          (case body of
             (chunks, Some e) \<Rightarrow> (Inl e, None)
           | (chunks, None) \<Rightarrow> (Inr chunks, Some (path, concat chunks))))"

definition handle_multipart_response ::
  "(pyval \<Rightarrow> bool \<Rightarrow> exn + string) \<Rightarrow> (string \<Rightarrow> string) \<Rightarrow> response \<Rightarrow> pyval \<Rightarrow> int
    \<Rightarrow> (exn + string) \<times> saved" where
  "handle_multipart_response opens decode_replace resp config cap =
     (let cfg = (if py_truth config then config else PDict []);
          target = setting_or cfg ''download_filepath'' (PStr DEFAULT_DOWNLOAD_FILEPATH);
          (outcome, kept) = save_chunks opens target (dget_or cfg ''overwrite'' PNone = PBool True)
            (drain_multipart cap MAX_MULTIPART_DEPTH (rs_parts resp))
      in (rbind outcome (\<lambda>chunks. Inr (decode_replace (concat chunks))), kept))"

definition read_response ::
  "(pyval \<Rightarrow> bool \<Rightarrow> exn + string) \<Rightarrow> (string \<Rightarrow> string option) \<Rightarrow> (string \<Rightarrow> string) \<Rightarrow> response
    \<Rightarrow> int \<Rightarrow> pyval \<Rightarrow> bool \<Rightarrow> (exn + http_result) \<times> saved" where
  "read_response opens decode decode_replace resp cap config refuse_multipart =
     (let headers = header_dict [] (rs_headers resp);
          result = (\<lambda>txt err. \<lparr>hr_status = rs_status resp, hr_headers = headers,
            hr_cookies = rs_cookies resp, hr_text = txt, hr_decode_error = err\<rparr>)
      in case guard_declared_length (rs_headers resp) cap of
        Inl e \<Rightarrow> (Inl e, None)
      | Inr _ \<Rightarrow>
        if starts_with MULTIPART_MEDIA_PREFIX (media_type_of headers) then
          (if refuse_multipart then (Inl config_error, None)
           else let (txt, kept) = handle_multipart_response opens decode_replace resp config cap
                in (rbind txt (\<lambda>t. Inr (result t False)), kept))
        else
          let size = setting_or config ''file_download_chunk_size'' (PInt CHUNK_SIZE_CONSTANT);
              streamed = rs_stream resp size;
              (download, kept) =
                (if config = PNone then (Inr [], None)
                 else save_chunks opens
                   (setting_or config ''download_filepath'' (PStr DEFAULT_DOWNLOAD_FILEPATH))
                   (dget_or config ''overwrite'' PNone = PBool True)
                   (iter_capped cap 0 (st_chunks streamed) (st_failure streamed)));
              left = (if config = PNone then rs_stream resp (PInt CHUNK_SIZE_CONSTANT)
                      else \<lparr>st_chunks = [], st_failure = None\<rparr>)
          in case download of
            Inl e \<Rightarrow> (Inl e, kept)
          | Inr _ \<Rightarrow>
            (case iter_capped cap 0 (st_chunks left) (st_failure left) of
               (_, Some e) \<Rightarrow> (Inl e, kept)
             | (chunks, None) \<Rightarrow>
                 (case decode (concat chunks) of
                    Some t \<Rightarrow> (Inr (result t False), kept)
                  | None \<Rightarrow> (Inr (result (decode_replace (concat chunks)) True), kept))))"

section \<open>The recursion the stack replaces\<close>

text \<open>
  The reference: a walk that descends by recursion, with the nesting level as an argument. The
  source had this form once; its frames were as many as the sender chose.
\<close>

fun walk :: "nat \<Rightarrow> int \<Rightarrow> nat \<Rightarrow> part \<Rightarrow> int \<times> string list \<Rightarrow> (int \<times> string list) \<times> exn option"
and walk_all :: "nat \<Rightarrow> int \<Rightarrow> nat \<Rightarrow> part list \<Rightarrow> int \<times> string list \<Rightarrow> (int \<times> string list) \<times> exn option" where
  "walk depth_cap cap level (Leaf chunks) s = read_part cap (fst s) (snd s) chunks"
| "walk depth_cap cap level (Multi ps) s =
     (if level + 1 > depth_cap then (s, Some too_deep) else walk_all depth_cap cap (level + 1) ps s)"
| "walk_all depth_cap cap level [] s = (s, None)"
| "walk_all depth_cap cap level (p # ps) s =
     (case walk depth_cap cap level p s of
        (s', Some e) \<Rightarrow> (s', Some e)
      | (s', None) \<Rightarrow> walk_all depth_cap cap level ps s')"

lemma drain_walk:
  "drain depth_cap cap (ps # stack) sofar parts =
     (case walk_all depth_cap cap (length stack + 1) ps (sofar, parts) of
        (s, Some e) \<Rightarrow> (s, Some e)
      | ((sofar', parts'), None) \<Rightarrow> drain depth_cap cap stack sofar' parts')"
proof (induction "size_list size ps" arbitrary: ps stack sofar parts rule: less_induct)
  case less
  show ?case
  proof (cases ps)
    case Nil
    then show ?thesis by simp
  next
    case (Cons p rest)
    show ?thesis
    proof (cases p)
      case (Leaf chunks)
      then show ?thesis using less [of rest] Cons by (simp split: prod.split option.split)
    next
      case (Multi qs)
      have "size_list size qs < size_list size ps" "size_list size rest < size_list size ps"
        using Multi Cons by simp_all
      then show ?thesis using less Multi Cons by (simp split: prod.split option.split)
    qed
  qed
qed

section \<open>Bounds\<close>

lemma read_part_within:
  "read_part cap sofar parts chunks = ((sofar', parts'), stop) \<Longrightarrow>
   sofar = int (length (concat parts)) \<Longrightarrow> sofar \<le> cap \<Longrightarrow>
   int (length (concat parts')) \<le> cap \<and> (stop = None \<longrightarrow> sofar' = int (length (concat parts')))
   \<and> (stop = None \<or> stop = Some too_large)"
  by (induction cap sofar parts chunks rule: read_part.induct) (auto simp: Let_def split: if_splits)

lemma drain_within:
  "drain depth_cap cap stack sofar parts = ((sofar', parts'), stop) \<Longrightarrow>
   sofar = int (length (concat parts)) \<Longrightarrow> sofar \<le> cap \<Longrightarrow>
   int (length (concat parts')) \<le> cap \<and> stop \<in> {None, Some too_large, Some too_deep}"
proof (induction depth_cap cap stack sofar parts rule: drain.induct)
  case (3 depth_cap cap chunks rest stack sofar parts)
  obtain t1 p1 s1 where r: "read_part cap sofar parts chunks = ((t1, p1), s1)"
    by (metis prod.exhaust)
  show ?case
    using 3 read_part_within [OF r 3(3,4)] r by (cases s1) auto
qed (auto simp: Let_def split: if_splits)

lemma iter_capped_prefix:
  "iter_capped cap sofar chunks failure = (yielded, stop) \<Longrightarrow>
   \<exists>rest. chunks = yielded @ rest
     \<and> (rest = [] \<and> stop = failure \<or> rest \<noteq> [] \<and> stop = Some too_large)
     \<and> (sofar \<le> cap \<longrightarrow> sofar + int (length (concat yielded)) \<le> cap)"
proof (induction cap sofar chunks failure arbitrary: yielded stop rule: iter_capped.induct)
  case (2 cap sofar chunk chunks failure)
  show ?case
  proof (cases "sofar + int (length chunk) > cap")
    case True
    then show ?thesis using 2(2) by auto
  next
    case False
    obtain y s where r: "iter_capped cap (sofar + int (length chunk)) chunks failure = (y, s)"
      by (cases "iter_capped cap (sofar + int (length chunk)) chunks failure")
    then show ?thesis using 2(1) [OF refl False r] 2(2) False by (auto simp: algebra_simps)
  qed
qed simp

section \<open>Properties\<close>

text \<open>
  C37. The iterative walk of a multipart body does what the recursive walk it replaced does, for
  every body, however nested: the same bytes in the same order, and the same refusal at the same
  point. It always ends, and it uses no stack frame per level.
\<close>

theorem multipart_walk_is_the_recursive_one:
  "drain_multipart cap depth_cap body =
     (let ((_, parts), stop) = walk_all depth_cap cap 1 body (0, []) in (parts, stop))"
  by (simp add: drain_multipart_def drain_walk split: prod.split option.split)

text \<open>
  No body makes the library keep more than its cap: the bytes a multipart walk hands on and
  the bytes a capped iteration yields are at most \<open>max_response_bytes\<close>, whatever the sender
  streams and however it nests; the iteration yields a prefix of the stream, all of it unless it
  is refused as too large; and the walk stops with nothing but the two refusals.
\<close>

theorem bodies_stay_within_the_cap:
  assumes "0 \<le> cap"
  shows "int (length (concat (fst (drain_multipart cap depth_cap body)))) \<le> cap
    \<and> snd (drain_multipart cap depth_cap body) \<in> {None, Some too_large, Some too_deep}
    \<and> int (length (concat (fst (iter_capped cap 0 chunks failure)))) \<le> cap
    \<and> iter_capped cap 0 chunks failure
        \<in> {(chunks, failure)} \<union> {(ys, Some too_large) |ys. \<exists>c zs. chunks = ys @ c # zs}"
proof -
  obtain t p s where d: "drain depth_cap cap [body] 0 [] = ((t, p), s)" by (metis prod.exhaust)
  obtain y e where i: "iter_capped cap 0 chunks failure = (y, e)"
    by (cases "iter_capped cap 0 chunks failure")
  obtain rest where rest: "chunks = y @ rest"
      "rest = [] \<and> e = failure \<or> rest \<noteq> [] \<and> e = Some too_large" "int (length (concat y)) \<le> cap"
    using iter_capped_prefix [OF i] assms by auto
  show ?thesis
    using drain_within [OF d] assms d i rest by (auto simp: drain_multipart_def neq_Nil_conv)
qed

theorem bodies_stay_within_the_cap_witness:
  "drain_multipart 5 2 [Leaf [''abc''], Multi [Leaf [''defg'']]] = ([''abc''], Some too_large)
   \<and> int (length (concat (fst (drain_multipart 5 2 [Leaf [''abc''], Multi [Leaf [''defg'']]])))) \<le> 5"
proof -
  have "drain_multipart 5 2 [Leaf [''abc''], Multi [Leaf [''defg'']]] = ([''abc''], Some too_large)"
    by (simp add: drain_multipart_def)
  then show ?thesis
    using bodies_stay_within_the_cap [of 5 2 "[Leaf [''abc''], Multi [Leaf [''defg'']]]" "[]" None] by simp
qed

end
