(* ===== verification/Redirects.thy ===== *)
theory Redirects
  imports Reads Url
begin

text \<open>
  The redirect loop of \<open>helpers/internal/request_helper.py\<close>. The world of a call (the server, the
  clocks, the tracers, the body factory, the file writer, the codecs) is a record of functions;
  the loop logs every request it issues, so what reached which server can be stated.
\<close>

section \<open>Constants\<close>

definition MAX_REDIRECTS :: int where
  "MAX_REDIRECTS = 10"

definition REDIRECT_STATUSES :: "int list" where
  "REDIRECT_STATUSES = [301, 302, 303, 307, 308]"

definition POST_TO_GET_REDIRECTS :: "int list" where
  "POST_TO_GET_REDIRECTS = [301, 302]"

definition SEE_OTHER_STATUS :: int where
  "SEE_OTHER_STATUS = 303"

definition LOCATION_HEADER :: string where
  "LOCATION_HEADER = ''Location''"

definition REQUEST_START_KEY :: string where
  "REQUEST_START_KEY = ''on_request_start''"

definition CROSS_ORIGIN_SAFE_HEADERS :: "string list" where
  "CROSS_ORIGIN_SAFE_HEADERS =
    [''accept'', ''accept-charset'', ''accept-encoding'', ''accept-language'', ''cache-control'',
     ''content-disposition'', ''content-encoding'', ''content-language'', ''content-length'',
     ''content-type'', ''pragma'', ''range'', ''user-agent'']"

definition EXTRA_CREDENTIAL_HEADERS :: "string list" where
  "EXTRA_CREDENTIAL_HEADERS =
    [''x-api-key'', ''x-auth-token'', ''x-amz-security-token'', ''api-key'', ''x-csrf-token'',
     ''x-access-token'', ''x-auth-key'', ''x-session-token'', ''x-functions-key'',
     ''private-token'', ''x-goog-api-key'', ''dd-api-key'', ''x-shopify-access-token'',
     ''x-vault-token'', ''authentication'']"

definition CREDENTIAL_HEADERS :: "string list" where
  "CREDENTIAL_HEADERS =
    [''authorization'', ''cookie'', ''proxy-authorization''] @ EXTRA_CREDENTIAL_HEADERS
      @ SENSITIVE_HEADERS"

section \<open>Judging a hop\<close>

definition redirect_target ::
  "(string \<Rightarrow> bool) \<Rightarrow> string \<Rightarrow> string \<Rightarrow> string list \<Rightarrow> exn + string" where
  "redirect_target ip6 current_url location allowed_schemes =
     (case rbind (urljoin ip6 current_url location) (\<lambda>target.
             rbind (urlsplit ip6 [] target) (\<lambda>parts.
             rbind (su_port parts) (\<lambda>_. Inr (target, str_lower (su_scheme parts))))) of
        Inl _ \<Rightarrow> Inl config_error
      | Inr (target, scheme) \<Rightarrow>
          if scheme \<in> set allowed_schemes then Inr target else Inl config_error)"

text \<open>Reading a port raises where the first URL of the call has none that is one.\<close>

definition same_origin :: "(string \<Rightarrow> bool) \<Rightarrow> string \<Rightarrow> string \<Rightarrow> exn + bool" where
  "same_origin ip6 left right =
     rbind (urlsplit ip6 [] left) (\<lambda>a. rbind (urlsplit ip6 [] right) (\<lambda>b.
     rbind (su_port a) (\<lambda>p. rbind (su_port b) (\<lambda>q.
       Inr (su_scheme a = su_scheme b \<and> su_hostname a = su_hostname b \<and> p = q)))))"

definition cross_origin_headers ::
  "(string, string) dict option \<Rightarrow> string list \<Rightarrow> (string, string) dict option" where
  "cross_origin_headers headers also_forward =
     (case headers of
        None \<Rightarrow> None
      | Some hs \<Rightarrow> Some (filter (\<lambda>(name, _).
          str_lower name \<in> set (CROSS_ORIGIN_SAFE_HEADERS @ also_forward)) hs))"

definition drop_params :: "body_filters \<Rightarrow> body_filters" where
  "drop_params f = (case f of Params _ \<Rightarrow> NoBody | _ \<Rightarrow> f)"

definition after_redirect :: "int \<Rightarrow> string \<Rightarrow> body_filters \<Rightarrow> string \<times> body_filters" where
  "after_redirect status request_type body_filters =
     (let verb = str_upper (str_strip request_type);
          to_get = (status \<in> set POST_TO_GET_REDIRECTS \<and> verb = ''POST'')
                   \<or> (status = SEE_OTHER_STATUS \<and> verb \<noteq> ''HEAD'')
      in if to_get then (''GET'', NoBody) else (request_type, drop_params body_filters))"

record client_timeout =
  ct_total :: "rat option"
  ct_connect :: pyval
  ct_sock_connect :: pyval
  ct_sock_read :: pyval

abbreviation timeout_error :: exn where
  "timeout_error \<equiv> Exn (Ext ''asyncio.TimeoutError'') None"

definition hop_deadline :: "client_timeout \<Rightarrow> rat option \<Rightarrow> rat \<Rightarrow> exn + client_timeout" where
  "hop_deadline timeout deadline now =
     (case deadline of
        None \<Rightarrow> Inr timeout
      | Some d \<Rightarrow>
          let remaining = d - now
          in if remaining \<le> 0 then Inl timeout_error else Inr (timeout\<lparr>ct_total := Some remaining\<rparr>))"

section \<open>Tracing a hop\<close>

fun elapsed_from :: "rat \<Rightarrow> pyval \<Rightarrow> pyfloat option" where
  "elapsed_from now (PInt n) = Some (FFin (now - of_int n))"
| "elapsed_from now (PBool b) = Some (FFin (now - (if b then 1 else 0)))"
| "elapsed_from now (PFloat (FFin r)) = Some (FFin (now - r))"
| "elapsed_from now (PFloat FInf) = Some FNegInf"
| "elapsed_from now (PFloat FNegInf) = Some FInf"
| "elapsed_from now (PFloat FNaN) = Some FNaN"
| "elapsed_from now _ = None"

type_synonym collector = "(string, pyval) dict"

definition measure_redirect :: "rat \<Rightarrow> collector list \<Rightarrow> pyfloat option list" where
  "measure_redirect now collectors =
     map (\<lambda>c. elapsed_from now (dict_get_or c REQUEST_START_KEY PNone)) collectors"

definition record_redirect :: "pyfloat option list option \<Rightarrow> collector list \<Rightarrow> collector list" where
  "record_redirect event collectors =
     (case event of
        None \<Rightarrow> collectors
      | Some es \<Rightarrow> map2 (\<lambda>c e. dict_set
            (case e of None \<Rightarrow> c | Some t \<Rightarrow> dict_set c ''on_request_redirect'' (PFloat t))
            ''is_redirect'' (PBool True)) collectors es)"

section \<open>The loop\<close>

text \<open>One request as it is issued.\<close>

record sent =
  sn_verb :: string
  sn_url :: string
  sn_headers :: "(string, string) dict option"
  sn_cookies :: "(string, string) dict option"
  sn_auth :: pyval
  sn_body :: body_filters
  sn_ssl :: ssl_setting
  sn_timeout :: client_timeout

text \<open>
  The world: what the server answers to the requests so far, the verbs the session offers, the
  clocks and the tracers as they stand at each hop, the body the factory builds for each hop.
\<close>

record world =
  w_serve :: "sent list \<Rightarrow> exn + response"
  w_offers :: "string \<Rightarrow> bool"
  w_clock :: "nat \<Rightarrow> rat"
  w_loop_time :: "nat \<Rightarrow> rat"
  w_tracers :: "nat \<Rightarrow> collector list"
  w_build :: "nat \<Rightarrow> exn + body_filters"
  w_opens :: "pyval \<Rightarrow> bool \<Rightarrow> exn + string"
  w_decode :: "string \<Rightarrow> string option"
  w_replace :: "string \<Rightarrow> string"
  w_ip6 :: "string \<Rightarrow> bool"
  w_load :: "string \<Rightarrow> string \<Rightarrow> load_outcome"

text \<open>What stays the same during a call.\<close>

record http_call =
  hc_timeout :: client_timeout
  hc_deadline :: "rat option"
  hc_ssl :: ssl_setting
  hc_cap :: int
  hc_allowed :: "string list"
  hc_follow :: bool
  hc_max_redirects :: int
  hc_forward :: "string list"
  hc_download :: pyval
  hc_refuse_multipart :: bool

record hop_state =
  hp_verb :: string
  hp_target :: string
  hp_headers :: "(string, string) dict option"
  hp_cookies :: "(string, string) dict option"
  hp_auth :: pyval
  hp_body :: body_filters
  hp_hop :: nat
  hp_event :: "pyfloat option list option"
  hp_sent :: "sent list"

type_synonym answer = "(exn + http_result) \<times> saved"

text \<open>\<open>resp.headers.get('Location', '')\<close>: names are compared without case, the first wins.\<close>

fun header_get :: "(string \<times> string) list \<Rightarrow> string \<Rightarrow> string" where
  "header_get [] name = []"
| "header_get ((n, v) # hs) name = (if str_lower n = str_lower name then v else header_get hs name)"

definition issued :: "http_call \<Rightarrow> client_timeout \<Rightarrow> string \<Rightarrow> hop_state \<Rightarrow> sent" where
  "issued c tmo name s =
     \<lparr>sn_verb = name, sn_url = hp_target s, sn_headers = hp_headers s, sn_cookies = hp_cookies s,
      sn_auth = hp_auth s, sn_body = hp_body s, sn_ssl = hc_ssl c, sn_timeout = tmo\<rparr>"

text \<open>From a redirect response to the state of the next turn.\<close>

definition follow ::
  "world \<Rightarrow> http_call \<Rightarrow> int \<Rightarrow> string \<Rightarrow> hop_state \<Rightarrow> hop_state \<times> answer option" where
  "follow w c status location s =
     (let hop = hp_hop s + 1 in
      case redirect_target (w_ip6 w) (hp_target s) location (hc_allowed c) of
        Inl e \<Rightarrow> (s, Some (Inl e, None))
      | Inr following \<Rightarrow>
          let s1 = s\<lparr>hp_event := Some (measure_redirect (w_loop_time w hop) (w_tracers w hop))\<rparr> in
          (case w_build w hop of
             Inl e \<Rightarrow> (s1, Some (Inl e, None))
           | Inr built \<Rightarrow>
               let (verb, body) = after_redirect status (hp_verb s) built in
               (case same_origin (w_ip6 w) (hp_target s) following of
                  Inl e \<Rightarrow> (s1, Some (Inl e, None))
                | Inr same \<Rightarrow>
                    let s2 = s1\<lparr>hp_verb := verb, hp_body := body, hp_target := following,
                                hp_hop := hop\<rparr>
                    in (if same then s2
                        else s2\<lparr>hp_headers := cross_origin_headers (hp_headers s) (hc_forward c),
                                hp_cookies := None, hp_auth := PNone\<rparr>, None))))"

definition hop_step :: "world \<Rightarrow> http_call \<Rightarrow> hop_state \<Rightarrow> hop_state \<times> answer option" where
  "hop_step w c s =
     (case resolve_verb (w_offers w) (PStr (hp_verb s)) HTTP_VERBS of
        Inl e \<Rightarrow> (s, Some (Inl e, None))
      | Inr name \<Rightarrow>
      (case hop_deadline (hc_timeout c) (hc_deadline c) (w_clock w (hp_hop s)) of
        Inl e \<Rightarrow> (s, Some (Inl e, None))
      | Inr tmo \<Rightarrow>
        let s1 = s\<lparr>hp_sent := hp_sent s @ [issued c tmo name s]\<rparr> in
        (case w_serve w (hp_sent s1) of
           Inl e \<Rightarrow> (s1, Some (Inl e, None))
         | Inr resp \<Rightarrow>
           let header = (if hc_follow c \<and> rs_status resp \<in> set REDIRECT_STATUSES
                         then header_get (rs_headers resp) LOCATION_HEADER else []);
               location = str_strip header
           in if location = [] then
                (s1, Some (read_response (w_opens w) (w_decode w) (w_replace w) resp (hc_cap c)
                   (hc_download c) (hc_refuse_multipart c)))
              else if int (hp_hop s) \<ge> hc_max_redirects c then
                (s1, Some (Inl (Exn TransportError (Some (rs_status resp))), None))
              else follow w c (rs_status resp) location s1)))"

lemma follow_continues:
  "follow w c st loc s = (s', None) \<Longrightarrow> hp_hop s' = hp_hop s + 1 \<and> hp_sent s' = hp_sent s"
  by (auto simp: follow_def Let_def split: sum.splits prod.splits if_splits)

lemma hop_step_continues:
  "hop_step w c s = (s', None) \<Longrightarrow> hp_hop s' = hp_hop s + 1 \<and> int (hp_hop s) < hc_max_redirects c"
  by (auto simp: hop_step_def Let_def split: sum.splits if_splits dest: follow_continues)

text \<open>\<open>while True\<close>: it ends because every turn that goes on has counted a hop below the bound.\<close>

function hop_loop :: "world \<Rightarrow> http_call \<Rightarrow> hop_state \<Rightarrow> hop_state \<times> answer" where
  "hop_loop w c s =
     (case hop_step w c s of
        (s', Some a) \<Rightarrow> (s', a)
      | (s', None) \<Rightarrow> hop_loop w c s')"
  by pat_completeness auto
termination
  by (relation "measure (\<lambda>(w, c, s). nat (hc_max_redirects c - int (hp_hop s)))")
     (auto dest!: hop_step_continues [OF sym])

declare hop_loop.simps [simp del]

text \<open>The keyword arguments that do not change from hop to hop.\<close>

record http_options =
  ho_timeout :: client_timeout
  ho_cap :: int
  ho_allowed :: "string list"
  ho_follow :: bool
  ho_max_redirects :: int
  ho_forward :: "string list"
  ho_download :: pyval
  ho_refuse_multipart :: bool
  ho_certificate :: pyval
  ho_verify_ssl :: pyval
  ho_headers :: "(string, string) dict option"
  ho_cookies :: "(string, string) dict option"
  ho_auth :: pyval

text \<open>
  \<open>make_http_request\<close>: the answer, the requests that were issued, and the tracers after the
  redirect event was recorded in them.
\<close>

definition start_call :: "http_options \<Rightarrow> ssl_setting \<Rightarrow> rat \<Rightarrow> http_call" where
  "start_call opts ssl now =
     \<lparr>hc_timeout = ho_timeout opts, hc_deadline = map_option (\<lambda>t. now + t) (ct_total (ho_timeout opts)),
      hc_ssl = ssl, hc_cap = ho_cap opts, hc_allowed = ho_allowed opts, hc_follow = ho_follow opts,
      hc_max_redirects = ho_max_redirects opts, hc_forward = ho_forward opts,
      hc_download = ho_download opts, hc_refuse_multipart = ho_refuse_multipart opts\<rparr>"

definition start_state :: "http_options \<Rightarrow> string \<Rightarrow> string \<Rightarrow> body_filters \<Rightarrow> hop_state" where
  "start_state opts url request_type body =
     \<lparr>hp_verb = request_type, hp_target = url, hp_headers = ho_headers opts, hp_cookies = ho_cookies opts,
      hp_auth = ho_auth opts, hp_body = body, hp_hop = 0, hp_event = None, hp_sent = []\<rparr>"

definition make_http_request ::
  "world \<Rightarrow> rat \<Rightarrow> http_options \<Rightarrow> string \<Rightarrow> string \<Rightarrow> collector list
    \<Rightarrow> answer \<times> sent list \<times> collector list" where
  "make_http_request w now opts url request_type collectors =
     (case get_ssl_config (w_load w) (ho_certificate opts) (ho_verify_ssl opts) of
        Inl e \<Rightarrow> ((Inl e, None), [], collectors)
      | Inr ssl \<Rightarrow>
          (case w_build w 0 of
             Inl e \<Rightarrow> ((Inl e, None), [], collectors)
           | Inr body \<Rightarrow>
               let (s, a) = hop_loop w (start_call opts ssl now) (start_state opts url request_type body)
               in (a, hp_sent s, record_redirect (hp_event s) collectors)))"

section \<open>The loop as a chain of requests\<close>

text \<open>What may cross an origin: no cookie, no credentials, no header outside the allowlist.\<close>

definition stripped ::
  "string list \<Rightarrow> (string, string) dict option \<Rightarrow> (string, string) dict option \<Rightarrow> pyval \<Rightarrow> bool" where
  "stripped forward headers cookies auth =
     (cookies = None \<and> auth = PNone \<and>
      (case headers of None \<Rightarrow> True
       | Some hs \<Rightarrow> list_all (\<lambda>(n, _). str_lower n \<in> set (CROSS_ORIGIN_SAFE_HEADERS @ forward)) hs))"

definition crossed_before :: "(string \<Rightarrow> bool) \<Rightarrow> string list \<Rightarrow> nat \<Rightarrow> bool" where
  "crossed_before ip6 urls j = list_ex (\<lambda>k. same_origin ip6 (urls ! k) (urls ! Suc k) \<noteq> Inr True) [0..<j]"

definition scheme_allowed :: "(string \<Rightarrow> bool) \<Rightarrow> string list \<Rightarrow> string \<Rightarrow> bool" where
  "scheme_allowed ip6 allowed url =
     (case urlsplit ip6 [] url of Inl _ \<Rightarrow> False | Inr u \<Rightarrow> su_scheme u \<in> set allowed)"

lemma redirect_target_allowed:
  "redirect_target ip6 u loc allowed = Inr t \<Longrightarrow> scheme_allowed ip6 allowed t"
  by (auto simp: redirect_target_def scheme_allowed_def rbind_eq_Inr urlsplit_scheme_lower
      split: sum.splits if_splits)

lemma cross_origin_headers_stripped:
  "stripped forward (cross_origin_headers hs forward) None PNone"
  by (auto simp: stripped_def cross_origin_headers_def list_all_iff split: option.split)

text \<open>What a turn that goes on leaves behind.\<close>

lemma follow_next:
  assumes "follow w c st loc s = (s', None)"
  shows "hp_sent s' = hp_sent s \<and> hp_hop s' = hp_hop s + 1
    \<and> scheme_allowed (w_ip6 w) (hc_allowed c) (hp_target s')
    \<and> (same_origin (w_ip6 w) (hp_target s) (hp_target s') = Inr True
         \<and> (hp_headers s', hp_cookies s', hp_auth s') = (hp_headers s, hp_cookies s, hp_auth s)
       \<or> same_origin (w_ip6 w) (hp_target s) (hp_target s') \<noteq> Inr True
         \<and> stripped (hc_forward c) (hp_headers s') (hp_cookies s') (hp_auth s'))"
  using assms
  by (auto simp: follow_def Let_def cross_origin_headers_stripped
      split: sum.splits prod.splits if_splits dest: redirect_target_allowed)

lemma hop_step_next:
  assumes "hop_step w c s = (s', None)"
  shows "\<exists>tmo name. hp_sent s' = hp_sent s @ [issued c tmo name s]
    \<and> hp_hop s' = hp_hop s + 1 \<and> int (hp_hop s) < hc_max_redirects c
    \<and> scheme_allowed (w_ip6 w) (hc_allowed c) (hp_target s')
    \<and> (same_origin (w_ip6 w) (hp_target s) (hp_target s') = Inr True
         \<and> (hp_headers s', hp_cookies s', hp_auth s') = (hp_headers s, hp_cookies s, hp_auth s)
       \<or> same_origin (w_ip6 w) (hp_target s) (hp_target s') \<noteq> Inr True
         \<and> stripped (hc_forward c) (hp_headers s') (hp_cookies s') (hp_auth s'))"
  using assms unfolding hop_step_def Let_def
  by (auto split: sum.splits if_splits dest!: follow_next) blast+

lemma follow_sent: "follow w c st loc s = (s', r) \<Longrightarrow> hp_sent s' = hp_sent s"
  by (auto simp: follow_def Let_def split: sum.splits prod.splits if_splits)

lemma hop_step_last:
  assumes "hop_step w c s = (s', Some a)"
  shows "hp_sent s' = hp_sent s \<or> (\<exists>tmo name. hp_sent s' = hp_sent s @ [issued c tmo name s])"
  using assms unfolding hop_step_def Let_def
  by (auto split: sum.splits if_splits dest!: follow_sent) blast+

text \<open>An invariant of the turns holds when the loop ends.\<close>

lemma hop_loop_invariant:
  assumes step: "\<And>s s'. P s \<Longrightarrow> hop_step w c s = (s', None) \<Longrightarrow> P s'"
    and fin: "\<And>s s' a. P s \<Longrightarrow> hop_step w c s = (s', Some a) \<Longrightarrow> Q s'"
    and run: "hop_loop w c s = (s', a)" and "P s"
  shows "Q s'"
  using run \<open>P s\<close>
proof (induction "nat (hc_max_redirects c - int (hp_hop s))" arbitrary: s rule: less_induct)
  case less
  obtain t r where t: "hop_step w c s = (t, r)" by (cases "hop_step w c s")
  show ?case
  proof (cases r)
    case None
    then have "hop_loop w c t = (s', a)" using less.prems(1) t by (simp add: hop_loop.simps [of w c s])
    moreover have "nat (hc_max_redirects c - int (hp_hop t)) < nat (hc_max_redirects c - int (hp_hop s))"
      using hop_step_continues t None by auto
    ultimately show ?thesis using less.hyps step [OF less.prems(2)] t None by blast
  next
    case (Some b)
    then show ?thesis
      using less.prems t fin [OF less.prems(2)] by (auto simp: hop_loop.simps [of w c s])
  qed
qed

definition chain_of :: "hop_state \<Rightarrow> string list" where
  "chain_of s = map sn_url (hp_sent s) @ [hp_target s]"

text \<open>The invariant of the loop: about the requests issued, and about the one to come.\<close>

definition chain_inv :: "world \<Rightarrow> http_call \<Rightarrow> hop_state \<Rightarrow> bool" where
  "chain_inv w c s \<longleftrightarrow>
     length (hp_sent s) = hp_hop s \<and> (hp_hop s = 0 \<or> int (hp_hop s) \<le> hc_max_redirects c)
     \<and> (\<forall>j \<le> length (hp_sent s). 0 < j \<longrightarrow> scheme_allowed (w_ip6 w) (hc_allowed c) (chain_of s ! j))
     \<and> (\<forall>j < length (hp_sent s). crossed_before (w_ip6 w) (chain_of s) j \<longrightarrow>
          stripped (hc_forward c) (sn_headers (hp_sent s ! j)) (sn_cookies (hp_sent s ! j))
            (sn_auth (hp_sent s ! j)))
     \<and> (crossed_before (w_ip6 w) (chain_of s) (length (hp_sent s)) \<longrightarrow>
          stripped (hc_forward c) (hp_headers s) (hp_cookies s) (hp_auth s))"

lemma crossed_before_Suc:
  "crossed_before ip6 us (Suc j) \<longleftrightarrow>
     crossed_before ip6 us j \<or> same_origin ip6 (us ! j) (us ! Suc j) \<noteq> Inr True"
  by (auto simp: crossed_before_def)

lemma crossed_before_append:
  "j < length us \<Longrightarrow> crossed_before ip6 (us @ vs) j = crossed_before ip6 us j"
  by (auto simp: crossed_before_def list_ex_iff nth_append)

lemma issued_simps [simp]:
  "sn_url (issued c t n s) = hp_target s" "sn_headers (issued c t n s) = hp_headers s"
  "sn_cookies (issued c t n s) = hp_cookies s" "sn_auth (issued c t n s) = hp_auth s"
  by (simp_all add: issued_def)

lemma chain_inv_step:
  assumes inv: "chain_inv w c s" and step: "hop_step w c s = (s', None)"
  shows "chain_inv w c s'"
proof -
  obtain t n where st: "hp_sent s' = hp_sent s @ [issued c t n s]"
    and hop: "hp_hop s' = hp_hop s + 1" "int (hp_hop s) < hc_max_redirects c"
    and sch: "scheme_allowed (w_ip6 w) (hc_allowed c) (hp_target s')"
    and next_hop: "same_origin (w_ip6 w) (hp_target s) (hp_target s') = Inr True
         \<and> (hp_headers s', hp_cookies s', hp_auth s') = (hp_headers s, hp_cookies s, hp_auth s)
       \<or> same_origin (w_ip6 w) (hp_target s) (hp_target s') \<noteq> Inr True
         \<and> stripped (hc_forward c) (hp_headers s') (hp_cookies s') (hp_auth s')"
    using hop_step_next [OF step] by blast
  let ?n = "length (hp_sent s)"
  have ch: "chain_of s' = chain_of s @ [hp_target s']" by (simp add: chain_of_def st)
  have len: "length (chain_of s) = Suc ?n" by (simp add: chain_of_def)
  have at: "chain_of s ! ?n = hp_target s" by (simp add: chain_of_def nth_append)
  have cr: "crossed_before (w_ip6 w) (chain_of s') j = crossed_before (w_ip6 w) (chain_of s) j"
    if "j \<le> ?n" for j
    unfolding ch using that len by (intro crossed_before_append) simp
  have last: "crossed_before (w_ip6 w) (chain_of s') (Suc ?n) \<longleftrightarrow>
      crossed_before (w_ip6 w) (chain_of s) ?n
      \<or> same_origin (w_ip6 w) (hp_target s) (hp_target s') \<noteq> Inr True"
    using cr [of ?n] at len by (simp add: crossed_before_Suc ch nth_append)
  have schemes: "scheme_allowed (w_ip6 w) (hc_allowed c) (chain_of s' ! j)"
    if "j \<le> Suc ?n" "0 < j" for j
    using that inv sch len by (cases "j = Suc ?n") (auto simp: ch nth_append chain_inv_def)
  have reqs: "stripped (hc_forward c) (sn_headers (hp_sent s' ! j)) (sn_cookies (hp_sent s' ! j))
      (sn_auth (hp_sent s' ! j))"
    if "j < Suc ?n" "crossed_before (w_ip6 w) (chain_of s') j" for j
    using that inv cr [of j] by (cases "j = ?n") (auto simp: st nth_append chain_inv_def)
  have pending: "stripped (hc_forward c) (hp_headers s') (hp_cookies s') (hp_auth s')"
    if "crossed_before (w_ip6 w) (chain_of s') (Suc ?n)"
    using that last next_hop inv by (auto simp: chain_inv_def)
  show ?thesis
    using inv hop schemes reqs pending unfolding chain_inv_def by (auto simp: st)
qed

text \<open>What the loop leaves in the log.\<close>

definition log_ok :: "world \<Rightarrow> http_call \<Rightarrow> sent list \<Rightarrow> bool" where
  "log_ok w c rs \<longleftrightarrow>
     (length rs \<le> 1 \<or> int (length rs) \<le> hc_max_redirects c + 1)
     \<and> list_all (\<lambda>r. scheme_allowed (w_ip6 w) (hc_allowed c) (sn_url r)) (tl rs)
     \<and> list_all (\<lambda>j. crossed_before (w_ip6 w) (map sn_url rs) j \<longrightarrow>
          stripped (hc_forward c) (sn_headers (rs ! j)) (sn_cookies (rs ! j)) (sn_auth (rs ! j)))
         [0..<length rs]"

lemma chain_inv_log:
  assumes inv: "chain_inv w c s"
    and rs: "rs = hp_sent s \<or> (\<exists>t n. rs = hp_sent s @ [issued c t n s])"
  shows "log_ok w c rs"
proof -
  let ?us = "map sn_url rs" and ?n = "length (hp_sent s)"
  have us: "?us = take (length rs) (chain_of s)" and len: "length rs \<le> Suc ?n"
    using rs by (auto simp: chain_of_def)
  have nth: "?us ! j = chain_of s ! j" if "j < length rs" for j
    using that by (subst us) simp
  have cr: "crossed_before (w_ip6 w) ?us j = crossed_before (w_ip6 w) (chain_of s) j"
    if "j < length rs" for j
    using that nth by (auto simp: crossed_before_def list_ex_iff)
  have sch: "scheme_allowed (w_ip6 w) (hc_allowed c) (sn_url (rs ! j))"
    if "j < length rs" "0 < j" for j
    using nth [of j] that len inv by (auto simp: chain_inv_def)
  have "list_all (\<lambda>r. scheme_allowed (w_ip6 w) (hc_allowed c) (sn_url r)) (tl rs)"
    using sch [of "Suc _"] by (auto simp: list_all_length nth_tl)
  moreover have "stripped (hc_forward c) (sn_headers (rs ! j)) (sn_cookies (rs ! j)) (sn_auth (rs ! j))"
    if "j < length rs" "crossed_before (w_ip6 w) ?us j" for j
    using rs that cr [of j] inv by (cases "j < ?n") (auto simp: chain_inv_def nth_append less_Suc_eq)
  moreover have "length rs \<le> 1 \<or> int (length rs) \<le> hc_max_redirects c + 1"
    using len inv by (auto simp: chain_inv_def)
  ultimately show ?thesis by (simp add: log_ok_def list_all_iff)
qed

lemma make_http_request_log:
  assumes "make_http_request w now opts url request_type cs = (a, rs, cs')"
  shows "\<exists>ssl. log_ok w (start_call opts ssl now) rs"
proof -
  have nil: "log_ok w (start_call opts ssl now) []" for ssl by (simp add: log_ok_def)
  show ?thesis
  proof (cases "get_ssl_config (w_load w) (ho_certificate opts) (ho_verify_ssl opts)")
    case (Inl e)
    then show ?thesis using assms nil by (auto simp: make_http_request_def)
  next
    case ssl: (Inr ssl)
    show ?thesis
    proof (cases "w_build w 0")
      case (Inl e)
      then show ?thesis using assms nil ssl by (auto simp: make_http_request_def)
    next
      case (Inr body)
      let ?c = "start_call opts ssl now" and ?s = "start_state opts url request_type body"
      obtain s b where run: "hop_loop w ?c ?s = (s, b)" by (cases "hop_loop w ?c ?s")
      have "log_ok w ?c (hp_sent s)"
      proof (rule hop_loop_invariant [where P = "chain_inv w ?c", OF _ _ run])
        show "chain_inv w ?c ?s" by (simp add: chain_inv_def start_state_def crossed_before_def)
        show "chain_inv w ?c u" if "chain_inv w ?c t" "hop_step w ?c t = (u, None)" for t u
          using chain_inv_step that .
        show "log_ok w ?c (hp_sent u)"
          if "chain_inv w ?c t" "hop_step w ?c t = (u, Some r)" for t u r
          using chain_inv_log [OF that(1)] hop_step_last [OF that(2)] by blast
      qed
      then show ?thesis using assms ssl Inr run by (auto simp: make_http_request_def)
    qed
  qed
qed

section \<open>One deadline for the chain\<close>

definition deadline_inv :: "world \<Rightarrow> http_call \<Rightarrow> rat \<Rightarrow> hop_state \<Rightarrow> bool" where
  "deadline_inv w c d s \<longleftrightarrow> length (hp_sent s) = hp_hop s \<and>
     (\<forall>j < length (hp_sent s). ct_total (sn_timeout (hp_sent s ! j)) = Some (d - w_clock w j) \<and> w_clock w j < d)"

lemma hop_step_deadline:
  assumes "hop_step w c s = (s', r)" and "hc_deadline c = Some d"
  shows "hp_sent s' = hp_sent s \<or> (w_clock w (hp_hop s) < d \<and>
     (\<exists>name. hp_sent s' =
        hp_sent s @ [issued c ((hc_timeout c)\<lparr>ct_total := Some (d - w_clock w (hp_hop s))\<rparr>) name s]))"
  using assms unfolding hop_step_def Let_def hop_deadline_def
  by (auto split: sum.splits if_splits dest!: follow_sent)

lemma deadline_log:
  assumes "deadline_inv w c d s" "hop_step w c s = (s', r)" "hc_deadline c = Some d"
  shows "\<forall>j < length (hp_sent s'). ct_total (sn_timeout (hp_sent s' ! j)) = Some (d - w_clock w j)
      \<and> w_clock w j < d"
  using hop_step_deadline [OF assms(2,3)] assms(1)
  by (auto simp: deadline_inv_def nth_append issued_def less_Suc_eq)

lemma deadline_inv_step:
  assumes "deadline_inv w c d s" "hop_step w c s = (s', None)" "hc_deadline c = Some d"
  shows "deadline_inv w c d s'"
proof -
  obtain t n where "hp_sent s' = hp_sent s @ [issued c t n s]" "hp_hop s' = hp_hop s + 1"
    using hop_step_next [OF assms(2)] by blast
  then show ?thesis
    using deadline_log [OF assms] assms(1) by (simp add: deadline_inv_def)
qed

lemma make_http_request_runs:
  assumes "get_ssl_config (w_load w) (ho_certificate opts) (ho_verify_ssl opts) = Inr ssl"
    and "w_build w 0 = Inr body"
    and "hop_loop w (start_call opts ssl now) (start_state opts url request_type body) = (s, a)"
  shows "make_http_request w now opts url request_type cs =
    (a, hp_sent s, record_redirect (hp_event s) cs)"
  using assms by (simp add: make_http_request_def)

section \<open>Properties\<close>

definition carries_credentials :: "sent \<Rightarrow> bool" where
  "carries_credentials r =
     (sn_cookies r \<noteq> None \<or> sn_auth r \<noteq> PNone \<or>
      (case sn_headers r of None \<Rightarrow> False
       | Some hs \<Rightarrow> list_ex (\<lambda>(n, _). str_lower n \<in> set CREDENTIAL_HEADERS) hs))"

lemma safe_headers_are_no_credentials: "set CROSS_ORIGIN_SAFE_HEADERS \<inter> set CREDENTIAL_HEADERS = {}"
  by (simp add: CROSS_ORIGIN_SAFE_HEADERS_def CREDENTIAL_HEADERS_def EXTRA_CREDENTIAL_HEADERS_def
      SENSITIVE_HEADERS_def)

lemma stripped_carries_nothing:
  assumes "stripped forward (sn_headers r) (sn_cookies r) (sn_auth r)"
    and "set forward \<inter> set CREDENTIAL_HEADERS = {}"
  shows "\<not> carries_credentials r"
  using assms safe_headers_are_no_credentials
  by (fastforce simp: stripped_def carries_credentials_def list_ex_iff list_all_iff split: option.splits)

section \<open>An exchange\<close>

text \<open>
  A POST to one host that is answered by a 303 to another host, whose answer is a 307 back to the
  first, which answers. The caller sends a body, a cookie, an \<open>auth\<close> object and two headers.
\<close>

definition reply :: "int \<Rightarrow> string \<Rightarrow> response" where
  "reply status location =
     \<lparr>rs_status = status, rs_headers = [(''location'', location)], rs_cookies = [],
      rs_stream = (\<lambda>_. \<lparr>st_chunks = [''ok''], st_failure = None\<rparr>), rs_parts = []\<rparr>"

definition three_hosts :: world where
  "three_hosts =
     \<lparr>w_serve = (\<lambda>rs. Inr (if length rs = 1 then reply 303 ''https://b.example/y''
                       else if length rs = 2 then reply 307 ''https://a.example/z''
                       else reply 200 [])),
      w_offers = (\<lambda>_. True), w_clock = (\<lambda>n. of_nat n), w_loop_time = (\<lambda>n. of_nat n),
      w_tracers = (\<lambda>_. []), w_build = (\<lambda>_. Inr (JsonBody (PDict [(PStr ''amount'', PInt 7)]))),
      w_opens = (\<lambda>_ _. Inl config_error), w_decode = (\<lambda>s. Some s), w_replace = (\<lambda>s. s),
      w_ip6 = (\<lambda>_. False), w_load = (\<lambda>_ _. LoadFailed)\<rparr>"

definition example_options :: http_options where
  "example_options =
     \<lparr>ho_timeout = \<lparr>ct_total = Some 15, ct_connect = PNone, ct_sock_connect = PNone, ct_sock_read = PNone\<rparr>,
      ho_cap = MAX_RESPONSE_BYTES, ho_allowed = [''https''], ho_follow = True,
      ho_max_redirects = MAX_REDIRECTS, ho_forward = [], ho_download = PNone,
      ho_refuse_multipart = False, ho_certificate = PNone, ho_verify_ssl = PBool True,
      ho_headers = Some [(''Accept'', ''*/*''), (''X-Api-Key'', ''k'')],
      ho_cookies = Some [(''sid'', ''s'')], ho_auth = PBasicAuth ''u'' ''p''\<rparr>"

definition example_run :: "answer \<times> sent list \<times> collector list" where
  "example_run = make_http_request three_hosts 0 example_options ''https://a.example/x'' ''POST'' []"

definition example_call :: http_call where
  "example_call = start_call example_options Verify 0"

definition example_payload :: body_filters where
  "example_payload = JsonBody (PDict [(PStr ''amount'', PInt 7)])"

text \<open>The states of the three turns.\<close>

definition turn_0 :: hop_state where
  "turn_0 = start_state example_options ''https://a.example/x'' ''POST'' example_payload"

definition sent_after :: "rat \<Rightarrow> string \<Rightarrow> hop_state \<Rightarrow> sent list" where
  "sent_after t verb s =
     hp_sent s @ [issued example_call ((hc_timeout example_call)\<lparr>ct_total := Some t\<rparr>) verb s]"

definition turn_1 :: hop_state where
  "turn_1 =
     \<lparr>hp_verb = ''GET'', hp_target = ''https://b.example/y'', hp_headers = Some [(''Accept'', ''*/*'')],
      hp_cookies = None, hp_auth = PNone, hp_body = NoBody, hp_hop = 1, hp_event = Some [],
      hp_sent = sent_after 15 ''post'' turn_0\<rparr>"

definition turn_2 :: hop_state where
  "turn_2 =
     turn_1\<lparr>hp_target := ''https://a.example/z'', hp_body := example_payload, hp_hop := 2,
       hp_sent := sent_after 14 ''get'' turn_1\<rparr>"

lemma example_steps:
  "hop_step three_hosts example_call turn_0 = (turn_1, None)"
  "hop_step three_hosts example_call turn_1 = (turn_2, None)"
  "fst (hop_step three_hosts example_call turn_2) = turn_2\<lparr>hp_sent := sent_after 13 ''get'' turn_2\<rparr>"
  "map_option (map_sum id hr_text \<circ> fst) (snd (hop_step three_hosts example_call turn_2)) = Some (Inr ''ok'')"
  by code_simp+

lemma example_sent: "fst (snd example_run) = sent_after 13 ''get'' turn_2"
proof -
  obtain u r where last: "hop_step three_hosts example_call turn_2 = (u, r)"
    by (cases "hop_step three_hosts example_call turn_2")
  then obtain a where a: "r = Some a" using example_steps(4) by auto
  have u: "u = turn_2\<lparr>hp_sent := sent_after 13 ''get'' turn_2\<rparr>" using example_steps(3) last by simp
  have "hop_loop three_hosts example_call turn_2 = (u, a)"
    using last a by (simp add: hop_loop.simps [of _ _ turn_2])
  then have "hop_loop three_hosts example_call turn_0 = (u, a)"
    using example_steps(1,2)
    by (simp add: hop_loop.simps [of _ _ turn_0] hop_loop.simps [of _ _ turn_1])
  then have run: "hop_loop three_hosts (start_call example_options Verify 0)
      (start_state example_options ''https://a.example/x'' ''POST'' example_payload) = (u, a)"
    by (simp only: example_call_def turn_0_def)
  have ssl: "get_ssl_config (w_load three_hosts) (ho_certificate example_options)
      (ho_verify_ssl example_options) = Inr Verify"
    by (simp add: get_ssl_config_def example_options_def)
  have body: "w_build three_hosts 0 = Inr example_payload"
    by (simp add: three_hosts_def example_payload_def)
  show ?thesis
    using make_http_request_runs [OF ssl body run] u by (simp add: example_run_def)
qed

lemma example_log:
  "map (\<lambda>r. (sn_verb r, sn_url r, sn_body r)) (fst (snd example_run)) =
     [(''post'', ''https://a.example/x'', example_payload), (''get'', ''https://b.example/y'', NoBody),
      (''get'', ''https://a.example/z'', example_payload)]
   \<and> map carries_credentials (fst (snd example_run)) = [True, False, False]"
  unfolding example_sent by code_simp

lemma example_crossed: "crossed_before (w_ip6 three_hosts) (map sn_url (fst (snd example_run))) 2"
  unfolding example_sent by code_simp

lemma example_result:
  "make_http_request three_hosts 0 example_options ''https://a.example/x'' ''POST'' [] =
     (fst example_run, fst (snd example_run), snd (snd example_run))"
  by (simp add: example_run_def)

text \<open>
  C34. Credentials do not cross an origin: of the requests a call issues, whatever the servers on
  the way answer, none that comes after a change of scheme, host or port carries a cookie, the
  \<open>auth\<close> object or a credential header, and that stays so when the chain comes back to the origin
  it started from. The names the caller lets cross in addition must not be credential names, which
  is what their validation ensures.
\<close>

theorem credentials_do_not_cross_origins:
  assumes "make_http_request w now opts url request_type cs = (a, rs, cs')"
    and "set (ho_forward opts) \<inter> set CREDENTIAL_HEADERS = {}"
  shows "{j. j < length rs \<and> crossed_before (w_ip6 w) (map sn_url rs) j \<and> carries_credentials (rs ! j)} = {}"
proof -
  obtain ssl where log: "log_ok w (start_call opts ssl now) rs"
    using make_http_request_log [OF assms(1)] by blast
  then have "stripped (ho_forward opts) (sn_headers (rs ! j)) (sn_cookies (rs ! j)) (sn_auth (rs ! j))"
    if "j < length rs" "crossed_before (w_ip6 w) (map sn_url rs) j" for j
    using that by (auto simp: log_ok_def list_all_iff start_call_def)
  then show ?thesis using stripped_carries_nothing assms(2) by blast
qed

theorem credentials_do_not_cross_origins_witness:
  "{j. j < length (fst (snd example_run))
      \<and> crossed_before (w_ip6 three_hosts) (map sn_url (fst (snd example_run))) j
      \<and> carries_credentials (fst (snd example_run) ! j)} = {}
   \<and> crossed_before (w_ip6 three_hosts) (map sn_url (fst (snd example_run))) 2"
  using credentials_do_not_cross_origins [OF example_result] example_crossed
  by (simp add: example_options_def)


text \<open>
  C35. A call issues at most \<open>max_redirects\<close> and one requests, and every request after the first
  goes to a URL whose scheme is in \<open>allowed_schemes\<close>: a redirect to any other scheme is refused
  before it is followed.
\<close>

theorem redirects_are_bounded_and_checked:
  assumes "make_http_request w now opts url request_type cs = (a, rs, cs')"
    and "0 \<le> ho_max_redirects opts"
  shows "int (length rs) \<le> ho_max_redirects opts + 1
    \<and> filter (\<lambda>r. \<not> scheme_allowed (w_ip6 w) (ho_allowed opts) (sn_url r)) (tl rs) = []"
  using make_http_request_log [OF assms(1)] assms(2)
  by (auto simp: log_ok_def start_call_def list_all_iff filter_empty_conv)

theorem redirects_are_bounded_and_checked_witness:
  "int (length (fst (snd example_run))) \<le> 11
   \<and> filter (\<lambda>r. \<not> scheme_allowed (w_ip6 three_hosts) [''https''] (sn_url r)) (tl (fst (snd example_run))) = []"
  using redirects_are_bounded_and_checked [OF example_result]
  by (simp add: example_options_def MAX_REDIRECTS_def)


text \<open>
  C36. The timeout of a call bounds its whole chain: whenever request number \<open>j\<close> is issued there is
  time left, and the total it is given is what the one deadline leaves at that moment.
\<close>

theorem chain_shares_one_deadline:
  assumes "make_http_request w now opts url request_type cs = (a, rs, cs')"
    and "ct_total (ho_timeout opts) = Some t"
  shows "map (\<lambda>r. ct_total (sn_timeout r)) rs = map (\<lambda>j. Some (now + t - w_clock w j)) [0..<length rs]
    \<and> filter (\<lambda>j. now + t \<le> w_clock w j) [0..<length rs] = []"
proof (cases "get_ssl_config (w_load w) (ho_certificate opts) (ho_verify_ssl opts)")
  case (Inl e)
  then show ?thesis using assms by (auto simp: make_http_request_def)
next
  case ssl: (Inr ssl)
  show ?thesis
  proof (cases "w_build w 0")
    case (Inl e)
    then show ?thesis using assms ssl by (auto simp: make_http_request_def)
  next
    case (Inr body)
    let ?c = "start_call opts ssl now" and ?s = "start_state opts url request_type body"
    obtain s b where run: "hop_loop w ?c ?s = (s, b)" by (cases "hop_loop w ?c ?s")
    have d: "hc_deadline ?c = Some (now + t)" using assms(2) by (simp add: start_call_def)
    have "\<forall>j < length (hp_sent s). ct_total (sn_timeout (hp_sent s ! j)) = Some (now + t - w_clock w j)
        \<and> w_clock w j < now + t"
    proof (rule hop_loop_invariant [where P = "deadline_inv w ?c (now + t)", OF _ _ run])
      show "deadline_inv w ?c (now + t) ?s" by (simp add: deadline_inv_def start_state_def)
      show "deadline_inv w ?c (now + t) u" if "deadline_inv w ?c (now + t) v" "hop_step w ?c v = (u, None)" for v u
        using deadline_inv_step that d .
      show "\<forall>j < length (hp_sent u). ct_total (sn_timeout (hp_sent u ! j)) = Some (now + t - w_clock w j)
          \<and> w_clock w j < now + t"
        if "deadline_inv w ?c (now + t) v" "hop_step w ?c v = (u, Some r)" for v u r
        using deadline_log that d .
    qed
    moreover have "rs = hp_sent s" using assms(1) make_http_request_runs [OF ssl Inr run] by simp
    ultimately have each: "ct_total (sn_timeout (rs ! j)) = Some (now + t - w_clock w j)"
        "w_clock w j < now + t" if "j < length rs" for j
      using that by blast+
    have "map (\<lambda>r. ct_total (sn_timeout r)) rs = map (\<lambda>j. Some (now + t - w_clock w j)) [0..<length rs]"
      by (rule nth_equalityI) (simp_all add: each(1))
    moreover have "\<not> now + t \<le> w_clock w j" if "j \<in> set [0..<length rs]" for j
      using each(2) [of j] that by simp
    ultimately show ?thesis by (simp only: filter_empty_conv) blast
  qed
qed

theorem chain_shares_one_deadline_witness:
  "map (\<lambda>r. ct_total (sn_timeout r)) (fst (snd example_run)) = [Some 15, Some 14, Some 13]"
proof -
  have "length (fst (snd example_run)) = 3" using example_log [THEN conjunct2] by (metis length_map
    length_Cons list.size(3) numeral_3_eq_3)
  then show ?thesis
    using chain_shares_one_deadline [OF example_result, of 15]
    by (simp add: example_options_def three_hosts_def upt_rec)
qed


text \<open>
  The scheme of the URL a call starts with is not checked against \<open>allowed_schemes\<close>: whatever
  the list holds, the first request goes out to the caller's URL, as soon as the verb, the TLS
  setting, the body and the deadline allow a request at all.
\<close>

theorem first_url_is_not_checked:
  assumes "\<not> scheme_allowed (w_ip6 w) (ho_allowed opts) url"
    and "get_ssl_config (w_load w) (ho_certificate opts) (ho_verify_ssl opts) = Inr ssl"
    and "w_build w 0 = Inr body"
    and "resolve_verb (w_offers w) (PStr request_type) HTTP_VERBS = Inr name"
    and "ct_total (ho_timeout opts) = Some t" and "w_clock w 0 < now + t"
  shows "map sn_url (take 1 (fst (snd (make_http_request w now opts url request_type cs)))) = [url]"
proof -
  let ?c = "start_call opts ssl now" and ?s = "start_state opts url request_type body"
  obtain s b where run: "hop_loop w ?c ?s = (s, b)" by (cases "hop_loop w ?c ?s")
  have first: "\<exists>r. hop_step w ?c ?s = (u, r) \<Longrightarrow> \<exists>tmo n. hp_sent u = [issued ?c tmo n ?s]" for u
    using assms(4-6) unfolding hop_step_def Let_def
    by (auto simp: start_state_def start_call_def hop_deadline_def split: sum.splits if_splits
        dest!: follow_sent) blast+
  have url: "sn_url (issued ?c tmo n ?s) = url" for tmo n by (simp add: start_state_def)
  have grow: "\<exists>rest. hp_sent u = hp_sent v @ rest" if "hop_step w ?c v = (u, r)" for u v r
    using hop_step_next [of w ?c v u] hop_step_last [of w ?c v u] that by (cases r) auto
  have keep: "take 1 (map sn_url (hp_sent u)) = [url]"
    if "take 1 (map sn_url (hp_sent v)) = [url]" "hop_step w ?c v = (u, r)" for u v r
    using grow [OF that(2)] that(1) by (cases "hp_sent v") auto
  have "take 1 (map sn_url (hp_sent s)) = [url]"
  proof (cases "hop_step w ?c ?s")
    case (Pair u r)
    then obtain tmo n where u: "hp_sent u = [issued ?c tmo n ?s]" using first by blast
    show ?thesis
    proof (cases r)
      case (Some x)
      then show ?thesis using run Pair u url by (simp add: hop_loop.simps [of w ?c ?s])
    next
      case None
      then have "hop_loop w ?c u = (s, b)" using run Pair by (simp add: hop_loop.simps [of w ?c ?s])
      then show ?thesis
      proof (rule hop_loop_invariant [where P = "\<lambda>v. take 1 (map sn_url (hp_sent v)) = [url]", rotated 2])
        show "take 1 (map sn_url (hp_sent u)) = [url]" using u url by simp
      qed (rule keep; assumption)+
    qed
  qed
  then show ?thesis using make_http_request_runs [OF assms(2,3) run] by (simp add: take_map)
qed

theorem first_url_is_not_checked_witness:
  "map sn_url (take 1 (fst (snd (make_http_request three_hosts 0 example_options ''http://a.example/x'' ''POST'' []))))
     = [''http://a.example/x'']
   \<and> \<not> scheme_allowed (w_ip6 three_hosts) (ho_allowed example_options) ''http://a.example/x''"
proof -
  have bad: "\<not> scheme_allowed (w_ip6 three_hosts) (ho_allowed example_options) ''http://a.example/x''"
    by code_simp
  have verb: "resolve_verb (w_offers three_hosts) (PStr ''POST'') HTTP_VERBS = Inr ''post''" by code_simp
  have ssl: "get_ssl_config (w_load three_hosts) (ho_certificate example_options)
      (ho_verify_ssl example_options) = Inr Verify"
    by (simp add: get_ssl_config_def example_options_def)
  have body: "w_build three_hosts 0 = Inr (JsonBody (PDict [(PStr ''amount'', PInt 7)]))"
    by (simp add: three_hosts_def)
  have total: "ct_total (ho_timeout example_options) = Some 15" "w_clock three_hosts 0 < 0 + 15"
    by (simp_all add: example_options_def three_hosts_def)
  show ?thesis using first_url_is_not_checked [OF bad ssl body verb total] bad by simp
qed


text \<open>
  A body that a redirect dropped comes back: once a hop has turned the call into a GET without
  a body, as a 303 does, a later 307 or 308 issues that GET with the body the factory builds for
  the caller's own request, whatever the previous hop was sent with.
\<close>

theorem dropped_body_comes_back:
  assumes "follow w c status location s = (s', None)" and "status \<in> {307, 308}"
    and "hp_verb s = ''GET''" and "hp_body s = NoBody"
    and "w_build w (hp_hop s + 1) = Inr (JsonBody d)"
  shows "hp_verb s' = ''GET'' \<and> hp_body s' = JsonBody d"
  using assms
  by (auto simp: follow_def Let_def after_redirect_def drop_params_def POST_TO_GET_REDIRECTS_def
      SEE_OTHER_STATUS_def split: sum.splits prod.splits if_splits)

theorem dropped_body_comes_back_witness:
  "map_option (\<lambda>s. (hp_verb s, hp_body s))
     (case follow three_hosts (start_call example_options Verify 0) 307 ''https://a.example/z''
        (start_state example_options ''https://b.example/y'' ''GET'' NoBody) of
        (s', None) \<Rightarrow> Some s' | _ \<Rightarrow> None)
   = Some (''GET'', JsonBody (PDict [(PStr ''amount'', PInt 7)]))"
proof -
  let ?f = "follow three_hosts (start_call example_options Verify 0) 307 ''https://a.example/z''
        (start_state example_options ''https://b.example/y'' ''GET'' NoBody)"
  have "snd ?f = None" by code_simp
  then have f: "?f = (fst ?f, None)" by (metis prod.collapse)
  have "hp_verb (fst ?f) = ''GET'' \<and> hp_body (fst ?f) = JsonBody (PDict [(PStr ''amount'', PInt 7)])"
    by (rule dropped_body_comes_back [OF f]) (simp_all add: start_state_def three_hosts_def)
  then show ?thesis by (subst f) simp
qed

end
