(* ===== verification/Http_Options.thy ===== *)
theory Http_Options
  imports Base Redirects
begin

text \<open>
  The validators of \<open>logic/http_client.py\<close>: each key of \<open>protocol_info\<close> an HTTP call reads is
  turned into the typed value the dispatch uses, or into a configuration error. What an object
  that is not one of Python's own types is (an \<open>aiohttp.ClientSession\<close> with its state, a
  \<open>TraceConfig\<close>, a callable's result) is the record \<open>foreign\<close>.
\<close>

section \<open>Constants\<close>

definition ALLOWED_SCHEMES :: "string list" where
  "ALLOWED_SCHEMES = [''http'', ''https'']"

definition FORBIDDEN_HEADER_CHARS :: "nat list" where
  "FORBIDDEN_HEADER_CHARS = filter (\<lambda>n. n \<noteq> 9) [0..<32] @ [127]"

definition FORBIDDEN_COOKIE_VALUE_CHARS :: "nat list" where
  "FORBIDDEN_COOKIE_VALUE_CHARS = [0..<32] @ [127]"

definition LEGAL_COOKIE_NAME_CHARS :: string where
  "LEGAL_COOKIE_NAME_CHARS =
    ''abcdefghijklmnopqrstuvwxyzABCDEFGHIJKLMNOPQRSTUVWXYZ0123456789!#$%&'' @ [CHR 0x27]
      @ ''*+-.^_'' @ [CHR 0x60] @ ''|~:''"

section \<open>Foreign objects\<close>

record session =
  se_id :: nat
  se_closed :: bool
  se_headers :: "string list"
  se_auth :: pyval
  se_tracers :: "pyval list"

record foreign =
  fo_session :: "pyval \<Rightarrow> session option"
  fo_tracer :: "pyval \<Rightarrow> bool option"
  fo_call :: "pyval \<Rightarrow> pyval \<Rightarrow> exn + pyval"

section \<open>Verbs, uploads, downloads\<close>

definition validated_request_type :: "pyval \<Rightarrow> exn + string" where
  "validated_request_type request_type =
     (case request_type of
        PStr s \<Rightarrow>
          let name = str_lower (str_strip s)
          in if name = [] \<or> name \<notin> set HTTP_VERBS then Inl (Exn UnsupportedVerbError None) else Inr s
      | _ \<Rightarrow> Inl (Exn UnsupportedVerbError None))"

definition validated_upload_config :: "pyval \<Rightarrow> string \<Rightarrow> exn + pyval" where
  "validated_upload_config upload request_type =
     (if py_truth upload \<and> is_get request_type then Inl config_error else Inr upload)"

definition validated_download_config :: "pyval \<Rightarrow> exn + pyval" where
  "validated_download_config download =
     (if download = PNone then Inr PNone
      else if \<not> is_mapping download then Inl config_error
      else if dget_or download ''download_filepath'' PNone = PNone
              \<or> is_str (dget_or download ''download_filepath'' PNone)
      then Inr (PDict (entries download)) else Inl config_error)"

section \<open>Headers and cookies\<close>

definition checked_header_text :: "pyval \<Rightarrow> exn + string" where
  "checked_header_text v =
     (case v of
        PStr s \<Rightarrow> if list_ex (\<lambda>c. ord_of c \<in> set FORBIDDEN_HEADER_CHARS) s then Inl config_error else Inr s
      | _ \<Rightarrow> Inl config_error)"

fun checked_header_items :: "(pyval, pyval) dict \<Rightarrow> exn + (string, string) dict" where
  "checked_header_items [] = Inr []"
| "checked_header_items ((name, v) # items) =
     rbind (checked_header_text name) (\<lambda>n. rbind (checked_header_text v) (\<lambda>t.
     rbind (checked_header_items items) (\<lambda>rest. Inr ((n, t) # rest))))"

definition validated_headers :: "pyval \<Rightarrow> exn + (string, string) dict" where
  "validated_headers headers =
     (if headers = PNone then Inr []
      else if \<not> is_mapping headers then Inl config_error
      else checked_header_items (entries headers))"

definition legal_cookie_name :: "string \<Rightarrow> bool" where
  "legal_cookie_name name = (name \<noteq> [] \<and> list_all (\<lambda>c. c \<in> set LEGAL_COOKIE_NAME_CHARS) name)"

fun checked_cookies :: "(pyval, pyval) dict \<Rightarrow> exn + (string, string) dict" where
  "checked_cookies [] = Inr []"
| "checked_cookies ((name, v) # items) =
     (case (name, v) of
        (PStr n, PStr t) \<Rightarrow>
          rbind (ensure (legal_cookie_name n) config_error) (\<lambda>_.
          rbind (ensure (\<not> list_ex (\<lambda>c. ord_of c \<in> set FORBIDDEN_COOKIE_VALUE_CHARS) t) config_error) (\<lambda>_.
          rbind (checked_cookies items) (\<lambda>rest. Inr ((n, t) # rest))))
      | _ \<Rightarrow> Inl config_error)"

definition validated_cookies :: "pyval \<Rightarrow> exn + (string, string) dict option" where
  "validated_cookies cookies =
     (if cookies = PNone then Inr None
      else if \<not> is_mapping cookies then Inl config_error
      else rbind (checked_cookies (entries cookies)) (\<lambda>cs. Inr (Some cs)))"

section \<open>What may cross an origin, sessions, credentials\<close>

definition str_names :: "pyval list \<Rightarrow> exn + string list" where
  "str_names vs = rmap (\<lambda>v. case v of PStr s \<Rightarrow> Inr (str_lower s) | _ \<Rightarrow> Inl config_error) vs"

definition validated_cross_origin_headers :: "pyval \<Rightarrow> exn + string list" where
  "validated_cross_origin_headers names =
     (if names = PNone then Inr []
      else if is_str names \<or> \<not> is_collection names then Inl config_error
      else rbind (str_names (elements names)) (\<lambda>ns.
           if list_ex (\<lambda>n. n \<in> set CREDENTIAL_HEADERS) ns then Inl config_error else Inr ns))"

definition validated_session :: "foreign \<Rightarrow> pyval \<Rightarrow> string list \<Rightarrow> exn + session option" where
  "validated_session f v cross_origin_forward =
     (if v = PNone then Inr None
      else (case fo_session f v of
          None \<Rightarrow> Inl config_error
        | Some se \<Rightarrow>
            rbind (ensure (\<not> se_closed se) config_error) (\<lambda>_.
            rbind (ensure (list_all (\<lambda>n. str_lower n \<in> set (CROSS_ORIGIN_SAFE_HEADERS @ cross_origin_forward))
                     (se_headers se)) config_error) (\<lambda>_.
            rbind (ensure (se_auth se = PNone) config_error) (\<lambda>_. Inr (Some se))))))"

definition validated_http_auth :: "(string \<Rightarrow> bool) \<Rightarrow> pyval \<Rightarrow> string \<Rightarrow> exn + pyval" where
  "validated_http_auth ip6 auth url =
     (case auth of
        PNone \<Rightarrow> Inr PNone
      | PBasicAuth l p \<Rightarrow>
          rbind (urlsplit ip6 [] url) (\<lambda>parts.
            if CHR ''@'' \<in> set (su_netloc parts) then Inl config_error else Inr auth)
      | _ \<Rightarrow> Inl config_error)"

section \<open>Numbers and switches\<close>

definition validated_max_response_bytes :: "pyval \<Rightarrow> exn + int" where
  "validated_max_response_bytes v =
     (case v of PInt n \<Rightarrow> if n \<le> 0 then Inl config_error else Inr n | _ \<Rightarrow> Inl config_error)"

text \<open>
  \<open>float(timeout)\<close>: an integer no float can hold raises \<open>OverflowError\<close>. The comparison with zero
  is false for not-a-number, which is let through.
\<close>

definition FLOAT_LIMIT :: int where
  "FLOAT_LIMIT = 2 ^ 1024 - 2 ^ 970"

definition validated_timeout :: "pyval \<Rightarrow> exn + pyfloat" where
  "validated_timeout v =
     (case v of
        PInt n \<Rightarrow> if n \<le> 0 then Inl config_error
          else if n \<ge> FLOAT_LIMIT then raise_as (Ext ''OverflowError'') else Inr (FFin (of_int n))
      | PFloat x \<Rightarrow> if flt_le x (FFin 0) then Inl config_error else Inr x
      | _ \<Rightarrow> Inl config_error)"

definition validated_allow_redirects :: "pyval \<Rightarrow> exn + bool" where
  "validated_allow_redirects v = (case v of PBool b \<Rightarrow> Inr b | _ \<Rightarrow> Inl config_error)"

definition validated_max_redirects :: "pyval \<Rightarrow> exn + int" where
  "validated_max_redirects v =
     (case v of PInt n \<Rightarrow> if n < 0 then Inl config_error else Inr n | _ \<Rightarrow> Inl config_error)"

definition validated_allowed_schemes :: "pyval \<Rightarrow> exn + string list" where
  "validated_allowed_schemes v =
     (if is_str v \<or> \<not> is_collection v then Inl config_error
      else if \<not> py_truth v then Inl config_error
      else str_names (elements v))"

section \<open>Serialisation and tracing\<close>

text \<open>The serialiser a call uses: the caller's, or the library's own.\<close>

datatype serializer = DefaultSerializer | CallerSerializer pyval

definition default_json_serialize :: "(pyval \<Rightarrow> string option) \<Rightarrow> pyval \<Rightarrow> exn + string" where
  "default_json_serialize dumps v =
     (case dumps v of Some s \<Rightarrow> Inr s | None \<Rightarrow> Inl config_error)"

definition validated_json_serializer :: "foreign \<Rightarrow> pyval \<Rightarrow> exn + serializer" where
  "validated_json_serializer f v =
     rbind (ensure (is_callable v) config_error) (\<lambda>_.
     rbind (fo_call f v (PDict [])) (\<lambda>probe.
     rbind (ensure (is_str probe) config_error) (\<lambda>_. Inr (CallerSerializer v))))"

text \<open>The library's default passes its own probe, the serialisation of the empty mapping.\<close>

definition validated_serialization :: "foreign \<Rightarrow> pyval \<Rightarrow> session option \<Rightarrow> exn + serializer" where
  "validated_serialization f info se =
     (if se \<noteq> None \<and> dhas info ''serialization'' then Inl config_error
      else (case dget info ''serialization'' of
          None \<Rightarrow> Inr DefaultSerializer
        | Some v \<Rightarrow> validated_json_serializer f v))"

text \<open>The tracers the library attaches to the session it builds: its own, or the caller's.\<close>

datatype tracers = OwnTracer | CallerTracers "pyval list"

definition validated_trace_config :: "foreign \<Rightarrow> pyval \<Rightarrow> session option \<Rightarrow> exn + tracers" where
  "validated_trace_config f info se =
     (if se \<noteq> None then
        (if dhas info ''trace_config'' then Inl config_error else Inr (CallerTracers []))
      else (case dget info ''trace_config'' of
          None \<Rightarrow> Inr OwnTracer
        | Some v \<Rightarrow>
            if is_str v \<or> \<not> is_collection v then Inl config_error
            else if list_all (\<lambda>t. fo_tracer f t = Some True) (elements v)
            then Inr (CallerTracers (elements v)) else Inl config_error))"

section \<open>The constructor\<close>

record http_request =
  hq_base :: base_request
  hq_request_type :: string
  hq_auth :: pyval
  hq_cookies :: "(string, string) dict option"
  hq_headers :: "(string, string) dict"
  hq_verify_ssl :: pyval
  hq_upload :: pyval
  hq_download :: pyval
  hq_timeout :: pyfloat
  hq_forward :: "string list"
  hq_session :: "session option"
  hq_serializer :: serializer
  hq_tracers :: tracers
  hq_cap :: int
  hq_allow_redirects :: bool
  hq_max_redirects :: int
  hq_allowed :: "string list"

definition HTTP_ACCEPTED_INFO_KEYS :: "string list" where
  "HTTP_ACCEPTED_INFO_KEYS = COMMON_PROTOCOL_INFO_KEYS @
    [''allow_redirects'', ''allowed_schemes'', ''cookies'', ''cross_origin_headers'', ''headers'',
     ''http_file_download_config'', ''http_file_upload_config'', ''max_redirects'',
     ''max_response_bytes'', ''request_type'', ''serialization'', ''session'', ''trace_config'',
     ''verify_ssl'']"

definition HTTP_REQUIRED_INFO_KEYS :: "string list" where
  "HTTP_REQUIRED_INFO_KEYS = [''request_type'']"

text \<open>
  \<open>HttpRequest.__init__\<close> after the base class: the validators run in the order of the source, so
  the first bad option is the one reported. A missing \<open>request_type\<close> is a \<open>KeyError\<close>; the entry
  point has required it before.
\<close>

definition http_request_of :: "(string \<Rightarrow> bool) \<Rightarrow> foreign \<Rightarrow> base_request \<Rightarrow> exn + http_request" where
  "http_request_of ip6 f b =
     (let info = br_info b; get = (\<lambda>k d. dget_or info k d) in
      case dget info ''request_type'' of
        None \<Rightarrow> raise_as (Ext ''KeyError'')
      | Some rt \<Rightarrow>
        rbind (validated_request_type rt) (\<lambda>request_type.
        rbind (validated_http_auth ip6 (br_auth b) (br_url b)) (\<lambda>auth.
        rbind (validated_cookies (get ''cookies'' PNone)) (\<lambda>cookies.
        rbind (validated_headers (get ''headers'' PNone)) (\<lambda>headers.
        rbind (validated_upload_config (get ''http_file_upload_config'' (PDict [])) request_type) (\<lambda>upload.
        rbind (validated_download_config (get ''http_file_download_config'' PNone)) (\<lambda>download.
        rbind (validated_timeout (br_timeout b)) (\<lambda>timeout.
        rbind (validated_cross_origin_headers (get ''cross_origin_headers'' PNone)) (\<lambda>forward.
        rbind (validated_session f (get ''session'' PNone) forward) (\<lambda>se.
        rbind (validated_serialization f info se) (\<lambda>ser.
        rbind (validated_trace_config f info se) (\<lambda>tracers.
        rbind (validated_max_response_bytes (get ''max_response_bytes'' (PInt MAX_RESPONSE_BYTES))) (\<lambda>cap.
        rbind (validated_allow_redirects (get ''allow_redirects'' (PBool True))) (\<lambda>allow.
        rbind (validated_max_redirects (get ''max_redirects'' (PInt MAX_REDIRECTS))) (\<lambda>maxr.
        rbind (validated_allowed_schemes (get ''allowed_schemes'' (PSet (map PStr ALLOWED_SCHEMES)))) (\<lambda>allowed.
        Inr \<lparr>hq_base = b, hq_request_type = request_type, hq_auth = auth, hq_cookies = cookies,
             hq_headers = headers, hq_verify_ssl = get ''verify_ssl'' (PBool True), hq_upload = upload,
             hq_download = download, hq_timeout = timeout, hq_forward = forward, hq_session = se,
             hq_serializer = ser, hq_tracers = tracers, hq_cap = cap, hq_allow_redirects = allow,
             hq_max_redirects = maxr, hq_allowed = allowed\<rparr>))))))))))))))))"

definition new_http_request ::
  "(string \<Rightarrow> bool) \<Rightarrow> foreign \<Rightarrow> rat \<Rightarrow> pyval \<Rightarrow> pyval \<Rightarrow> string \<Rightarrow> pyval \<Rightarrow> envelope \<Rightarrow> pyval
    \<Rightarrow> string list \<Rightarrow> registry \<Rightarrow> (exn + http_request) \<times> registry" where
  "new_http_request ip6 f now clock sleep url auth response info redact_params reg =
     (let (b, reg') = new_request ip6 now clock sleep url auth response info redact_params reg
      in (rbind b (http_request_of ip6 f), reg'))"

section \<open>What a constructed request satisfies\<close>

text \<open>The well-formedness the dispatch relies on.\<close>

definition header_safe :: "string \<Rightarrow> bool" where
  "header_safe s = list_all (\<lambda>c. ord_of c \<notin> set FORBIDDEN_HEADER_CHARS) s"

definition wf_http_request :: "http_request \<Rightarrow> bool" where
  "wf_http_request q \<longleftrightarrow>
     str_lower (str_strip (hq_request_type q)) \<in> set HTTP_VERBS
     \<and> list_all (\<lambda>(n, v). header_safe n \<and> header_safe v) (hq_headers q)
     \<and> (case hq_cookies q of None \<Rightarrow> True | Some cs \<Rightarrow> list_all (\<lambda>(n, v). legal_cookie_name n
          \<and> list_all (\<lambda>c. ord_of c \<notin> set FORBIDDEN_COOKIE_VALUE_CHARS) v) cs)
     \<and> (hq_auth q = PNone \<or> (\<exists>l p. hq_auth q = PBasicAuth l p))
     \<and> \<not> flt_le (hq_timeout q) (FFin 0)
     \<and> set (hq_forward q) \<inter> set CREDENTIAL_HEADERS = {}
     \<and> (case hq_session q of None \<Rightarrow> True | Some se \<Rightarrow> \<not> se_closed se \<and> se_auth se = PNone
          \<and> map str_lower (se_headers se) = filter (\<lambda>n. n \<notin> set CREDENTIAL_HEADERS) (map str_lower (se_headers se)))
     \<and> 0 < hq_cap q \<and> 0 \<le> hq_max_redirects q \<and> hq_allowed q \<noteq> []
     \<and> (py_truth (hq_upload q) \<longrightarrow> \<not> is_get (hq_request_type q))"

lemma validated_request_type_ok:
  "validated_request_type v = Inr s \<Longrightarrow> str_lower (str_strip s) \<in> set HTTP_VERBS"
  by (auto simp: validated_request_type_def Let_def split: pyval.splits if_splits)

lemma checked_header_text_ok: "checked_header_text v = Inr s \<Longrightarrow> header_safe s"
  by (auto simp: checked_header_text_def header_safe_def list_all_iff list_ex_iff
      split: pyval.splits if_splits)

lemma validated_headers_ok:
  "validated_headers v = Inr hs \<Longrightarrow> list_all (\<lambda>(n, t). header_safe n \<and> header_safe t) hs"
proof -
  have "checked_header_items d = Inr hs \<Longrightarrow> list_all (\<lambda>(n, t). header_safe n \<and> header_safe t) hs" for d
    by (induction d arbitrary: hs rule: checked_header_items.induct)
       (auto simp: rbind_eq_Inr dest: checked_header_text_ok)
  then show "validated_headers v = Inr hs \<Longrightarrow> ?thesis"
    by (auto simp: validated_headers_def split: if_splits)
qed

lemma validated_cookies_ok:
  "validated_cookies v = Inr (Some cs) \<Longrightarrow> list_all (\<lambda>(n, t). legal_cookie_name n
     \<and> list_all (\<lambda>c. ord_of c \<notin> set FORBIDDEN_COOKIE_VALUE_CHARS) t) cs"
proof -
  have "checked_cookies d = Inr cs \<Longrightarrow> list_all (\<lambda>(n, t). legal_cookie_name n
     \<and> list_all (\<lambda>c. ord_of c \<notin> set FORBIDDEN_COOKIE_VALUE_CHARS) t) cs" for d
  proof (induction d arbitrary: cs)
    case (Cons kv items)
    obtain name v where kv: "kv = (name, v)" by (cases kv)
    obtain n t where "name = PStr n" "v = PStr t" "legal_cookie_name n"
      "\<not> list_ex (\<lambda>c. ord_of c \<in> set FORBIDDEN_COOKIE_VALUE_CHARS) t"
      and rest: "\<exists>r. checked_cookies items = Inr r \<and> cs = (n, t) # r"
      using Cons.prems kv by (cases name; cases v) (auto simp: rbind_eq_Inr ensure_eq_Inr)
    then show ?case using Cons.IH by (fastforce simp: list_all_iff list_ex_iff split: prod.splits)
  qed simp
  then show "validated_cookies v = Inr (Some cs) \<Longrightarrow> ?thesis"
    by (auto simp: validated_cookies_def rbind_eq_Inr split: if_splits)
qed

lemma validated_cross_origin_headers_ok:
  "validated_cross_origin_headers v = Inr ns \<Longrightarrow> set ns \<inter> set CREDENTIAL_HEADERS = {}"
  by (auto simp: validated_cross_origin_headers_def rbind_eq_Inr list_ex_iff split: if_splits)

lemma validated_session_ok:
  assumes "validated_session f v forward = Inr (Some se)" and "set forward \<inter> set CREDENTIAL_HEADERS = {}"
  shows "\<not> se_closed se \<and> se_auth se = PNone
     \<and> map str_lower (se_headers se) = filter (\<lambda>n. n \<notin> set CREDENTIAL_HEADERS) (map str_lower (se_headers se))"
proof -
  from assms(1) have "\<not> se_closed se" "se_auth se = PNone"
    and h: "list_all (\<lambda>n. str_lower n \<in> set (CROSS_ORIGIN_SAFE_HEADERS @ forward)) (se_headers se)"
    by (auto simp: validated_session_def rbind_eq_Inr ensure_eq_Inr split: if_splits option.splits)
  have "n \<notin> set CREDENTIAL_HEADERS" if n: "n \<in> set (map str_lower (se_headers se))" for n
    using h n safe_headers_are_no_credentials assms(2) by (auto simp: list_all_iff)
  then have "filter (\<lambda>n. n \<notin> set CREDENTIAL_HEADERS) (map str_lower (se_headers se)) = map str_lower (se_headers se)"
    by (intro filter_True ballI)
  then show ?thesis using \<open>\<not> se_closed se\<close> \<open>se_auth se = PNone\<close> by metis
qed

lemma validated_timeout_ok: "validated_timeout v = Inr x \<Longrightarrow> \<not> flt_le x (FFin 0)"
  by (auto simp: validated_timeout_def flt_le_def split: pyval.splits if_splits)

lemma validated_http_auth_ok:
  "validated_http_auth ip6 a url = Inr x \<Longrightarrow> x = PNone \<or> (\<exists>l p. x = PBasicAuth l p)"
  by (auto simp: validated_http_auth_def rbind_eq_Inr split: pyval.splits if_splits)

lemma validated_allowed_schemes_ok: "validated_allowed_schemes v = Inr ns \<Longrightarrow> ns \<noteq> []"
proof -
  assume a: "validated_allowed_schemes v = Inr ns"
  then have "is_collection v" "py_truth v" "\<not> is_str v" "str_names (elements v) = Inr ns"
    by (auto simp: validated_allowed_schemes_def split: if_splits)
  then have "elements v \<noteq> []" by (cases v) auto
  then show ?thesis using \<open>str_names (elements v) = Inr ns\<close>
    by (auto simp: str_names_def rmap_Inr_iff)
qed

lemma http_request_of_wf:
  assumes "http_request_of ip6 f b = Inr q"
  shows "wf_http_request q"
proof -
  let ?get = "\<lambda>k d. dget_or (br_info b) k d"
  obtain rt where
    "validated_request_type rt = Inr (hq_request_type q)"
    "validated_http_auth ip6 (br_auth b) (br_url b) = Inr (hq_auth q)"
    "validated_cookies (?get ''cookies'' PNone) = Inr (hq_cookies q)"
    "validated_headers (?get ''headers'' PNone) = Inr (hq_headers q)"
    "validated_upload_config (?get ''http_file_upload_config'' (PDict [])) (hq_request_type q) = Inr (hq_upload q)"
    "validated_timeout (br_timeout b) = Inr (hq_timeout q)"
    and fwd: "validated_cross_origin_headers (?get ''cross_origin_headers'' PNone) = Inr (hq_forward q)"
    and ses: "validated_session f (?get ''session'' PNone) (hq_forward q) = Inr (hq_session q)"
    and rest: "validated_max_response_bytes (?get ''max_response_bytes'' (PInt MAX_RESPONSE_BYTES)) = Inr (hq_cap q)"
    "validated_max_redirects (?get ''max_redirects'' (PInt MAX_REDIRECTS)) = Inr (hq_max_redirects q)"
    "validated_allowed_schemes (?get ''allowed_schemes'' (PSet (map PStr ALLOWED_SCHEMES))) = Inr (hq_allowed q)"
    using assms unfolding http_request_of_def Let_def
    by (auto simp only: rbind_eq_Inr split: option.splits) auto
  moreover have "0 < hq_cap q" "0 \<le> hq_max_redirects q"
    using rest(1,2) by (auto simp: validated_max_response_bytes_def validated_max_redirects_def
        split: pyval.splits if_splits)
  moreover have "py_truth (hq_upload q) \<longrightarrow> \<not> is_get (hq_request_type q)"
    using calculation(5) by (auto simp: validated_upload_config_def split: if_splits)
  ultimately show ?thesis
    using validated_session_ok [of f "?get ''session'' PNone" "hq_forward q"]
      validated_cross_origin_headers_ok [OF fwd]
    unfolding wf_http_request_def
    by (auto dest: validated_request_type_ok validated_headers_ok validated_timeout_ok
        validated_http_auth_ok validated_allowed_schemes_ok validated_cookies_ok split: option.split)
qed

section \<open>Properties\<close>

text \<open>
  C25. Every \<open>HttpRequest\<close> that is constructed is well formed, whatever the caller passed: its verb
  is one of the seven, no header or cookie can end its line early, \<open>auth\<close> is \<open>None\<close> or a
  \<open>BasicAuth\<close>, the timeout is not a number at or below zero, the names that may cross an origin
  are no credentials, a session of the caller is open and carries no credential of its own, the
  caps are in range, there is a scheme to follow, and a GET has no upload.
\<close>

theorem constructed_requests_are_well_formed:
  assumes "new_http_request ip6 f now clock sleep url auth env info params reg = (Inr q, reg')"
  shows "wf_http_request q"
  using assms by (auto simp: new_http_request_def rbind_eq_Inr split: prod.splits intro: http_request_of_wf)

definition plain_foreign :: foreign where
  "plain_foreign = \<lparr>fo_session = (\<lambda>_. None), fo_tracer = (\<lambda>_. None), fo_call = (\<lambda>_ _. Inr (PStr ''{}''))\<rparr>"

definition plain_info :: pyval where
  "plain_info = PDict [(PStr ''request_type'', PStr '' Post ''), (PStr ''timeout'', PInt 5),
     (PStr ''headers'', PDict [(PStr ''X-Api-Key'', PStr ''k'')])]"

definition plain_env :: envelope where
  "plain_env = new_envelope ''t'' ''https://h/'' ''HTTPS'' (PDict []) []"

definition plain_new :: "(exn + http_request) \<times> registry" where
  "plain_new = new_http_request (\<lambda>_. False) plain_foreign 0 (PFun 0) (PFun 1) ''https://h/'' PNone
     plain_env plain_info [] empty_registry"

lemma plain_new_ok: "case fst plain_new of Inr q \<Rightarrow> hq_request_type q = '' Post '' | Inl _ \<Rightarrow> False"
  by code_simp

theorem constructed_requests_are_well_formed_witness:
  "case fst plain_new of Inr q \<Rightarrow> hq_request_type q = '' Post '' \<and> wf_http_request q | Inl _ \<Rightarrow> False"
proof -
  obtain q where q: "fst plain_new = Inr q" using plain_new_ok by (cases "fst plain_new") auto
  then have "plain_new = (Inr q, snd plain_new)" by (metis prod.collapse)
  then have "wf_http_request q"
    by (rule constructed_requests_are_well_formed [OF trans [OF plain_new_def [symmetric]]])
  then show ?thesis using plain_new_ok q by simp
qed

end
