(* ===== verification/Uploads.thy ===== *)
theory Uploads
  imports Redirects Breaker
begin

text \<open>
  The upload wrappers of \<open>helpers/internal/request_helper.py\<close> and \<open>handle_http_request\<close>: which
  body a call is built with, and the run of the redirect loop under the circuit breaker. The file
  system is an argument: opening a path gives its bytes or raises. So is the table of
  \<open>mimetypes\<close>.
\<close>

section \<open>The body of an upload\<close>

definition DEFAULT_UPLOAD_MEDIA_TYPE :: string where
  "DEFAULT_UPLOAD_MEDIA_TYPE = ''application/octet-stream''"

text \<open>
  \<open>file_upload\<close>: the chunks \<open>read(size)\<close> yields until it yields nothing. A negative size reads
  the whole file, zero reads nothing.
\<close>

function chunks_of :: "int \<Rightarrow> string \<Rightarrow> string list" where
  "chunks_of step content =
     (if content = [] \<or> step = 0 then []
      else if step < 0 then [content]
      else take (nat step) content # chunks_of step (drop (nat step) content))"
  by pat_completeness auto
termination
  by (relation "measure (\<lambda>(step, content). length content)") auto

declare chunks_of.simps [simp del]

type_synonym files = "pyval \<Rightarrow> exn + string"

definition file_upload :: "files \<Rightarrow> pyval \<Rightarrow> int \<Rightarrow> exn + string list" where
  "file_upload opens file_name chunk_size =
     rbind (opens file_name) (\<lambda>content. Inr (chunks_of chunk_size content))"

text \<open>\<open>PurePath(path).name\<close>: the last component that is not empty and not a single dot.\<close>

definition path_name :: "string \<Rightarrow> string" where
  "path_name path =
     (let parts = filter (\<lambda>p. p \<noteq> [] \<and> p \<noteq> ''.'') (str_split (CHR ''/'') path)
      in if parts = [] then [] else last parts)"

definition build_upload_form ::
  "files \<Rightarrow> (string \<Rightarrow> string option) \<Rightarrow> pyval \<Rightarrow> pyval \<Rightarrow> exn + body_filters" where
  "build_upload_form opens guess_type local_filepath file_key =
     (case path_text local_filepath of
        None \<Rightarrow> raise_as (Ext ''TypeError'')
      | Some path \<Rightarrow>
          let name = path_name path;
              content_type = (case guess_type name of Some t \<Rightarrow> if t = [] then DEFAULT_UPLOAD_MEDIA_TYPE else t
                | None \<Rightarrow> DEFAULT_UPLOAD_MEDIA_TYPE)
          in rbind (file_upload opens local_filepath CHUNK_SIZE_CONSTANT) (\<lambda>chunks.
             Inr (FileForm file_key name content_type chunks)))"

section \<open>Choosing the body\<close>

text \<open>
  What a wrapper needs of its surroundings: the files, the types of file names, and the codecs of
  the filters.
\<close>

record surroundings =
  sr_opens :: files
  sr_guess :: "string \<Rightarrow> string option"
  sr_dumps :: "pyval \<Rightarrow> string option"
  sr_coerce :: "pyval \<Rightarrow> exn + string"

text \<open>\<open>config[key]\<close>.\<close>

definition required_setting :: "pyval \<Rightarrow> string \<Rightarrow> exn + pyval" where
  "required_setting config key =
     (case dget config key of Some v \<Rightarrow> Inr v | None \<Rightarrow> raise_as (Ext ''KeyError''))"

text \<open>
  A wrapper first does what can fail before the breaker is asked (it reads its settings and opens
  the file once), then hands the breaker a factory of bodies. A chunk size that is no integer
  fails when the body is read.
\<close>

definition stream_factory :: "surroundings \<Rightarrow> pyval \<Rightarrow> exn + (exn + body_filters)" where
  "stream_factory sr config =
     rbind (required_setting config ''local_filepath'') (\<lambda>path.
     rbind (required_setting config ''file_upload_chunk_size'') (\<lambda>step.
     rbind (sr_opens sr path) (\<lambda>_.
     Inr (case step of
            PInt n \<Rightarrow> rbind (file_upload (sr_opens sr) path n) (\<lambda>cs. Inr (StreamBody cs))
          | PBool b \<Rightarrow> rbind (file_upload (sr_opens sr) path (of_bool b)) (\<lambda>cs. Inr (StreamBody cs))
          | _ \<Rightarrow> raise_as (Ext ''TypeError'')))))"

definition form_factory :: "surroundings \<Rightarrow> pyval \<Rightarrow> exn + (exn + body_filters)" where
  "form_factory sr config =
     rbind (required_setting config ''local_filepath'') (\<lambda>path.
     rbind (required_setting config ''file_key'') (\<lambda>key.
     rbind (sr_opens sr path) (\<lambda>_.
     Inr (build_upload_form (sr_opens sr) (sr_guess sr) path key))))"

definition plain_factory ::
  "surroundings \<Rightarrow> (string, string) dict \<Rightarrow> pyval \<Rightarrow> string \<Rightarrow> exn + (exn + body_filters)" where
  "plain_factory sr headers payload request_type =
     Inr (run_filter (filter_for_media_type (media_type_of headers) payload)
            (sr_dumps sr) (sr_coerce sr) payload request_type)"

definition body_factory ::
  "surroundings \<Rightarrow> pyval \<Rightarrow> (string, string) dict \<Rightarrow> pyval \<Rightarrow> string \<Rightarrow> exn + (exn + body_filters)" where
  "body_factory sr config headers payload request_type =
     (if \<not> py_truth config then plain_factory sr headers payload request_type
      else if \<not> is_mapping config then raise_as (Ext ''AttributeError'')
      else if py_truth (dget_or config ''file_upload_chunk_size'' PNone) then stream_factory sr config
      else form_factory sr config)"

section \<open>Attempts under the breaker\<close>

text \<open>
  One attempt of \<open>CircuitBreakerHelper.run\<close>: the world its requests meet, the clocks, what the
  callbacks and the sleep do, and the text of what is raised. \<open>hierarchy\<close> gives the classes of an
  exception that is not the library's.
\<close>

record attempt =
  at_world :: world
  at_now :: rat
  at_enter :: rat
  at_failed :: rat
  at_callbacks :: "pyval \<Rightarrow> exc_obj option"
  at_sleep :: "exc_obj option"
  at_text :: "exn \<Rightarrow> string"

type_synonym hierarchy = "exc_class \<Rightarrow> exc_class list"

definition object_of :: "hierarchy \<Rightarrow> (exn \<Rightarrow> string) \<Rightarrow> exn \<Rightarrow> exc_obj" where
  "object_of hierarchy texts e =
     (if is_lib (exn_class e) then new_gateway_error (exn_class e) (texts e) (exn_override e)
      else \<lparr>ex_mro = exn_class e # hierarchy (exn_class e), ex_text = texts e, ex_status = 0,
            ex_cause = None, ex_context = None\<rparr>)"

definition attempt_outcome ::
  "hierarchy \<Rightarrow> (exn + body_filters) \<Rightarrow> http_options \<Rightarrow> string \<Rightarrow> string \<Rightarrow> attempt \<Rightarrow> http_result outcome" where
  "attempt_outcome hierarchy build opts url request_type att =
     (let world = (at_world att)\<lparr>w_build := \<lambda>_. build\<rparr>;
          ((answer, _), _, _) = make_http_request world (at_now att) opts url request_type []
      in case answer of Inr result \<Rightarrow> Returns result | Inl e \<Rightarrow> Raises (object_of hierarchy (at_text att) e))"

definition attempt_turn ::
  "hierarchy \<Rightarrow> (exn + body_filters) \<Rightarrow> http_options \<Rightarrow> string \<Rightarrow> string \<Rightarrow> attempt \<Rightarrow> http_result turn" where
  "attempt_turn hierarchy build opts url request_type att =
     \<lparr>t_enter = at_enter att, t_outcome = attempt_outcome hierarchy build opts url request_type att,
      t_failed = at_failed att, t_callbacks = at_callbacks att, t_sleep = at_sleep att\<rparr>"

text \<open>
  \<open>handle_http_request\<close>: the body is chosen, then the breaker runs the redirect loop, at most
  \<open>allowed_retries + 1\<close> times (the length of the list of attempts; \<open>None\<close> when it is too short).
\<close>

definition handle_http_request ::
  "failsafe \<Rightarrow> hierarchy \<Rightarrow> surroundings \<Rightarrow> breaker \<Rightarrow> (exn \<Rightarrow> string) \<Rightarrow> http_options \<Rightarrow> string \<Rightarrow> string
    \<Rightarrow> pyval \<Rightarrow> pyval \<Rightarrow> attempt list \<Rightarrow> (breaker \<times> http_result final) option" where
  "handle_http_request fs hierarchy sr b texts opts url request_type config payload attempts =
     (case body_factory sr config (case ho_headers opts of Some hs \<Rightarrow> hs | None \<Rightarrow> []) payload request_type of
        Inl e \<Rightarrow> Some (b, Propagated (object_of hierarchy texts e))
      | Inr build \<Rightarrow>
          run_alone fs b 0 None (map (attempt_turn hierarchy build opts url request_type) attempts))"

section \<open>Facts\<close>

lemma concat_chunks_of: "step \<noteq> 0 \<Longrightarrow> concat (chunks_of step content) = content"
proof (induction step content rule: chunks_of.induct)
  case (1 step content)
  then show ?case by (subst chunks_of.simps) auto
qed

lemma chunks_of_bounded:
  "0 < step \<Longrightarrow> list_all (\<lambda>c. c \<noteq> [] \<and> int (length c) \<le> step) (chunks_of step content)"
proof (induction step content rule: chunks_of.induct)
  case (1 step content)
  then show ?case by (subst chunks_of.simps) auto
qed

lemma handle_http_request_returns:
  assumes "\<forall>q. br_policy b = Some q \<longrightarrow> 0 \<le> allowed_retries q"
    and "length attempts = Suc (nat (budget b))"
  shows "handle_http_request fs hierarchy sr b texts opts url request_type config payload attempts \<noteq> None"
proof -
  have "0 \<le> budget b" using assms(1) by (simp add: budget_def split: option.split)
  then have "run_alone fs b 0 None (map g attempts) \<noteq> None" for g :: "attempt \<Rightarrow> http_result turn"
    using assms(2) by (intro run_alone_ends) auto
  then show ?thesis by (simp add: handle_http_request_def split: sum.split)
qed

section \<open>Properties\<close>

text \<open>
  An upload sends the file and nothing else: the chunks a streamed upload yields are the bytes
  of the file in order, none of them empty and none longer than the chunk size asked for, and the
  same file uploaded as a form field carries the same bytes, under the last component of its path
  as its name.
\<close>

theorem uploads_send_the_file:
  assumes "sr_opens sr (PStr path) = Inr content" and "0 < step"
    and "dget config ''local_filepath'' = Some (PStr path)"
    and "dget config ''file_upload_chunk_size'' = Some (PInt step)"
    and "dget config ''file_key'' = Some key"
  shows "(\<exists>cs. stream_factory sr config = Inr (Inr (StreamBody cs)) \<and> concat cs = content
      \<and> list_all (\<lambda>c. c \<noteq> [] \<and> int (length c) \<le> step) cs)
    \<and> (\<exists>t cs. form_factory sr config = Inr (Inr (FileForm key (path_name path) t cs)) \<and> concat cs = content)"
  using assms chunks_of_bounded [of step content] concat_chunks_of [of step content]
    concat_chunks_of [of CHUNK_SIZE_CONSTANT content]
  by (simp add: stream_factory_def form_factory_def required_setting_def file_upload_def
      build_upload_form_def CHUNK_SIZE_CONSTANT_def Let_def)

definition upload_surroundings :: surroundings where
  "upload_surroundings = \<lparr>sr_opens = (\<lambda>_. Inr ''abcde''), sr_guess = (\<lambda>_. None), sr_dumps = (\<lambda>_. None),
     sr_coerce = (\<lambda>_. Inr [])\<rparr>"

definition upload_config :: pyval where
  "upload_config = PDict [(PStr ''local_filepath'', PStr ''/tmp/report.txt''),
     (PStr ''file_upload_chunk_size'', PInt 2), (PStr ''file_key'', PStr ''file'')]"

lemma upload_config_get [simp]:
  "dget upload_config ''local_filepath'' = Some (PStr ''/tmp/report.txt'')"
  "dget upload_config ''file_upload_chunk_size'' = Some (PInt 2)"
  "dget upload_config ''file_key'' = Some (PStr ''file'')"
  by (simp_all add: upload_config_def dget_def)

theorem uploads_send_the_file_witness:
  "\<exists>cs. stream_factory upload_surroundings upload_config = Inr (Inr (StreamBody cs)) \<and> concat cs = ''abcde''"
  using uploads_send_the_file [of upload_surroundings "''/tmp/report.txt''" "''abcde''" 2 upload_config "PStr ''file''"]
  by (auto simp: upload_surroundings_def)

end
