(* ===== verification/Http_Client.thy ===== *)
theory Http_Client
  imports Http_Options Uploads
begin

text \<open>
  \<open>HttpRequest.handle_request\<close> and what it calls in \<open>logic/http_client.py\<close>: the run under the
  breaker, the translation of what it raises, the copy of the answer into the envelope and the
  verdict on it. Exceptions are objects in a store, because the envelope reports their causes. The
  verdict is the hook the JSON-RPC and GraphQL clients override; what the three promise is the
  locale \<open>response_verdict\<close>.
\<close>

section \<open>Exceptions as objects\<close>

record exc_store =
  xs_heap :: "nat \<Rightarrow> exc_obj"
  xs_next :: nat

definition new_exc :: "exc_obj \<Rightarrow> exc_store \<Rightarrow> nat \<times> exc_store" where
  "new_exc e xs = (xs_next xs,
     xs\<lparr>xs_heap := (xs_heap xs)(xs_next xs := e), xs_next := Suc (xs_next xs)\<rparr>)"

text \<open>\<open>raise c(message, status) from i\<close>, inside the handler of \<open>i\<close>.\<close>

definition raise_from :: "exc_class \<Rightarrow> string \<Rightarrow> int option \<Rightarrow> nat \<Rightarrow> exc_store \<Rightarrow> nat \<times> exc_store" where
  "raise_from c message override i xs =
     new_exc ((new_gateway_error c message override)\<lparr>ex_cause := Some i, ex_context := Some i\<rparr>) xs"

text \<open>
  \<open>raise cause from None\<close> while \<open>handled\<close> is being handled: the cause is forgotten and the context
  set, and a link of the context chain that led to the raised object is cut, so that none of these
  chains is a cycle. There are at most as many links as objects.
\<close>

fun unlink_context :: "nat \<Rightarrow> nat \<Rightarrow> nat \<Rightarrow> (nat \<Rightarrow> exc_obj) \<Rightarrow> nat \<Rightarrow> exc_obj" where
  "unlink_context 0 link target heap = heap"
| "unlink_context (Suc n) link target heap =
     (case ex_context (heap link) of
        None \<Rightarrow> heap
      | Some c \<Rightarrow> if c = target then heap(link := (heap link)\<lparr>ex_context := None\<rparr>)
                  else unlink_context n c target heap)"

definition raise_without_cause :: "nat \<Rightarrow> nat \<Rightarrow> exc_store \<Rightarrow> nat \<times> exc_store" where
  "raise_without_cause cause handled xs =
     (let heap = unlink_context (xs_next xs) handled cause (xs_heap xs)
      in (cause, xs\<lparr>xs_heap := heap(cause := (heap cause)\<lparr>ex_cause := None, ex_context := Some handled\<rparr>)\<rparr>))"

text \<open>The exceptions of \<open>pyfailsafe\<close> the loop of the breaker raises; they have no text.\<close>

abbreviation "FailsafeError \<equiv> Ext ''failsafe.FailsafeError''"
abbreviation "CircuitOpen \<equiv> Ext ''failsafe.CircuitOpen''"
abbreviation "RetriesExhausted \<equiv> Ext ''failsafe.RetriesExhausted''"

definition failsafe_error :: "exc_class \<Rightarrow> nat option \<Rightarrow> nat option \<Rightarrow> exc_obj" where
  "failsafe_error c cause cxt =
     \<lparr>ex_mro = [c, FailsafeError, Ext ''Exception'', Ext ''BaseException''], ex_text = [],
      ex_status = 0, ex_cause = cause, ex_context = cxt\<rparr>"

definition leave_run :: "'a final \<Rightarrow> exc_store \<Rightarrow> (nat + 'a) \<times> exc_store" where
  "leave_run f xs =
     (case f of
        Returned x \<Rightarrow> (Inr x, xs)
      | Propagated e \<Rightarrow> let (i, xs1) = new_exc e xs in (Inl i, xs1)
      | CircuitOpened None \<Rightarrow>
          let (i, xs1) = new_exc (failsafe_error CircuitOpen None None) xs in (Inl i, xs1)
      | CircuitOpened (Some e) \<Rightarrow>
          let (i, xs1) = new_exc e xs;
              (j, xs2) = new_exc (failsafe_error CircuitOpen (Some i) None) xs1
          in (Inl j, xs2)
      | Exhausted e \<Rightarrow>
          let (i, xs1) = new_exc e xs;
              (j, xs2) = new_exc (failsafe_error RetriesExhausted (Some i) (Some i)) xs1
          in (Inl j, xs2))"

section \<open>Transport failures\<close>

definition TRANSPORT_ERRORS :: "(exc_class \<times> exc_class) list" where
  "TRANSPORT_ERRORS =
    [(Ext ''asyncio.TimeoutError'', GatewayTimeoutError), (Ext ''TimeoutError'', GatewayTimeoutError),
     (Ext ''aiohttp.ClientSSLError'', TlsError), (Ext ''ssl.SSLError'', TlsError),
     (Ext ''aiohttp.ClientConnectorDNSError'', DnsError),
     (Ext ''aiohttp.ClientConnectionError'', ConnectError),
     (Ext ''aiohttp.ClientError'', TransportError)]"

definition TRANSPORT_FAULTS :: "exc_class list" where
  "TRANSPORT_FAULTS = faults_of TRANSPORT_ERRORS"

definition HTTP_ERROR_STATUS :: int where
  "HTTP_ERROR_STATUS = 400"

text \<open>The first row whose family the exception is of.\<close>

definition family_class :: "(exc_class \<times> exc_class) list \<Rightarrow> exc_class list \<Rightarrow> exc_class option" where
  "family_class table mro = map_option snd (find (\<lambda>(family, _). is_instance mro [family]) table)"

text \<open>
  \<open>transport_error_for\<close>: the class and message of the error to raise, or the cause it raises
  again.
\<close>

definition transport_error_for ::
  "(nat \<Rightarrow> exc_obj) \<Rightarrow> nat \<Rightarrow> string list \<Rightarrow> nat + (exc_class \<times> string)" where
  "transport_error_for heap err redact_params =
     (let cause = (if is_instance (ex_mro (heap err)) [FailsafeError] then ex_cause (heap err) else Some err);
          message = fst (unwrap_cause heap err CAUSE_CHAIN_MAX_DEPTH redact_params)
      in case cause of
           None \<Rightarrow> Inr (TransportError, message)
         | Some c \<Rightarrow>
             (case family_class TRANSPORT_ERRORS (ex_mro (heap c)) of
                Some error_class \<Rightarrow> Inr (error_class, message)
              | None \<Rightarrow> Inl c))"

text \<open>The three handlers around the call in \<open>_exchange\<close>.\<close>

definition exchange_error :: "string \<Rightarrow> string list \<Rightarrow> nat \<Rightarrow> exc_store \<Rightarrow> nat \<times> exc_store" where
  "exchange_error url redact_params err xs =
     (let mro = ex_mro (xs_heap xs err) in
      if is_instance mro [CircuitOpen]
      then raise_from CircuitOpenError (''circuit open for '' @ redact_url url redact_params) None err xs
      else if is_instance mro (RetriesExhausted # TRANSPORT_FAULTS)
      then (case transport_error_for (xs_heap xs) err redact_params of
              Inr (error_class, message) \<Rightarrow> raise_from error_class message None err xs
            | Inl cause \<Rightarrow> raise_without_cause cause err xs)
      else (err, xs))"

section \<open>The answer\<close>

fun show_nat :: "nat \<Rightarrow> string" where
  "show_nat n = (if n < 10 then [char_of (48 + n)] else show_nat (n div 10) @ [char_of (48 + n mod 10)])"

declare show_nat.simps [simp del]

definition show_int :: "int \<Rightarrow> string" where
  "show_int n = (if n < 0 then CHR ''-'' # show_nat (nat (- n)) else show_nat (nat n))"

text \<open>
  The decoding of a body: the JSON reader, the texts of the two errors, and the object the reader
  raised.
\<close>

record decoding =
  dc_loads :: "string \<Rightarrow> pyval option"
  dc_charset_text :: string
  dc_json_text :: string
  dc_json_cause :: exc_obj

definition copy_into_envelope ::
  "decoding \<Rightarrow> http_result \<Rightarrow> envelope \<Rightarrow> exc_store \<Rightarrow> nat option \<times> envelope \<times> exc_store" where
  "copy_into_envelope dc result env xs =
     (let env1 = env\<lparr>env_status := hr_status result, env_headers := redact_headers (hr_headers result),
                     env_cookies := redact_cookies (hr_cookies result), env_text := hr_text result\<rparr>
      in if hr_decode_error result then
           let (i, xs1) = new_exc (new_gateway_error SerializationError (dc_charset_text dc) None) xs
           in (Some i, env1, xs1)
         else if \<not> is_json_media_type (media_type_of (hr_headers result)) then (None, env1, xs)
         else (case application_json_response (dc_loads dc) (hr_text result) of
             Inr v \<Rightarrow> (None, env1\<lparr>env_json := v\<rparr>, xs)
           | Inl e \<Rightarrow>
               let (c, xs1) = new_exc (dc_json_cause dc) xs;
                   (i, xs2) = raise_from SerializationError (dc_json_text dc) None c xs1
               in (Some i, env1, xs2)))"

type_synonym verdict = "int \<Rightarrow> nat option \<Rightarrow> envelope \<Rightarrow> exc_store \<Rightarrow> nat option \<times> envelope \<times> exc_store"

text \<open>\<open>HttpRequest._response_error\<close>.\<close>

definition status_error :: "string \<Rightarrow> string \<Rightarrow> string list \<Rightarrow> int \<Rightarrow> exc_store \<Rightarrow> nat \<times> exc_store" where
  "status_error verb url redact_params status xs =
     new_exc (new_gateway_error HttpStatusError
       (verb @ '' '' @ redact_url url redact_params @ '' returned HTTP '' @ show_int status)
       (Some status)) xs"

definition http_response_error :: "string \<Rightarrow> string \<Rightarrow> string list \<Rightarrow> verdict" where
  "http_response_error request_type url redact_params status body_error env xs =
     (if status \<ge> HTTP_ERROR_STATUS then
        let (i, xs1) = status_error (str_upper request_type) url redact_params status xs in (Some i, env, xs1)
      else (body_error, env, xs))"

section \<open>The exchange\<close>

text \<open>The keyword arguments; a timeout that is not finite sets no deadline that could pass.\<close>

definition options_of :: "http_request \<Rightarrow> http_options" where
  "options_of q =
     \<lparr>ho_timeout = \<lparr>ct_total = (case hq_timeout q of FFin t \<Rightarrow> Some t | _ \<Rightarrow> None), ct_connect = PNone,
        ct_sock_connect = PNone, ct_sock_read = PNone\<rparr>,
      ho_cap = hq_cap q, ho_allowed = hq_allowed q, ho_follow = hq_allow_redirects q,
      ho_max_redirects = hq_max_redirects q, ho_forward = hq_forward q, ho_download = hq_download q,
      ho_refuse_multipart = False, ho_certificate = br_certificate (hq_base q),
      ho_verify_ssl = hq_verify_ssl q, ho_headers = Some (hq_headers q), ho_cookies = hq_cookies q,
      ho_auth = hq_auth q\<rparr>"

text \<open>
  What a call meets outside the library: \<open>pyfailsafe\<close>, the classes of foreign exceptions, files
  and codecs, the attempts, the texts of exceptions, the clock when the envelope is sealed, and
  what the tracers hold by then.
\<close>

record surround =
  su_failsafe :: failsafe
  su_hierarchy :: hierarchy
  su_files :: surroundings
  su_texts :: "exn \<Rightarrow> string"
  su_attempts :: "attempt list"
  su_decoding :: decoding
  su_str_of :: "pyval \<Rightarrow> string"
  su_now :: rat
  su_traced :: "pyval list"

text \<open>
  The result: the exception raised, if any, with the envelope, the store and the breaker as the
  call leaves them. Without an exception the envelope is the one returned.
\<close>

type_synonym exchanged = "nat option \<times> envelope \<times> exc_store \<times> breaker"

definition judge_answer ::
  "verdict \<Rightarrow> decoding \<Rightarrow> (pyval \<Rightarrow> string) \<Rightarrow> rat \<Rightarrow> rat \<Rightarrow> http_result \<Rightarrow> envelope \<Rightarrow> exc_store
    \<Rightarrow> nat option \<times> envelope \<times> exc_store" where
  "judge_answer verdict dc str_of now started result env xs =
     (let (body_error, env1, xs1) = copy_into_envelope dc result env xs;
          (response_error, env2, xs2) = verdict (hr_status result) body_error env1 xs1
      in case response_error of
           Some i \<Rightarrow> (Some i, env2, xs2)
         | None \<Rightarrow> (None, finalise_ok str_of now (hr_status result) started env2, xs2))"

definition exchange ::
  "verdict \<Rightarrow> surround \<Rightarrow> http_request \<Rightarrow> breaker \<Rightarrow> envelope \<Rightarrow> exc_store \<Rightarrow> exchanged option" where
  "exchange verdict su q b env xs =
     (let base = hq_base q in
      case handle_http_request (su_failsafe su) (su_hierarchy su) (su_files su) b (su_texts su) (options_of q)
             (br_url base) (hq_request_type q) (hq_upload q) (env_payload env) (su_attempts su) of
        None \<Rightarrow> None
      | Some (b', f) \<Rightarrow>
          Some (case leave_run f xs of
              (Inl err, xs1) \<Rightarrow>
                let (i, xs2) = exchange_error (br_url base) (br_redact base) err xs1
                in (Some i, env, xs2, b')
            | (Inr result, xs1) \<Rightarrow>
                let (r, env', xs2) = judge_answer verdict (su_decoding su) (su_str_of su) (su_now su)
                      (br_start base) result env xs1
                in (r, env', xs2, b')))"

text \<open>\<open>handle_request\<close>: the tracers of a session the caller supplied are not reported.\<close>

definition handle_request ::
  "verdict \<Rightarrow> surround \<Rightarrow> http_request \<Rightarrow> breaker \<Rightarrow> envelope \<Rightarrow> exc_store \<Rightarrow> exchanged option" where
  "handle_request verdict su q b env xs =
     exchange verdict su q b
       (env\<lparr>env_tracer := if hq_session q = None then su_traced su else []\<rparr>) xs"


section \<open>What a verdict promises\<close>

text \<open>
  The contract between the exchange and the client that judges the answer: an answer is accepted
  only below 400 and with a body that decoded, a refusal is an exception of the library, and of the
  envelope only the protocol details are written.
\<close>

locale response_verdict =
  fixes verdict :: "int \<Rightarrow> nat option \<Rightarrow> envelope \<Rightarrow> exc_store \<Rightarrow> nat option \<times> envelope \<times> exc_store"
  assumes accepts: "verdict status err env xs = (None, env', xs') \<Longrightarrow> status < HTTP_ERROR_STATUS \<and> err = None"
    and refuses: "verdict status err env xs = (Some i, env', xs') \<Longrightarrow>
        (\<forall>j. err = Some j \<longrightarrow> is_lib (ex_class (xs_heap xs j))) \<Longrightarrow> is_lib (ex_class (xs_heap xs' i))"
    and keeps: "verdict status err env xs = (r, env', xs') \<Longrightarrow> env'\<lparr>env_details := env_details env\<rparr> = env"

lemma new_exc_at [simp]: "xs_heap (snd (new_exc e xs)) (fst (new_exc e xs)) = e"
  by (simp add: new_exc_def)

lemma new_exc_eq: "new_exc e xs = (i, xs') \<Longrightarrow> xs_heap xs' i = e"
  by (auto simp: new_exc_def)

lemma raise_from_eq:
  "raise_from c m s j xs = (i, xs') \<Longrightarrow>
     xs_heap xs' i = (new_gateway_error c m s)\<lparr>ex_cause := Some j, ex_context := Some j\<rparr>"
  by (auto simp: raise_from_def dest: new_exc_eq)

lemma ex_class_links [simp]: "ex_class (e\<lparr>ex_cause := a, ex_context := b\<rparr>) = ex_class e"
  by (simp add: ex_class_def)

lemma unlink_context_mro [simp]: "ex_mro (unlink_context n l t heap i) = ex_mro (heap i)"
  by (induction n l t heap rule: unlink_context.induct) (auto split: option.splits)

lemma unlink_context_text [simp]:
  "ex_text (unlink_context n l t heap i) = ex_text (heap i)"
  "ex_status (unlink_context n l t heap i) = ex_status (heap i)"
  by (induction n l t heap rule: unlink_context.induct) (auto split: option.splits)

lemma raise_without_cause_eq:
  "raise_without_cause c h xs = (i, xs') \<Longrightarrow>
     i = c \<and> ex_mro (xs_heap xs' i) = ex_mro (xs_heap xs c) \<and> ex_text (xs_heap xs' i) = ex_text (xs_heap xs c)
     \<and> ex_status (xs_heap xs' i) = ex_status (xs_heap xs c)"
  by (auto simp: raise_without_cause_def Let_def)

lemma copy_into_envelope_error:
  "copy_into_envelope dc result env xs = (Some i, env', xs') \<Longrightarrow> ex_class (xs_heap xs' i) = SerializationError"
  by (auto simp: copy_into_envelope_def Let_def split: if_splits sum.splits prod.splits
      dest!: new_exc_eq raise_from_eq)

lemma copy_into_envelope_answer:
  "copy_into_envelope dc result env xs = (r, env', xs') \<Longrightarrow>
     env_status env' = hr_status result \<and> env_text env' = hr_text result
     \<and> env_headers env' = redact_headers (hr_headers result)
     \<and> env_cookies env' = redact_cookies (hr_cookies result)
     \<and> (r \<noteq> None \<longrightarrow> env_json env' = env_json env)"
  by (auto simp: copy_into_envelope_def Let_def split: if_splits sum.splits prod.splits)

context response_verdict
begin

lemma judged_ok:
  assumes "judge_answer verdict dc str_of now started result env xs = (None, env', xs')"
  shows "sealed str_of env' \<and> env_ok env' \<and> env_status env' = hr_status result
    \<and> hr_status result < HTTP_ERROR_STATUS \<and> \<not> hr_decode_error result \<and> env_text env' = hr_text result"
proof -
  obtain r env1 xs1 where c: "copy_into_envelope dc result env xs = (r, env1, xs1)" by (metis prod.exhaust)
  obtain env2 where v: "verdict (hr_status result) r env1 xs1 = (None, env2, xs')"
      and e: "env' = finalise_ok str_of now (hr_status result) started env2"
    using assms c by (auto simp: judge_answer_def split: prod.splits option.splits)
  have "r = None" "hr_status result < HTTP_ERROR_STATUS" using accepts [OF v] by simp_all
  moreover have "\<not> hr_decode_error result"
    using c \<open>r = None\<close> by (auto simp: copy_into_envelope_def Let_def split: prod.splits)
  moreover have "env_text env2 = hr_text result"
    using keeps [OF v] copy_into_envelope_answer [OF c] by (metis envelope.ext_inject envelope.surjective envelope.update_convs(13))
  ultimately show ?thesis
    unfolding e using finalise_ok_sealed by (simp add: finalise_ok_def seal_def)
qed

lemma judged_error:
  assumes "judge_answer verdict dc str_of now started result env xs = (Some i, env', xs')"
  shows "is_lib (ex_class (xs_heap xs' i)) \<and> env_status env' = hr_status result
    \<and> env_text env' = hr_text result \<and> env_headers env' = redact_headers (hr_headers result)
    \<and> env_cookies env' = redact_cookies (hr_cookies result)"
proof -
  obtain r env1 xs1 where c: "copy_into_envelope dc result env xs = (r, env1, xs1)" by (metis prod.exhaust)
  have v: "verdict (hr_status result) r env1 xs1 = (Some i, env', xs')"
    using assms c by (auto simp: judge_answer_def split: prod.splits option.splits)
  have "is_lib (ex_class (xs_heap xs' i))"
    using refuses [OF v] copy_into_envelope_error [of dc result env xs _ env1 xs1] c by auto
  moreover have "env_status env' = env_status env1" "env_text env' = env_text env1"
      "env_headers env' = env_headers env1" "env_cookies env' = env_cookies env1"
    using arg_cong [OF keeps [OF v], of env_status] arg_cong [OF keeps [OF v], of env_text]
      arg_cong [OF keeps [OF v], of env_headers] arg_cong [OF keeps [OF v], of env_cookies] by simp_all
  ultimately show ?thesis using copy_into_envelope_answer [OF c] by simp
qed

end

interpretation http: response_verdict "http_response_error request_type url params"
  for request_type url params
proof unfold_locales
  fix status err env xs env' xs'
  assume "http_response_error request_type url params status err env xs = (None, env', xs')"
  then show "status < HTTP_ERROR_STATUS \<and> err = None"
    by (auto simp: http_response_error_def split: if_splits prod.splits)
next
  fix status err env xs i env' xs'
  assume "http_response_error request_type url params status err env xs = (Some i, env', xs')"
    and "\<forall>j. err = Some j \<longrightarrow> is_lib (ex_class (xs_heap xs j))"
  then show "is_lib (ex_class (xs_heap xs' i))"
    by (auto simp: http_response_error_def status_error_def split: if_splits prod.splits dest!: new_exc_eq)
next
  fix status err env xs r env' xs'
  assume "http_response_error request_type url params status err env xs = (r, env', xs')"
  then show "env'\<lparr>env_details := env_details env\<rparr> = env"
    by (auto simp: http_response_error_def split: if_splits prod.splits)
qed


section \<open>What leaves an exchange\<close>

lemma family_class_None: "family_class TRANSPORT_ERRORS mro = None \<longleftrightarrow> \<not> is_instance mro TRANSPORT_FAULTS"
  by (auto simp: family_class_def TRANSPORT_FAULTS_def faults_of_def is_instance_def find_None_iff
      TRANSPORT_ERRORS_def)

lemma family_class_lib: "family_class TRANSPORT_ERRORS mro = Some c \<Longrightarrow> is_lib c"
  by (auto simp: family_class_def TRANSPORT_ERRORS_def split: if_splits)

lemma transport_error_for_cases:
  "transport_error_for heap err params = Inr (c, m) \<Longrightarrow> is_lib c"
  "transport_error_for heap err params = Inl j \<Longrightarrow> \<not> is_instance (ex_mro (heap j)) TRANSPORT_FAULTS"
  by (auto simp: transport_error_for_def Let_def family_class_None [symmetric]
      split: option.splits if_splits dest: family_class_lib)

lemma exchange_error_class:
  assumes "exchange_error url params err xs = (i, xs')"
  shows "is_lib (ex_class (xs_heap xs' i)) \<or> \<not> is_instance (ex_mro (xs_heap xs' i)) TRANSPORT_FAULTS"
proof (cases "transport_error_for (xs_heap xs) err params")
  case (Inl c)
  then show ?thesis
    using assms transport_error_for_cases(2) [OF Inl]
    by (auto simp: exchange_error_def Let_def is_instance_iff split: if_splits
        dest!: raise_from_eq raise_without_cause_eq)
next
  case (Inr cm)
  then obtain c m where cm: "cm = (c, m)" by (cases cm)
  then show ?thesis
    using assms Inr transport_error_for_cases(1) [of "xs_heap xs" err params c m]
    by (auto simp: exchange_error_def Let_def is_instance_iff split: if_splits dest!: raise_from_eq)
qed

lemma leave_run_returned: "leave_run f xs = (Inr x, xs') \<Longrightarrow> f = Returned x \<and> xs' = xs"
  by (auto simp: leave_run_def Let_def split: final.splits option.splits prod.splits)

lemma exchange_returned:
  assumes "handle_http_request (su_failsafe su) (su_hierarchy su) (su_files su) b (su_texts su) (options_of q)
             (br_url (hq_base q)) (hq_request_type q) (hq_upload q) (env_payload env) (su_attempts su)
           = Some (b', Returned result)"
  shows "exchange verdict su q b env xs =
    Some (let (r, env', xs') = judge_answer verdict (su_decoding su) (su_str_of su) (su_now su)
             (br_start (hq_base q)) result env xs in (r, env', xs', b'))"
  using assms by (simp add: exchange_def leave_run_def split: prod.split)

lemma exchange_runs:
  assumes "exchange verdict su q b env xs = Some x"
  obtains c f where "handle_http_request (su_failsafe su) (su_hierarchy su) (su_files su) b (su_texts su)
      (options_of q) (br_url (hq_base q)) (hq_request_type q) (hq_upload q) (env_payload env) (su_attempts su)
      = Some (c, f)"
  using assms by (auto simp: exchange_def Let_def split: option.splits)

context response_verdict
begin

lemma exchange_raises:
  assumes "exchange verdict su q b env xs = Some (Some i, env', xs', b')"
  shows "is_lib (ex_class (xs_heap xs' i)) \<or> \<not> is_instance (ex_mro (xs_heap xs' i)) TRANSPORT_FAULTS"
proof -
  obtain c f where run: "handle_http_request (su_failsafe su) (su_hierarchy su) (su_files su) b (su_texts su)
      (options_of q) (br_url (hq_base q)) (hq_request_type q) (hq_upload q) (env_payload env) (su_attempts su)
      = Some (c, f)"
    by (rule exchange_runs [OF assms])
  obtain o1 xs1 where leave: "leave_run f xs = (o1, xs1)" by (cases "leave_run f xs")
  show ?thesis
  proof (cases o1)
    case (Inl err)
    then show ?thesis
      using assms run leave exchange_error_class [of _ _ err xs1 i xs']
      by (auto simp: exchange_def Let_def split: prod.splits)
  next
    case (Inr result)
    then obtain e2 where "judge_answer verdict (su_decoding su) (su_str_of su) (su_now su)
        (br_start (hq_base q)) result env xs1 = (Some i, e2, xs')"
      using assms run leave by (auto simp: exchange_def Let_def split: prod.splits)
    then show ?thesis using judged_error by blast
  qed
qed

lemma exchange_accepts:
  assumes "exchange verdict su q b env xs = Some (None, env', xs', b')"
  shows "sealed (su_str_of su) env' \<and> env_ok env' \<and> env_status env' < HTTP_ERROR_STATUS"
proof -
  obtain c f where run: "handle_http_request (su_failsafe su) (su_hierarchy su) (su_files su) b (su_texts su)
      (options_of q) (br_url (hq_base q)) (hq_request_type q) (hq_upload q) (env_payload env) (su_attempts su)
      = Some (c, f)"
    by (rule exchange_runs [OF assms])
  obtain o1 xs1 where leave: "leave_run f xs = (o1, xs1)" by (cases "leave_run f xs")
  show ?thesis
  proof (cases o1)
    case (Inl err)
    then show ?thesis using assms run leave by (auto simp: exchange_def Let_def split: prod.splits)
  next
    case (Inr result)
    then have "judge_answer verdict (su_decoding su) (su_str_of su) (su_now su)
        (br_start (hq_base q)) result env xs1 = (None, env', xs')"
      using assms run leave by (auto simp: exchange_def Let_def split: prod.splits)
    then show ?thesis using judged_ok by metis
  qed
qed

end

section \<open>An exchange with one host\<close>

text \<open>A host that answers every request alike, met by a plain POST.\<close>

definition one_host :: "int \<Rightarrow> string \<Rightarrow> string \<Rightarrow> world" where
  "one_host status content_type body =
     \<lparr>w_serve = (\<lambda>_. Inr \<lparr>rs_status = status, rs_headers = [(''Content-Type'', content_type)], rs_cookies = [],
        rs_stream = (\<lambda>_. \<lparr>st_chunks = [body], st_failure = None\<rparr>), rs_parts = []\<rparr>),
      w_offers = (\<lambda>_. True), w_clock = (\<lambda>_. 1), w_loop_time = (\<lambda>_. 1), w_tracers = (\<lambda>_. []),
      w_build = (\<lambda>_. Inr NoBody), w_opens = (\<lambda>_ _. Inl config_error), w_decode = (\<lambda>s. Some s),
      w_replace = (\<lambda>s. s), w_ip6 = (\<lambda>_. False), w_load = (\<lambda>_ _. LoadFailed)\<rparr>"

definition one_attempt :: "world \<Rightarrow> attempt" where
  "one_attempt w = \<lparr>at_world = w, at_now = 0, at_enter = 0, at_failed = 1, at_callbacks = (\<lambda>_. None),
     at_sleep = None, at_text = (\<lambda>_. ''gone away'')\<rparr>"

definition plain_surround :: "world \<Rightarrow> (string \<Rightarrow> pyval option) \<Rightarrow> surround" where
  "plain_surround w loads =
     \<lparr>su_failsafe = \<lparr>fs_should_abort = (\<lambda>_ _. False), fs_is_retriable = (\<lambda>_ _. True), fs_for_attempt = (\<lambda>_ _. 0)\<rparr>,
      su_hierarchy = (\<lambda>_. [Ext ''aiohttp.ClientConnectionError'', Ext ''aiohttp.ClientError'']),
      su_files = \<lparr>sr_opens = (\<lambda>_. Inl config_error), sr_guess = (\<lambda>_. None), sr_dumps = (\<lambda>_. Some ''{}''),
        sr_coerce = (\<lambda>_. Inr [])\<rparr>,
      su_texts = (\<lambda>_. []), su_attempts = [one_attempt w],
      su_decoding = \<lparr>dc_loads = loads, dc_charset_text = [], dc_json_text = [],
        dc_json_cause = failsafe_error (Ext ''ValueError'') None None\<rparr>,
      su_str_of = (\<lambda>_. []), su_now = 2, su_traced = []\<rparr>"

definition plain_breaker :: breaker where
  "plain_breaker = new_breaker 5 (FFin 60) None None None None PNone PNone"

definition plain_request :: http_request where
  "plain_request =
     \<lparr>hq_base = \<lparr>br_url = ''https://h/'', br_auth = PNone, br_info = PDict [], br_redact = [], br_start = 0,
        br_timeout = PInt 15, br_certificate = PNone, br_breaker = 0\<rparr>,
      hq_request_type = ''post'', hq_auth = PNone, hq_cookies = None, hq_headers = [], hq_verify_ssl = PBool True,
      hq_upload = PDict [], hq_download = PNone, hq_timeout = FFin 15, hq_forward = [], hq_session = None,
      hq_serializer = DefaultSerializer, hq_tracers = OwnTracer, hq_cap = 100, hq_allow_redirects = True,
      hq_max_redirects = 10, hq_allowed = ALLOWED_SCHEMES\<rparr>"

definition plain_result :: "int \<Rightarrow> string \<Rightarrow> string \<Rightarrow> http_result" where
  "plain_result status content_type body =
     \<lparr>hr_status = status, hr_headers = [(''Content-Type'', content_type)], hr_cookies = [],
      hr_text = body, hr_decode_error = False\<rparr>"

text \<open>One attempt whose only turn answers: the exchange returns that answer and closes the breaker.\<close>

lemma handle_one_turn:
  assumes "body_factory sr config (case ho_headers opts of Some hs \<Rightarrow> hs | None \<Rightarrow> []) payload rt = Inr build"
    and "br_state b = Closed"
    and "get_ssl_config (w_load (at_world a)) (ho_certificate opts) (ho_verify_ssl opts) = Inr ssl"
    and "build = Inr body"
    and "snd (hop_step ((at_world a)\<lparr>w_build := \<lambda>_. build\<rparr>) (start_call opts ssl (at_now a))
           (start_state opts url rt body)) = Some (Inr result, kept)"
  shows "handle_http_request fs h sr b texts opts url rt config payload [a] =
     Some (release_trial False (record_success b), Returned result)"
proof -
  let ?w = "(at_world a)\<lparr>w_build := \<lambda>_. build\<rparr>"
  obtain s where "hop_step ?w (start_call opts ssl (at_now a)) (start_state opts url rt body)
      = (s, Some (Inr result, kept))"
    using assms(5) by (metis prod.collapse)
  then have "hop_loop ?w (start_call opts ssl (at_now a)) (start_state opts url rt body) = (s, (Inr result, kept))"
    by (subst hop_loop.simps) simp
  then have "attempt_outcome h build opts url rt a = Returns result"
    using assms(3,4) by (simp add: attempt_outcome_def make_http_request_def Let_def)
  then show ?thesis
    using assms(1,2)
    by (simp add: handle_http_request_def attempt_turn_def begin_attempt_def allows_execution_def finish_call_def)
qed

lemma plain_request_parts [simp]:
  "br_url (hq_base plain_request) = ''https://h/''" "br_redact (hq_base plain_request) = []"
  "br_start (hq_base plain_request) = 0" "hq_request_type plain_request = ''post''"
  "hq_upload plain_request = PDict []" "env_payload plain_env = PDict []"
  by (simp_all add: plain_request_def plain_env_def new_envelope_def)

lemma plain_surround_attempts: "su_attempts (plain_surround w loads) = [one_attempt w]"
  by (simp add: plain_surround_def)

lemma new_gateway_error_text [simp]: "ex_text (new_gateway_error c m s) = m"
  by (simp add: new_gateway_error_def)

lemma new_gateway_error_status: "ex_status (new_gateway_error c m s) = status_for (code_of c) s"
  by (simp add: new_gateway_error_def)

lemma plain_breaker_success: "release_trial False (record_success plain_breaker) = plain_breaker"
  by (simp add: plain_breaker_def new_breaker_def release_trial_def record_success_def)

lemma plain_exchange_404:
  "handle_http_request fs h (su_files (plain_surround w loads)) plain_breaker texts
     (options_of plain_request) ''https://h/'' ''post'' (PDict []) (PDict [])
     [one_attempt (one_host 404 ''text/plain'' ''gone'')]
     = Some (plain_breaker, Returned (plain_result 404 ''text/plain'' ''gone''))"
proof -
  let ?w = "one_host 404 ''text/plain'' ''gone''"
  have build: "body_factory (su_files (plain_surround w loads)) (PDict [])
      (case ho_headers (options_of plain_request) of Some hs \<Rightarrow> hs | None \<Rightarrow> []) (PDict []) ''post''
      = Inr (Inr (JsonBody (PDict [])))"
    by code_simp
  have ssl: "get_ssl_config (w_load (at_world (one_attempt ?w))) (ho_certificate (options_of plain_request))
      (ho_verify_ssl (options_of plain_request)) = Inr Verify"
    by code_simp
  have step: "snd (hop_step ((at_world (one_attempt ?w))\<lparr>w_build := \<lambda>_. Inr (JsonBody (PDict []))\<rparr>)
      (start_call (options_of plain_request) Verify (at_now (one_attempt ?w)))
      (start_state (options_of plain_request) ''https://h/'' ''post'' (JsonBody (PDict []))))
    = Some (Inr (plain_result 404 ''text/plain'' ''gone''), None)"
    by code_simp
  have "br_state plain_breaker = Closed" by (simp add: plain_breaker_def new_breaker_def)
  then show ?thesis
    using handle_one_turn [OF build _ ssl refl step] plain_breaker_success by simp
qed

text \<open>A call that meets an open circuit.\<close>

definition open_breaker :: breaker where
  "open_breaker = open_circuit 0 plain_breaker"

definition no_exceptions :: exc_store where
  "no_exceptions = \<lparr>xs_heap = (\<lambda>_. failsafe_error CircuitOpen None None), xs_next = 0\<rparr>"

definition refused :: "exchanged option" where
  "refused = exchange (http_response_error ''post'' ''https://h/'' [])
     (plain_surround (one_host 200 ''text/plain'' ''hi'') (\<lambda>_. None)) plain_request open_breaker plain_env no_exceptions"

lemma plain_url: "redact_url ''https://h/'' [] = ''https://h/''"
  by code_simp

lemma refused_raises:
  "map_option (\<lambda>(r, env, xs, b). (r, ex_class (xs_heap xs 1), ex_text (xs_heap xs 1))) refused
     = Some (Some 1, CircuitOpenError, ''circuit open for https://h/'')"
proof -
  have build: "body_factory (su_files (plain_surround w loads)) (PDict [])
      (case ho_headers (options_of plain_request) of Some hs \<Rightarrow> hs | None \<Rightarrow> []) (PDict []) ''post''
      = Inr (Inr (JsonBody (PDict [])))" for w loads
    by code_simp
  have "handle_http_request fs h (su_files (plain_surround w loads)) open_breaker texts
     (options_of plain_request) ''https://h/'' ''post'' (PDict []) (PDict []) (one_attempt w' # as)
     = Some (open_breaker, CircuitOpened None)" for fs h w loads texts w' as
    unfolding handle_http_request_def build
    by (simp add: attempt_turn_def begin_attempt_def allows_execution_def open_breaker_def open_circuit_def
        plain_breaker_def new_breaker_def one_attempt_def)
  then have "refused = Some (case leave_run (CircuitOpened None :: http_result final) no_exceptions of
      (Inl err, xs1) \<Rightarrow> let (i, xs2) = exchange_error ''https://h/'' [] err xs1 in (Some i, plain_env, xs2, open_breaker)
    | (Inr result, xs1) \<Rightarrow> (None, plain_env, xs1, open_breaker))"
    by (simp add: refused_def exchange_def plain_surround_attempts leave_run_def new_exc_def Let_def)
  moreover have "exchange_error ''https://h/'' [] 0 (snd (new_exc (failsafe_error CircuitOpen None None) no_exceptions))
      = raise_from CircuitOpenError ''circuit open for https://h/'' None 0
          (snd (new_exc (failsafe_error CircuitOpen None None) no_exceptions))"
    by (simp add: exchange_error_def plain_url is_instance_def failsafe_error_def new_exc_def no_exceptions_def
        Let_def)
  ultimately have eq: "refused = Some (Some 1, plain_env, snd (raise_from CircuitOpenError ''circuit open for https://h/''
      None 0 (snd (new_exc (failsafe_error CircuitOpen None None) no_exceptions))), open_breaker)"
    by (simp add: leave_run_def new_exc_def no_exceptions_def raise_from_def Let_def)
  show ?thesis unfolding eq by (simp add: raise_from_def new_exc_def no_exceptions_def)
qed

section \<open>Properties\<close>

text \<open>
  C23. When the retries are used up, the failure that used them up decides what is raised: a timeout,
  TLS, DNS, connection or other client failure by the first row of the table it belongs to, with
  the breaker's own exception as the cause; anything else, such as an error of the library with a
  status of its own, is raised again as itself, with its classes, its text and its status.
\<close>

theorem exhausted_retries_are_named_by_their_cause:
  assumes "leave_run (Exhausted e :: http_result final) xs = (Inl err, xs1)"
    and "exchange_error url params err xs1 = (i, xs2)"
  shows "case family_class TRANSPORT_ERRORS (ex_mro e) of
      Some c \<Rightarrow> ex_class (xs_heap xs2 i) = c \<and> ex_status (xs_heap xs2 i) = status_for (code_of c) None
        \<and> ex_cause (xs_heap xs2 i) = Some err
    | None \<Rightarrow> ex_mro (xs_heap xs2 i) = ex_mro e \<and> ex_text (xs_heap xs2 i) = ex_text e
        \<and> ex_status (xs_heap xs2 i) = ex_status e"
proof -
  have err: "xs_heap xs1 err = failsafe_error RetriesExhausted (Some (xs_next xs)) (Some (xs_next xs))"
    and e: "xs_heap xs1 (xs_next xs) = e"
    using assms(1) by (auto simp: leave_run_def new_exc_def Let_def)
  have mro: "\<not> is_instance (ex_mro (xs_heap xs1 err)) [CircuitOpen]"
      "is_instance (ex_mro (xs_heap xs1 err)) (RetriesExhausted # TRANSPORT_FAULTS)"
      "is_instance (ex_mro (xs_heap xs1 err)) [FailsafeError]"
    by (simp_all add: err failsafe_error_def is_instance_def)
  show ?thesis
  proof (cases "family_class TRANSPORT_ERRORS (ex_mro e)")
    case None
    then have "exchange_error url params err xs1 = raise_without_cause (xs_next xs) err xs1"
      using mro e by (simp add: exchange_error_def transport_error_for_def Let_def err failsafe_error_def)
    then have "raise_without_cause (xs_next xs) err xs1 = (i, xs2)" using assms(2) by simp
    from raise_without_cause_eq [OF this] show ?thesis using None e by auto
  next
    case (Some c)
    then obtain m where "exchange_error url params err xs1 = raise_from c m None err xs1"
      using mro e by (simp add: exchange_error_def transport_error_for_def Let_def err failsafe_error_def)
    then have "xs_heap xs2 i = (new_gateway_error c m None)\<lparr>ex_cause := Some err, ex_context := Some err\<rparr>"
      using raise_from_eq assms(2) by simp
    then have "ex_class (xs_heap xs2 i) = c" "ex_status (xs_heap xs2 i) = status_for (code_of c) None"
        "ex_cause (xs_heap xs2 i) = Some err"
      by simp_all (simp add: new_gateway_error_def)
    then show ?thesis using Some by simp
  qed
qed

definition reset_by_peer :: exc_obj where
  "reset_by_peer = \<lparr>ex_mro = [Ext ''aiohttp.ServerDisconnectedError'', Ext ''aiohttp.ClientConnectionError''],
     ex_text = ''gone'', ex_status = 0, ex_cause = None, ex_context = None\<rparr>"

definition given_up :: "nat \<times> exc_store" where
  "given_up = exchange_error ''https://h/'' [] 1
     (snd (leave_run (Exhausted reset_by_peer :: http_result final) no_exceptions))"

theorem exhausted_retries_are_named_by_their_cause_witness:
  "ex_class (xs_heap (snd given_up) (fst given_up)) = ConnectError
   \<and> ex_status (xs_heap (snd given_up) (fst given_up)) = 502"
proof -
  have leave: "leave_run (Exhausted reset_by_peer :: http_result final) no_exceptions =
      (Inl 1, snd (leave_run (Exhausted reset_by_peer :: http_result final) no_exceptions))"
    by (simp add: leave_run_def new_exc_def no_exceptions_def)
  have family: "family_class TRANSPORT_ERRORS (ex_mro reset_by_peer) = Some ConnectError"
    by (simp add: family_class_def TRANSPORT_ERRORS_def reset_by_peer_def is_instance_def)
  have "status_for (code_of ConnectError) None = 502" by code_simp
  then show ?thesis
    using exhausted_retries_are_named_by_their_cause [OF leave,
        of "''https://h/''" "[]" "fst given_up" "snd given_up"] family
    by (simp add: given_up_def)
qed

text \<open>
  C24. An answer is judged by its status: below 400 with a body that decodes the call returns a sealed
  envelope with the status of the answer; from 400 on it is the library's status error, carrying
  the status of the answer, and below it a body that does not decode is a serialisation error. In
  every case the envelope holds what was answered: status, text, redacted headers and cookies.
\<close>

theorem answers_are_judged_by_their_status:
  assumes "handle_http_request (su_failsafe su) (su_hierarchy su) (su_files su) b (su_texts su) (options_of q)
             (br_url (hq_base q)) (hq_request_type q) (hq_upload q) (env_payload env) (su_attempts su)
           = Some (b1, Returned result)"
    and "exchange (http_response_error request_type url params) su q b env xs = Some (r, env', xs', b')"
  shows "env_status env' = hr_status result \<and> env_text env' = hr_text result
    \<and> env_headers env' = redact_headers (hr_headers result) \<and> env_cookies env' = redact_cookies (hr_cookies result)
    \<and> (case r of
         None \<Rightarrow> hr_status result < 400 \<and> sealed (su_str_of su) env' \<and> env_ok env'
       | Some i \<Rightarrow> (if 400 \<le> hr_status result
           then ex_class (xs_heap xs' i) = HttpStatusError \<and> ex_status (xs_heap xs' i) = hr_status result
           else ex_class (xs_heap xs' i) = SerializationError))"
proof -
  obtain e1 env1 xs1 where c: "copy_into_envelope (su_decoding su) result env xs = (e1, env1, xs1)"
    by (metis prod.exhaust)
  note answer = copy_into_envelope_answer [OF c] and serr = copy_into_envelope_error [of "su_decoding su" result env xs]
  obtain v env2 xs2 where v: "http_response_error request_type url params (hr_status result) e1 env1 xs1 = (v, env2, xs2)"
    by (metis prod.exhaust)
  have env2: "env2 = env1"
    using v by (auto simp: http_response_error_def split: if_splits prod.splits)
  have run: "Some (r, env', xs', b') = Some (let (r, env', xs') = judge_answer
      (http_response_error request_type url params) (su_decoding su) (su_str_of su) (su_now su)
      (br_start (hq_base q)) result env xs in (r, env', xs', b1))"
    using exchange_returned [OF assms(1)] assms(2) by metis
  show ?thesis
  proof (cases v)
    case None
    then have "r = None" "env' = finalise_ok (su_str_of su) (su_now su) (hr_status result) (br_start (hq_base q)) env1"
      using run c v env2 by (simp_all add: judge_answer_def)
    moreover have "hr_status result < 400"
      using v None by (auto simp: http_response_error_def HTTP_ERROR_STATUS_def split: if_splits prod.splits)
    ultimately show ?thesis using answer finalise_ok_sealed by (simp add: finalise_ok_def seal_def)
  next
    case (Some i)
    then have r: "r = Some i" "env' = env1" "xs' = xs2"
      using run c v env2 by (simp_all add: judge_answer_def)
    moreover have "if 400 \<le> hr_status result
        then ex_class (xs_heap xs2 i) = HttpStatusError \<and> ex_status (xs_heap xs2 i) = hr_status result
        else ex_class (xs_heap xs2 i) = SerializationError"
      using v Some serr c
      by (auto simp: http_response_error_def status_error_def HTTP_ERROR_STATUS_def new_exc_def
          new_gateway_error_status split: if_splits prod.splits)
    ultimately show ?thesis using answer by simp
  qed
qed

definition gone_404 :: "exchanged option" where
  "gone_404 = exchange (http_response_error ''post'' ''https://h/'' [])
     (plain_surround (one_host 404 ''text/plain'' ''gone'') (\<lambda>_. None)) plain_request plain_breaker plain_env no_exceptions"

theorem answers_are_judged_by_their_status_witness:
  "case gone_404 of Some (r, env, xs, b) \<Rightarrow> env_status env = 404 \<and> env_text env = ''gone''
      \<and> map_option (\<lambda>i. (ex_class (xs_heap xs i), ex_status (xs_heap xs i))) r = Some (HttpStatusError, 404)
    | None \<Rightarrow> False"
proof -
  let ?su = "plain_surround (one_host 404 ''text/plain'' ''gone'') (\<lambda>_. None)"
  have run: "handle_http_request (su_failsafe ?su) (su_hierarchy ?su) (su_files ?su) plain_breaker (su_texts ?su)
      (options_of plain_request) (br_url (hq_base plain_request)) (hq_request_type plain_request)
      (hq_upload plain_request) (env_payload plain_env) (su_attempts ?su)
      = Some (plain_breaker, Returned (plain_result 404 ''text/plain'' ''gone''))"
    unfolding plain_request_parts plain_surround_attempts by (rule plain_exchange_404)
  have "gone_404 \<noteq> None" using run by (simp add: gone_404_def exchange_returned)
  then obtain r env xs b where g: "gone_404 = Some (r, env, xs, b)" by auto
  show ?thesis
    using answers_are_judged_by_their_status [OF run g [unfolded gone_404_def]]
    unfolding g by (auto simp: plain_result_def split: option.splits)
qed

end
