(* ===== verification/Jsonrpc.thy ===== *)
theory Jsonrpc
  imports Http_Client
begin

text \<open>
  \<open>logic/jsonrpc_client.py\<close>: the options and the request document of a JSON-RPC call, the headers it
  is sent with, the validation of the answer and the verdict that replaces the one of the HTTP
  client. \<open>orjson\<close> is the argument \<open>dumps\<close> (\<^term>\<open>None\<close> is its \<open>TypeError\<close>).
\<close>

section \<open>The request\<close>

definition MIN_JSONRPC_INTEGER :: int where
  "MIN_JSONRPC_INTEGER = - (2 ^ 63)"

definition MAX_JSONRPC_INTEGER :: int where
  "MAX_JSONRPC_INTEGER = 2 ^ 64 - 1"

definition validated_jsonrpc_method :: "pyval \<Rightarrow> exn + string" where
  "validated_jsonrpc_method v =
     (case v of
        PStr s \<Rightarrow> if str_strip s = [] \<or> starts_with ''rpc.'' s then Inl config_error else Inr s
      | _ \<Rightarrow> Inl config_error)"

definition validated_jsonrpc_id :: "pyval \<Rightarrow> exn + pyval" where
  "validated_jsonrpc_id v =
     (case v of
        PStr s \<Rightarrow> Inr v
      | PInt n \<Rightarrow> if MIN_JSONRPC_INTEGER \<le> n \<and> n \<le> MAX_JSONRPC_INTEGER then Inr v else Inl config_error
      | _ \<Rightarrow> Inl config_error)"

definition validated_jsonrpc_params :: "pyval \<Rightarrow> exn + pyval" where
  "validated_jsonrpc_params v =
     (case v of PNone \<Rightarrow> Inr PNone | PDict kvs \<Rightarrow> Inr (PDict kvs) | PList xs \<Rightarrow> Inr (PList xs)
      | _ \<Rightarrow> Inl config_error)"

definition build_jsonrpc_request ::
  "(pyval \<Rightarrow> string option) \<Rightarrow> string \<Rightarrow> pyval \<Rightarrow> pyval \<Rightarrow> exn + pyval" where
  "build_jsonrpc_request dumps rpc_method request_id params =
     (let body0 = PDict [(PStr ''jsonrpc'', PStr ''2.0''), (PStr ''method'', PStr rpc_method),
            (PStr ''id'', request_id)];
          body = (if params = PNone then body0 else dset body0 ''params'' params)
      in rbind (default_json_serialize dumps body) (\<lambda>_. Inr body))"

fun keep_headers :: "(string, string) dict \<Rightarrow> (string, string) dict \<Rightarrow> exn + (string, string) dict" where
  "keep_headers checked [] = Inr checked"
| "keep_headers checked ((name, v) # headers) =
     (if str_lower name = CONTENT_TYPE_HEADER then
        (if normalise_media_type v \<noteq> ''application/json'' then Inl config_error
         else keep_headers checked headers)
      else keep_headers (dict_set checked name v) headers)"

definition canonical_jsonrpc_headers :: "(string, string) dict \<Rightarrow> exn + (string, string) dict" where
  "canonical_jsonrpc_headers headers =
     rbind (keep_headers [] headers) (\<lambda>checked. Inr (dict_set checked ''Content-Type'' ''application/json''))"

section \<open>The answer\<close>

abbreviation jsonrpc_protocol_error :: exn where
  "jsonrpc_protocol_error \<equiv> Exn JsonRpcProtocolError None"

text \<open>
  The details of the answer and whether it is an error of the peer. The identifier must be of the
  type of the one sent: for the two types an identifier has, that and equality are equality of
  values.
\<close>

definition validated_jsonrpc_error :: "pyval \<Rightarrow> exn + pyval" where
  "validated_jsonrpc_error error =
     (if \<not> is_mapping error then Inl jsonrpc_protocol_error
      else (case dget_or error ''code'' PNone of
          PInt code \<Rightarrow>
            if \<not> (MIN_JSONRPC_INTEGER \<le> code \<and> code \<le> MAX_JSONRPC_INTEGER) then Inl jsonrpc_protocol_error
            else if \<not> is_str (dget_or error ''message'' PNone) then Inl jsonrpc_protocol_error
            else Inr (PDict (entries error))
        | _ \<Rightarrow> Inl jsonrpc_protocol_error))"

definition validated_jsonrpc_response ::
  "pyval \<Rightarrow> pyval \<Rightarrow> exn + ((string, pyval) dict \<times> bool)" where
  "validated_jsonrpc_response body expected_id =
     rbind (ensure (is_mapping body) jsonrpc_protocol_error) (\<lambda>_.
     rbind (ensure (dget_or body ''jsonrpc'' PNone = PStr ''2.0'') jsonrpc_protocol_error) (\<lambda>_.
     (case dget body ''id'' of
        None \<Rightarrow> Inl jsonrpc_protocol_error
      | Some peer_id \<Rightarrow>
          rbind (ensure (peer_id = expected_id) jsonrpc_protocol_error) (\<lambda>_.
          (case (dget body ''result'', dget body ''error'') of
             (Some result, None) \<Rightarrow> Inr ([(''id'', peer_id), (''result'', result)], False)
           | (None, Some error) \<Rightarrow>
               rbind (validated_jsonrpc_error error) (\<lambda>e. Inr ([(''id'', peer_id), (''error'', e)], True))
           | _ \<Rightarrow> Inl jsonrpc_protocol_error)))))"

section \<open>The client\<close>

definition JSONRPC_REQUIRED_INFO_KEYS :: "string list" where
  "JSONRPC_REQUIRED_INFO_KEYS = [''method'', ''request_id'']"

definition JSONRPC_ALLOWED_INFO_KEYS :: "string list" where
  "JSONRPC_ALLOWED_INFO_KEYS =
    [''method'', ''request_id'', ''headers'', ''cookies'', ''certificate'', ''verify_ssl'', ''trace_config'',
     ''timeout'', ''max_response_bytes'', ''circuit_breaker_config'', ''redact_query_params'']"

record jsonrpc_request =
  jr_http :: http_request
  jr_method :: string
  jr_id :: pyval

text \<open>The refusal of credentials in the URL, which the two RPC clients share.\<close>

definition no_user_info :: "(string \<Rightarrow> bool) \<Rightarrow> string \<Rightarrow> exn + unit" where
  "no_user_info ip6 url =
     rbind (urlsplit ip6 [] url) (\<lambda>parts. ensure (CHR ''@'' \<notin> set (su_netloc parts)) config_error)"

text \<open>The options an RPC call fixes: it is a POST and follows no redirect.\<close>

definition rpc_info :: "pyval \<Rightarrow> pyval" where
  "rpc_info info = dset (dset (PDict (entries info)) ''request_type'' (PStr ''POST''))
     ''allow_redirects'' (PBool False)"

text \<open>The constructor: the payload of the envelope becomes the request document.\<close>

definition jsonrpc_document ::
  "(string \<Rightarrow> bool) \<Rightarrow> (pyval \<Rightarrow> string option) \<Rightarrow> string \<Rightarrow> pyval \<Rightarrow> pyval \<Rightarrow> exn + (string \<times> pyval \<times> pyval)" where
  "jsonrpc_document ip6 dumps url info payload =
     rbind (no_user_info ip6 url) (\<lambda>_.
     rbind (validated_jsonrpc_method (dget_or info ''method'' PNone)) (\<lambda>rpc_method.
     rbind (validated_jsonrpc_id (dget_or info ''request_id'' PNone)) (\<lambda>request_id.
     rbind (validated_jsonrpc_params payload) (\<lambda>params.
     rbind (build_jsonrpc_request dumps rpc_method request_id params) (\<lambda>body.
     Inr (rpc_method, request_id, body))))))"

definition new_jsonrpc_request ::
  "(string \<Rightarrow> bool) \<Rightarrow> foreign \<Rightarrow> (pyval \<Rightarrow> string option) \<Rightarrow> rat \<Rightarrow> pyval \<Rightarrow> pyval \<Rightarrow> string \<Rightarrow> pyval
    \<Rightarrow> envelope \<Rightarrow> pyval \<Rightarrow> string list \<Rightarrow> registry \<Rightarrow> (exn + jsonrpc_request) \<times> envelope \<times> registry" where
  "new_jsonrpc_request ip6 f dumps now clock sleep url auth env info params reg =
     (case jsonrpc_document ip6 dumps url info (env_payload env) of
        Inl e \<Rightarrow> (Inl e, env, reg)
      | Inr (rpc_method, request_id, body) \<Rightarrow>
          let env' = env\<lparr>env_payload := body\<rparr>;
              (q, reg') = new_http_request ip6 f now clock sleep url auth env' (rpc_info info) params reg
          in (rbind q (\<lambda>q. rbind (canonical_jsonrpc_headers (hq_headers q)) (\<lambda>hs.
                Inr \<lparr>jr_http = q\<lparr>hq_headers := hs\<rparr>, jr_method = rpc_method, jr_id = request_id\<rparr>)),
              env', reg'))"

text \<open>\<open>JsonRpcRequest._response_error\<close>; what it falls back to is the verdict of the HTTP client.\<close>

definition raise_now :: "exc_class \<Rightarrow> string \<Rightarrow> int option \<Rightarrow> exc_store \<Rightarrow> nat \<times> exc_store" where
  "raise_now c message override xs = new_exc (new_gateway_error c message override) xs"

definition jsonrpc_response_error :: "(exn \<Rightarrow> string) \<Rightarrow> string \<Rightarrow> string list \<Rightarrow> pyval \<Rightarrow> verdict" where
  "jsonrpc_response_error texts url params request_id status body_error env xs =
     (let parent = http_response_error ''POST'' url params status body_error env xs in
      if body_error \<noteq> None then
        (if status \<ge> 400 then parent
         else let (i, xs1) = raise_now JsonRpcProtocolError ''JSON-RPC response body is not valid JSON'' None xs
              in (Some i, env, xs1))
      else (case validated_jsonrpc_response (env_json env) request_id of
          Inl e \<Rightarrow>
            if status \<ge> 400 then parent
            else let (i, xs1) = raise_now JsonRpcProtocolError (texts e) None xs in (Some i, env, xs1)
        | Inr (details, is_rpc_error) \<Rightarrow>
            let env1 = env\<lparr>env_details := details\<rparr> in
            if is_rpc_error then
              let (i, xs1) = raise_now JsonRpcError ''JSON-RPC peer returned an error object'' (Some status) xs
              in (Some i, env1, xs1)
            else if status \<ge> 400 then http_response_error ''POST'' url params status body_error env1 xs
            else (None, env1, xs)))"

section \<open>Facts\<close>

lemma http_response_error_env: "http_response_error rt url params status err env xs = (r, env', xs') \<Longrightarrow> env' = env"
  by (auto simp: http_response_error_def split: if_splits prod.splits)

interpretation jsonrpc: response_verdict "jsonrpc_response_error texts url params request_id"
  for texts url params request_id
proof unfold_locales
  fix status err env xs env' xs'
  assume "jsonrpc_response_error texts url params request_id status err env xs = (None, env', xs')"
  then show "status < HTTP_ERROR_STATUS \<and> err = None"
    by (auto simp: jsonrpc_response_error_def Let_def HTTP_ERROR_STATUS_def
        split: if_splits prod.splits sum.splits dest: http.accepts)
next
  fix status err env xs i env' xs'
  assume "jsonrpc_response_error texts url params request_id status err env xs = (Some i, env', xs')"
    and "\<forall>j. err = Some j \<longrightarrow> is_lib (ex_class (xs_heap xs j))"
  then show "is_lib (ex_class (xs_heap xs' i))"
    by (auto simp: jsonrpc_response_error_def Let_def raise_now_def
        split: if_splits prod.splits sum.splits dest!: new_exc_eq dest: http.refuses)
next
  fix status err env xs r env' xs'
  assume "jsonrpc_response_error texts url params request_id status err env xs = (r, env', xs')"
  then show "env'\<lparr>env_details := env_details env\<rparr> = env"
    by (auto simp: jsonrpc_response_error_def Let_def raise_now_def
        split: if_splits prod.splits sum.splits dest!: http_response_error_env)
qed


lemma canonical_set_safe:
  "list_all (\<lambda>(n, t). header_safe n \<and> header_safe t) k \<Longrightarrow> header_safe n \<Longrightarrow> header_safe t \<Longrightarrow>
     list_all (\<lambda>(n, t). header_safe n \<and> header_safe t) (dict_set k n t)"
  by (induction k n t rule: dict_set.induct) auto

lemma keep_headers_step:
  assumes "keep_headers checked headers = Inr c"
    and "list_all (\<lambda>(n, t). header_safe n \<and> header_safe t) headers"
    and "list_all (\<lambda>(n, t). header_safe n \<and> header_safe t) checked"
    and "CONTENT_TYPE_HEADER \<notin> str_lower ` set (dict_keys checked)"
  shows "list_all (\<lambda>(n, t). header_safe n \<and> header_safe t) c
    \<and> CONTENT_TYPE_HEADER \<notin> str_lower ` set (dict_keys c)"
  using assms
proof (induction checked headers rule: keep_headers.induct)
  case (2 checked name v headers)
  have "list_all (\<lambda>(n, t). header_safe n \<and> header_safe t) (dict_set checked name v)"
    using "2.prems"(2,3) by (intro canonical_set_safe) auto
  moreover have "CONTENT_TYPE_HEADER \<notin> str_lower ` set (dict_keys (dict_set checked name v))"
    if "str_lower name \<noteq> CONTENT_TYPE_HEADER"
    using "2.prems"(4) that by (simp only: set_keys_dict_set image_insert) auto
  ultimately show ?case
    using 2 by (cases "str_lower name = CONTENT_TYPE_HEADER") (simp_all split: if_splits)
qed simp

lemma canonical_content_type:
  assumes "CONTENT_TYPE_HEADER \<notin> str_lower ` set (dict_keys c)"
  shows "filter (\<lambda>(n, _). str_lower n = CONTENT_TYPE_HEADER) (dict_set c ''Content-Type'' v) = [(''Content-Type'', v)]"
proof -
  have ct: "str_lower ''Content-Type'' = CONTENT_TYPE_HEADER" by code_simp
  then have "''Content-Type'' \<notin> set (dict_keys c)" using assms by (metis image_eqI)
  moreover have "filter (\<lambda>(n, _). str_lower n = CONTENT_TYPE_HEADER) c = []"
    using assms by (force simp: filter_empty_conv)
  ultimately show ?thesis using ct by (simp add: dict_set_absent)
qed

lemma canonical_jsonrpc_headers_ok:
  assumes "canonical_jsonrpc_headers hs = Inr c" "list_all (\<lambda>(n, t). header_safe n \<and> header_safe t) hs"
  shows "list_all (\<lambda>(n, t). header_safe n \<and> header_safe t) c
    \<and> filter (\<lambda>(n, _). str_lower n = CONTENT_TYPE_HEADER) c = [(''Content-Type'', ''application/json'')]"
proof -
  obtain k where k: "keep_headers [] hs = Inr k" "c = dict_set k ''Content-Type'' ''application/json''"
    using assms(1) by (auto simp: canonical_jsonrpc_headers_def rbind_eq_Inr)
  have safe: "header_safe ''Content-Type''" "header_safe ''application/json''" by code_simp+
  have "list_all (\<lambda>(n, t). header_safe n \<and> header_safe t) k"
      "CONTENT_TYPE_HEADER \<notin> str_lower ` set (dict_keys k)"
    using keep_headers_step [OF k(1) assms(2)] by simp_all
  then show ?thesis using canonical_content_type [of k] canonical_set_safe safe unfolding k(2) by blast
qed

lemma wf_http_request_headers:
  "wf_http_request q \<Longrightarrow> list_all (\<lambda>(n, t). header_safe n \<and> header_safe t) hs \<Longrightarrow>
     wf_http_request (q\<lparr>hq_headers := hs\<rparr>)"
  by (simp add: wf_http_request_def)

lemma new_http_request_fixed:
  assumes "new_http_request ip6 f now clock sleep url auth env (rpc_info info) params reg = (Inr q, reg')"
  shows "hq_request_type q = ''POST'' \<and> \<not> hq_allow_redirects q \<and> wf_http_request q"
proof -
  obtain b where b: "fst (new_request ip6 now clock sleep url auth env (rpc_info info) params reg) = Inr b"
      and q: "http_request_of ip6 f b = Inr q"
    using assms by (auto simp: new_http_request_def rbind_eq_Inr split: prod.splits)
  have "br_info b = PDict (entries (rpc_info info))"
    using b by (auto simp: new_request_def split: sum.splits prod.splits)
  then have "dget (br_info b) ''request_type'' = Some (PStr ''POST'')"
      "dget (br_info b) ''allow_redirects'' = Some (PBool False)"
    by (simp_all add: rpc_info_def dget_def dset_def)
  then have "hq_request_type q = ''POST'' \<and> \<not> hq_allow_redirects q"
    using q by (auto simp: http_request_of_def Let_def rbind_eq_Inr dget_or_def validated_request_type_def
        validated_allow_redirects_def split: if_splits)
  then show ?thesis using http_request_of_wf [OF q] by simp
qed

section \<open>Properties\<close>

text \<open>
  A JSON-RPC call is what the protocol asks for, whatever the caller passed: a well-formed POST
  that follows no redirect, with exactly one content type, which is JSON, to a URL without
  credentials; its payload is a document of version 2.0 with the caller's method and identifier,
  the identifier a text or an integer the wire can hold, and the method is not reserved.
\<close>

theorem jsonrpc_calls_are_plain_posts:
  assumes "new_jsonrpc_request ip6 f dumps now clock sleep url auth env info params reg = (Inr r, env', reg')"
  shows "wf_http_request (jr_http r) \<and> hq_request_type (jr_http r) = ''POST'' \<and> \<not> hq_allow_redirects (jr_http r)
    \<and> filter (\<lambda>(n, _). str_lower n = CONTENT_TYPE_HEADER) (hq_headers (jr_http r))
        = [(''Content-Type'', ''application/json'')]
    \<and> no_user_info ip6 url = Inr ()
    \<and> dget (env_payload env') ''jsonrpc'' = Some (PStr ''2.0'')
    \<and> dget (env_payload env') ''method'' = Some (PStr (jr_method r))
    \<and> dget (env_payload env') ''id'' = Some (jr_id r)
    \<and> jr_id r \<in> range PStr \<union> PInt ` {- (2 ^ 63)..2 ^ 64 - 1} \<and> \<not> starts_with ''rpc.'' (jr_method r)"
proof -
  obtain body q hs where doc: "jsonrpc_document ip6 dumps url info (env_payload env) = Inr (jr_method r, jr_id r, body)"
      and env': "env' = env\<lparr>env_payload := body\<rparr>"
      and q: "new_http_request ip6 f now clock sleep url auth env' (rpc_info info) params reg = (Inr q, reg')"
      and hs: "canonical_jsonrpc_headers (hq_headers q) = Inr hs" and r: "jr_http r = q\<lparr>hq_headers := hs\<rparr>"
    using assms by (auto simp: new_jsonrpc_request_def Let_def rbind_eq_Inr split: sum.splits prod.splits)
  have wf: "wf_http_request q" "hq_request_type q = ''POST''" "\<not> hq_allow_redirects q"
    using new_http_request_fixed [OF q] by simp_all
  then have "list_all (\<lambda>(n, t). header_safe n \<and> header_safe t) (hq_headers q)" by (simp add: wf_http_request_def)
  note canonical = canonical_jsonrpc_headers_ok [OF hs this]
  from doc obtain ps where user: "no_user_info ip6 url = Inr ()"
      and m: "validated_jsonrpc_method (dget_or info ''method'' PNone) = Inr (jr_method r)"
      and i: "validated_jsonrpc_id (dget_or info ''request_id'' PNone) = Inr (jr_id r)"
      and body: "build_jsonrpc_request dumps (jr_method r) (jr_id r) ps = Inr body"
    by (auto simp: jsonrpc_document_def rbind_eq_Inr)
  have "dget body ''jsonrpc'' = Some (PStr ''2.0'')" "dget body ''method'' = Some (PStr (jr_method r))"
      "dget body ''id'' = Some (jr_id r)"
    using body by (auto simp: build_jsonrpc_request_def Let_def rbind_eq_Inr dget_def dset_def split: if_splits)
  moreover have "jr_id r \<in> range PStr \<union> PInt ` {- (2 ^ 63)..2 ^ 64 - 1}"
    using i by (cases "jr_id r") (auto simp: validated_jsonrpc_id_def MIN_JSONRPC_INTEGER_def
        MAX_JSONRPC_INTEGER_def split: pyval.splits if_splits)
  moreover have "\<not> starts_with ''rpc.'' (jr_method r)"
    using m by (auto simp: validated_jsonrpc_method_def split: pyval.splits if_splits)
  ultimately show ?thesis
    using wf canonical user wf_http_request_headers unfolding r env' by simp
qed

definition rpc_call :: "(exn + jsonrpc_request) \<times> envelope \<times> registry" where
  "rpc_call = new_jsonrpc_request (\<lambda>_. False) plain_foreign (\<lambda>_. Some ''{}'') 0 (PFun 0) (PFun 1) ''https://h/rpc'' PNone
     plain_env (PDict [(PStr ''method'', PStr ''sum''), (PStr ''request_id'', PInt 7),
       (PStr ''headers'', PDict [(PStr ''content-type'', PStr ''Application/JSON; charset=utf-8'')])]) [] empty_registry"

lemma rpc_call_ok: "case fst rpc_call of Inr r \<Rightarrow> jr_id r = PInt 7 | Inl _ \<Rightarrow> False"
  by code_simp

theorem jsonrpc_calls_are_plain_posts_witness:
  "case fst rpc_call of Inr r \<Rightarrow> wf_http_request (jr_http r) \<and> \<not> hq_allow_redirects (jr_http r)
      \<and> dget (env_payload (fst (snd rpc_call))) ''id'' = Some (PInt 7) | Inl _ \<Rightarrow> False"
proof -
  obtain r where r: "fst rpc_call = Inr r" "jr_id r = PInt 7" using rpc_call_ok by (cases "fst rpc_call") auto
  then have "rpc_call = (Inr r, fst (snd rpc_call), snd (snd rpc_call))" by (metis prod.collapse)
  from jsonrpc_calls_are_plain_posts [OF this [unfolded rpc_call_def]] show ?thesis
    using r by (simp add: rpc_call_def)
qed

text \<open>The answer a peer gives to a request document: its identifier, and one member more.\<close>

definition rpc_reply :: "pyval \<Rightarrow> string \<Rightarrow> pyval \<Rightarrow> pyval" where
  "rpc_reply doc member v = PDict [(PStr ''jsonrpc'', PStr ''2.0''), (PStr ''id'', dget_or doc ''id'' PNone),
     (PStr member, v)]"

text \<open>
  C26. Request and answer round-trip: to the document built for a call, the answer a peer gives with
  its identifier is read back as exactly that result, or as exactly that error object; and an
  answer with any other identifier, a text for an integer included, is refused whatever else it
  holds. What is read back always carries the identifier that was sent.
\<close>

theorem jsonrpc_round_trip:
  assumes "build_jsonrpc_request dumps rpc_method request_id params = Inr doc"
    and "validated_jsonrpc_error error = Inr e"
  shows "validated_jsonrpc_response (rpc_reply doc ''result'' v) request_id
      = Inr ([(''id'', request_id), (''result'', v)], False)
    \<and> validated_jsonrpc_response (rpc_reply doc ''error'' error) request_id
      = Inr ([(''id'', request_id), (''error'', error)], True)
    \<and> {body. dget body ''id'' \<noteq> Some request_id} \<subseteq>
        {body. validated_jsonrpc_response body request_id = Inl jsonrpc_protocol_error}"
proof -
  have id: "dget_or doc ''id'' PNone = request_id"
    using assms(1) by (auto simp: build_jsonrpc_request_def Let_def rbind_eq_Inr dget_or_def dget_def dset_def
        split: if_splits)
  have e: "e = error"
    using assms(2) by (cases error) (auto simp: validated_jsonrpc_error_def split: pyval.splits if_splits)
  have refused: "validated_jsonrpc_response body request_id = Inl jsonrpc_protocol_error"
    if "dget body ''id'' \<noteq> Some request_id" for body
    using that by (cases "is_mapping body"; cases "dget_or body ''jsonrpc'' PNone = PStr ''2.0''";
        cases "dget body ''id''") (simp_all add: validated_jsonrpc_response_def)
  have reply: "rpc_reply doc k w = PDict [(PStr ''jsonrpc'', PStr ''2.0''), (PStr ''id'', request_id), (PStr k, w)]"
    for k w by (simp add: rpc_reply_def id)
  have "validated_jsonrpc_response (rpc_reply doc ''result'' v) request_id
      = Inr ([(''id'', request_id), (''result'', v)], False)"
    by (simp add: validated_jsonrpc_response_def reply dget_def dget_or_def)
  moreover have "validated_jsonrpc_response (rpc_reply doc ''error'' error) request_id
      = Inr ([(''id'', request_id), (''error'', error)], True)"
    using assms(2) by (simp add: validated_jsonrpc_response_def reply dget_def dget_or_def e)
  ultimately show ?thesis using refused by blast
qed

theorem jsonrpc_round_trip_witness:
  "validated_jsonrpc_response (PDict [(PStr ''jsonrpc'', PStr ''2.0''), (PStr ''id'', PInt 7),
      (PStr ''result'', PInt 19)]) (PInt 7) = Inr ([(''id'', PInt 7), (''result'', PInt 19)], False)"
proof -
  have doc: "build_jsonrpc_request (\<lambda>_. Some ''{}'') ''sum'' (PInt 7) PNone = Inr (PDict
      [(PStr ''jsonrpc'', PStr ''2.0''), (PStr ''method'', PStr ''sum''), (PStr ''id'', PInt 7)])"
    by (simp add: build_jsonrpc_request_def default_json_serialize_def)
  have err: "validated_jsonrpc_error (PDict [(PStr ''code'', PInt 1), (PStr ''message'', PStr ''no'')])
      = Inr (PDict [(PStr ''code'', PInt 1), (PStr ''message'', PStr ''no'')])"
    by code_simp
  show ?thesis using jsonrpc_round_trip [OF doc err, of "PInt 19"] by (simp add: rpc_reply_def dget_or_def dget_def)
qed

end
