(* ===== verification/Graphql.thy ===== *)
theory Graphql
  imports Jsonrpc
begin

text \<open>
  \<open>logic/graphql_client.py\<close>: the options and the document of a GraphQL call, the negotiation of the
  media type, the validation of the answer and the verdict. It shares with the JSON-RPC client the
  refusal of credentials in the URL and the options an RPC call fixes.
\<close>

section \<open>The request\<close>

definition GRAPHQL_RESPONSE_MEDIA_TYPE :: string where
  "GRAPHQL_RESPONSE_MEDIA_TYPE = ''application/graphql-response+json''"

definition LEGACY_GRAPHQL_MEDIA_TYPE :: string where
  "LEGACY_GRAPHQL_MEDIA_TYPE = ''application/json''"

definition GRAPHQL_ACCEPT :: string where
  "GRAPHQL_ACCEPT = GRAPHQL_RESPONSE_MEDIA_TYPE @ '', '' @ LEGACY_GRAPHQL_MEDIA_TYPE"

definition SUPPORTED_GRAPHQL_RESPONSE_MEDIA_TYPES :: "string list" where
  "SUPPORTED_GRAPHQL_RESPONSE_MEDIA_TYPES = [GRAPHQL_RESPONSE_MEDIA_TYPE, LEGACY_GRAPHQL_MEDIA_TYPE]"

definition validated_graphql_query :: "pyval \<Rightarrow> exn + string" where
  "validated_graphql_query v =
     (case v of PStr s \<Rightarrow> if str_strip s = [] then Inl config_error else Inr s | _ \<Rightarrow> Inl config_error)"

definition validated_operation_name :: "pyval \<Rightarrow> exn + string" where
  "validated_operation_name v =
     (case v of PStr s \<Rightarrow> if str_strip s = [] then Inl config_error else Inr s | _ \<Rightarrow> Inl config_error)"

definition validated_graphql_variables :: "pyval \<Rightarrow> exn + pyval option" where
  "validated_graphql_variables v =
     (if v = PNone then Inr None
      else if is_mapping v then Inr (Some (PDict (entries v))) else Inl config_error)"

definition build_graphql_request ::
  "(pyval \<Rightarrow> string option) \<Rightarrow> string \<Rightarrow> string option \<Rightarrow> pyval option \<Rightarrow> exn + pyval" where
  "build_graphql_request dumps gql_query operation_name variables =
     (let body0 = PDict [(PStr ''query'', PStr gql_query)];
          body1 = (case operation_name of None \<Rightarrow> body0 | Some n \<Rightarrow> dset body0 ''operationName'' (PStr n));
          body = (case variables of None \<Rightarrow> body1 | Some v \<Rightarrow> dset body1 ''variables'' v)
      in rbind (default_json_serialize dumps body) (\<lambda>_. Inr body))"

section \<open>Negotiating the media type\<close>

text \<open>
  \<open>_QVALUE_PATTERN\<close>, and the value of a text it matches: a digit zero or one, a point, at most three
  digits.
\<close>

definition qvalue_ok :: "string \<Rightarrow> bool" where
  "qvalue_ok s =
     (case s of
        [] \<Rightarrow> False
      | d # rest \<Rightarrow>
          (d = CHR ''0'' \<or> d = CHR ''1'') \<and>
          (rest = [] \<or>
           (hd rest = CHR ''.'' \<and> length (tl rest) \<le> 3
            \<and> list_all (if d = CHR ''0'' then is_digit else (\<lambda>c. c = CHR ''0'')) (tl rest))))"

definition qvalue_of :: "string \<Rightarrow> rat" where
  "qvalue_of s =
     (let (whole, _, frac) = str_partition (CHR ''.'') s;
          digits = (\<lambda>t. foldl (\<lambda>n c. n * 10 + digit_val c) 0 t)
      in of_int (digits (whole @ frac)) / of_int (10 ^ length frac))"

text \<open>The parameters of one item: its quality, and whether one was given.\<close>

fun item_quality :: "rat \<Rightarrow> bool \<Rightarrow> string list \<Rightarrow> exn + rat" where
  "item_quality quality has_quality [] = Inr quality"
| "item_quality quality has_quality (parameter # parameters) =
     (let (name, separator, raw_value) = str_partition (CHR ''='') parameter;
          quality_value = str_strip raw_value
      in if str_lower (str_strip name) \<noteq> ''q'' then item_quality quality has_quality parameters
         else if has_quality \<or> \<not> separator \<or> \<not> qvalue_ok quality_value then Inl config_error
         else item_quality (qvalue_of quality_value) True parameters)"

fun accepted_items :: "string list \<Rightarrow> exn + string list" where
  "accepted_items [] = Inr []"
| "accepted_items (item # items) =
     (let parts = str_split (CHR '';'') item;
          media_type = normalise_media_type (hd parts)
      in if media_type = [] then accepted_items items
         else rbind (item_quality 1 False (tl parts)) (\<lambda>quality.
              rbind (accepted_items items) (\<lambda>rest.
              Inr (if quality > 0 then media_type # rest else rest))))"

definition accepted_media_types :: "string \<Rightarrow> exn + string list" where
  "accepted_media_types v =
     (if CHR 0x22 \<in> set v \<or> CHR 0x5C \<in> set v then Inl config_error
      else accepted_items (str_split (CHR '','') v))"

fun sort_headers ::
  "(string, string) dict \<Rightarrow> string list \<Rightarrow> (string, string) dict \<Rightarrow> exn + ((string, string) dict \<times> string list)" where
  "sort_headers checked accepts [] = Inr (checked, accepts)"
| "sort_headers checked accepts ((name, v) # headers) =
     (if str_lower name = CONTENT_TYPE_HEADER then
        (if normalise_media_type v \<noteq> LEGACY_GRAPHQL_MEDIA_TYPE then Inl config_error
         else sort_headers checked accepts headers)
      else if str_lower name = ''accept'' then sort_headers checked (accepts @ [v]) headers
      else sort_headers (dict_set checked name v) accepts headers)"

definition canonical_graphql_headers :: "(string, string) dict \<Rightarrow> exn + (string, string) dict" where
  "canonical_graphql_headers headers =
     rbind (sort_headers [] [] headers) (\<lambda>(checked, accepts).
     rbind (if accepts = [] then Inr ()
            else rbind (accepted_media_types (str_join '','' accepts)) (\<lambda>types.
              ensure (set SUPPORTED_GRAPHQL_RESPONSE_MEDIA_TYPES \<subseteq> set types) config_error)) (\<lambda>_.
     Inr (dict_set (dict_set checked ''Content-Type'' LEGACY_GRAPHQL_MEDIA_TYPE) ''Accept'' GRAPHQL_ACCEPT)))"

section \<open>The answer\<close>

abbreviation graphql_protocol_error :: exn where
  "graphql_protocol_error \<equiv> Exn GraphqlProtocolError None"

definition graphql_error_entry :: "pyval \<Rightarrow> exn + pyval" where
  "graphql_error_entry error =
     (if \<not> is_mapping error then Inl graphql_protocol_error
      else (case dget_or error ''message'' PNone of
          PStr m \<Rightarrow> if str_strip m = [] then Inl graphql_protocol_error else Inr (PDict (entries error))
        | _ \<Rightarrow> Inl graphql_protocol_error))"

definition graphql_errors :: "pyval \<Rightarrow> exn + pyval" where
  "graphql_errors errors =
     (case errors of
        PList es \<Rightarrow> if es = [] then Inl graphql_protocol_error
          else rbind (rmap graphql_error_entry es) (\<lambda>copied. Inr (PList copied))
      | _ \<Rightarrow> Inl graphql_protocol_error)"

definition validated_graphql_response :: "pyval \<Rightarrow> exn + ((string, pyval) dict \<times> bool)" where
  "validated_graphql_response body =
     rbind (ensure (is_mapping body) graphql_protocol_error) (\<lambda>_.
     rbind (ensure (dhas body ''data'' \<or> dhas body ''errors'') graphql_protocol_error) (\<lambda>_.
     rbind (case dget body ''data'' of
              None \<Rightarrow> Inr []
            | Some PNone \<Rightarrow> Inr [(''data'', PNone)]
            | Some v \<Rightarrow> if is_mapping v then Inr [(''data'', PDict (entries v))] else Inl graphql_protocol_error)
       (\<lambda>details.
     (case dget body ''errors'' of
        None \<Rightarrow> if dget body ''data'' = Some PNone then Inl graphql_protocol_error else Inr (details, False)
      | Some errors \<Rightarrow> rbind (graphql_errors errors) (\<lambda>es. Inr (details @ [(''errors'', es)], True))))))"

section \<open>The client\<close>

definition GRAPHQL_REQUIRED_INFO_KEYS :: "string list" where
  "GRAPHQL_REQUIRED_INFO_KEYS = [''query'']"

definition GRAPHQL_ALLOWED_INFO_KEYS :: "string list" where
  "GRAPHQL_ALLOWED_INFO_KEYS =
    [''query'', ''operation_name'', ''headers'', ''cookies'', ''certificate'', ''verify_ssl'', ''trace_config'',
     ''timeout'', ''max_response_bytes'', ''circuit_breaker_config'', ''redact_query_params'']"

record graphql_request =
  gr_http :: http_request
  gr_query :: string
  gr_operation_name :: "string option"

definition graphql_document ::
  "(string \<Rightarrow> bool) \<Rightarrow> (pyval \<Rightarrow> string option) \<Rightarrow> string \<Rightarrow> pyval \<Rightarrow> pyval
    \<Rightarrow> exn + (string \<times> string option \<times> pyval)" where
  "graphql_document ip6 dumps url info payload =
     rbind (no_user_info ip6 url) (\<lambda>_.
     rbind (validated_graphql_query (dget_or info ''query'' PNone)) (\<lambda>gql_query.
     rbind (case dget info ''operation_name'' of
              None \<Rightarrow> Inr None
            | Some v \<Rightarrow> rbind (validated_operation_name v) (\<lambda>n. Inr (Some n))) (\<lambda>operation_name.
     rbind (validated_graphql_variables payload) (\<lambda>variables.
     rbind (build_graphql_request dumps gql_query operation_name variables) (\<lambda>body.
     Inr (gql_query, operation_name, body))))))"

definition new_graphql_request ::
  "(string \<Rightarrow> bool) \<Rightarrow> foreign \<Rightarrow> (pyval \<Rightarrow> string option) \<Rightarrow> rat \<Rightarrow> pyval \<Rightarrow> pyval \<Rightarrow> string \<Rightarrow> pyval
    \<Rightarrow> envelope \<Rightarrow> pyval \<Rightarrow> string list \<Rightarrow> registry \<Rightarrow> (exn + graphql_request) \<times> envelope \<times> registry" where
  "new_graphql_request ip6 f dumps now clock sleep url auth env info params reg =
     (case graphql_document ip6 dumps url info (env_payload env) of
        Inl e \<Rightarrow> (Inl e, env, reg)
      | Inr (gql_query, operation_name, body) \<Rightarrow>
          let env' = env\<lparr>env_payload := body\<rparr>;
              (q, reg') = new_http_request ip6 f now clock sleep url auth env' (rpc_info info) params reg
          in (rbind q (\<lambda>q. rbind (canonical_graphql_headers (hq_headers q)) (\<lambda>hs.
                Inr \<lparr>gr_http = q\<lparr>hq_headers := hs\<rparr>, gr_query = gql_query,
                     gr_operation_name = operation_name\<rparr>)),
              env', reg'))"

definition graphql_response_error :: "(exn \<Rightarrow> string) \<Rightarrow> string \<Rightarrow> string list \<Rightarrow> verdict" where
  "graphql_response_error texts url params status body_error env xs =
     (let success = (200 \<le> status \<and> status < 300);
          media_type = media_type_of (env_headers env);
          http_error = (\<lambda>e. let (i, xs1) = status_error ''POST'' url params status xs in (Some i, e, xs1))
      in if success \<and> media_type \<notin> set SUPPORTED_GRAPHQL_RESPONSE_MEDIA_TYPES then
           let (i, xs1) = raise_now GraphqlProtocolError ''GraphQL response has an unsupported Content-Type'' None xs
           in (Some i, env, xs1)
         else if body_error \<noteq> None then
           (if \<not> success then http_error env
            else let (i, xs1) = raise_now GraphqlProtocolError ''GraphQL response body is not valid JSON'' None xs
                 in (Some i, env, xs1))
         else (case validated_graphql_response (env_json env) of
             Inl e \<Rightarrow>
               if \<not> success then http_error env
               else let (i, xs1) = raise_now GraphqlProtocolError (texts e) None xs in (Some i, env, xs1)
           | Inr (details, has_errors) \<Rightarrow>
               let env1 = env\<lparr>env_details := details\<rparr> in
               if has_errors then
                 (if success \<or> media_type = GRAPHQL_RESPONSE_MEDIA_TYPE then
                    let (i, xs1) = raise_now GraphqlError ''GraphQL peer returned one or more errors'' (Some status) xs
                    in (Some i, env1, xs1)
                  else http_error env1)
               else if \<not> success then http_error env1
               else (None, env1, xs)))"

section \<open>Facts\<close>

interpretation graphql: response_verdict "graphql_response_error texts url params"
  for texts url params
proof unfold_locales
  fix status err env xs env' xs'
  assume "graphql_response_error texts url params status err env xs = (None, env', xs')"
  then show "status < HTTP_ERROR_STATUS \<and> err = None"
    by (auto simp: graphql_response_error_def Let_def HTTP_ERROR_STATUS_def
        split: if_splits prod.splits sum.splits)
next
  fix status err env xs i env' xs'
  assume "graphql_response_error texts url params status err env xs = (Some i, env', xs')"
  then show "is_lib (ex_class (xs_heap xs' i))"
    by (auto simp: graphql_response_error_def Let_def raise_now_def status_error_def
        split: if_splits prod.splits sum.splits dest!: new_exc_eq)
next
  fix status err env xs r env' xs'
  assume "graphql_response_error texts url params status err env xs = (r, env', xs')"
  then show "env'\<lparr>env_details := env_details env\<rparr> = env"
    by (auto simp: graphql_response_error_def Let_def raise_now_def status_error_def
        split: if_splits prod.splits sum.splits)
qed

text \<open>Sorting the headers: what is no content type and no Accept is kept, in its order.\<close>

definition is_negotiated :: "string \<Rightarrow> bool" where
  "is_negotiated name = (str_lower name = CONTENT_TYPE_HEADER \<or> str_lower name = ''accept'')"

lemma sort_headers_keeps:
  "sort_headers checked accepts hs = Inr (c, a) \<Longrightarrow> wf_dict (checked @ hs) \<Longrightarrow>
     c = checked @ filter (\<lambda>(n, _). \<not> is_negotiated n) hs"
proof (induction checked accepts hs rule: sort_headers.induct)
  case (2 checked accepts name v headers)
  have "name \<notin> set (dict_keys checked)" using "2.prems"(2) by (auto simp: wf_dict_def)
  moreover have "wf_dict (checked @ headers)" using "2.prems"(2) by (auto simp: wf_dict_def)
  moreover have "wf_dict ((checked @ [(name, v)]) @ headers)" using "2.prems"(2) by (simp add: wf_dict_def)
  ultimately show ?case
    using 2 by (auto simp: is_negotiated_def dict_set_absent split: if_splits)
qed simp

lemma sort_headers_others:
  "wf_dict (checked @ hs) \<Longrightarrow> list_all (\<lambda>(n, _). \<not> is_negotiated n) hs \<Longrightarrow>
     sort_headers checked accepts (hs @ rest) = sort_headers (checked @ hs) accepts rest"
proof (induction hs arbitrary: checked)
  case (Cons h hs)
  obtain n v where h: "h = (n, v)" by (cases h)
  have "n \<notin> set (dict_keys checked)" using Cons.prems(1) h by (auto simp: wf_dict_def)
  moreover have "wf_dict ((checked @ [(n, v)]) @ hs)" using Cons.prems(1) h by (simp add: wf_dict_def)
  ultimately show ?case
    using Cons.IH [of "checked @ [(n, v)]"] Cons.prems(2) h
    by (simp add: is_negotiated_def dict_set_absent)
qed simp

lemma canonical_names:
  "is_negotiated ''Content-Type''" "is_negotiated ''Accept''"
  "str_lower ''Content-Type'' = CONTENT_TYPE_HEADER" "str_lower ''Accept'' = ''accept''"
  "CONTENT_TYPE_HEADER \<noteq> ''accept''"
  "normalise_media_type LEGACY_GRAPHQL_MEDIA_TYPE = LEGACY_GRAPHQL_MEDIA_TYPE"
  by code_simp+

lemma own_accept:
  "accepted_media_types GRAPHQL_ACCEPT = Inr SUPPORTED_GRAPHQL_RESPONSE_MEDIA_TYPES"
  by code_simp

lemma canonical_graphql_headers_form:
  assumes "canonical_graphql_headers hs = Inr c" and "wf_dict hs"
  shows "c = filter (\<lambda>(n, _). \<not> is_negotiated n) hs @
    [(''Content-Type'', LEGACY_GRAPHQL_MEDIA_TYPE), (''Accept'', GRAPHQL_ACCEPT)]"
proof -
  let ?k = "filter (\<lambda>(n, _). \<not> is_negotiated n) hs"
  obtain k a where k: "sort_headers [] [] hs = Inr (k, a)"
      and c: "c = dict_set (dict_set k ''Content-Type'' LEGACY_GRAPHQL_MEDIA_TYPE) ''Accept'' GRAPHQL_ACCEPT"
    using assms(1) by (auto simp: canonical_graphql_headers_def rbind_eq_Inr)
  have "k = ?k" using sort_headers_keeps [OF k] assms(2) by simp
  moreover have "''Content-Type'' \<notin> set (dict_keys ?k)" "''Accept'' \<notin> set (dict_keys ?k)"
    using canonical_names(1,2) by auto
  ultimately show ?thesis unfolding c by (simp add: dict_set_absent)
qed

section \<open>Properties\<close>

text \<open>
  The headers of a GraphQL call are canonical: the library's content type and Accept, each once,
  after the caller's other headers in their order and unchanged. Making the result canonical again
  changes nothing, so what the library sends is what its own negotiation accepts.
\<close>

theorem graphql_headers_are_canonical:
  assumes "canonical_graphql_headers hs = Inr c" and "wf_dict hs"
  shows "c = filter (\<lambda>(n, _). str_lower n \<notin> {CONTENT_TYPE_HEADER, ''accept''}) hs @
      [(''Content-Type'', LEGACY_GRAPHQL_MEDIA_TYPE), (''Accept'', GRAPHQL_ACCEPT)]
    \<and> canonical_graphql_headers c = Inr c \<and> wf_dict c"
proof -
  let ?k = "filter (\<lambda>(n, _). \<not> is_negotiated n) hs"
  have c: "c = ?k @ [(''Content-Type'', LEGACY_GRAPHQL_MEDIA_TYPE), (''Accept'', GRAPHQL_ACCEPT)]"
    using canonical_graphql_headers_form [OF assms] .
  have wf: "wf_dict ?k" using assms(2) by (rule wf_dict_filter)
  have fresh: "''Content-Type'' \<notin> set (dict_keys ?k)" "''Accept'' \<notin> set (dict_keys ?k)"
    using canonical_names(1,2) by auto
  have "list_all (\<lambda>(n, _). \<not> is_negotiated n) ?k" by (auto simp: list_all_iff)
  then have "sort_headers [] [] c = Inr (?k, [GRAPHQL_ACCEPT])"
    using sort_headers_others [of "[]" ?k "[]"] wf canonical_names unfolding c by simp
  then have "canonical_graphql_headers c = Inr c"
    using own_accept fresh unfolding c
    by (simp add: canonical_graphql_headers_def dict_set_absent)
  moreover have "wf_dict c"
    using wf fresh unfolding c by (auto simp: wf_dict_def)
  moreover have "?k = filter (\<lambda>(n, _). str_lower n \<notin> {CONTENT_TYPE_HEADER, ''accept''}) hs"
    by (simp add: is_negotiated_def)
  ultimately show ?thesis using c by simp
qed

theorem graphql_headers_are_canonical_witness:
  "canonical_graphql_headers [(''ACCEPT'', ''application/json;q=0.5, application/graphql-response+json''),
     (''X-Trace'', ''1'')] = Inr [(''X-Trace'', ''1''), (''Content-Type'', ''application/json''),
       (''Accept'', ''application/graphql-response+json, application/json'')]"
proof -
  let ?hs = "[(''ACCEPT'', ''application/json;q=0.5, application/graphql-response+json''), (''X-Trace'', ''1'')]"
  have "is_ok (canonical_graphql_headers ?hs)" by code_simp
  then obtain c where c: "canonical_graphql_headers ?hs = Inr c" by (auto simp: is_ok_iff)
  have kept: "filter (\<lambda>(n, _). str_lower n \<notin> {CONTENT_TYPE_HEADER, ''accept''}) ?hs = [(''X-Trace'', ''1'')]"
    by code_simp
  have "wf_dict ?hs" by (simp add: wf_dict_def)
  from graphql_headers_are_canonical [OF c this] show ?thesis
    using c unfolding kept
    by (simp add: LEGACY_GRAPHQL_MEDIA_TYPE_def GRAPHQL_ACCEPT_def GRAPHQL_RESPONSE_MEDIA_TYPE_def)
qed

text \<open>
  C27. A GraphQL call succeeds only on an answer that says so: a 2xx status, a supported media type,
  a JSON object with a data object and without errors. Its data is then all the details hold.
\<close>

theorem graphql_success_is_strict:
  assumes "graphql_response_error texts url params status body_error env xs = (None, env', xs')"
  shows "200 \<le> status \<and> status < 300 \<and> body_error = None
    \<and> media_type_of (env_headers env) \<in> {''application/graphql-response+json'', ''application/json''}
    \<and> dget (env_json env) ''errors'' = None
    \<and> (\<exists>d. dget (env_json env) ''data'' = Some (PDict d) \<and> env_details env' = [(''data'', PDict d)])
    \<and> env'\<lparr>env_details := env_details env\<rparr> = env"
proof -
  obtain details where s: "200 \<le> status" "status < 300" "body_error = None"
      "media_type_of (env_headers env) \<in> set SUPPORTED_GRAPHQL_RESPONSE_MEDIA_TYPES"
      and v: "validated_graphql_response (env_json env) = Inr (details, False)"
      and e: "env' = env\<lparr>env_details := details\<rparr>"
    using assms by (auto simp: graphql_response_error_def Let_def split: if_splits prod.splits sum.splits)
  have "dget (env_json env) ''errors'' = None"
      "\<exists>d. dget (env_json env) ''data'' = Some (PDict d) \<and> details = [(''data'', PDict d)]"
    using v by (auto simp: validated_graphql_response_def rbind_eq_Inr ensure_eq_Inr dhas_def
        split: option.splits pyval.splits if_splits)
  then show ?thesis
    using s by (simp add: e SUPPORTED_GRAPHQL_RESPONSE_MEDIA_TYPES_def GRAPHQL_RESPONSE_MEDIA_TYPE_def
        LEGACY_GRAPHQL_MEDIA_TYPE_def)
qed

definition graphql_answer :: envelope where
  "graphql_answer = plain_env\<lparr>env_headers := [(''Content-Type'', ''application/json'')],
     env_json := PDict [(PStr ''data'', PDict [(PStr ''me'', PInt 1)])]\<rparr>"

theorem graphql_success_is_strict_witness:
  "env_details (fst (snd (graphql_response_error (\<lambda>_. []) ''https://h/'' [] 200 None graphql_answer no_exceptions)))
     = [(''data'', PDict [(PStr ''me'', PInt 1)])]"
proof -
  let ?r = "graphql_response_error (\<lambda>_. []) ''https://h/'' [] 200 None graphql_answer no_exceptions"
  have "media_type_of (env_headers graphql_answer) = ''application/json''" by code_simp
  then have "fst ?r = None"
    by (simp add: graphql_response_error_def graphql_answer_def SUPPORTED_GRAPHQL_RESPONSE_MEDIA_TYPES_def
        LEGACY_GRAPHQL_MEDIA_TYPE_def validated_graphql_response_def dhas_def dget_def)
  then have "?r = (None, fst (snd ?r), snd (snd ?r))" by (metis prod.collapse)
  from graphql_success_is_strict [OF this]
  have "\<exists>d. dget (env_json graphql_answer) ''data'' = Some (PDict d) \<and> env_details (fst (snd ?r)) = [(''data'', PDict d)]"
    by blast
  then show ?thesis by (simp add: graphql_answer_def dget_def)
qed

text \<open>
  C4. The three HTTP clients keep one contract, whatever breaker, body, server and callbacks they
  meet: an exchange that returns leaves a sealed envelope that is \<open>ok\<close>, with a status below 400, and
  an exchange that raises raises one of the library's exceptions or something that is no transport
  fault at all (a bug, a cancellation, what a callback raised). So a connection, TLS, DNS or timeout
  failure always reaches the code that makes an envelope of it.
\<close>

theorem exchanges_keep_the_contract:
  assumes "verdict \<in> {http_response_error request_type url params,
      jsonrpc_response_error texts url params request_id, graphql_response_error texts url params}"
    and "exchange verdict su q b env xs = Some (r, env', xs', b')"
  shows "case r of
      None \<Rightarrow> sealed (su_str_of su) env' \<and> env_ok env' \<and> env_status env' < 400
    | Some i \<Rightarrow> xs_heap xs' i \<in> {e. is_lib (ex_class e)} \<union> {e. \<not> is_instance (ex_mro e) TRANSPORT_FAULTS}"
proof -
  have v: "response_verdict verdict"
    using assms(1) http.response_verdict_axioms jsonrpc.response_verdict_axioms
      graphql.response_verdict_axioms by blast
  show ?thesis
    using response_verdict.exchange_accepts [OF v, of su q b env xs env' xs' b']
      response_verdict.exchange_raises [OF v, of su q b env xs _ env' xs' b'] assms(2)
    by (auto simp: HTTP_ERROR_STATUS_def split: option.split)
qed

theorem exchanges_keep_the_contract_witness:
  "map_option (\<lambda>(r, env, xs, b). (r, xs_heap xs 1 \<in> {e. is_lib (ex_class e)}
      \<union> {e. \<not> is_instance (ex_mro e) TRANSPORT_FAULTS})) refused = Some (Some 1, True)"
proof -
  obtain env xs b where r: "refused = Some (Some 1, env, xs, b)"
    using refused_raises by (cases refused) auto
  show ?thesis
    using exchanges_keep_the_contract [OF insertI1 r [unfolded refused_def]] unfolding r by simp
qed

end
