(* ===== verification/Entry.thy ===== *)
theory Entry
  imports Graphql
begin

text \<open>
  \<open>asyncio_gateway.py\<close>: the entry point \<open>request\<close>, from the check of its arguments through the
  processors and the dispatch to the envelope it returns, and \<open>protocol_mapping\<close> of
  \<open>logic/__init__.py\<close>. A protocol class is a record of what the entry point calls on it; the three
  HTTP clients are given in full, the others are arguments. A processor is a function of the
  caller that may rewrite the envelope it is passed and remove keys of it.
\<close>

section \<open>Protocols\<close>

definition HTTP_FAMILY_SCHEMES :: "(string, string list) dict" where
  "HTTP_FAMILY_SCHEMES = [(''HTTP'', [''http'', ''https'']), (''HTTPS'', [''https''])]"

definition PROTOCOL_SCHEME_ALLOWLISTS :: "(string, string list) dict" where
  "PROTOCOL_SCHEME_ALLOWLISTS = HTTP_FAMILY_SCHEMES @
    [(''JSONRPC'', [''http'', ''https'']), (''GRAPHQL'', [''http'', ''https'']), (''S3'', [''s3'']),
     (''GCS'', [''gs'']), (''GRPC'', [''grpc'', ''grpcs''])]"

definition URL_DISPATCHED_PROTOCOLS :: "string list" where
  "URL_DISPATCHED_PROTOCOLS = dict_keys HTTP_FAMILY_SCHEMES @ [''SOAP'']"

text \<open>
  A protocol class: the validation of \<open>protocol_info\<close> (with the warning it may give), and the
  constructor, which yields the start time and the coroutine \<open>handle_request\<close>. The constructor may
  rewrite the envelope and uses the registry; the coroutine takes the envelope, the exceptions and
  the registry to what it leaves of them, and to the exception it raises, if any.
\<close>

type_synonym handler = "envelope \<Rightarrow> exc_store \<Rightarrow> registry \<Rightarrow> (nat option \<times> envelope \<times> exc_store \<times> registry) option"

record client =
  cl_validate :: "pyval \<Rightarrow> exn + (pyval \<times> bool)"
  cl_new :: "string \<Rightarrow> pyval \<Rightarrow> envelope \<Rightarrow> pyval \<Rightarrow> string list \<Rightarrow> registry
    \<Rightarrow> (exn + (rat \<times> handler)) \<times> envelope \<times> registry"

text \<open>\<open>protocol_mapping\<close>, given the class of each name. \<open>HTTP\<close> and \<open>HTTPS\<close> are one class.\<close>

definition protocol_mapping :: "(string \<Rightarrow> client) \<Rightarrow> (string, client) dict" where
  "protocol_mapping class_of =
     map (\<lambda>n. (n, class_of (if n = ''HTTPS'' then ''HTTP'' else n)))
       [''HTTP'', ''HTTPS'', ''FTP'', ''SFTP'', ''SOAP'', ''JSONRPC'', ''GRAPHQL'', ''S3'', ''GCS'', ''GRPC'']"

definition resolve_protocol :: "(string, client) dict \<Rightarrow> pyval \<Rightarrow> exn + (string \<times> client)" where
  "resolve_protocol mapping protocol =
     (case protocol of
        PStr s \<Rightarrow>
          let name = str_upper (str_strip s)
          in (case map_of mapping name of Some c \<Rightarrow> Inr (name, c) | None \<Rightarrow> Inl config_error)
      | _ \<Rightarrow> Inl config_error)"

section \<open>The HTTP clients as protocol classes\<close>

definition with_breaker ::
  "nat \<Rightarrow> (breaker \<Rightarrow> envelope \<Rightarrow> exc_store \<Rightarrow> exchanged option) \<Rightarrow> handler" where
  "with_breaker i run env xs reg =
     (case reg_heap reg i of
        None \<Rightarrow> None
      | Some b \<Rightarrow> map_option (\<lambda>(r, env', xs', b'). (r, env', xs', reg\<lparr>reg_heap := (reg_heap reg)(i \<mapsto> b')\<rparr>))
          (run b env xs))"

text \<open>What the classes take from outside: the address check, foreign objects, the clocks, the codec.\<close>

record setting =
  se_ip6 :: "string \<Rightarrow> bool"
  se_foreign :: foreign
  se_started :: rat
  se_clock :: pyval
  se_sleep :: pyval
  se_dumps :: "pyval \<Rightarrow> string option"
  se_surround :: surround

definition http_handler :: "setting \<Rightarrow> http_request \<Rightarrow> verdict \<Rightarrow> handler" where
  "http_handler st q verdict =
     with_breaker (br_breaker (hq_base q)) (handle_request verdict (se_surround st) q)"

definition http_class :: "setting \<Rightarrow> client" where
  "http_class st =
     \<lparr>cl_validate = (\<lambda>info. validated_protocol_info info HTTP_REQUIRED_INFO_KEYS None (Some HTTP_ACCEPTED_INFO_KEYS)),
      cl_new = (\<lambda>url auth env info params reg.
        let (made, reg') = new_http_request (se_ip6 st) (se_foreign st) (se_started st) (se_clock st) (se_sleep st)
              url auth env info params reg
        in (rbind made (\<lambda>q. Inr (br_start (hq_base q),
              http_handler st q (http_response_error (hq_request_type q) url params))), env, reg'))\<rparr>"

definition jsonrpc_class :: "setting \<Rightarrow> client" where
  "jsonrpc_class st =
     \<lparr>cl_validate = (\<lambda>info. validated_protocol_info info JSONRPC_REQUIRED_INFO_KEYS
        (Some JSONRPC_ALLOWED_INFO_KEYS) (Some JSONRPC_ALLOWED_INFO_KEYS)),
      cl_new = (\<lambda>url auth env info params reg.
        let (made, env', reg') = new_jsonrpc_request (se_ip6 st) (se_foreign st) (se_dumps st) (se_started st)
              (se_clock st) (se_sleep st) url auth env info params reg
        in (rbind made (\<lambda>r. Inr (br_start (hq_base (jr_http r)),
              http_handler st (jr_http r) (jsonrpc_response_error (su_texts (se_surround st)) url params (jr_id r)))),
            env', reg'))\<rparr>"

definition graphql_class :: "setting \<Rightarrow> client" where
  "graphql_class st =
     \<lparr>cl_validate = (\<lambda>info. validated_protocol_info info GRAPHQL_REQUIRED_INFO_KEYS
        (Some GRAPHQL_ALLOWED_INFO_KEYS) (Some GRAPHQL_ALLOWED_INFO_KEYS)),
      cl_new = (\<lambda>url auth env info params reg.
        let (made, env', reg') = new_graphql_request (se_ip6 st) (se_foreign st) (se_dumps st) (se_started st)
              (se_clock st) (se_sleep st) url auth env info params reg
        in (rbind made (\<lambda>r. Inr (br_start (hq_base (gr_http r)),
              http_handler st (gr_http r) (graphql_response_error (su_texts (se_surround st)) url params))),
            env', reg'))\<rparr>"

section \<open>Processors\<close>

definition PROCESSOR_RESERVED_KWARG :: string where
  "PROCESSOR_RESERVED_KWARG = ''response''"

type_synonym processor = "pyval \<times> (pyval, pyval) dict"

definition validated_processor_config :: "pyval \<Rightarrow> exn + processor" where
  "validated_processor_config config =
     (if \<not> is_mapping config then Inl config_error
      else (case dget config ''function'' of
          None \<Rightarrow> Inl config_error
        | Some callee \<Rightarrow>
            if \<not> is_callable callee then Inl config_error
            else let given = dget_or config ''params'' PNone;
                     params = (if given = PNone then PDict [] else given)
                 in if \<not> is_mapping params then Inl config_error
                    else if \<not> list_all (\<lambda>(n, _). is_str n) (entries params) then Inl config_error
                    else if dhas params PROCESSOR_RESERVED_KWARG then Inl config_error
                    else Inr (callee, entries params)))"

text \<open>What a processor leaves: its result or exception, the envelope, and the keys it removed.\<close>

record effect =
  pe_result :: "exc_obj + pyval"
  pe_env :: envelope
  pe_removed :: "string list"

definition ENVELOPE_KEYS :: "string list" where
  "ENVELOPE_KEYS = [''ok'', ''status_code'', ''protocol'', ''url'', ''request_time'', ''latency'', ''payload'',
     ''text'', ''json'', ''headers'', ''cookies'', ''error'', ''protocol_details'', ''request_tracer'',
     ''pre_processor_response'', ''post_processor_response'']"

record entry =
  en_mapping :: "(string, client) dict"
  en_process :: "pyval \<Rightarrow> (pyval, pyval) dict \<Rightarrow> envelope \<Rightarrow> effect"
  en_processor_name :: "pyval \<Rightarrow> string"
  en_ip6 :: "string \<Rightarrow> bool"
  en_str_of :: "pyval \<Rightarrow> string"
  en_now_iso :: string
  en_now :: rat
  en_hierarchy :: hierarchy
  en_texts :: "exn \<Rightarrow> string"
  en_traceback :: "nat \<Rightarrow> string"

definition raise_exn :: "entry \<Rightarrow> exn \<Rightarrow> exc_store \<Rightarrow> nat \<times> exc_store" where
  "raise_exn en e xs = new_exc (object_of (en_hierarchy en) (en_texts en) e) xs"

definition run_processor ::
  "entry \<Rightarrow> string \<Rightarrow> processor \<Rightarrow> envelope \<Rightarrow> exc_store \<Rightarrow> (nat + pyval) \<times> effect \<times> exc_store" where
  "run_processor en setting p env xs =
     (let (callee, params) = p; eff = en_process en callee params env in
      case pe_result eff of
        Inr v \<Rightarrow> (Inr v, eff, xs)
      | Inl e \<Rightarrow>
          let (i, xs1) = new_exc e xs in
          if is_instance (ex_mro e) [AsyncGatewayError] \<or> \<not> is_instance (ex_mro e) [Ext ''Exception'']
          then (Inl i, eff, xs1)
          else let (j, xs2) = raise_from ProcessorError
                 (setting @ ''[\"function\"] '' @ en_processor_name en callee @ '' failed: '' @ class_name (ex_class e))
                 None i xs1
               in (Inl j, eff, xs2))"

text \<open>The keys that are gone, and the two fields dispatch relies on as they were.\<close>

definition checked_envelope :: "string list \<Rightarrow> (string \<times> string) option \<Rightarrow> envelope \<Rightarrow> exn + envelope" where
  "checked_envelope removed dispatch env =
     (if list_ex (\<lambda>k. k \<in> set removed) ENVELOPE_KEYS then Inl (Exn ProcessorError None)
      else (case dispatch of
          None \<Rightarrow> Inr env
        | Some (protocol, url) \<Rightarrow>
            if env_protocol env \<noteq> protocol \<or> env_url env \<noteq> url then Inl (Exn ProcessorError None)
            else Inr env))"

text \<open>The two places a processor runs; its result is stored under a key that then exists again.\<close>

definition pre_process ::
  "entry \<Rightarrow> processor option \<Rightarrow> envelope \<Rightarrow> exc_store \<Rightarrow> (nat + envelope) \<times> exc_store" where
  "pre_process en p env xs =
     (case p of
        None \<Rightarrow> (Inr env, xs)
      | Some p \<Rightarrow>
          (case run_processor en ''pre_processor_config'' p env xs of
             (Inl i, eff, xs1) \<Rightarrow> (Inl i, xs1)
           | (Inr v, eff, xs1) \<Rightarrow>
               (case checked_envelope (filter (\<lambda>k. k \<noteq> ''pre_processor_response'') (pe_removed eff))
                   (Some (env_protocol env, env_url env)) ((pe_env eff)\<lparr>env_pre := v\<rparr>) of
                  Inl e \<Rightarrow> let (i, xs2) = raise_exn en e xs1 in (Inl i, xs2)
                | Inr env' \<Rightarrow> (Inr env', xs1))))"

definition post_process ::
  "entry \<Rightarrow> processor option \<Rightarrow> envelope \<Rightarrow> exc_store \<Rightarrow> (nat + envelope) \<times> exc_store" where
  "post_process en p env xs =
     (case p of
        None \<Rightarrow> (Inr env, xs)
      | Some p \<Rightarrow>
          (case run_processor en ''post_processor_config'' p env xs of
             (Inl i, eff, xs1) \<Rightarrow> (Inl i, xs1)
           | (Inr v, eff, xs1) \<Rightarrow>
               (case checked_envelope (filter (\<lambda>k. k \<noteq> ''post_processor_response'') (pe_removed eff))
                   None ((pe_env eff)\<lparr>env_post := v\<rparr>) of
                  Inl e \<Rightarrow> let (i, xs2) = raise_exn en e xs1 in (Inl i, xs2)
                | Inr env' \<Rightarrow> (Inr env', xs1))))"

section \<open>The URL that is dispatched on\<close>

definition dispatch_url_for :: "(string \<Rightarrow> bool) \<Rightarrow> string \<Rightarrow> string \<Rightarrow> exn + string" where
  "dispatch_url_for ip6 protocol url =
     (let allowed = map_of PROTOCOL_SCHEME_ALLOWLISTS protocol in
      if allowed = None \<and> protocol \<notin> set URL_DISPATCHED_PROTOCOLS then Inr url
      else (case urlsplit ip6 [] url of
          Inl _ \<Rightarrow> Inl config_error
        | Inr parts \<Rightarrow>
            let scheme = str_lower (su_scheme parts) in
            if scheme = [] \<and> su_netloc parts \<noteq> [] then Inl config_error
            else (case allowed of
                None \<Rightarrow> Inr url
              | Some schemes \<Rightarrow>
                  if scheme = [] then
                    (if protocol \<notin> set (dict_keys HTTP_FAMILY_SCHEMES) then Inl config_error
                     else Inr (if protocol = ''HTTPS'' then ''https://'' @ url else url))
                  else if scheme \<notin> set schemes then Inl config_error
                  else Inr url)))"

section \<open>Logging a failure\<close>

datatype level = Warning | Error

record log_entry =
  lg_level :: level
  lg_protocol :: pyval
  lg_url :: pyval
  lg_code :: pyval
  lg_status :: pyval
  lg_latency :: pyval
  lg_traceback :: string

definition log_failure ::
  "(string \<Rightarrow> bool) \<Rightarrow> (pyval \<Rightarrow> string) \<Rightarrow> string \<Rightarrow> string \<Rightarrow> string \<Rightarrow> envelope \<Rightarrow> exc_class \<Rightarrow> string list
    \<Rightarrow> exn + log_entry" where
  "log_failure ip6 str_of traceback protocol url env c params =
     rbind (if protocol = ''GCS'' then rbind (urlsplit ip6 [] url) (\<lambda>u. Inr (''gs://'' @ str_lower (su_netloc u)))
            else Inr url) (\<lambda>log_url.
     Inr \<lparr>lg_level = (if code_of c \<in> set WARNING_CODES then Warning else Error),
          lg_protocol = redact_value str_of params (PStr protocol),
          lg_url = redact_value str_of params (PStr log_url),
          lg_code = redact_value str_of [] (PStr (code_of c)),
          lg_status = redact_value str_of [] (PInt (env_status env)),
          lg_latency = redact_value str_of [] (PFloat (FFin (env_latency env))),
          lg_traceback = redact_text traceback params\<rparr>)"

section \<open>The request\<close>

definition DISPATCH_CONTROLLING_KEYS :: "string list" where
  "DISPATCH_CONTROLLING_KEYS = [''protocol'', ''url'']"

text \<open>The arguments of a call; \<open>ca_kwargs\<close> are the names of keyword arguments it does not take.\<close>

record call =
  ca_url :: pyval
  ca_data :: pyval
  ca_auth :: pyval
  ca_protocol :: pyval
  ca_info :: pyval
  ca_pre :: pyval
  ca_post :: pyval
  ca_kwargs :: "string list"

definition reject_unknown_request_kwargs :: "string list \<Rightarrow> exn + unit" where
  "reject_unknown_request_kwargs kwargs = ensure (kwargs = []) config_error"

definition request_data :: "string \<Rightarrow> pyval \<Rightarrow> exn + pyval" where
  "request_data protocol data =
     (if protocol = ''GCS'' then
        (if data = PNone \<or> data = PDict [] then Inr (PDict []) else Inl config_error)
      else if data = PNone \<and> protocol \<notin> {''JSONRPC'', ''GRAPHQL''} then Inr (PDict [])
      else Inr data)"

record admitted =
  ad_url :: string
  ad_protocol :: string
  ad_class :: client
  ad_info :: pyval
  ad_pre :: "processor option"
  ad_post :: "processor option"
  ad_data :: pyval

definition optional_processor :: "pyval \<Rightarrow> exn + processor option" where
  "optional_processor config =
     (if py_truth config then rbind (validated_processor_config config) (\<lambda>p. Inr (Some p)) else Inr None)"

text \<open>Everything \<open>request\<close> checks before it builds the envelope, in its order.\<close>

definition admit :: "(string, client) dict \<Rightarrow> call \<Rightarrow> exn + admitted" where
  "admit mapping c =
     rbind (reject_unknown_request_kwargs (ca_kwargs c)) (\<lambda>_.
     rbind (case ca_url c of PStr u \<Rightarrow> Inr u | _ \<Rightarrow> Inl config_error) (\<lambda>url.
     rbind (resolve_protocol mapping (ca_protocol c)) (\<lambda>(protocol, class).
     rbind (cl_validate class (ca_info c)) (\<lambda>(info, _).
     rbind (validated_port (dget_or info ''port'' PNone)) (\<lambda>_.
     rbind (optional_processor (ca_pre c)) (\<lambda>pre.
     rbind (optional_processor (ca_post c)) (\<lambda>post.
     rbind (request_data protocol (ca_data c)) (\<lambda>data.
     Inr \<lparr>ad_url = url, ad_protocol = protocol, ad_class = class, ad_info = info, ad_pre = pre,
          ad_post = post, ad_data = data\<rparr>))))))))"

text \<open>
  The result of a call: the exception that leaves \<open>request\<close> or the envelope it returns, the store,
  the registry, and what was logged.
\<close>

type_synonym answered = "(nat + envelope) \<times> exc_store \<times> registry \<times> log_entry list"

text \<open>
  After the dispatch. A \<open>RecursionError\<close> becomes an exception of the library first; exceptions of the
  library are finalised into the envelope and logged, any other leaves the call.
\<close>

definition settle ::
  "entry \<Rightarrow> admitted \<Rightarrow> string list \<Rightarrow> rat \<Rightarrow> nat option \<times> envelope \<times> exc_store \<times> registry \<Rightarrow> answered" where
  "settle en a params started handled =
     (let (raised, env, xs, reg) = handled in
      case raised of
        None \<Rightarrow> let (r, xs1) = post_process en (ad_post a) env xs in (r, xs1, reg, [])
      | Some i \<Rightarrow>
          let (j, xs1) =
                (if is_instance (ex_mro (xs_heap xs i)) [Ext ''RecursionError'']
                 then raise_from StackExhaustedError
                   ''dispatching this call exhausted the interpreter stack; the response was abandoned'' None i xs
                 else (i, xs))
          in if \<not> is_instance (ex_mro (xs_heap xs1 j)) [AsyncGatewayError] then (Inl j, xs1, reg, [])
             else
               let env1 = finalise_error (en_str_of en) (en_now en) (xs_heap xs1) j started params env
               in (case log_failure (en_ip6 en) (en_str_of en) (en_traceback en j) (ad_protocol a) (env_url env1)
                      env1 (ex_class (xs_heap xs1 j)) params of
                     Inl e \<Rightarrow> let (k, xs2) = raise_exn en e xs1 in (Inl k, xs2, reg, [])
                   | Inr entry \<Rightarrow>
                       let (r, xs2) = post_process en (ad_post a) env1 xs1 in (r, xs2, reg, [entry])))"

text \<open>From the envelope to the result. \<open>None\<close>: the handler was given too few attempts.\<close>

definition dispatch :: "entry \<Rightarrow> call \<Rightarrow> admitted \<Rightarrow> exc_store \<Rightarrow> registry \<Rightarrow> answered option" where
  "dispatch en c a xs reg =
     (let params = normalise_param_names (en_str_of en) (dget_or (ad_info a) ''redact_query_params'' PNone);
          env0 = new_envelope (en_now_iso en) (ad_url a) (ad_protocol a) (ad_data a) params
      in case pre_process en (ad_pre a) env0 xs of
           (Inl i, xs1) \<Rightarrow> Some (Inl i, xs1, reg, [])
         | (Inr env1, xs1) \<Rightarrow>
             (case dispatch_url_for (en_ip6 en) (ad_protocol a) (ad_url a) of
                Inl e \<Rightarrow> let (i, xs2) = raise_exn en e xs1 in Some (Inl i, xs2, reg, [])
              | Inr target \<Rightarrow>
                  let env2 = env1\<lparr>env_url := redact_url target params\<rparr> in
                  (case cl_new (ad_class a) target (ca_auth c) env2 (ad_info a) params reg of
                     (Inl e, env3, reg1) \<Rightarrow>
                       let (i, xs2) = raise_exn en e xs1 in Some (Inl i, xs2, reg1, [])
                   | (Inr (started, handler), env3, reg1) \<Rightarrow>
                       map_option (settle en a params started) (handler env3 xs1 reg1))))"

definition request :: "entry \<Rightarrow> call \<Rightarrow> exc_store \<Rightarrow> registry \<Rightarrow> answered option" where
  "request en c xs reg =
     (case admit (en_mapping en) c of
        Inl e \<Rightarrow> let (i, xs1) = raise_exn en e xs in Some (Inl i, xs1, reg, [])
      | Inr a \<Rightarrow> dispatch en c a xs reg)"

section \<open>What a protocol class promises\<close>

text \<open>
  The contract the entry point relies on: a handler that returns leaves a sealed envelope that is
  \<open>ok\<close> with a status below 400. The three HTTP classes keep it.
\<close>

locale sealed_client =
  fixes cls :: client and str_of :: "pyval \<Rightarrow> string"
  assumes returns_sealed:
    "cl_new cls url auth env info params reg = (Inr (started, h), env', reg') \<Longrightarrow>
     h env1 xs1 reg1 = Some (None, env2, xs2, reg2) \<Longrightarrow>
     sealed str_of env2 \<and> env_ok env2 \<and> env_status env2 < HTTP_ERROR_STATUS"

context response_verdict
begin

lemma handler_accepts:
  assumes "http_handler st q verdict env xs reg = Some (None, env', xs', reg')"
  shows "sealed (su_str_of (se_surround st)) env' \<and> env_ok env' \<and> env_status env' < HTTP_ERROR_STATUS"
  using assms exchange_accepts [of "se_surround st" q]
  by (auto simp: http_handler_def with_breaker_def handle_request_def split: option.splits)

end

interpretation http_entry: sealed_client "http_class st" "su_str_of (se_surround st)" for st
  by unfold_locales
    (auto simp: http_class_def Let_def rbind_eq_Inr split: prod.splits dest!: http.handler_accepts)

interpretation jsonrpc_entry: sealed_client "jsonrpc_class st" "su_str_of (se_surround st)" for st
  by unfold_locales
    (auto simp: jsonrpc_class_def Let_def rbind_eq_Inr split: prod.splits dest!: jsonrpc.handler_accepts)

interpretation graphql_entry: sealed_client "graphql_class st" "su_str_of (se_surround st)" for st
  by unfold_locales
    (auto simp: graphql_class_def Let_def rbind_eq_Inr split: prod.splits dest!: graphql.handler_accepts)

lemma finalise_error_fields:
  "\<not> env_ok (finalise_error str_of now heap i started params env)"
  "env_status (finalise_error str_of now heap i started params env) = ex_status (heap i)"
  "map_option ge_code (env_error (finalise_error str_of now heap i started params env))
     = Some (code_of (ex_class (heap i)))"
  "map_option ge_type (env_error (finalise_error str_of now heap i started params env))
     = Some (class_name (ex_class (heap i)))"
  "answer_of (finalise_error str_of now heap i started params env) = answer_of env"
  by (simp_all add: finalise_error_def seal_def answer_of_def split: prod.splits)

text \<open>The exception \<open>settle\<close> judges: an exhausted stack is the library's own by then.\<close>

definition settled_error :: "nat \<Rightarrow> exc_store \<Rightarrow> nat \<times> exc_store" where
  "settled_error i xs =
     (if is_instance (ex_mro (xs_heap xs i)) [Ext ''RecursionError'']
      then raise_from StackExhaustedError
        ''dispatching this call exhausted the interpreter stack; the response was abandoned'' None i xs
      else (i, xs))"

lemma settle_raised:
  assumes "ad_post a = None" and "ad_protocol a \<noteq> ''GCS''" and "settled_error i xs = (j, xs1)"
  shows "settle en a params started (Some i, env, xs, reg) =
    (if is_instance (ex_mro (xs_heap xs1 j)) [AsyncGatewayError] then
       let env1 = finalise_error (en_str_of en) (en_now en) (xs_heap xs1) j started params env in
       (Inr env1, xs1, reg, [projr (log_failure (en_ip6 en) (en_str_of en) (en_traceback en j)
          (ad_protocol a) (env_url env1) env1 (ex_class (xs_heap xs1 j)) params)])
     else (Inl j, xs1, reg, []))"
  using assms by (simp add: settle_def settled_error_def Let_def log_failure_def post_process_def)

lemma settled_error_lib:
  "settled_error i xs = (j, xs1) \<Longrightarrow> is_instance (ex_mro (xs_heap xs i)) [Ext ''RecursionError''] \<Longrightarrow>
     xs_heap xs1 j = (new_gateway_error StackExhaustedError
       ''dispatching this call exhausted the interpreter stack; the response was abandoned'' None)
       \<lparr>ex_cause := Some i, ex_context := Some i\<rparr>"
  by (simp add: settled_error_def raise_from_eq)

context sealed_client
begin

lemma dispatch_seals:
  assumes "dispatch en c a xs reg = Some (Inr env, xs', reg', logs)"
    and "ad_class a = cls" and "str_of = en_str_of en" and "ad_post a = None" and "ad_protocol a \<noteq> ''GCS''"
    and "map_option ge_type (env_error env) \<noteq> Some []"
  shows "sealed (en_str_of en) env \<and> (env_ok env \<longrightarrow> env_status env < HTTP_ERROR_STATUS)
    \<and> length logs = (if env_ok env then 0 else 1)"
proof -
  obtain params e2 target started h e3 xs1 reg1 raised e4 xs2 r2 where
    new: "cl_new cls target (ca_auth c) e2 (ad_info a) params reg = (Inr (started, h), e3, reg1)"
    and h: "h e3 xs1 reg1 = Some (raised, e4, xs2, r2)"
    and s: "settle en a params started (raised, e4, xs2, r2) = (Inr env, xs', reg', logs)"
    using assms(1,2) unfolding dispatch_def Let_def by (auto split: prod.splits sum.splits)
  show ?thesis
  proof (cases raised)
    case None
    then have "env = e4" "logs = []" using s assms(4) by (auto simp: settle_def post_process_def)
    then show ?thesis using returns_sealed [OF new, of e3 xs1 reg1 e4 xs2 r2] h None assms(3) by simp
  next
    case (Some i)
    obtain j xs3 where j: "settled_error i xs2 = (j, xs3)" by (cases "settled_error i xs2")
    have fin: "env = finalise_error (en_str_of en) (en_now en) (xs_heap xs3) j started params e4"
        and "xs' = xs3" and logs: "length logs = 1"
      using s Some settle_raised [OF assms(4,5) j, of en params started e4 r2]
      by (auto simp: Let_def split: if_splits)
    then show ?thesis
      using finalise_error_named_sealed [of "xs_heap xs3" j] assms(6) logs finalise_error_fields(1)
      by (simp add: fin finalise_error_fields)
  qed
qed

end

section \<open>A call\<close>

definition no_client :: client where
  "no_client = \<lparr>cl_validate = (\<lambda>_. Inl config_error), cl_new = (\<lambda>_ _ env _ _ reg. (Inl config_error, env, reg))\<rparr>"

definition example_setting :: setting where
  "example_setting =
     \<lparr>se_ip6 = (\<lambda>_. False), se_foreign = plain_foreign, se_started = 0, se_clock = PFun 0, se_sleep = PFun 1,
      se_dumps = (\<lambda>_. None), se_surround = (plain_surround (one_host 200 ''text/plain'' ''hi'') (\<lambda>_. None))
        \<lparr>su_files := \<lparr>sr_opens = (\<lambda>_. Inl config_error), sr_guess = (\<lambda>_. None), sr_dumps = (\<lambda>_. None),
           sr_coerce = (\<lambda>_. Inr [])\<rparr>\<rparr>\<rparr>"

definition example_entry :: entry where
  "example_entry =
     \<lparr>en_mapping = protocol_mapping (\<lambda>n. if n = ''HTTP'' then http_class example_setting
          else if n = ''JSONRPC'' then jsonrpc_class example_setting
          else if n = ''GRAPHQL'' then graphql_class example_setting else no_client),
      en_process = (\<lambda>_ _ env. \<lparr>pe_result = Inr PNone, pe_env = env\<lparr>env_url := ''https://other/''\<rparr>, pe_removed = []\<rparr>),
      en_processor_name = (\<lambda>_. ''sign''), en_ip6 = (\<lambda>_. False), en_str_of = (\<lambda>_. []), en_now_iso = ''t'',
      en_now = 3, en_hierarchy = (\<lambda>_. []), en_texts = (\<lambda>_. ''no''), en_traceback = (\<lambda>_. [])\<rparr>"

definition example_call :: call where
  "example_call =
     \<lparr>ca_url = PStr ''h/x'', ca_data = PList [PObj ''o''], ca_auth = PNone, ca_protocol = PStr '' https '',
      ca_info = PDict [(PStr ''request_type'', PStr ''post'')], ca_pre = PNone, ca_post = PNone, ca_kwargs = []\<rparr>"

definition example_answer :: "answered option" where
  "example_answer = request example_entry example_call no_exceptions empty_registry"

lemma example_admitted:
  "map_sum id (\<lambda>a. (ad_url a, ad_protocol a, ad_post a, ad_pre a)) (admit (en_mapping example_entry) example_call)
     = Inr (''h/x'', ''HTTPS'', None, None)"
  by code_simp

lemma example_class:
  "admit (en_mapping example_entry) example_call = Inr a \<Longrightarrow> ad_class a = http_class example_setting"
proof -
  have "str_upper (str_strip '' https '') = ''HTTPS''" by code_simp
  then show "admit (en_mapping example_entry) example_call = Inr a \<Longrightarrow> ?thesis"
    by (auto simp: admit_def rbind_eq_Inr resolve_protocol_def example_call_def Let_def example_entry_def
        protocol_mapping_def)
qed

lemma example_answered:
  "map_option (\<lambda>(r, xs, reg, logs). map_option (\<lambda>env. (env_url env, map_option ge_type (env_error env)))
       (case r of Inl i \<Rightarrow> None | Inr env \<Rightarrow> Some env)) example_answer
   = Some (Some (''https://h/x'', Some ''ConfigurationError''))"
  by code_simp

lemma urlsplit_https:
  assumes "urlsplit ip6 [] (''https://'' @ url) = Inr parts"
  shows "su_scheme parts = ''https''"
proof -
  have keep: "filter (\<lambda>c. \<not> is_url_ignored c) (lstrip_by is_c0_or_space (''https://'' @ url))
      = ''https://'' @ filter (\<lambda>c. \<not> is_url_ignored c) url"
    by (simp add: lstrip_by_def is_c0_or_space_def is_url_ignored_def ord_of_def)
  have scheme: "is_ascii_alpha (CHR ''h'')" "list_all scheme_char ''https''" "str_lower ''https'' = ''https''"
    by code_simp+
  have "split_scheme [] (''https://'' @ filter (\<lambda>c. \<not> is_url_ignored c) url)
      = (''https'', ''//'' @ filter (\<lambda>c. \<not> is_url_ignored c) url)"
    using find_char_append [of "CHR '':''" "''https''" "''//'' @ filter (\<lambda>c. \<not> is_url_ignored c) url"] scheme
    by (simp add: split_scheme_def)
  then show ?thesis
    using assms unfolding urlsplit_def keep by (auto simp: Let_def split: if_splits prod.splits)
qed

section \<open>Properties\<close>

text \<open>
  C2. No exception of the library leaves a call once the client is dispatched, and no other one stays: for
  a call without a post-processor, over any protocol but GCS (whose log line parses the URL again),
  what the handler raises is either no library exception, and leaves unchanged and unlogged, or it is
  one, and ends as an envelope that is not \<open>ok\<close>, carries the status and the code of the exception and
  still holds what was answered, with one log entry, a warning exactly for the codes of the table. An
  exhausted stack counts as one of the library's.
\<close>

theorem library_failures_become_envelopes:
  assumes "settle en a params started (Some i, env, xs, reg) = (r, xs', reg', logs)"
    and "ad_post a = None" and "ad_protocol a \<noteq> ''GCS''"
  shows "case r of
      Inl j \<Rightarrow> j = i \<and> xs' = xs \<and> logs = []
        \<and> \<not> is_instance (ex_mro (xs_heap xs i)) [AsyncGatewayError, Ext ''RecursionError'']
    | Inr env' \<Rightarrow> is_instance (ex_mro (xs_heap xs i)) [AsyncGatewayError, Ext ''RecursionError'']
        \<and> \<not> env_ok env' \<and> answer_of env' = answer_of env
        \<and> (\<exists>j. env_status env' = ex_status (xs_heap xs' j)
             \<and> map_option ge_code (env_error env') = Some (code_of (ex_class (xs_heap xs' j)))
             \<and> (if is_instance (ex_mro (xs_heap xs i)) [Ext ''RecursionError'']
                then ex_class (xs_heap xs' j) = StackExhaustedError \<and> ex_cause (xs_heap xs' j) = Some i
                else j = i \<and> xs' = xs)
             \<and> map lg_level logs = [if code_of (ex_class (xs_heap xs' j)) \<in> set WARNING_CODES then Warning else Error])"
proof -
  obtain j xs1 where j: "settled_error i xs = (j, xs1)" by (cases "settled_error i xs")
  note settled = settle_raised [OF assms(2,3) j, of en params started env reg]
  show ?thesis
  proof (cases "is_instance (ex_mro (xs_heap xs i)) [Ext ''RecursionError'']")
    case True
    note e = settled_error_lib [OF j True]
    have "is_instance (ex_mro (xs_heap xs1 j)) [AsyncGatewayError]"
      by (simp add: e new_gateway_error_def is_instance_def lib_mro_def)
    then show ?thesis
      using assms(1,3) settled True e
      by (auto simp: Let_def finalise_error_fields log_failure_def is_instance_iff intro!: exI [of _ j])
  next
    case False
    then have "j = i" "xs1 = xs" using j by (auto simp: settled_error_def)
    then show ?thesis
      using assms(1,3) settled False
      by (auto simp: Let_def finalise_error_fields log_failure_def is_instance_iff split: if_splits)
  qed
qed

definition timed_out :: exc_store where
  "timed_out = \<lparr>xs_heap = (\<lambda>_. new_gateway_error GatewayTimeoutError ''slow'' None), xs_next = 1\<rparr>"

definition example_admission :: admitted where
  "example_admission =
     \<lparr>ad_url = ''https://h/'', ad_protocol = ''HTTPS'', ad_class = no_client, ad_info = PDict [],
      ad_pre = Some (PFun 0, []), ad_post = None, ad_data = PDict []\<rparr>"

theorem library_failures_become_envelopes_witness:
  "case settle example_entry example_admission [] 0 (Some 0, plain_env, timed_out, empty_registry) of
     (Inr env, xs, reg, logs) \<Rightarrow> env_status env = 504 \<and> map lg_level logs = [Error]
   | _ \<Rightarrow> False"
proof -
  obtain r xs reg logs where s: "settle example_entry example_admission [] 0 (Some 0, plain_env, timed_out, empty_registry)
      = (r, xs, reg, logs)" by (metis prod.exhaust)
  have "status_for (code_of GatewayTimeoutError) None = 504" "code_of GatewayTimeoutError \<notin> set WARNING_CODES"
    by code_simp+
  then have obj: "ex_class (xs_heap timed_out i) = GatewayTimeoutError" "ex_status (xs_heap timed_out i) = 504"
      "ex_mro (xs_heap timed_out i) = lib_mro GatewayTimeoutError"
      "code_of GatewayTimeoutError \<notin> set WARNING_CODES" for i
    by (simp_all add: timed_out_def new_gateway_error_status) (simp add: new_gateway_error_def)
  have lib: "is_instance (lib_mro GatewayTimeoutError) [AsyncGatewayError, Ext ''RecursionError'']"
      "\<not> is_instance (lib_mro GatewayTimeoutError) [Ext ''RecursionError'']"
    by (simp_all add: is_instance_def lib_mro_def)
  have post: "ad_post example_admission = None" "ad_protocol example_admission \<noteq> ''GCS''"
    by (simp_all add: example_admission_def)
  from library_failures_become_envelopes [OF s post] show ?thesis
    unfolding s using lib obj by (cases r) auto
qed

text \<open>
  The \<open>HTTPS\<close> selector never sends a call over anything but https, whatever the URL: a URL without
  a scheme is given \<open>https\<close>, one with another scheme is refused, and so is one that names an authority
  but no scheme. The \<open>HTTP\<close> selector never leaves http and https.
\<close>

theorem https_selector_never_downgrades:
  assumes "dispatch_url_for ip6 ''HTTPS'' url = Inr target" and "urlsplit ip6 [] target = Inr parts"
    and "dispatch_url_for ip6 ''HTTP'' url' = Inr target'" and "urlsplit ip6 [] target' = Inr parts'"
  shows "su_scheme parts = ''https'' \<and> (target = url \<or> target = ''https://'' @ url)
    \<and> su_scheme parts' \<in> {[], ''http'', ''https''} \<and> target' = url'
    \<and> (su_scheme parts' = [] \<longrightarrow> su_netloc parts' = [])"
proof -
  obtain u where u: "urlsplit ip6 [] url = Inr u"
    using assms(1) by (cases "urlsplit ip6 [] url")
      (auto simp: dispatch_url_for_def PROTOCOL_SCHEME_ALLOWLISTS_def HTTP_FAMILY_SCHEMES_def)
  have "target = url \<and> su_scheme u = ''https'' \<or> target = ''https://'' @ url"
    using assms(1) u urlsplit_scheme_lower [OF u]
    by (auto simp: dispatch_url_for_def PROTOCOL_SCHEME_ALLOWLISTS_def HTTP_FAMILY_SCHEMES_def Let_def
        split: if_splits)
  then have https: "su_scheme parts = ''https'' \<and> (target = url \<or> target = ''https://'' @ url)"
    using assms(2) u urlsplit_https by auto
  have "target' = url' \<and> su_scheme parts' \<in> {[], ''http'', ''https''} \<and> (su_scheme parts' = [] \<longrightarrow> su_netloc parts' = [])"
    using assms(3,4) urlsplit_scheme_lower [OF assms(4)]
    by (auto simp: dispatch_url_for_def PROTOCOL_SCHEME_ALLOWLISTS_def HTTP_FAMILY_SCHEMES_def Let_def
        split: if_splits sum.splits)
  then show ?thesis using https by blast
qed

theorem https_selector_never_downgrades_witness:
  "su_scheme \<lparr>su_scheme = ''https'', su_netloc = ''h'', su_path = ''/x'', su_query = [], su_fragment = []\<rparr> = ''https''
   \<and> dispatch_url_for (\<lambda>_. False) ''HTTPS'' ''h/x'' = Inr ''https://h/x''"
proof -
  have "dispatch_url_for (\<lambda>_. False) ''HTTPS'' ''h/x'' = Inr ''https://h/x''"
      "urlsplit (\<lambda>_. False) [] ''https://h/x'' =
        Inr \<lparr>su_scheme = ''https'', su_netloc = ''h'', su_path = ''/x'', su_query = [], su_fragment = []\<rparr>"
      "dispatch_url_for (\<lambda>_. False) ''HTTP'' ''https://h/x'' = Inr ''https://h/x''"
    by code_simp+
  from https_selector_never_downgrades [OF this(1,2,3,2)] this(1) show ?thesis by blast
qed

text \<open>
  C3. A pre-processor cannot retarget a call: one that returns but rewrote the protocol or the URL of the
  envelope it is passed, or removed any key of it (but \<open>pre_processor_response\<close>, which its result
  writes again), ends the call as a processor error, before the client
  is built, with the registry as it was and nothing sent.
\<close>

theorem processors_cannot_retarget:
  assumes "ad_pre a = Some (callee, params)"
    and "env0 = new_envelope (en_now_iso en) (ad_url a) (ad_protocol a) (ad_data a)
           (normalise_param_names (en_str_of en) (dget_or (ad_info a) ''redact_query_params'' PNone))"
    and "pe_result (en_process en callee params env0) = Inr v"
    and "env_url (pe_env (en_process en callee params env0)) \<noteq> env_url env0
      \<or> env_protocol (pe_env (en_process en callee params env0)) \<noteq> env_protocol env0
      \<or> {''ok'', ''status_code'', ''protocol'', ''url'', ''request_time'', ''latency'', ''payload'', ''text'', ''json'',
          ''headers'', ''cookies'', ''error'', ''protocol_details'', ''request_tracer'', ''post_processor_response''}
        \<inter> set (pe_removed (en_process en callee params env0)) \<noteq> {}"
  shows "\<exists>i xs'. dispatch en c a xs reg = Some (Inl i, xs', reg, [])
    \<and> ex_class (xs_heap xs' i) = ProcessorError"
proof -
  let ?eff = "en_process en callee params env0"
  have run: "run_processor en ''pre_processor_config'' (callee, params) env0 xs = (Inr v, ?eff, xs)"
    using assms(3) by (simp add: run_processor_def)
  have bad: "checked_envelope (filter (\<lambda>k. k \<noteq> ''pre_processor_response'') (pe_removed ?eff))
      (Some (env_protocol env0, env_url env0)) ((pe_env ?eff)\<lparr>env_pre := v\<rparr>) = Inl (Exn ProcessorError None)"
    using assms(4) by (auto simp: checked_envelope_def ENVELOPE_KEYS_def)
  obtain i xs1 where r: "raise_exn en (Exn ProcessorError None) xs = (i, xs1)" by (metis prod.exhaust)
  then have "ex_class (xs_heap xs1 i) = ProcessorError"
    by (auto simp: raise_exn_def object_of_def dest!: new_exc_eq)
  moreover have "pre_process en (ad_pre a) env0 xs = (Inl i, xs1)"
    using assms(1) run bad r by (simp add: pre_process_def)
  ultimately show ?thesis unfolding dispatch_def Let_def assms(2) [symmetric] by simp
qed

theorem processors_cannot_retarget_witness:
  "\<exists>i xs'. dispatch example_entry example_call example_admission no_exceptions empty_registry
      = Some (Inl i, xs', empty_registry, []) \<and> ex_class (xs_heap xs' i) = ProcessorError"
proof (rule processors_cannot_retarget [OF _ refl])
  show "ad_pre example_admission = Some (PFun 0, [])" by (simp add: example_admission_def)
  have "redact_url ''https://h/'' [] \<noteq> ''https://other/''" using plain_url by simp
  then show "env_url (pe_env (en_process example_entry (PFun 0) [] (new_envelope (en_now_iso example_entry)
      (ad_url example_admission) (ad_protocol example_admission) (ad_data example_admission)
      (normalise_param_names (en_str_of example_entry)
        (dget_or (ad_info example_admission) ''redact_query_params'' PNone)))))
    \<noteq> env_url (new_envelope (en_now_iso example_entry)
      (ad_url example_admission) (ad_protocol example_admission) (ad_data example_admission)
      (normalise_param_names (en_str_of example_entry)
        (dget_or (ad_info example_admission) ''redact_query_params'' PNone))) \<or> P" for P
    by (simp add: example_entry_def example_admission_def new_envelope_def dget_or_def dget_def normalise_param_names_def)
qed (simp add: example_entry_def)

end
