(* ===== verification/Scripts.thy ===== *)
theory Scripts
  imports Http_Client
begin

text \<open>
  Code that talks to a peer in a straight line: a script logs every call it makes on the peer,
  takes the outcome from outside, raises objects of the exception store, and runs calls under the
  circuit breaker. \<open>None\<close>: the breaker was given too few attempts.
\<close>

record 'e run =
  ru_log :: "'e list"
  ru_store :: exc_store
  ru_breaker :: breaker

type_synonym ('e, 'a) script = "'e run \<Rightarrow> ((nat + 'a) \<times> 'e run) option"

definition sc_return :: "'a \<Rightarrow> ('e, 'a) script" where
  "sc_return x = (\<lambda>r. Some (Inr x, r))"

definition sc_bind :: "('e, 'a) script \<Rightarrow> ('a \<Rightarrow> ('e, 'b) script) \<Rightarrow> ('e, 'b) script" where
  "sc_bind m f = (\<lambda>r. case m r of
     None \<Rightarrow> None
   | Some (Inl i, r') \<Rightarrow> Some (Inl i, r')
   | Some (Inr x, r') \<Rightarrow> f x r')"

text \<open>\<open>raise i\<close>, and the raise of a fresh object.\<close>

definition sc_raise :: "nat \<Rightarrow> ('e, 'a) script" where
  "sc_raise i = (\<lambda>r. Some (Inl i, r))"

definition sc_throw :: "exc_obj \<Rightarrow> ('e, 'a) script" where
  "sc_throw e = (\<lambda>r. let (i, xs) = new_exc e (ru_store r) in Some (Inl i, r\<lparr>ru_store := xs\<rparr>))"

definition sc_outcome :: "exc_obj + 'a \<Rightarrow> ('e, 'a) script" where
  "sc_outcome x = (case x of Inl e \<Rightarrow> sc_throw e | Inr a \<Rightarrow> sc_return a)"

definition sc_lift :: "(exn \<Rightarrow> exc_obj) \<Rightarrow> exn + 'a \<Rightarrow> ('e, 'a) script" where
  "sc_lift object x = (case x of Inl e \<Rightarrow> sc_throw (object e) | Inr a \<Rightarrow> sc_return a)"

definition sc_say :: "'e \<Rightarrow> ('e, unit) script" where
  "sc_say ev = (\<lambda>r. Some (Inr (), r\<lparr>ru_log := ru_log r @ [ev]\<rparr>))"

text \<open>An awaited call on the peer.\<close>

definition sc_await :: "'e \<Rightarrow> exc_obj + 'a \<Rightarrow> ('e, 'a) script" where
  "sc_await ev x = sc_bind (sc_say ev) (\<lambda>_. sc_outcome x)"

definition raised :: "exc_obj option \<Rightarrow> exc_obj + unit" where
  "raised x = (case x of None \<Rightarrow> Inr () | Some e \<Rightarrow> Inl e)"

text \<open>\<open>except\<close> and \<open>finally\<close>. What a cleanup raises carries what was in flight as its context.\<close>

definition sc_catch :: "('e, 'a) script \<Rightarrow> (nat \<Rightarrow> ('e, 'a) script) \<Rightarrow> ('e, 'a) script" where
  "sc_catch m h = (\<lambda>r. case m r of Some (Inl i, r') \<Rightarrow> h i r' | x \<Rightarrow> x)"

definition in_context :: "nat \<Rightarrow> nat \<Rightarrow> exc_store \<Rightarrow> exc_store" where
  "in_context i j xs =
     (if i = j \<or> ex_context (xs_heap xs j) \<noteq> None then xs
      else xs\<lparr>xs_heap := (xs_heap xs)(j := (xs_heap xs j)\<lparr>ex_context := Some i\<rparr>)\<rparr>)"

definition sc_finally :: "('e, 'a) script \<Rightarrow> ('e, unit) script \<Rightarrow> ('e, 'a) script" where
  "sc_finally m c = (\<lambda>r. case m r of
     None \<Rightarrow> None
   | Some (Inr x, r1) \<Rightarrow> sc_bind c (\<lambda>_. sc_return x) r1
   | Some (Inl i, r1) \<Rightarrow>
       (case c r1 of
          None \<Rightarrow> None
        | Some (Inr _, r2) \<Rightarrow> Some (Inl i, r2)
        | Some (Inl j, r2) \<Rightarrow> Some (Inl j, r2\<lparr>ru_store := in_context i j (ru_store r2)\<rparr>)))"

text \<open>\<open>self.circuit_breaker.run(operation, ...)\<close>: the log holds the call once, however often it is tried.\<close>

definition sc_under_breaker :: "failsafe \<Rightarrow> 'e \<Rightarrow> 'a turn list \<Rightarrow> ('e, 'a) script" where
  "sc_under_breaker fs ev turns = sc_bind (sc_say ev) (\<lambda>_ r.
     case run_alone fs (ru_breaker r) 0 None turns of
       None \<Rightarrow> None
     | Some (b, f) \<Rightarrow> (case leave_run f (ru_store r) of
         (x, xs) \<Rightarrow> Some (x, r\<lparr>ru_store := xs, ru_breaker := b\<rparr>)))"

text \<open>\<open>raise c(message, status) from i\<close>.\<close>

definition sc_raise_from :: "exc_class \<Rightarrow> string \<Rightarrow> int option \<Rightarrow> nat \<Rightarrow> ('e, 'a) script" where
  "sc_raise_from c message override i = (\<lambda>r.
     let (j, xs) = raise_from c message override i (ru_store r) in Some (Inl j, r\<lparr>ru_store := xs\<rparr>))"

definition sc_raise_without_cause :: "nat \<Rightarrow> nat \<Rightarrow> ('e, 'a) script" where
  "sc_raise_without_cause cause handled = (\<lambda>r.
     let (j, xs) = raise_without_cause cause handled (ru_store r) in Some (Inl j, r\<lparr>ru_store := xs\<rparr>))"

definition sc_mro :: "nat \<Rightarrow> 'e run \<Rightarrow> exc_class list" where
  "sc_mro i r = ex_mro (xs_heap (ru_store r) i)"

text \<open>
  \<open>handle_request\<close> of a client whose exchange is a script: what it raises leaves the envelope as it
  is, what it returns is written into it.
\<close>

definition concluded ::
  "('e, 'a) script \<Rightarrow> ('a \<Rightarrow> envelope \<Rightarrow> envelope) \<Rightarrow> breaker \<Rightarrow> envelope \<Rightarrow> exc_store
    \<Rightarrow> (exchanged \<times> 'e list) option" where
  "concluded script answer b env xs =
     (case script \<lparr>ru_log = [], ru_store = xs, ru_breaker = b\<rparr> of
        None \<Rightarrow> None
      | Some (Inl i, r) \<Rightarrow> Some ((Some i, env, ru_store r, ru_breaker r), ru_log r)
      | Some (Inr x, r) \<Rightarrow> Some ((None, answer x env, ru_store r, ru_breaker r), ru_log r))"

text \<open>
  The last part of \<open>transport_error_for\<close>, which the clients share: the failure itself when the breaker
  wrapped none, the row of the table its class belongs to, the base class of the library underneath,
  or the failure as it was.
\<close>

definition cause_of :: "nat \<Rightarrow> 'e run \<Rightarrow> nat option" where
  "cause_of err r =
     (if is_instance (sc_mro err r) [FailsafeError] then ex_cause (xs_heap (ru_store r) err) else Some err)"

definition message_of :: "string list \<Rightarrow> nat \<Rightarrow> 'e run \<Rightarrow> string" where
  "message_of redact_params err r =
     fst (unwrap_cause (xs_heap (ru_store r)) err CAUSE_CHAIN_MAX_DEPTH redact_params)"

definition raise_by_family ::
  "(exc_class \<times> exc_class) list \<Rightarrow> exc_class \<Rightarrow> string \<Rightarrow> nat \<Rightarrow> nat \<Rightarrow> ('e, 'a) script" where
  "raise_by_family table base message c err = (\<lambda>r.
     case family_class table (sc_mro c r) of
       Some error_class \<Rightarrow> sc_raise_from error_class message None err r
     | None \<Rightarrow>
         if is_instance (sc_mro c r) [base] then sc_raise_from TransportError message None err r
         else sc_raise_without_cause c err r)"

section \<open>Triples\<close>

text \<open>
  What holds when a script starts, when it returns, and when it raises. A script without enough
  attempts has no end to speak of.
\<close>

definition sc_triple ::
  "('e run \<Rightarrow> bool) \<Rightarrow> ('e, 'a) script \<Rightarrow> ('a \<Rightarrow> 'e run \<Rightarrow> bool) \<Rightarrow> (nat \<Rightarrow> 'e run \<Rightarrow> bool) \<Rightarrow> bool" where
  "sc_triple P m Q E \<longleftrightarrow> (\<forall>r. P r \<longrightarrow> (case m r of
     None \<Rightarrow> True | Some (Inl i, r') \<Rightarrow> E i r' | Some (Inr x, r') \<Rightarrow> Q x r'))"

lemma sc_triple_bind:
  "sc_triple P m R E \<Longrightarrow> (\<And>x. sc_triple (R x) (f x) Q E) \<Longrightarrow> sc_triple P (sc_bind m f) Q E"
  unfolding sc_triple_def sc_bind_def by (fastforce split: option.splits prod.splits sum.splits)

lemma sc_triple_return: "(\<And>r. P r \<Longrightarrow> Q x r) \<Longrightarrow> sc_triple P (sc_return x) Q E"
  by (simp add: sc_triple_def sc_return_def)

lemma sc_triple_mono:
  "sc_triple P m Q E \<Longrightarrow> (\<And>r. P' r \<Longrightarrow> P r) \<Longrightarrow> (\<And>x r. Q x r \<Longrightarrow> Q' x r) \<Longrightarrow> (\<And>i r. E i r \<Longrightarrow> E' i r) \<Longrightarrow>
     sc_triple P' m Q' E'"
  unfolding sc_triple_def by (fastforce split: option.splits prod.splits sum.splits)

lemma sc_triple_catch:
  "sc_triple P m Q R \<Longrightarrow> (\<And>i. sc_triple (R i) (h i) Q E) \<Longrightarrow> sc_triple P (sc_catch m h) Q E"
  unfolding sc_triple_def sc_catch_def by (fastforce split: option.splits prod.splits sum.splits)

lemma sc_tripleD:
  "sc_triple P m Q E \<Longrightarrow> P r \<Longrightarrow> m r = Some (x, r') \<Longrightarrow> (case x of Inl i \<Rightarrow> E i r' | Inr a \<Rightarrow> Q a r')"
  unfolding sc_triple_def by (auto split: sum.splits)

text \<open>Predicates on the log alone.\<close>

definition on_log :: "('e list \<Rightarrow> bool) \<Rightarrow> 'e run \<Rightarrow> bool" where
  "on_log I r = I (ru_log r)"

abbreviation keeps_log :: "('e list \<Rightarrow> bool) \<Rightarrow> ('e, 'a) script \<Rightarrow> bool" where
  "keeps_log I m \<equiv> sc_triple (on_log I) m (\<lambda>_. on_log I) (\<lambda>_. on_log I)"

named_theorems log_rules

lemma log_throw [log_rules]: "keeps_log I (sc_throw e)"
  by (simp add: sc_triple_def sc_throw_def on_log_def Let_def split: prod.splits)

lemma log_return [log_rules]: "keeps_log I (sc_return x)"
  by (simp add: sc_triple_def sc_return_def)

lemma log_raise [log_rules]: "keeps_log I (sc_raise i)"
  by (simp add: sc_triple_def sc_raise_def)

lemma log_outcome [log_rules]: "keeps_log I (sc_outcome x)"
  unfolding sc_outcome_def by (cases x) (simp_all add: log_rules)

lemma log_lift [log_rules]: "keeps_log I (sc_lift object x)"
  unfolding sc_lift_def by (cases x) (simp_all add: log_rules)

lemma log_raise_from [log_rules]: "keeps_log I (sc_raise_from c m s i)"
  by (simp add: sc_triple_def sc_raise_from_def on_log_def Let_def split: prod.splits)

lemma log_raise_without_cause [log_rules]: "keeps_log I (sc_raise_without_cause c i)"
  by (simp add: sc_triple_def sc_raise_without_cause_def on_log_def Let_def split: prod.splits)

lemma log_bind [log_rules]: "keeps_log I m \<Longrightarrow> (\<And>x. keeps_log I (f x)) \<Longrightarrow> keeps_log I (sc_bind m f)"
  by (rule sc_triple_bind)

lemma log_catch [log_rules]: "keeps_log I m \<Longrightarrow> (\<And>i. keeps_log I (h i)) \<Longrightarrow> keeps_log I (sc_catch m h)"
  by (rule sc_triple_catch)

lemma keeps_logD: "keeps_log I m \<Longrightarrow> m r = Some (x, r') \<Longrightarrow> I (ru_log r) \<Longrightarrow> I (ru_log r')"
  using sc_tripleD [of "on_log I" m "\<lambda>_. on_log I" "\<lambda>_. on_log I" r x r']
  by (cases x) (simp_all add: on_log_def)

lemma keeps_logI:
  assumes "\<And>r x r'. m r = Some (x, r') \<Longrightarrow> I (ru_log r) \<Longrightarrow> I (ru_log r')"
  shows "keeps_log I m"
  unfolding sc_triple_def on_log_def using assms by (auto split: option.split sum.split)

lemma log_finally [log_rules]:
  assumes "keeps_log I m" "keeps_log I c"
  shows "keeps_log I (sc_finally m c)"
proof (rule keeps_logI)
  fix r x r' assume run: "sc_finally m c r = Some (x, r')" and "I (ru_log r)"
  then obtain y r1 where m: "m r = Some (y, r1)" by (cases "m r") (auto simp: sc_finally_def)
  from keeps_logD [OF assms(1) this] \<open>I (ru_log r)\<close> have "I (ru_log r1)" by simp
  moreover obtain z r2 where c: "c r1 = Some (z, r2)" "ru_log r' = ru_log r2"
    using run m by (cases y; cases "c r1")
      (auto simp: sc_finally_def sc_bind_def sc_return_def split: sum.splits)
  ultimately show "I (ru_log r')" using keeps_logD [OF assms(2) c(1)] by simp
qed

lemma log_if [log_rules]:
  "keeps_log I m \<Longrightarrow> keeps_log I m' \<Longrightarrow> keeps_log I (if b then m else m')"
  by simp

lemma log_if_run [log_rules]:
  "keeps_log I m \<Longrightarrow> keeps_log I m' \<Longrightarrow> keeps_log I (\<lambda>r. if b r then m r else m' r)"
  by (rule keeps_logI) (auto split: if_splits dest: keeps_logD)

lemma say_triple: "(\<And>r. P r \<Longrightarrow> Q () (r\<lparr>ru_log := ru_log r @ [ev]\<rparr>)) \<Longrightarrow> sc_triple P (sc_say ev) Q E"
  by (simp add: sc_triple_def sc_say_def)

lemma log_say: "(\<And>l. I l \<Longrightarrow> I (l @ [ev])) \<Longrightarrow> keeps_log I (sc_say ev)"
  by (rule say_triple) (simp add: on_log_def)

lemma log_await: "(\<And>l. I l \<Longrightarrow> I (l @ [ev])) \<Longrightarrow> keeps_log I (sc_await ev x)"
  unfolding sc_await_def by (intro log_rules log_say)

lemma await_triple:
  "(\<And>l. P l \<Longrightarrow> R (l @ [ev])) \<Longrightarrow>
     sc_triple (on_log P) (sc_await ev x) (\<lambda>_. on_log R) (\<lambda>_. on_log R)"
  unfolding sc_await_def
  by (rule sc_triple_bind, rule say_triple [where Q = "\<lambda>_. on_log R"]) (auto simp: on_log_def intro: log_rules)

lemma log_under_breaker: "(\<And>l. I l \<Longrightarrow> I (l @ [ev])) \<Longrightarrow> keeps_log I (sc_under_breaker fs ev turns)"
  unfolding sc_under_breaker_def
  by (rule sc_triple_bind, erule log_say)
    (auto simp: sc_triple_def on_log_def split: option.splits prod.splits sum.splits)

section \<open>Reporting\<close>

definition reported :: "exc_class list \<Rightarrow> nat \<Rightarrow> 'e run \<Rightarrow> bool" where
  "reported faults i r \<longleftrightarrow>
     is_lib (ex_class (xs_heap (ru_store r) i)) \<or> \<not> is_instance (sc_mro i r) faults"

lemma reported_raise_from:
  "is_lib c \<Longrightarrow> sc_raise_from c m s i r = Some (Inl j, r') \<Longrightarrow> reported faults j r'"
  by (auto simp: sc_raise_from_def reported_def Let_def split: prod.splits dest!: raise_from_eq)

lemma reported_throw:
  "is_lib (ex_class e) \<or> \<not> is_instance (ex_mro e) faults \<Longrightarrow>
     sc_throw e r = Some (Inl j, r') \<Longrightarrow> reported faults j r'"
  by (auto simp: sc_throw_def reported_def sc_mro_def Let_def split: prod.splits dest!: new_exc_eq)

lemma reported_new:
  "is_lib (ex_class e) \<Longrightarrow> new_exc e (ru_store r) = (i, ru_store r') \<Longrightarrow> reported faults i r'"
  by (auto simp: reported_def dest!: new_exc_eq)

lemma reported_without_cause:
  "\<not> is_instance (sc_mro c r) faults \<Longrightarrow> sc_raise_without_cause c h r = Some (Inl j, r') \<Longrightarrow>
     reported faults j r'"
  by (auto simp: sc_raise_without_cause_def reported_def sc_mro_def Let_def split: prod.splits
      dest!: raise_without_cause_eq)

lemma ex_class_object_of [simp]: "ex_class (object_of h t e) = exn_class e"
  by (cases "is_lib (exn_class e)") (simp_all add: object_of_def ex_class_def [of "\<lparr>ex_mro = _, ex_text = _, ex_status = _, ex_cause = _, ex_context = _\<rparr>"])

lemma family_class_fault:
  "family_class table mro = None \<longleftrightarrow> \<not> is_instance mro (faults_of table)"
  by (auto simp: family_class_def faults_of_def is_instance_def find_None_iff list_ex_iff)

lemma family_class_row: "family_class table mro = Some c \<Longrightarrow> c \<in> snd ` set table"
  by (auto simp: family_class_def find_Some_iff) (metis (no_types, lifting) image_eqI nth_mem snd_conv)

lemma is_instance_append: "is_instance mro (a @ b) \<longleftrightarrow> is_instance mro a \<or> is_instance mro b"
  by (simp add: is_instance_def)

lemma raise_by_family_reported:
  assumes "raise_by_family table base message c err r = Some (Inl j, r')" "\<forall>k \<in> snd ` set table. is_lib k"
  shows "reported (faults_of table @ [base]) j r'"
proof (cases "family_class table (sc_mro c r)")
  case None
  then have "\<not> is_instance (sc_mro c r) (faults_of table)" by (simp add: family_class_fault)
  with None assms(1) show ?thesis
    by (auto simp: raise_by_family_def is_instance_append split: if_splits
        elim!: reported_raise_from [rotated] reported_without_cause [rotated])
next
  case (Some k)
  with assms family_class_row [OF Some] show ?thesis
    by (auto simp: raise_by_family_def elim!: reported_raise_from [rotated])
qed

text \<open>What passes the handlers of an exchange is none of the faults they name.\<close>

lemma reported_lift:
  "sc_lift (object_of h t) x r = Some (Inl j, r') \<Longrightarrow> (\<And>e. x = Inl e \<Longrightarrow> is_lib (exn_class e)) \<Longrightarrow>
     reported faults j r'"
  by (cases x) (auto simp: sc_lift_def sc_return_def elim!: reported_throw [rotated])

lemma reported_same: "\<not> is_instance (sc_mro i r) faults \<Longrightarrow> reported faults i r"
  by (simp add: reported_def)

lemma is_instance_Cons: "is_instance mro (c # cs) \<longleftrightarrow> c \<in> set mro \<or> is_instance mro cs"
  by (simp add: is_instance_def)

lemma sc_throw_Inl [simp]: "sc_throw e r \<noteq> Some (Inr x, r')" "sc_throw e r \<noteq> None"
  by (auto simp: sc_throw_def Let_def split: prod.splits)

text \<open>An exchange validates, then runs its session inside its handlers.\<close>

lemma bind_lift_cases:
  assumes "sc_bind (sc_lift object x) (\<lambda>_. sc_catch m k) r = Some (Inl i, r')"
  obtains e where "x = Inl e" "new_exc (object e) (ru_store r) = (i, ru_store r')"
    | err r1 where "m r = Some (Inl err, r1)" "k err r1 = Some (Inl i, r')"
proof (cases x)
  case (Inl e)
  from assms have "new_exc (object e) (ru_store r) = (i, ru_store r')"
    unfolding Inl by (auto simp: sc_bind_def sc_lift_def sc_throw_def split: prod.splits)
  with Inl that(1) show thesis by blast
next
  case (Inr y)
  from assms have "sc_catch m k r = Some (Inl i, r')"
    unfolding Inr by (simp add: sc_bind_def sc_lift_def sc_return_def)
  with that(2) show thesis by (auto simp: sc_catch_def split: option.splits sum.splits)
qed

lemma finalise_ok_fields [simp]:
  "env_ok (finalise_ok str_of now status started env)"
  "env_status (finalise_ok str_of now status started env) = status"
  by (simp_all add: finalise_ok_def seal_def)

section \<open>What a client reports\<close>

text \<open>
  The contract between a client and the code that makes envelopes: in an environment that is sane,
  a fault of the transport is reported as an exception of the library, and an answer seals the
  envelope as a success.
\<close>

locale reporting_client =
  fixes sane :: "'p \<Rightarrow> bool"
    and script :: "'p \<Rightarrow> 'q \<Rightarrow> ('e, 'a) script"
    and answer :: "(pyval \<Rightarrow> string) \<Rightarrow> rat \<Rightarrow> 'q \<Rightarrow> 'a \<Rightarrow> envelope \<Rightarrow> envelope"
    and faults :: "exc_class list"
  assumes reports: "sane p \<Longrightarrow> script p q r = Some (Inl i, r') \<Longrightarrow>
      reported faults i r'"
    and seals: "sealed str_of (answer str_of now q x env) \<and> env_ok (answer str_of now q x env)
      \<and> env_status (answer str_of now q x env) < HTTP_ERROR_STATUS"

context reporting_client
begin

lemma concluded_answer:
  assumes "concluded (script p q) (answer str_of now q) b env xs = Some ((None, env', xs', b'), calls)"
  shows "sealed str_of env' \<and> env_ok env' \<and> env_status env' < HTTP_ERROR_STATUS"
  using assms seals by (auto simp: concluded_def split: option.splits sum.splits)

lemma concluded_contract:
  assumes "sane p" "concluded (script p q) (answer str_of now q) b env xs = Some ((r, env', xs', b'), calls)"
  shows "case r of
      None \<Rightarrow> sealed str_of env' \<and> env_ok env' \<and> env_status env' < HTTP_ERROR_STATUS
    | Some i \<Rightarrow> env' = env \<and>
        (is_lib (ex_class (xs_heap xs' i)) \<or> \<not> is_instance (ex_mro (xs_heap xs' i)) faults)"
  using assms seals
  by (auto simp: concluded_def reported_def sc_mro_def split: option.splits sum.splits
      dest!: reports [OF assms(1)])

end

end
