(* ===== verification/Services.thy ===== *)
theory Services
  imports Scripts "HOL-Library.Sublist"
begin

text \<open>
  What the clients of the cloud services and of gRPC share: the removal of known secrets from text,
  the number of attempts a run under the breaker made (a service's response travels on a private
  exception, here by the number of its attempt), and the lifecycle that leaves its client whatever
  happens and raises one exact exception.
\<close>

section \<open>Text\<close>

text \<open>\<open>s.replace(old, new)\<close>; an empty \<open>old\<close> matches between all characters.\<close>

function replace_from :: "string \<Rightarrow> string \<Rightarrow> string \<Rightarrow> string" where
  "replace_from old new [] = []"
| "replace_from old new (c # s) =
     (if old \<noteq> [] \<and> starts_with old (c # s) then new @ replace_from old new (drop (length old - 1) s)
      else c # replace_from old new s)"
  by pat_completeness auto
termination by (relation "measure (\<lambda>(_, _, s). length s)") auto

definition str_replace :: "string \<Rightarrow> string \<Rightarrow> string \<Rightarrow> string" where
  "str_replace old new s = (if old = [] then new @ concat (map (\<lambda>c. c # new) s) else replace_from old new s)"

text \<open>\<open>repr\<close> of a string of Latin-1 characters.\<close>

definition hex_digit :: "nat \<Rightarrow> char" where
  "hex_digit n = char_of (if n < 10 then 48 + n else 87 + n)"

definition repr_char :: "char \<Rightarrow> char \<Rightarrow> string" where
  "repr_char quote c =
     (let n = ord_of c in
      if c = quote \<or> n = 92 then [char_of (92::nat), c]
      else if n = 9 then [char_of (92::nat), CHR ''t''] else if n = 10 then [char_of (92::nat), CHR ''n'']
      else if n = 13 then [char_of (92::nat), CHR ''r'']
      else if n < 32 \<or> 127 \<le> n \<and> n \<le> 160 \<or> n = 173
      then [char_of (92::nat), CHR ''x'', hex_digit (n div 16), hex_digit (n mod 16)]
      else [c])"

definition py_repr :: "string \<Rightarrow> string" where
  "py_repr s =
     (let single = char_of (39::nat); double = char_of (34::nat);
          quote = (if single \<in> set s \<and> double \<notin> set s then double else single)
      in quote # concat (map (repr_char quote) s) @ [quote])"

text \<open>Each secret in turn becomes the mask.\<close>

definition hide_secrets :: "string list \<Rightarrow> string \<Rightarrow> string \<Rightarrow> string" where
  "hide_secrets secrets cover s = fold (\<lambda>secret s. str_replace secret cover s) secrets s"

text \<open>\<open>sorted(set(secrets), key=len, reverse=True)\<close>; the order within one length is that of the list.\<close>

definition longest_first :: "string list \<Rightarrow> string list" where
  "longest_first secrets = rev (sort_key length (rev (remdups secrets)))"

section \<open>No secret is left\<close>

text \<open>A secret that the mask cannot bring back.\<close>

definition clear_of :: "string \<Rightarrow> string \<Rightarrow> bool" where
  "clear_of cover secret \<longleftrightarrow>
     secret \<noteq> [] \<and> cover \<noteq> [] \<and> hd cover \<notin> set secret \<and> last cover \<notin> set secret \<and> \<not> contains_str secret cover"

lemma starts_with_prefix: "starts_with p s \<longleftrightarrow> prefix p s"
  by (auto simp: starts_with_def prefix_def) (metis append_take_drop_id)

lemma contains_str_sublist: "contains_str p s \<longleftrightarrow> sublist p s"
  by (induction s) (auto simp: starts_with_prefix sublist_Cons_right)

lemma sublist_across_mask:
  assumes "sublist t (p @ cover @ q)" "clear_of cover t"
  shows "sublist t p \<or> sublist t q"
proof -
  have m: "cover \<noteq> []" "t \<noteq> []" "hd cover \<notin> set t" "last cover \<notin> set t" "\<not> sublist t cover"
    using assms(2) by (auto simp: clear_of_def contains_str_sublist)
  have right: "xs = []" if "t = ys @ xs" "prefix xs (cover @ q)" for xs ys
    using that m(1,3) by (cases xs) (auto simp: prefix_Cons neq_Nil_conv)
  have left: "xs = []" if "t = xs @ ys" "suffix xs cover" for xs ys
    using that m(1,4) by (cases xs rule: rev_cases) (auto simp: suffix_def)
  show ?thesis
    using assms(1) m(5) by (auto simp: sublist_append dest: right left)
qed

lemma replace_keeps_out:
  assumes "clear_of cover t"
  shows "\<not> sublist t (p @ s) \<Longrightarrow> \<not> sublist t (p @ replace_from old cover s)"
proof (induction "length s" arbitrary: p s rule: less_induct)
  case less
  show ?case
  proof (cases s)
    case (Cons c r)
    show ?thesis
    proof (cases "old \<noteq> [] \<and> starts_with old s")
      case True
      let ?d = "drop (length old - 1) r"
      have "sublist ?d r" by simp
      then have "\<not> sublist t ([] @ ?d)" "\<not> sublist t p"
        using less.prems Cons sublist_order.order.trans [of t ?d r]
        by (auto simp: sublist_append sublist_Cons_right)
      with less.hyps [of ?d "[]"] Cons have "\<not> sublist t p" "\<not> sublist t (replace_from old cover ?d)" by auto
      with True Cons sublist_across_mask [OF _ assms, of p "replace_from old cover ?d"] show ?thesis by auto
    next
      case False
      with less.hyps [of r "p @ [c]"] less.prems Cons show ?thesis by auto
    qed
  qed (use less.prems in simp)
qed

lemma replace_removes:
  assumes "clear_of cover old"
  shows "(\<And>i. i < length p \<Longrightarrow> \<not> prefix old (drop i (p @ s))) \<Longrightarrow> \<not> sublist old (p @ replace_from old cover s)"
proof (induction "length s" arbitrary: p s rule: less_induct)
  case less
  have old: "old \<noteq> []" using assms by (simp add: clear_of_def)
  have p: "\<not> sublist old p"
  proof
    assume "sublist old p"
    then obtain a b where "p = a @ old @ b" by (auto simp: sublist_def)
    with less.prems [of "length a"] old show False by simp
  qed
  show ?case
  proof (cases s)
    case (Cons c r)
    show ?thesis
    proof (cases "starts_with old s")
      case True
      let ?d = "drop (length old - 1) r"
      have "\<not> sublist old ([] @ replace_from old cover ?d)"
        by (rule less.hyps) (use Cons in auto)
      with True old Cons p sublist_across_mask [OF _ assms, of p "replace_from old cover ?d"] show ?thesis by auto
    next
      case False
      have "\<not> sublist old ((p @ [c]) @ replace_from old cover r)"
      proof (rule less.hyps)
        fix i assume "i < length (p @ [c])"
        then show "\<not> prefix old (drop i ((p @ [c]) @ r))"
          using less.prems [of i] False Cons by (cases "i < length p") (auto simp: starts_with_prefix less_Suc_eq)
      qed (use Cons in simp)
      with False old Cons show ?thesis by simp
    qed
  qed (use p in simp)
qed

lemma hide_secrets_keeps_out:
  assumes "clear_of cover t" "[] \<notin> set secrets"
  shows "\<not> sublist t s \<Longrightarrow> \<not> sublist t (hide_secrets secrets cover s)"
  using assms(2)
proof (induction secrets arbitrary: s)
  case (Cons a secrets)
  then have "\<not> sublist t (str_replace a cover s)"
    using replace_keeps_out [OF assms(1), of "[]" s a] by (auto simp: str_replace_def)
  from Cons.IH [OF this] Cons.prems(2) show ?case by (simp add: hide_secrets_def)
qed (simp add: hide_secrets_def)

lemma hide_secrets_hides:
  assumes "t \<in> set secrets" "clear_of cover t" "[] \<notin> set secrets"
  shows "\<not> contains_str t (hide_secrets secrets cover s)"
proof -
  obtain before_t after_t where split: "secrets = before_t @ t # after_t"
    using split_list [OF assms(1)] by blast
  have "\<not> sublist t (str_replace t cover (hide_secrets before_t cover s))"
    using replace_removes [OF assms(2), of "[]" "hide_secrets before_t cover s"] assms(2)
    by (simp add: str_replace_def clear_of_def)
  from hide_secrets_keeps_out [OF assms(2) _ this, of after_t] assms(3) show ?thesis
    by (simp add: split contains_str_sublist hide_secrets_def)
qed

lemma set_longest_first [simp]: "set (longest_first secrets) = set secrets"
  by (simp add: longest_first_def)

section \<open>Options and private failures\<close>

definition info_set :: "pyval \<Rightarrow> string \<Rightarrow> pyval \<Rightarrow> pyval" where
  "info_set info k v = PDict (dict_set (entries info) (PStr k) v)"

definition str_of_val :: "pyval \<Rightarrow> string" where
  "str_of_val v = (case v of PStr s \<Rightarrow> s | _ \<Rightarrow> [])"

definition int_of_val :: "pyval \<Rightarrow> int" where
  "int_of_val v = (case v of PInt n \<Rightarrow> n | _ \<Rightarrow> 0)"

definition int_or_none :: "int option \<Rightarrow> pyval" where
  "int_or_none x = (case x of None \<Rightarrow> PNone | Some n \<Rightarrow> PInt n)"

definition private_error :: "exc_class \<Rightarrow> exc_class \<Rightarrow> string \<Rightarrow> exc_obj" where
  "private_error c base message = (new_gateway_error base message None)\<lparr>ex_mro := c # lib_mro base\<rparr>"

section \<open>Attempts\<close>

text \<open>How many turns the loop of the breaker entered the call in; the recursion is that of \<open>run_alone\<close>.\<close>

fun attempts_made ::
  "failsafe \<Rightarrow> breaker \<Rightarrow> int \<Rightarrow> exc_obj option \<Rightarrow> 'a turn list \<Rightarrow> nat" where
  "attempts_made fs b attempts recent [] = 0"
| "attempts_made fs b attempts recent (t # ts) =
     (case begin_attempt (t_enter t) b attempts recent :: breaker \<times> 'a pc of
        (b1, InCall n r trialling) \<Rightarrow>
          (case finish_call fs (t_callbacks t) (t_failed t) (t_outcome t) n trialling b1 of
             (b2, InSleep m e tr d) \<Rightarrow>
               (case t_sleep t of
                  Some x \<Rightarrow> 1
                | None \<Rightarrow> Suc (attempts_made fs (release_trial tr b2) m (Some e) ts))
           | _ \<Rightarrow> 1)
      | _ \<Rightarrow> 0)"

text \<open>What the service did, and what the attempt makes of it.\<close>

definition map_turn :: "('a outcome \<Rightarrow> 'b outcome) \<Rightarrow> 'a turn \<Rightarrow> 'b turn" where
  "map_turn f t = \<lparr>t_enter = t_enter t, t_outcome = f (t_outcome t), t_failed = t_failed t,
     t_callbacks = t_callbacks t, t_sleep = t_sleep t\<rparr>"

text \<open>
  \<open>self.circuit_breaker.run(self._attempt, ...)\<close>: what is raised comes with the failure the service
  gave to the last attempt, which the private exceptions carry as an attribute.
\<close>

definition sc_attempts ::
  "failsafe \<Rightarrow> 'e \<Rightarrow> ('a outcome \<Rightarrow> 'b outcome) \<Rightarrow> 'a turn list \<Rightarrow> ('e, (nat \<times> 'a turn option) + 'b) script" where
  "sc_attempts fs ev attempt turns = sc_bind (sc_say ev) (\<lambda>_ r.
     let ts = map (map_turn attempt) turns in
     case run_alone fs (ru_breaker r) 0 None ts of
       None \<Rightarrow> None
     | Some (b, f) \<Rightarrow>
         let n = attempts_made fs (ru_breaker r) 0 None ts;
             (x, xs) = leave_run f (ru_store r)
         in Some (Inr (case x of
               Inl i \<Rightarrow> Inl (i, if n = 0 then None else Some (turns ! (n - 1)))
             | Inr y \<Rightarrow> Inr y), r\<lparr>ru_store := xs, ru_breaker := b\<rparr>))"

text \<open>
  What ends the run is the failure of the last attempt, when no callback raises and no sleep is
  interrupted.
\<close>

definition quiet_turn :: "'a turn \<Rightarrow> bool" where
  "quiet_turn t \<longleftrightarrow> t_callbacks t = (\<lambda>_. None) \<and> t_sleep t = None"

lemma quiet_finish:
  "finish_call fs (\<lambda>_. None) now out n tr b = (b', Done f) \<Longrightarrow> f = Exhausted e \<or> f = Propagated e \<Longrightarrow> out = Raises e"
  by (auto simp: finish_call_def invoke_def Let_def split: outcome.splits if_splits option.splits)

lemma run_ends_with_last:
  "run_alone fs b n recent ts = Some (b', f) \<Longrightarrow> f = Exhausted e \<or> f = Propagated e \<Longrightarrow> \<forall>t \<in> set ts. quiet_turn t \<Longrightarrow>
     \<exists>k. attempts_made fs b n recent ts = Suc k \<and> k < length ts \<and> t_outcome (ts ! k) = Raises e"
proof (induction fs b n recent ts rule: attempts_made.induct)
  case (2 fs b attempts recent t ts)
  have quiet: "t_callbacks t = (\<lambda>_. None)" "t_sleep t = None" using 2(4) by (auto simp: quiet_turn_def)
  obtain b1 p where p: "begin_attempt (t_enter t) b attempts recent = (b1, p :: 'a pc)" by fastforce
  show ?case
  proof (cases p)
    case (InCall m r trialling)
    obtain b2 q where q: "finish_call fs (t_callbacks t) (t_failed t) (t_outcome t) m trialling b1 = (b2, q)"
      by fastforce
    show ?thesis
    proof (cases q)
      case (InSleep m' e' tr d)
      with 2 p q InCall quiet show ?thesis by fastforce
    next
      case (Done g)
      then have "g = f" using 2(2) p q InCall by simp
      from quiet_finish [OF q [unfolded Done this quiet(1)] 2(3)] p q InCall Done show ?thesis by simp
    qed (use 2(2) p q InCall in simp_all)
  next
    case (Done g)
    with 2(2,3) p show ?thesis by (auto simp: begin_attempt_def split: prod.splits if_splits)
  qed (use 2(2) p in simp_all)
qed simp

lemma map_turn_simps [simp]:
  "t_outcome (map_turn f t) = f (t_outcome t)" "quiet_turn (map_turn f t) = quiet_turn t"
  by (simp_all add: map_turn_def quiet_turn_def)

section \<open>Leaving a client\<close>

text \<open>\<open>_capture_exception_state\<close>, \<open>_restore_exception_state\<close> and \<open>_raise_exact\<close>.\<close>

record exc_state =
  st_text :: string
  st_cause :: "nat option"
  st_context :: "nat option"

definition capture_exception_state :: "nat \<Rightarrow> exc_store \<Rightarrow> exc_state" where
  "capture_exception_state i xs =
     \<lparr>st_text = ex_text (xs_heap xs i), st_cause = ex_cause (xs_heap xs i), st_context = ex_context (xs_heap xs i)\<rparr>"

definition restore_exception_state :: "nat \<Rightarrow> exc_state \<Rightarrow> exc_store \<Rightarrow> exc_store" where
  "restore_exception_state i st xs =
     xs\<lparr>xs_heap := (xs_heap xs)(i := (xs_heap xs i)\<lparr>ex_text := st_text st, ex_cause := st_cause st,
       ex_context := st_context st\<rparr>)\<rparr>"

definition raise_exact :: "nat \<times> exc_state \<Rightarrow> ('e, 'a) script" where
  "raise_exact captured = (\<lambda>r. case captured of (i, st) \<Rightarrow>
     Some (Inl i, r\<lparr>ru_store := restore_exception_state i st (ru_store r)\<rparr>))"

text \<open>
  How leaving goes: how often the caller is cancelled meanwhile, what the exit raises or whether it
  suppresses the failure it is shown, and what it does to that failure.
\<close>

record farewell =
  fw_interrupts :: nat
  fw_outcome :: "exc_obj + bool"
  fw_touches :: "exc_obj \<Rightarrow> exc_obj"

abbreviation "CancelledError \<equiv> Ext ''asyncio.CancelledError''"

definition cancelled_error :: exc_obj where
  "cancelled_error = \<lparr>ex_mro = [CancelledError, Ext ''BaseException''], ex_text = [], ex_status = 0,
     ex_cause = None, ex_context = None\<rparr>"

definition capture_client_exit ::
  "farewell \<Rightarrow> nat option \<Rightarrow> exc_store \<Rightarrow> ((nat \<times> exc_state) + bool) \<times> exc_store" where
  "capture_client_exit fw error xs =
     (let xs1 = (case error of None \<Rightarrow> xs
            | Some i \<Rightarrow> let e = fw_touches fw (xs_heap xs i) in
                xs\<lparr>xs_heap := (xs_heap xs)(i := (xs_heap xs i)\<lparr>ex_text := ex_text e, ex_cause := ex_cause e,
                  ex_context := ex_context e\<rparr>)\<rparr>)
      in case fw_outcome fw of
           Inr suppressed \<Rightarrow> (Inr suppressed, xs1)
         | Inl e \<Rightarrow> let (j, xs2) = new_exc e xs1 in (Inl (j, capture_exception_state j xs2), xs2))"

text \<open>The shielded wait: the first cancellation is kept, a later one is not.\<close>

fun drain_client_exit ::
  "nat \<Rightarrow> (nat \<times> exc_state) option \<Rightarrow> exc_store \<Rightarrow> (nat \<times> exc_state) option \<times> exc_store" where
  "drain_client_exit 0 pending xs = (pending, xs)"
| "drain_client_exit (Suc n) pending xs =
     (let (i, xs1) = new_exc cancelled_error xs
      in drain_client_exit n (case pending of None \<Rightarrow> Some (i, capture_exception_state i xs1) | Some _ \<Rightarrow> pending) xs1)"

definition sc_lifecycle :: "'e \<Rightarrow> farewell \<Rightarrow> exc_obj \<Rightarrow> ('e, 'a) script \<Rightarrow> ('e, 'a) script" where
  "sc_lifecycle left fw when_suppressed body = (\<lambda>r. case body r of
     None \<Rightarrow> None
   | Some (x, r1) \<Rightarrow>
       let body_error = (case x of Inr _ \<Rightarrow> None | Inl i \<Rightarrow> Some (i, capture_exception_state i (ru_store r1)));
           cancelled = (case x of Inr _ \<Rightarrow> None
             | Inl i \<Rightarrow> if is_instance (sc_mro i r1) [CancelledError] then body_error else None);
           (outcome, xs1) = capture_client_exit fw (map_option fst body_error) (ru_store r1);
           (pending, xs2) = drain_client_exit (fw_interrupts fw) cancelled xs1;
           r2 = r1\<lparr>ru_log := ru_log r1 @ [left], ru_store := xs2\<rparr>
       in case pending of
            Some c \<Rightarrow> raise_exact c r2
          | None \<Rightarrow>
              (case outcome of
                 Inl e \<Rightarrow> raise_exact e r2
               | Inr suppressed \<Rightarrow>
                   (case body_error of
                      Some e \<Rightarrow> if suppressed then sc_throw when_suppressed r2 else raise_exact e r2
                    | None \<Rightarrow> Some (x, r2))))"

lemma drain_kept: "drain_client_exit n (Some c) xs = (p, xs') \<Longrightarrow> p = Some c"
  by (induction n "Some c" xs arbitrary: xs' rule: drain_client_exit.induct) (auto split: prod.splits)

lemma drain_store:
  "drain_client_exit n c xs = (p, xs') \<Longrightarrow> i < xs_next xs \<Longrightarrow> xs_heap xs' i = xs_heap xs i"
proof (induction n c xs rule: drain_client_exit.induct)
  case (2 n c xs)
  obtain j xs1 where j: "new_exc cancelled_error xs = (j, xs1)" by fastforce
  then have "i < xs_next xs1" "xs_heap xs1 i = xs_heap xs i" using 2(3) by (auto simp: new_exc_def)
  with 2(1) [OF j [symmetric] refl] 2(2) j show ?case by (simp split: option.splits)
qed simp

lemma drain_first:
  assumes "drain_client_exit n None xs = (p, xs')" "n > 0"
  obtains i st where "p = Some (i, st)" "restore_exception_state i st xs' = xs'" "xs_heap xs' i = cancelled_error"
proof -
  obtain m where n: "n = Suc m" using assms(2) by (cases n) auto
  obtain j xs1 where j: "new_exc cancelled_error xs = (j, xs1)" by fastforce
  then have "j < xs_next xs1" "xs_heap xs1 j = cancelled_error" by (auto simp: new_exc_def)
  with assms(1) j have d: "drain_client_exit m (Some (j, capture_exception_state j xs1)) xs1 = (p, xs')"
      and h: "xs_heap xs' j = cancelled_error"
    using drain_store [of m "Some (j, capture_exception_state j xs1)" xs1 p xs' j] by (auto simp: n)
  show thesis
    by (rule that [of j "capture_exception_state j xs1"])
      (use drain_kept [OF d] h \<open>xs_heap xs1 j = cancelled_error\<close> in
        \<open>auto simp: restore_exception_state_def capture_exception_state_def fun_upd_idem\<close>)
qed

text \<open>
  What a lifecycle ends with: the cancellation that was first, else what the exit raised, else what
  the body raised, restored, unless the exit suppressed it.
\<close>

definition lifecycle_end ::
  "farewell \<Rightarrow> exc_obj \<Rightarrow> nat + 'a \<Rightarrow> (nat \<Rightarrow> exc_obj) \<Rightarrow> nat + 'a \<Rightarrow> (nat \<Rightarrow> exc_obj) \<Rightarrow> bool" where
  "lifecycle_end fw when_suppressed x heap y heap' =
     (case x of
        Inl i \<Rightarrow> (case y of Inr _ \<Rightarrow> False | Inl j \<Rightarrow>
          if is_instance (ex_mro (heap i)) [CancelledError] then j = i \<and> heap' i = heap i
          else if fw_interrupts fw > 0 then heap' j = cancelled_error
          else (case fw_outcome fw of
              Inl e \<Rightarrow> heap' j = e
            | Inr suppressed \<Rightarrow> if suppressed then heap' j = when_suppressed else j = i \<and> heap' i = heap i))
      | Inr a \<Rightarrow>
          if fw_interrupts fw > 0 then (\<exists>j. y = Inl j \<and> heap' j = cancelled_error)
          else (case fw_outcome fw of Inl e \<Rightarrow> (\<exists>j. y = Inl j \<and> heap' j = e) | Inr _ \<Rightarrow> y = Inr a))"

lemma restored:
  "ex_mro (xs_heap xs' i) = ex_mro (xs_heap xs i) \<Longrightarrow> ex_status (xs_heap xs' i) = ex_status (xs_heap xs i) \<Longrightarrow>
     xs_heap (restore_exception_state i (capture_exception_state i xs) xs') i = xs_heap xs i"
  by (simp add: restore_exception_state_def capture_exception_state_def)

lemma exit_store:
  assumes "capture_client_exit fw error xs = (out, xs')" "i < xs_next xs"
  shows "ex_mro (xs_heap xs' i) = ex_mro (xs_heap xs i)" "ex_status (xs_heap xs' i) = ex_status (xs_heap xs i)"
    "xs_next xs \<le> xs_next xs'"
  using assms by (auto simp: capture_client_exit_def new_exc_def Let_def split: sum.splits option.splits)

lemma exit_outcome:
  assumes "capture_client_exit fw error xs = (out, xs')"
  shows "case fw_outcome fw of Inr s \<Rightarrow> out = Inr s
    | Inl e \<Rightarrow> (\<exists>j. out = Inl (j, capture_exception_state j xs') \<and> xs_heap xs' j = e \<and> j < xs_next xs')"
  using assms by (auto simp: capture_client_exit_def new_exc_def Let_def split: sum.splits option.splits)

lemma raise_exact_eq:
  "raise_exact (i, st) r = Some (y, r') \<longleftrightarrow> y = Inl i \<and> r' = r\<lparr>ru_store := restore_exception_state i st (ru_store r)\<rparr>"
  by (auto simp: raise_exact_def)

lemma sc_throw_eq:
  "sc_throw e r = Some (y, r') \<Longrightarrow>
     \<exists>j. y = Inl j \<and> xs_heap (ru_store r') j = e \<and> ru_log r' = ru_log r \<and> ru_breaker r' = ru_breaker r"
  by (auto simp: sc_throw_def Let_def split: prod.splits dest!: new_exc_eq)

lemma lifecycle_after_failure:
  assumes body: "body r = Some (Inl i, r1)" and run: "sc_lifecycle left fw when_suppressed body r = Some (y, r2)"
    and alloc: "i < xs_next (ru_store r1)"
  shows "ru_log r2 = ru_log r1 @ [left] \<and> ru_breaker r2 = ru_breaker r1
    \<and> lifecycle_end fw when_suppressed (Inl i) (xs_heap (ru_store r1)) y (xs_heap (ru_store r2))"
proof -
  let ?xs = "ru_store r1" and ?c = "(i, capture_exception_state i (ru_store r1))"
  let ?pending = "if is_instance (sc_mro i r1) [CancelledError] then Some ?c else None"
  obtain out xs1 where out: "capture_client_exit fw (Some i) ?xs = (out, xs1)" by fastforce
  obtain pending xs2 where d: "drain_client_exit (fw_interrupts fw) ?pending xs1 = (pending, xs2)" by fastforce
  let ?r2 = "r1\<lparr>ru_log := ru_log r1 @ [left], ru_store := xs2\<rparr>"
  have y: "(case pending of Some c \<Rightarrow> raise_exact c ?r2
     | None \<Rightarrow> (case out of Inl e \<Rightarrow> raise_exact e ?r2
        | Inr suppressed \<Rightarrow> if suppressed then sc_throw when_suppressed ?r2 else raise_exact ?c ?r2)) = Some (y, r2)"
    using run by (simp add: sc_lifecycle_def body out d Let_def cong: option.case_cong sum.case_cong if_cong)
  note e = exit_store [OF out alloc] and o = exit_outcome [OF out]
  have i: "xs_heap (restore_exception_state i (snd ?c) xs2) i = xs_heap ?xs i"
    using drain_store [OF d, of i] e alloc by (simp add: restored)
  show ?thesis
  proof (cases "is_instance (sc_mro i r1) [CancelledError]")
    case True
    with d have "pending = Some ?c" by (auto dest: drain_kept)
    with y i True show ?thesis by (auto simp: raise_exact_eq lifecycle_end_def sc_mro_def)
  next
    case no: False
    show ?thesis
    proof (cases "fw_interrupts fw > 0")
      case True
      from d no have d': "drain_client_exit (fw_interrupts fw) None xs1 = (pending, xs2)" by simp
      from drain_first [OF this True] obtain j st where
        "pending = Some (j, st)" "restore_exception_state j st xs2 = xs2" "xs_heap xs2 j = cancelled_error" .
      with y no True show ?thesis by (auto simp: raise_exact_eq lifecycle_end_def sc_mro_def)
    next
      case False
      with d no have p: "pending = None" "xs2 = xs1" by auto
      show ?thesis
        using y o no False i unfolding p
        by (auto simp: raise_exact_eq lifecycle_end_def sc_mro_def restored split: sum.splits if_splits dest!: sc_throw_eq)
    qed
  qed
qed

lemma lifecycle_after_success:
  assumes body: "body r = Some (Inr a, r1)" and run: "sc_lifecycle left fw when_suppressed body r = Some (y, r2)"
  shows "ru_log r2 = ru_log r1 @ [left] \<and> ru_breaker r2 = ru_breaker r1
    \<and> lifecycle_end fw when_suppressed (Inr a) (xs_heap (ru_store r1)) y (xs_heap (ru_store r2))"
proof -
  obtain out xs1 where out: "capture_client_exit fw None (ru_store r1) = (out, xs1)" by fastforce
  obtain pending xs2 where d: "drain_client_exit (fw_interrupts fw) None xs1 = (pending, xs2)" by fastforce
  let ?r2 = "r1\<lparr>ru_log := ru_log r1 @ [left], ru_store := xs2\<rparr>"
  have y: "(case pending of Some c \<Rightarrow> raise_exact c ?r2
     | None \<Rightarrow> (case out of Inl e \<Rightarrow> raise_exact e ?r2 | Inr suppressed \<Rightarrow> Some (Inr a, ?r2))) = Some (y, r2)"
    using run by (simp add: sc_lifecycle_def body out d Let_def cong: option.case_cong sum.case_cong if_cong)
  show ?thesis
  proof (cases "fw_interrupts fw > 0")
    case True
    from drain_first [OF d this] obtain j st where
      "pending = Some (j, st)" "restore_exception_state j st xs2 = xs2" "xs_heap xs2 j = cancelled_error" .
    with y True show ?thesis by (auto simp: raise_exact_eq lifecycle_end_def)
  next
    case False
    with d have p: "pending = None" "xs2 = xs1" by auto
    show ?thesis
      using y exit_outcome [OF out] False unfolding p
      by (auto simp: raise_exact_eq lifecycle_end_def restored split: sum.splits)
  qed
qed

section \<open>Rules for logs and results\<close>

lemma log_attempts: "(\<And>l. I l \<Longrightarrow> I (l @ [ev])) \<Longrightarrow> keeps_log I (sc_attempts fs ev attempt turns)"
  unfolding sc_attempts_def
  by (rule sc_triple_bind, erule log_say)
    (auto simp: sc_triple_def on_log_def Let_def split: option.splits prod.splits sum.splits)

lemma lifecycle_log:
  assumes "body r = Some (x, r1)" "sc_lifecycle left fw e body r = Some (y, r2)"
  shows "ru_log r2 = ru_log r1 @ [left]"
  using assms
  by (auto simp: sc_lifecycle_def Let_def raise_exact_def split: prod.splits sum.splits option.splits if_splits
      dest!: sc_throw_eq)

lemma log_lifecycle:
  assumes "keeps_log I body" "\<And>l. I l \<Longrightarrow> I (l @ [left])"
  shows "keeps_log I (sc_lifecycle left fw e body)"
proof (rule keeps_logI)
  fix r y r2 assume run: "sc_lifecycle left fw e body r = Some (y, r2)" and "I (ru_log r)"
  then obtain x r1 where body: "body r = Some (x, r1)"
    by (cases "body r") (auto simp: sc_lifecycle_def)
  from keeps_logD [OF assms(1) body \<open>I (ru_log r)\<close>] assms(2) lifecycle_log [OF body run] show "I (ru_log r2)"
    by simp
qed

lemma sc_bind_Inr:
  "sc_bind m f r = Some (Inr y, r') \<longleftrightarrow> (\<exists>x r1. m r = Some (Inr x, r1) \<and> f x r1 = Some (Inr y, r'))"
  by (auto simp: sc_bind_def split: option.splits sum.splits)

lemma sc_bind_Inl:
  "sc_bind m f r = Some (Inl i, r') \<longleftrightarrow>
     m r = Some (Inl i, r') \<or> (\<exists>x r1. m r = Some (Inr x, r1) \<and> f x r1 = Some (Inl i, r'))"
  by (auto simp: sc_bind_def split: option.splits sum.splits)

lemma sc_catch_Inl:
  "sc_catch m h r = Some (Inl i, r') \<longleftrightarrow> (\<exists>j r1. m r = Some (Inl j, r1) \<and> h j r1 = Some (Inl i, r'))"
  by (auto simp: sc_catch_def split: option.splits sum.splits)

lemma sc_await_Inr: "sc_await ev x r = Some (Inr y, r') \<longleftrightarrow> x = Inr y \<and> r' = r\<lparr>ru_log := ru_log r @ [ev]\<rparr>"
  by (cases x) (auto simp: sc_await_def sc_outcome_def sc_bind_def sc_say_def sc_return_def)

lemma sc_await_Inl: "sc_await ev x r = Some (Inl i, r') \<Longrightarrow> \<exists>e. x = Inl e \<and> xs_heap (ru_store r') i = e"
  by (cases x) (auto simp: sc_await_def sc_outcome_def sc_bind_def sc_say_def sc_return_def dest!: sc_throw_eq)

lemma sc_return_eq [simp]: "sc_return x r = Some (y, r') \<longleftrightarrow> y = Inr x \<and> r' = r"
  by (auto simp: sc_return_def)

lemma sc_raise_eq [simp]: "sc_raise i r = Some (y, r') \<longleftrightarrow> y = Inl i \<and> r' = r"
  by (auto simp: sc_raise_def)

named_theorems same_log \<open>raising does not log\<close>

lemma sc_throw_log [same_log]: "sc_throw e r = Some (y, r') \<Longrightarrow> ru_log r' = ru_log r"
  by (auto dest: sc_throw_eq)

lemma sc_raise_from_log [same_log]: "sc_raise_from c m s i r = Some (y, r') \<Longrightarrow> ru_log r' = ru_log r"
  by (auto simp: sc_raise_from_def Let_def split: prod.splits)

section \<open>Raising again\<close>

text \<open>\<open>raise cause from err\<close> and \<open>raise e from None\<close>, both inside the handler of \<open>err\<close>; \<open>err.args = ...\<close>.\<close>

definition sc_raise_again :: "nat \<Rightarrow> nat \<Rightarrow> ('e, 'a) script" where
  "sc_raise_again cause err = (\<lambda>r. let xs = ru_store r; heap = unlink_context (xs_next xs) err cause (xs_heap xs) in
     Some (Inl cause, r\<lparr>ru_store := xs\<lparr>xs_heap := heap(cause := (heap cause)\<lparr>ex_cause := Some err,
       ex_context := Some err\<rparr>)\<rparr>\<rparr>))"

definition sc_raise_instead :: "exc_obj \<Rightarrow> nat \<Rightarrow> ('e, 'a) script" where
  "sc_raise_instead e err = sc_throw (e\<lparr>ex_cause := None, ex_context := Some err\<rparr>)"

definition sc_set_text :: "nat \<Rightarrow> string \<Rightarrow> ('e, unit) script" where
  "sc_set_text i message = (\<lambda>r. let xs = ru_store r in
     Some (Inr (), r\<lparr>ru_store := xs\<lparr>xs_heap := (xs_heap xs)(i := (xs_heap xs i)\<lparr>ex_text := message\<rparr>)\<rparr>\<rparr>))"

lemma sc_raise_again_log [same_log]: "sc_raise_again c i r = Some (y, r') \<Longrightarrow> ru_log r' = ru_log r"
  by (auto simp: sc_raise_again_def Let_def)

lemma sc_raise_instead_log [same_log]: "sc_raise_instead e i r = Some (y, r') \<Longrightarrow> ru_log r' = ru_log r"
  unfolding sc_raise_instead_def by (rule sc_throw_log)

lemma sc_set_text_Some: "sc_set_text i s r = Some (y, r') \<Longrightarrow> ru_log r' = ru_log r \<and> y = Inr ()"
  by (auto simp: sc_set_text_def Let_def)

end
