(* ===== verification/Json_Safe.thy ===== *)
theory Json_Safe
  imports Pyval
begin

text \<open>
  \<open>_json_safe\<close> of \<open>logic/grpc_client.py\<close>: whether what a deserializer of the caller returned can be
  shown as JSON. The value is a graph of objects, since lists and mappings may be shared and may
  contain themselves; the walk keeps a stack of its own and the set of objects it is inside of.
\<close>

section \<open>Objects\<close>

text \<open>An object is a list or a mapping of objects, or something else. Addresses are positions.\<close>

datatype json_node = Node_list "nat list" | Node_map "(pyval \<times> nat) list" | Node_leaf pyval

type_synonym graph = "json_node list"

definition node_at :: "graph \<Rightarrow> nat \<Rightarrow> json_node" where
  "node_at g a = (if a < length g then g ! a else Node_leaf PNone)"

fun children :: "json_node \<Rightarrow> nat list" where
  "children (Node_list as) = as"
| "children (Node_map kvs) = map snd kvs"
| "children (Node_leaf _) = []"

fun is_container :: "json_node \<Rightarrow> bool" where
  "is_container (Node_leaf _) = False"
| "is_container _ = True"

fun keys_are_text :: "json_node \<Rightarrow> bool" where
  "keys_are_text (Node_map kvs) = list_all (\<lambda>(k, _). is_str k) kvs"
| "keys_are_text _ = True"

fun json_leaf :: "pyval \<Rightarrow> bool" where
  "json_leaf PNone = True"
| "json_leaf (PStr _) = True"
| "json_leaf (PBool _) = True"
| "json_leaf (PInt _) = True"
| "json_leaf (PFloat (FFin _)) = True"
| "json_leaf _ = False"

fun node_ok :: "json_node \<Rightarrow> bool" where
  "node_ok (Node_leaf v) = json_leaf v"
| "node_ok n = keys_are_text n"

section \<open>The walk\<close>

text \<open>How many objects the walk is not inside of, and what is left to do for one entry of the stack.\<close>

definition outside :: "graph \<Rightarrow> nat set \<Rightarrow> nat" where
  "outside g active = card ({..<length g} - active)"

definition breadth :: "graph \<Rightarrow> nat" where
  "breadth g = sum_list (map (\<lambda>n. length (children n)) g)"

fun work :: "nat \<Rightarrow> nat \<Rightarrow> nat" where
  "work b 0 = 1"
| "work b (Suc n) = 2 + b * work b n"

fun stack_work :: "graph \<Rightarrow> (nat \<times> bool) list \<Rightarrow> nat set \<Rightarrow> nat" where
  "stack_work g [] active = 0"
| "stack_work g ((a, False) # stack) active = work (breadth g) (outside g active) + stack_work g stack active"
| "stack_work g ((a, True) # stack) active = 1 + stack_work g stack (active - {a})"

lemma outside_antimono: "A \<subseteq> B \<Longrightarrow> outside g B \<le> outside g A"
  unfolding outside_def by (rule card_mono) auto

lemma work_Suc: "work b n \<le> work b (Suc n)"
proof (induction n)
  case (Suc n)
  then have "b * work b n \<le> b * work b (Suc n)" by (rule mult_le_mono2)
  then show ?case by simp
qed simp

lemma work_mono: "m \<le> n \<Longrightarrow> work b m \<le> work b n"
  using work_Suc by (rule lift_Suc_mono_le)

lemma work_pos [simp]: "0 < work b n"
  by (cases n) auto

lemma stack_work_antimono: "A \<subseteq> B \<Longrightarrow> stack_work g stack B \<le> stack_work g stack A"
proof (induction stack arbitrary: A B)
  case (Cons e stack)
  obtain a leaving where e: "e = (a, leaving)" by fastforce
  show ?case
  proof (cases leaving)
    case True
    with Cons.IH [of "A - {a}" "B - {a}"] Cons.prems e show ?thesis by auto
  next
    case False
    with Cons.IH [OF Cons.prems] e work_mono [OF outside_antimono [OF Cons.prems, of g], of "breadth g"] show ?thesis
      by simp
  qed
qed simp

lemma stack_work_entered:
  "stack_work g (map (\<lambda>c. (c, False)) cs @ stack) active
   = length cs * work (breadth g) (outside g active) + stack_work g stack active"
  by (induction cs) auto

lemma container_inside: "is_container (node_at g a) \<Longrightarrow> a < length g"
  by (auto simp: node_at_def split: if_splits)

lemma children_breadth: "a < length g \<Longrightarrow> length (children (node_at g a)) \<le> breadth g"
  unfolding breadth_def node_at_def by (auto intro!: member_le_sum_list)

lemma outside_enter:
  assumes "is_container (node_at g a)" "a \<notin> active"
  shows "outside g active = Suc (outside g (insert a active))"
  using card_Suc_Diff1 [of "{..<length g} - active" a] container_inside [OF assms(1)] assms(2)
  by (simp add: outside_def Diff_insert [symmetric])

lemma enter_less:
  assumes "is_container (node_at g a)" "a \<notin> active"
  shows "stack_work g (map (\<lambda>c. (c, False)) (children (node_at g a)) @ (a, True) # stack) (insert a active)
    < stack_work g ((a, False) # stack) active"
proof -
  have "length (children (node_at g a)) * work (breadth g) (outside g (insert a active))
      \<le> breadth g * work (breadth g) (outside g (insert a active))"
    using children_breadth [OF container_inside [OF assms(1)]] by (rule mult_le_mono1)
  moreover have "insert a active - {a} = active" using assms(2) by auto
  ultimately show ?thesis by (simp add: stack_work_entered outside_enter [OF assms] less_Suc_eq_le)
qed

text \<open>The top of the stack comes first; the children are pushed so that the first is on top.\<close>

function json_walk :: "graph \<Rightarrow> (nat \<times> bool) list \<Rightarrow> nat set \<Rightarrow> bool" where
  "json_walk g [] active = True"
| "json_walk g ((a, leaving) # stack) active =
     (let n = node_at g a in
      if is_container n then
        (if leaving then json_walk g stack (active - {a})
         else if a \<in> active then False
         else if keys_are_text n
           then json_walk g (map (\<lambda>c. (c, False)) (children n) @ (a, True) # stack) (insert a active)
         else False)
      else if \<not> node_ok n then False
      else json_walk g stack active)"
  by pat_completeness auto

termination
proof (relation "measure (\<lambda>(g, stack, active). stack_work g stack active)")
  show "\<And>g a leaving stack active x. x = node_at g a \<Longrightarrow> is_container x \<Longrightarrow> \<not> leaving \<Longrightarrow> a \<notin> active \<Longrightarrow>
     keys_are_text x \<Longrightarrow> ((g, map (\<lambda>c. (c, False)) (children x) @ (a, True) # stack, insert a active),
     (g, (a, leaving) # stack, active)) \<in> measure (\<lambda>(g, stack, active). stack_work g stack active)"
    using enter_less by fastforce
  show "((g, stack, active), (g, (a, leaving) # stack, active)) \<in> measure (\<lambda>(g, stack, active). stack_work g stack active)"
    for g a leaving stack active
    using stack_work_antimono [of "active - {a}" active g stack] by (cases leaving) auto
qed auto

definition json_safe :: "graph \<Rightarrow> nat \<Rightarrow> bool" where
  "json_safe g a = json_walk g [(a, False)] {}"

section \<open>What it decides\<close>

text \<open>The recursive form: no object inside itself, along every path.\<close>

function json_below :: "graph \<Rightarrow> nat set \<Rightarrow> nat \<Rightarrow> bool" where
  "json_below g active a =
     (if is_container (node_at g a)
      then (if a \<in> active then False
        else node_ok (node_at g a) \<and> (\<forall>c \<in> set (children (node_at g a)). json_below g (insert a active) c))
      else node_ok (node_at g a))"
  by auto

termination
  by (relation "measure (\<lambda>(g, active, a). outside g active)") (auto simp: outside_enter)

declare json_below.simps [simp del]

lemma keys_node_ok: "is_container n \<Longrightarrow> node_ok n = keys_are_text n"
  by (cases n) auto

lemma walk_children:
  assumes "\<And>c s. c \<in> set cs \<Longrightarrow> json_walk g ((c, False) # s) active \<longleftrightarrow> json_below g active c \<and> json_walk g s active"
  shows "json_walk g (map (\<lambda>c. (c, False)) cs @ s) active \<longleftrightarrow> (\<forall>c \<in> set cs. json_below g active c) \<and> json_walk g s active"
  using assms by (induction cs) (auto simp del: json_walk.simps)

lemma walk_is_recursive: "json_walk g ((a, False) # s) active \<longleftrightarrow> json_below g active a \<and> json_walk g s active"
proof (induction g active a arbitrary: s rule: json_below.induct)
  case (1 g active a)
  show ?case
  proof (cases "is_container (node_at g a) \<and> a \<notin> active")
    case True
    then have unmarked: "insert a active - {a} = active" by auto
    have "json_walk g (map (\<lambda>c. (c, False)) (children (node_at g a)) @ (a, True) # s) (insert a active) \<longleftrightarrow>
        (\<forall>c \<in> set (children (node_at g a)). json_below g (insert a active) c) \<and> json_walk g ((a, True) # s) (insert a active)"
      by (rule walk_children) (use 1 True in auto)
    with True unmarked show ?thesis
      by (subst json_below.simps) (auto simp: Let_def keys_node_ok)
  next
    case False
    then show ?thesis by (subst json_below.simps) (auto simp: Let_def)
  qed
qed

definition inside :: "graph \<Rightarrow> (nat \<times> nat) set" where
  "inside g = {(a, c). c \<in> set (children (node_at g a))}"

lemma inside_container: "(a, c) \<in> inside g \<Longrightarrow> is_container (node_at g a)"
  by (cases "node_at g a") (auto simp: inside_def)

lemma below_sound:
  assumes "json_below g active a" "(a, b) \<in> (inside g)\<^sup>*"
  shows "node_ok (node_at g b) \<and> (is_container (node_at g b) \<longrightarrow> b \<notin> active) \<and> (b, b) \<notin> (inside g)\<^sup>+"
  using assms
proof (induction g active a arbitrary: b rule: json_below.induct)
  case (1 g active a)
  have step: "node_ok (node_at g b) \<and> (is_container (node_at g b) \<longrightarrow> b \<notin> insert a active) \<and> (b, b) \<notin> (inside g)\<^sup>+"
    if "(a, c) \<in> inside g" "(c, b) \<in> (inside g)\<^sup>*" for b c
    using 1 that inside_container [OF that(1)] by (fastforce simp: json_below.simps [of g active a] inside_def)
  have "(a, a) \<notin> (inside g)\<^sup>+"
  proof
    assume "(a, a) \<in> (inside g)\<^sup>+"
    then obtain c where "(a, c) \<in> inside g" "(c, a) \<in> (inside g)\<^sup>*" by (blast dest: tranclD)
    from step [OF this] inside_container [OF this(1)] show False by simp
  qed
  moreover have "node_ok (node_at g a)" "is_container (node_at g a) \<longrightarrow> a \<notin> active"
    using 1(2) by (auto simp: json_below.simps [of g active a] split: if_splits)
  ultimately show ?case using 1(3) step by (auto elim: converse_rtranclE)
qed

lemma below_complete:
  assumes "(inside g)\<^sup>* `` {a} \<subseteq> {b. node_ok (node_at g b) \<and> (b, b) \<notin> (inside g)\<^sup>+}"
    and "\<And>b. (a, b) \<in> (inside g)\<^sup>* \<Longrightarrow> b \<notin> active"
  shows "json_below g active a"
  using assms
proof (induction g active a rule: json_below.induct)
  case (1 g active a)
  have ok: "node_ok (node_at g a)" "a \<notin> active" "(a, a) \<notin> (inside g)\<^sup>+" using 1(2,3) by auto
  have "json_below g (insert a active) c" if c: "c \<in> set (children (node_at g a))" "is_container (node_at g a)" for c
  proof (rule 1(1) [OF c(2) ok(2) c(1)])
    have ac: "(a, c) \<in> inside g" using c by (simp add: inside_def)
    show "(inside g)\<^sup>* `` {c} \<subseteq> {b. node_ok (node_at g b) \<and> (b, b) \<notin> (inside g)\<^sup>+}"
      using 1(2) ac by (auto intro: converse_rtrancl_into_rtrancl)
    show "b \<notin> insert a active" if "(c, b) \<in> (inside g)\<^sup>*" for b
      using 1(3) ac that ok(3) by (auto intro: converse_rtrancl_into_rtrancl rtrancl_into_trancl2)
  qed
  with ok show ?case by (simp add: json_below.simps [of g active a])
qed

text \<open>
  C19. The walk over what a deserializer returned ends, on cyclic values too, and accepts exactly the
  values that are finite trees of JSON: every object that can be reached is a list, a mapping with
  text keys, or a scalar of JSON, and none contains itself.
\<close>

theorem json_safe_is_exact:
  "json_safe g a \<longleftrightarrow> (inside g)\<^sup>* `` {a} \<subseteq> {b. node_ok (node_at g b) \<and> (b, b) \<notin> (inside g)\<^sup>+}"
proof
  assume "json_safe g a"
  then have "json_below g {} a" by (simp add: json_safe_def walk_is_recursive del: json_walk.simps(2))
  then show "(inside g)\<^sup>* `` {a} \<subseteq> {b. node_ok (node_at g b) \<and> (b, b) \<notin> (inside g)\<^sup>+}"
    using below_sound by blast
next
  assume "(inside g)\<^sup>* `` {a} \<subseteq> {b. node_ok (node_at g b) \<and> (b, b) \<notin> (inside g)\<^sup>+}"
  then have "json_below g {} a" by (rule below_complete) simp
  then show "json_safe g a" by (simp add: json_safe_def walk_is_recursive del: json_walk.simps(2))
qed

section \<open>The value\<close>

text \<open>The tree an accepted object is; the depth is at most the number of objects.\<close>

fun value_at :: "graph \<Rightarrow> nat \<Rightarrow> nat \<Rightarrow> pyval" where
  "value_at g 0 a = PNone"
| "value_at g (Suc n) a = (case node_at g a of
     Node_list as \<Rightarrow> PList (map (value_at g n) as)
   | Node_map kvs \<Rightarrow> PDict (map (\<lambda>(k, b). (k, value_at g n b)) kvs)
   | Node_leaf v \<Rightarrow> v)"

definition json_value :: "graph \<Rightarrow> nat \<Rightarrow> pyval" where
  "json_value g a = value_at g (Suc (length g)) a"

lemma value_at_enough:
  "json_below g active a \<Longrightarrow> outside g active < n \<Longrightarrow> value_at g (n + k) a = value_at g n a"
proof (induction g active a arbitrary: n rule: json_below.induct)
  case (1 g active a)
  obtain m where n: "n = Suc m" using 1(3) by (cases n) auto
  have "value_at g (m + k) c = value_at g m c" if c: "c \<in> set (children (node_at g a))" "is_container (node_at g a)" for c
  proof -
    have a: "a \<notin> active" "json_below g (insert a active) c"
      using 1(2) c by (auto simp: json_below.simps [of g active a] split: if_splits)
    show ?thesis by (rule 1(1) [OF c(2) a(1) c(1) a(2)]) (use 1(3) n outside_enter [OF c(2) a(1)] in simp)
  qed
  then have "\<forall>c \<in> set (children (node_at g a)). is_container (node_at g a) \<longrightarrow> value_at g (m + k) c = value_at g m c"
    by blast
  then show ?case by (cases "node_at g a") (force simp: n)+
qed

lemma json_value_enough: "json_safe g a \<Longrightarrow> value_at g (Suc (length g) + k) a = json_value g a"
  unfolding json_value_def json_safe_def
  by (rule value_at_enough [of g "{}"])
    (simp_all add: walk_is_recursive outside_def del: json_walk.simps(2))

text \<open>A list that contains itself is refused, one that occurs twice is not.\<close>

lemma json_examples:
  "\<not> json_safe [Node_list [1], Node_list [0]] 0"
  "json_safe [Node_list [1, 1], Node_list []] 0"
  "\<not> json_safe [Node_map [(PInt 1, 1)], Node_leaf PNone] 0"
  by code_simp+

end
