(* ===== verification/Base64.thy ===== *)
theory Base64
  imports PyString
begin

text \<open>
  \<open>base64.b64encode(data).decode('ascii')\<close> of the standard library, with the decoder that undoes it.
  The gRPC client writes the bodies of its peers this way.
\<close>

definition BASE64_ALPHABET :: string where
  "BASE64_ALPHABET = ''ABCDEFGHIJKLMNOPQRSTUVWXYZabcdefghijklmnopqrstuvwxyz0123456789+/''"

abbreviation sextet :: "nat \<Rightarrow> char" where
  "sextet n \<equiv> BASE64_ALPHABET ! n"

fun b64encode :: "string \<Rightarrow> string" where
  "b64encode [] = []"
| "b64encode [x] = (let a = ord_of x in [sextet (a div 4), sextet (a mod 4 * 16), CHR ''='', CHR ''=''])"
| "b64encode [x, y] = (let a = ord_of x; b = ord_of y in
     [sextet (a div 4), sextet (a mod 4 * 16 + b div 16), sextet (b mod 16 * 4), CHR ''=''])"
| "b64encode (x # y # z # rest) = (let a = ord_of x; b = ord_of y; c = ord_of z in
     [sextet (a div 4), sextet (a mod 4 * 16 + b div 16), sextet (b mod 16 * 4 + c div 64), sextet (c mod 64)]
     @ b64encode rest)"

text \<open>The decoder, on what the encoder writes.\<close>

fun index_in :: "string \<Rightarrow> char \<Rightarrow> nat" where
  "index_in [] c = 0"
| "index_in (x # xs) c = (if x = c then 0 else Suc (index_in xs c))"

abbreviation value_of :: "char \<Rightarrow> nat" where
  "value_of c \<equiv> index_in BASE64_ALPHABET c"

fun b64decode :: "string \<Rightarrow> string" where
  "b64decode (p # q # r # s # rest) =
     (let a = char_of (value_of p * 4 + value_of q div 16);
          b = char_of (value_of q mod 16 * 16 + value_of r div 4);
          c = char_of (value_of r mod 4 * 64 + value_of s)
      in if r = CHR ''='' then [a] else if s = CHR ''='' then [a, b] else a # b # c # b64decode rest)"
| "b64decode _ = []"

lemma alphabet_all: "\<forall>n \<in> set [0..<64]. value_of (sextet n) = n \<and> sextet n \<noteq> CHR ''=''"
  by code_simp

lemma value_of_sextet [simp]: "n < 64 \<Longrightarrow> value_of (sextet n) = n"
  and sextet_no_pad [simp]: "n < 64 \<Longrightarrow> sextet n \<noteq> CHR ''=''"
  using alphabet_all by simp_all

lemma ord_of_byte: "ord_of c < 256"
  unfolding ord_of_def using of_char_mod_256 [of c, where ?'a = nat] by (metis mod_less_divisor zero_less_numeral)

lemma split_digits: "y < k \<Longrightarrow> (x * k + y) div k = x" "y < k \<Longrightarrow> (x * k + y) mod k = y" for x y k :: nat
  by simp_all

lemma byte_parts: "b div 16 < 16" "b div 64 < 4" if "b < 256" for b :: nat
  using that by (simp_all add: less_mult_imp_div_less)

lemma first_byte: "b < 256 \<Longrightarrow> a div 4 * 4 + (a mod 4 * 16 + b div 16) div 16 = a" for a b :: nat
  unfolding split_digits(1) [OF byte_parts(1)] by simp

lemma second_byte:
  "b < 256 \<Longrightarrow> c < 256 \<Longrightarrow> (a mod 4 * 16 + b div 16) mod 16 * 16 + (b mod 16 * 4 + c div 64) div 4 = b" for a b c :: nat
  unfolding split_digits(1) [OF byte_parts(2)] split_digits(2) [OF byte_parts(1)] by simp

lemma third_byte: "c < 256 \<Longrightarrow> (b mod 16 * 4 + c div 64) mod 4 * 64 + c mod 64 = c" for b c :: nat
  unfolding split_digits(2) [OF byte_parts(2)] by simp

lemma in_range: "a mod 4 * 16 < 64" "b mod 16 * 4 < 64" for a b :: nat
  using mod_less_divisor [of 4 a] mod_less_divisor [of 16 b] by linarith+

lemma byte_range: "a div 4 < 64" "x mod 4 * 16 + a div 16 < 64" "x mod 16 * 4 + a div 64 < 64" if "a < 256" for a x :: nat
proof -
  show "a div 4 < 64" using that by (simp add: less_mult_imp_div_less)
  show "x mod 4 * 16 + a div 16 < 64" using byte_parts(1) [OF that] mod_less_divisor [of 4 x] by linarith
  show "x mod 16 * 4 + a div 64 < 64" using byte_parts(2) [OF that] mod_less_divisor [of 16 x] by linarith
qed

theorem b64_round_trip: "b64decode (b64encode s) = s"
proof (induction s rule: b64encode.induct)
  case (2 x)
  then show ?case using in_range byte_range [OF ord_of_byte] first_byte [of 0 "ord_of x"]
    by (simp add: Let_def ord_of_def)
next
  case (3 x y)
  then show ?case
    using in_range byte_range [OF ord_of_byte] first_byte [OF ord_of_byte [of y], of "ord_of x"] second_byte [OF ord_of_byte [of y], of 0 "ord_of x"]
    by (simp add: Let_def ord_of_def)
next
  case (4 x y z rest)
  then show ?case
    using in_range byte_range [OF ord_of_byte] first_byte [OF ord_of_byte [of y], of "ord_of x"]
      second_byte [OF ord_of_byte [of y] ord_of_byte [of z], of "ord_of x"] third_byte [OF ord_of_byte [of z], of "ord_of y"]
    by (simp add: Let_def ord_of_def)
qed simp

end
