(* ===== verification/Grpc.thy ===== *)
theory Grpc
  imports Services Json_Safe Base64
begin

text \<open>
  \<open>logic/grpc_client.py\<close>: the checks on method, metadata and limits, the target, the preflight that
  comes before the breaker is looked up, what is shown of the peer's metadata, the attempt, the
  statuses, and the lifecycle of the channel. What \<open>grpc.aio\<close> answers is an argument; the calls on it
  are logged, and so is what is written to the envelope, in order.
\<close>

section \<open>Constants\<close>

definition GRPC_INFO_KEYS :: "string list" where
  "GRPC_INFO_KEYS = [''method'', ''metadata'', ''request_serializer'', ''response_deserializer'', ''timeout'',
     ''max_response_bytes'', ''circuit_breaker_config'', ''redact_query_params'']"

text \<open>The members of \<open>grpc.StatusCode\<close>, by name.\<close>

definition GRPC_RETRYABLE_STATUSES :: "string list" where
  "GRPC_RETRYABLE_STATUSES = [''UNKNOWN'', ''DEADLINE_EXCEEDED'', ''INTERNAL'', ''UNAVAILABLE'']"

definition GRPC_HTTP_STATUS :: "(string, int) dict" where
  "GRPC_HTTP_STATUS =
    [(''CANCELLED'', 499), (''UNKNOWN'', 502), (''INVALID_ARGUMENT'', 400), (''DEADLINE_EXCEEDED'', 504),
     (''NOT_FOUND'', 404), (''ALREADY_EXISTS'', 409), (''PERMISSION_DENIED'', 403), (''RESOURCE_EXHAUSTED'', 429),
     (''FAILED_PRECONDITION'', 412), (''ABORTED'', 409), (''OUT_OF_RANGE'', 400), (''UNIMPLEMENTED'', 501),
     (''INTERNAL'', 500), (''UNAVAILABLE'', 503), (''DATA_LOSS'', 500), (''UNAUTHENTICATED'', 401)]"

definition MAX_REQUEST_METADATA_PAIRS :: int where
  "MAX_REQUEST_METADATA_PAIRS = 64"

definition MAX_REQUEST_METADATA_VALUE :: int where
  "MAX_REQUEST_METADATA_VALUE = 8192"

definition MAX_REQUEST_METADATA_TOTAL :: int where
  "MAX_REQUEST_METADATA_TOTAL = 32768"

definition MAX_PEER_METADATA_PAIRS :: nat where
  "MAX_PEER_METADATA_PAIRS = 64"

definition PEER_REDACTED :: string where
  "PEER_REDACTED = ''***''"

definition GRPC_MAX_RECEIVE_BYTES :: int where
  "GRPC_MAX_RECEIVE_BYTES = 2 ^ 31 - 1"

section \<open>Options\<close>

text \<open>
  What is asked of the caller's objects: whether a callable is a coroutine function, the bytes of a
  buffer, and what a call of the serializer gives.
\<close>

datatype serialized = Serializer_raised | Serializer_awaitable | Serialized pyval

record grpc_objects =
  go_async :: "pyval \<Rightarrow> bool"
  go_buffer :: "pyval \<Rightarrow> string option"
  go_serialize :: "pyval \<Rightarrow> pyval \<Rightarrow> serialized"

definition validated_sync_callable :: "grpc_objects \<Rightarrow> pyval \<Rightarrow> exn + pyval" where
  "validated_sync_callable g v =
     rbind (ensure (is_callable v) config_error) (\<lambda>_. rbind (ensure (\<not> go_async g v) config_error) (\<lambda>_. Inr v))"

definition is_word_char :: "char \<Rightarrow> bool" where
  "is_word_char c \<longleftrightarrow> is_ascii_alpha c \<or> c = CHR ''_''"

definition is_identifier :: "string \<Rightarrow> bool" where
  "is_identifier s = (case s of
     [] \<Rightarrow> False | c # cs \<Rightarrow> is_word_char c \<and> list_all (\<lambda>c. is_word_char c \<or> is_digit c) cs)"

text \<open>\<open>_METHOD\<close>: a dotted name of two parts or more, and a name, each behind a slash.\<close>

definition method_ok :: "string \<Rightarrow> bool" where
  "method_ok s = (case str_split (CHR ''/'') s of
     [[], service, name] \<Rightarrow>
       length (str_split (CHR ''.'') service) \<ge> 2 \<and> list_all is_identifier (str_split (CHR ''.'') service) \<and>
       is_identifier name
   | _ \<Rightarrow> False)"

definition validated_method :: "pyval \<Rightarrow> exn + string" where
  "validated_method v = (case v of PStr s \<Rightarrow> if method_ok s then Inr s else Inl config_error | _ \<Rightarrow> Inl config_error)"

definition metadata_key_ok :: "string \<Rightarrow> bool" where
  "metadata_key_ok k \<longleftrightarrow>
     k \<noteq> [] \<and> length k \<le> 64 \<and>
     list_all (\<lambda>c. is_digit c \<or> 97 \<le> ord_of c \<and> ord_of c \<le> 122 \<or> c \<in> set ''_.-'') k \<and>
     \<not> starts_with ''grpc-'' k \<and> \<not> ends_with ''-bin'' k"

definition metadata_value_ok :: "string \<Rightarrow> bool" where
  "metadata_value_ok v \<longleftrightarrow>
     int (length v) \<le> MAX_REQUEST_METADATA_VALUE \<and> list_all (\<lambda>c. 32 \<le> ord_of c \<and> ord_of c \<le> 126) v"

text \<open>A sequence that is neither text nor bytes.\<close>

fun is_bytes :: "pyval \<Rightarrow> bool" where
  "is_bytes (PBytes _) = True"
| "is_bytes _ = False"

definition is_items :: "pyval \<Rightarrow> bool" where
  "is_items v \<longleftrightarrow> is_sequence v \<and> \<not> is_str v \<and> \<not> is_bytes v"

definition validated_pair :: "pyval \<Rightarrow> exn + (string \<times> string)" where
  "validated_pair pair =
     (if \<not> is_items pair then Inl config_error
      else (case elements pair of
         [PStr k, PStr v] \<Rightarrow>
           rbind (ensure (metadata_key_ok k) config_error) (\<lambda>_.
           rbind (ensure (metadata_value_ok v) config_error) (\<lambda>_. Inr (k, v)))
       | _ \<Rightarrow> Inl config_error))"

fun validated_pairs :: "int \<Rightarrow> pyval list \<Rightarrow> exn + (string \<times> string) list" where
  "validated_pairs total_length [] = Inr []"
| "validated_pairs total_length (pair # pairs) =
     rbind (validated_pair pair) (\<lambda>(k, v).
     let total_length = total_length + int (length v) in
     rbind (ensure (total_length \<le> MAX_REQUEST_METADATA_TOTAL) config_error) (\<lambda>_.
     rbind (validated_pairs total_length pairs) (\<lambda>rest. Inr ((k, v) # rest))))"

definition validated_metadata :: "pyval \<Rightarrow> exn + (string \<times> string) list" where
  "validated_metadata v =
     (if v = PNone then Inr []
      else if \<not> is_items v then Inl config_error
      else rbind (ensure (int (length (elements v)) \<le> MAX_REQUEST_METADATA_PAIRS) config_error) (\<lambda>_.
        validated_pairs 0 (elements v)))"

definition validated_grpc_timeout :: "pyval \<Rightarrow> exn + pyfloat" where
  "validated_grpc_timeout v =
     rbind (validated_timeout v) (\<lambda>t. case t of FFin _ \<Rightarrow> Inr t | _ \<Rightarrow> Inl config_error)"

definition validated_grpc_max_response_bytes :: "pyval \<Rightarrow> exn + int" where
  "validated_grpc_max_response_bytes v =
     rbind (validated_max_response_bytes v) (\<lambda>n. rbind (ensure (n \<le> GRPC_MAX_RECEIVE_BYTES) config_error) (\<lambda>_. Inr n))"

definition metadata_val :: "(string \<times> string) list \<Rightarrow> pyval" where
  "metadata_val pairs = PTuple (map (\<lambda>(k, v). PTuple [PStr k, PStr v]) pairs)"

definition checked_callable :: "grpc_objects \<Rightarrow> string \<Rightarrow> pyval \<Rightarrow> exn + pyval" where
  "checked_callable g k info =
     (if dhas info k then rbind (validated_sync_callable g (dget_or info k PNone)) (\<lambda>v. Inr (info_set info k v))
      else Inr info)"

definition validated_grpc_info :: "grpc_objects \<Rightarrow> pyval \<Rightarrow> exn + (pyval \<times> bool)" where
  "validated_grpc_info g info =
     rbind (validated_protocol_info info [''method''] (Some GRPC_INFO_KEYS) (Some GRPC_INFO_KEYS)) (\<lambda>(info, warned).
     rbind (validated_method (dget_or info ''method'' PNone)) (\<lambda>m.
     rbind (validated_metadata (dget_or info ''metadata'' PNone)) (\<lambda>pairs.
     rbind (validated_grpc_timeout (dget_or info ''timeout'' (PInt HTTP_TIMEOUT))) (\<lambda>t.
     rbind (validated_grpc_max_response_bytes (dget_or info ''max_response_bytes'' (PInt MAX_RESPONSE_BYTES))) (\<lambda>cap.
     rbind (checked_callable g ''request_serializer''
       (info_set (info_set (info_set (info_set info ''method'' (PStr m)) ''metadata'' (metadata_val pairs))
          ''timeout'' (PFloat t)) ''max_response_bytes'' (PInt cap))) (\<lambda>info.
     rbind (checked_callable g ''response_deserializer'' info) (\<lambda>info. Inr (info, warned))))))))"

section \<open>The constructor\<close>

definition grpc_target :: "(string \<Rightarrow> bool) \<Rightarrow> string \<Rightarrow> exn + (string \<times> string)" where
  "grpc_target ip6 url =
     (if CHR ''?'' \<in> set url \<or> CHR ''#'' \<in> set url then Inl config_error
      else (case rbind (urlsplit ip6 [] url) (\<lambda>parts. rbind (su_port parts) (\<lambda>port. Inr (parts, port))) of
         Inl e \<Rightarrow> Inl (if exn_class e = Ext ''ValueError'' then config_error else e)
       | Inr (parts, port) \<Rightarrow>
           rbind (ensure (str_lower (su_scheme parts) \<in> {''grpc'', ''grpcs''}) config_error) (\<lambda>_.
           rbind (ensure (su_hostname parts \<noteq> None) config_error) (\<lambda>_.
           rbind (ensure (CHR ''@'' \<notin> set (su_netloc parts)) config_error) (\<lambda>_.
           rbind (ensure (su_path parts = []) config_error) (\<lambda>_.
           rbind (ensure (case port of Some n \<Rightarrow> 1 \<le> n \<and> n \<le> 65535 | None \<Rightarrow> False) config_error) (\<lambda>_.
           Inr (str_lower (su_scheme parts), su_netloc parts))))))))"

definition request_body :: "grpc_objects \<Rightarrow> pyval \<Rightarrow> pyval \<Rightarrow> exn + string" where
  "request_body g info payload =
     (if dget_or info ''request_serializer'' PNone = PNone
      then (case payload of
          PBytes s \<Rightarrow> Inr s
        | _ \<Rightarrow> (case go_buffer g payload of Some s \<Rightarrow> Inr s | None \<Rightarrow> Inl config_error))
      else (case go_serialize g (dget_or info ''request_serializer'' PNone) payload of
          Serializer_raised \<Rightarrow> Inl config_error
        | Serializer_awaitable \<Rightarrow> Inl config_error
        | Serialized v \<Rightarrow> (case v of PBytes s \<Rightarrow> Inr s | _ \<Rightarrow> Inl config_error)))"

record grpc_request =
  gq_base :: base_request
  gq_scheme :: string
  gq_target :: string
  gq_method :: string
  gq_metadata :: "(string \<times> string) list"
  gq_body :: string
  gq_deadline :: pyval
  gq_cap :: int
  gq_deserializer :: pyval
  gq_sensitive :: "string list"
  gq_secrets :: "string list"

definition metadata_pairs :: "pyval \<Rightarrow> (string \<times> string) list" where
  "metadata_pairs v = map (\<lambda>pair. case elements pair of [k, w] \<Rightarrow> (str_of_val k, str_of_val w) | _ \<Rightarrow> ([], [])) (elements v)"

definition sensitive_key :: "string list \<Rightarrow> string \<Rightarrow> bool" where
  "sensitive_key names key =
     (let folded = str_casefold key
      in (if ends_with ''-bin'' folded then take (length folded - 4) folded else folded) \<in> set names)"

definition grpc_sensitive_names :: "string list \<Rightarrow> string list" where
  "grpc_sensitive_names redact_params = map str_casefold (SENSITIVE_NAMES @ SENSITIVE_HEADERS @ redact_params)"

definition grpc_request_of :: "string \<Rightarrow> string \<Rightarrow> string \<Rightarrow> base_request \<Rightarrow> grpc_request" where
  "grpc_request_of scheme target body b =
     (let info = br_info b; names = grpc_sensitive_names (br_redact b);
          pairs = metadata_pairs (dget_or info ''metadata'' PNone) in
      \<lparr>gq_base = b, gq_scheme = scheme, gq_target = target,
       gq_method = str_of_val (dget_or info ''method'' PNone), gq_metadata = pairs, gq_body = body,
       gq_deadline = dget_or info ''timeout'' PNone, gq_cap = int_of_val (dget_or info ''max_response_bytes'' PNone),
       gq_deserializer = dget_or info ''response_deserializer'' PNone, gq_sensitive = names,
       gq_secrets = longest_first (map snd (filter (\<lambda>(k, v). v \<noteq> [] \<and> sensitive_key names k) pairs))\<rparr>)"

text \<open>Target, credentials and body are settled before the breaker of the destination is looked up.\<close>

definition grpc_preflight ::
  "(string \<Rightarrow> bool) \<Rightarrow> grpc_objects \<Rightarrow> string \<Rightarrow> pyval \<Rightarrow> envelope \<Rightarrow> pyval \<Rightarrow> exn + (string \<times> string \<times> string)" where
  "grpc_preflight ip6 g url auth response info =
     rbind (grpc_target ip6 url) (\<lambda>(scheme, target).
     rbind (ensure (auth = PNone) config_error) (\<lambda>_.
     rbind (request_body g (PDict (entries info)) (env_payload response)) (\<lambda>body. Inr (scheme, target, body))))"

definition new_grpc_request ::
  "(string \<Rightarrow> bool) \<Rightarrow> grpc_objects \<Rightarrow> rat \<Rightarrow> pyval \<Rightarrow> pyval
    \<Rightarrow> string \<Rightarrow> pyval \<Rightarrow> envelope \<Rightarrow> pyval \<Rightarrow> string list \<Rightarrow> registry \<Rightarrow> (exn + grpc_request) \<times> registry" where
  "new_grpc_request ip6 g now clock sleep url auth response info redact_params reg =
     (case grpc_preflight ip6 g url auth response info of
        Inl e \<Rightarrow> (Inl e, reg)
      | Inr (scheme, target, body) \<Rightarrow>
          let (b, reg') = new_request ip6 now clock sleep url auth response (PDict (entries info)) redact_params reg
          in (rbind b (\<lambda>b. Inr (grpc_request_of scheme target body b)), reg'))"

section \<open>What is shown of the peer\<close>

definition grpc_text :: "grpc_request \<Rightarrow> string \<Rightarrow> string" where
  "grpc_text q s = hide_secrets (gq_secrets q) PEER_REDACTED (redact_text s (br_redact (gq_base q)))"

datatype peer_value = Peer_text string | Peer_bytes string

type_synonym peer_metadata = "(string \<times> peer_value) list"

definition peer_item :: "grpc_request \<Rightarrow> string \<times> peer_value \<Rightarrow> pyval" where
  "peer_item q = (\<lambda>(key, v).
     let (shown, encoding) =
       (if sensitive_key (gq_sensitive q) key then (PEER_REDACTED, PNone)
        else (case v of
            Peer_bytes s \<Rightarrow> (b64encode s, PStr ''base64'')
          | Peer_text s \<Rightarrow> (grpc_text q s, PNone)))
     in PDict [(PStr ''key'', PStr (grpc_text q key)), (PStr ''value'', PStr shown), (PStr ''encoding'', encoding)])"

definition shown_metadata :: "grpc_request \<Rightarrow> peer_metadata \<Rightarrow> pyval list \<times> int" where
  "shown_metadata q pairs =
     (map (peer_item q) (take MAX_PEER_METADATA_PAIRS pairs),
      max 0 (int (length pairs) - int MAX_PEER_METADATA_PAIRS))"

record peer_view =
  pv_initial :: "pyval list \<times> int"
  pv_trailing :: "pyval list \<times> int"

definition grpc_details :: "grpc_request \<Rightarrow> string \<Rightarrow> pyval \<Rightarrow> pyval \<Rightarrow> peer_view \<Rightarrow> (string, pyval) dict" where
  "grpc_details q status_name detail encoding view =
     [(''method'', PStr (grpc_text q (gq_method q))), (''grpc_status'', PStr status_name), (''grpc_details'', detail),
      (''response_encoding'', encoding), (''initial_metadata'', PList (fst (pv_initial view))),
      (''trailing_metadata'', PList (fst (pv_trailing view))),
      (''initial_metadata_omitted'', PInt (snd (pv_initial view))),
      (''trailing_metadata_omitted'', PInt (snd (pv_trailing view)))]"

section \<open>The attempt\<close>

text \<open>
  What an answered call gives, and what an \<open>AioRpcError\<close> tells; then everything the client takes
  from outside: opening the channel, the outcome of each attempt, how often the caller is cancelled
  while the channel closes and what closing raises, and the deserializer of the caller.
\<close>

record grpc_reply =
  gy_response :: pyval
  gy_initial :: peer_metadata
  gy_trailing :: peer_metadata

record grpc_failure =
  gf_code :: string
  gf_details :: pyval
  gf_initial :: peer_metadata
  gf_trailing :: peer_metadata

datatype deserialized = Deserializer_raised | Deserializer_awaitable | Deserialized graph nat

record grpc_peer =
  gp_failsafe :: failsafe
  gp_open :: "exc_obj option"
  gp_turns :: "grpc_reply turn list"
  gp_failure :: "exc_obj \<Rightarrow> grpc_failure"
  gp_interrupts :: nat
  gp_close :: "exc_obj option"
  gp_deserialize :: "string \<Rightarrow> deserialized"

record grpc_snapshot =
  sn_status :: string
  sn_details :: pyval
  sn_view :: peer_view

definition view_of :: "grpc_request \<Rightarrow> peer_metadata \<Rightarrow> peer_metadata \<Rightarrow> peer_view" where
  "view_of q initial trailing = \<lparr>pv_initial = shown_metadata q initial, pv_trailing = shown_metadata q trailing\<rparr>"

definition status_snapshot :: "grpc_request \<Rightarrow> grpc_failure \<Rightarrow> grpc_snapshot" where
  "status_snapshot q f =
     \<lparr>sn_status = (if gf_code f \<in> set (dict_keys GRPC_HTTP_STATUS) then gf_code f else ''UNKNOWN''),
      sn_details = (case gf_details f of PStr s \<Rightarrow> PStr (grpc_text q s) | _ \<Rightarrow> PNone),
      sn_view = view_of q (gf_initial f) (gf_trailing f)\<rparr>"

definition local_resource_exhausted :: "grpc_request \<Rightarrow> grpc_reply \<Rightarrow> grpc_snapshot" where
  "local_resource_exhausted q answered =
     \<lparr>sn_status = ''RESOURCE_EXHAUSTED'', sn_details = PStr ''response exceeded max_response_bytes'',
      sn_view = view_of q (gy_initial answered) (gy_trailing answered)\<rparr>"

abbreviation "AioRpcError \<equiv> Ext ''grpc.aio.AioRpcError''"
abbreviation "RetryableGrpcStatusFailure \<equiv> Ext ''grpc_client._RetryableGrpcStatusFailure''"

definition abortable_status :: exc_obj where
  "abortable_status = new_gateway_error GrpcAbortableStatusFailure ''abortable gRPC status'' None"

definition retryable_status :: exc_obj where
  "retryable_status = private_error RetryableGrpcStatusFailure AsyncGatewayError ''retryable gRPC status''"

definition oversized :: "grpc_request \<Rightarrow> pyval \<Rightarrow> bool" where
  "oversized q response = (case response of PBytes s \<Rightarrow> int (length s) > gq_cap q | _ \<Rightarrow> False)"

definition grpc_attempt ::
  "grpc_peer \<Rightarrow> grpc_request \<Rightarrow> grpc_reply outcome \<Rightarrow> (pyval \<times> peer_view) outcome" where
  "grpc_attempt p q answer = (case answer of
     Returns answered \<Rightarrow>
       if oversized q (gy_response answered) then Raises abortable_status
       else Returns (gy_response answered, view_of q (gy_initial answered) (gy_trailing answered))
   | Raises e \<Rightarrow>
       if is_instance (ex_mro e) [CancelledError] then Raises e
       else if is_instance (ex_mro e) [AioRpcError] then
         Raises (if sn_status (status_snapshot q (gp_failure p e)) \<in> set GRPC_RETRYABLE_STATUSES
           then retryable_status else abortable_status)
       else Raises e)"

text \<open>The snapshot on the private exception of the last attempt.\<close>

definition snapshot_of :: "grpc_peer \<Rightarrow> grpc_request \<Rightarrow> grpc_reply turn option \<Rightarrow> grpc_snapshot" where
  "snapshot_of p q attempt = (case attempt of
     None \<Rightarrow> status_snapshot q \<lparr>gf_code = [], gf_details = PNone, gf_initial = [], gf_trailing = []\<rparr>
   | Some t \<Rightarrow> (case t_outcome t of
       Returns answered \<Rightarrow> local_resource_exhausted q answered
     | Raises e \<Rightarrow> status_snapshot q (gp_failure p e)))"

section \<open>The run\<close>

datatype grpc_event =
    Channel_opened bool string int
  | Called string string pyval "(string \<times> string) list"
  | Call_cancelled
  | Discarded_awaitable
  | Text_set string
  | Json_set pyval
  | Details_set "(string, pyval) dict"
  | Finalised
  | Channel_closed

definition public_status_error :: "grpc_request \<Rightarrow> grpc_snapshot \<Rightarrow> (grpc_event, 'a) script" where
  "public_status_error q s =
     sc_bind (sc_say (Text_set [])) (\<lambda>_.
     sc_bind (sc_say (Json_set PNone)) (\<lambda>_.
     sc_bind (sc_say (Details_set (grpc_details q (sn_status s) (sn_details s) PNone (sn_view s)))) (\<lambda>_.
     sc_throw (new_gateway_error GrpcStatusError
       (grpc_text q (''gRPC status '' @ sn_status s @ '' for method '' @ gq_method q))
       (map_of GRPC_HTTP_STATUS (sn_status s))))))"

definition grpc_error_class :: "exc_class list \<Rightarrow> exc_class" where
  "grpc_error_class mro =
     (if is_instance mro [Ext ''asyncio.TimeoutError'', Ext ''TimeoutError''] then GatewayTimeoutError
      else if is_instance mro [Ext ''ssl.SSLError''] then TlsError
      else if is_instance mro [Ext ''OSError''] then ConnectError
      else TransportError)"

definition grpc_transport_error :: "grpc_request \<Rightarrow> string \<Rightarrow> exc_class list \<Rightarrow> exc_obj" where
  "grpc_transport_error q url mro =
     new_gateway_error (grpc_error_class mro) (grpc_text q (''gRPC transport failed for '' @ url)) None"

text \<open>\<open>raise cause from None\<close>, after the handler: its context stays what it was.\<close>

definition sc_raise_bare :: "nat \<Rightarrow> ('e, 'a) script" where
  "sc_raise_bare i = (\<lambda>r. let xs = ru_store r in
     Some (Inl i, r\<lparr>ru_store := xs\<lparr>xs_heap := (xs_heap xs)(i := (xs_heap xs i)\<lparr>ex_cause := None\<rparr>)\<rparr>\<rparr>))"

definition was_cancelled :: "grpc_reply turn option \<Rightarrow> bool" where
  "was_cancelled attempt = (case attempt of
     Some t \<Rightarrow> (case t_outcome t of Raises e \<Rightarrow> is_instance (ex_mro e) [CancelledError] | Returns _ \<Rightarrow> False)
   | None \<Rightarrow> False)"

definition raise_grpc_error ::
  "grpc_peer \<Rightarrow> grpc_request \<Rightarrow> string \<Rightarrow> nat \<Rightarrow> grpc_reply turn option \<Rightarrow> (grpc_event, 'a) script" where
  "raise_grpc_error p q url err attempt = (\<lambda>r.
     let mro = sc_mro err r in
     if is_instance mro [CircuitOpen] then
       sc_throw (new_gateway_error CircuitOpenError (grpc_text q (''circuit open for '' @ url)) None) r
     else if is_instance mro [GrpcAbortableStatusFailure] then public_status_error q (snapshot_of p q attempt) r
     else if is_instance mro [RetriesExhausted] then
       (case ex_cause (xs_heap (ru_store r) err) of
          None \<Rightarrow> sc_throw (grpc_transport_error q url []) r
        | Some c \<Rightarrow>
            if is_instance (sc_mro c r) [RetryableGrpcStatusFailure] then public_status_error q (snapshot_of p q attempt) r
            else if is_instance (sc_mro c r) [AsyncGatewayError] then sc_raise_bare c r
            else sc_throw (grpc_transport_error q url (sc_mro c r)) r)
     else sc_raise err r)"

text \<open>A call that is cancelled is cancelled on the channel before the cancellation goes on.\<close>

definition run_grpc_attempts ::
  "grpc_peer \<Rightarrow> grpc_request \<Rightarrow> string \<Rightarrow> (grpc_event, pyval \<times> peer_view) script" where
  "run_grpc_attempts p q url =
     sc_bind (sc_attempts (gp_failsafe p) (Called (gq_method q) (gq_body q) (gq_deadline q) (gq_metadata q))
       (grpc_attempt p q) (gp_turns p)) (\<lambda>x.
     case x of
       Inr y \<Rightarrow> sc_return y
     | Inl (err, attempt) \<Rightarrow>
         sc_bind (if was_cancelled attempt then sc_say Call_cancelled else sc_return ()) (\<lambda>_.
         raise_grpc_error p q url err attempt))"

definition serialization_error :: "string \<Rightarrow> exc_obj" where
  "serialization_error message = new_gateway_error SerializationError message None"

definition deserialize :: "grpc_peer \<Rightarrow> grpc_request \<Rightarrow> string \<Rightarrow> (grpc_event, unit) script" where
  "deserialize p q raw =
     (if gq_deserializer q = PNone then sc_return ()
      else (case gp_deserialize p raw of
         Deserializer_raised \<Rightarrow> sc_throw (serialization_error ''gRPC response_deserializer failed'')
       | Deserializer_awaitable \<Rightarrow>
           sc_bind (sc_say Discarded_awaitable) (\<lambda>_.
           sc_throw (serialization_error ''gRPC response_deserializer must be synchronous''))
       | Deserialized g a \<Rightarrow>
           if json_safe g a then sc_say (Json_set (json_value g a))
           else sc_throw (serialization_error ''gRPC response_deserializer returned non-JSON-safe data'')))"

definition show_grpc_answer :: "grpc_peer \<Rightarrow> grpc_request \<Rightarrow> pyval \<times> peer_view \<Rightarrow> (grpc_event, unit) script" where
  "show_grpc_answer p q = (\<lambda>(response, view). case response of
     PBytes raw \<Rightarrow>
       sc_bind (sc_say (Text_set (b64encode raw))) (\<lambda>_.
       sc_bind (sc_say (Json_set PNone)) (\<lambda>_.
       sc_bind (sc_say (Details_set (grpc_details q ''OK'' PNone (PStr ''base64'') view))) (\<lambda>_.
       sc_bind (deserialize p q raw) (\<lambda>_. sc_say Finalised))))
   | _ \<Rightarrow>
       sc_bind (sc_say (Details_set (grpc_details q ''OK'' PNone PNone view))) (\<lambda>_.
       sc_throw (serialization_error ''gRPC peer returned a non-bytes response'')))"

definition grpc_execute :: "grpc_peer \<Rightarrow> grpc_request \<Rightarrow> string \<Rightarrow> (grpc_event, unit) script" where
  "grpc_execute p q url = sc_bind (run_grpc_attempts p q url) (show_grpc_answer p q)"

text \<open>Closing a channel is told of no failure and suppresses none.\<close>

definition channel_farewell :: "grpc_peer \<Rightarrow> farewell" where
  "channel_farewell p =
     \<lparr>fw_interrupts = gp_interrupts p, fw_outcome = (case gp_close p of None \<Rightarrow> Inr False | Some e \<Rightarrow> Inl e),
      fw_touches = (\<lambda>e. e)\<rparr>"

definition open_channel :: "grpc_peer \<Rightarrow> grpc_request \<Rightarrow> string \<Rightarrow> (grpc_event, unit) script" where
  "open_channel p q url =
     sc_catch (sc_await (Channel_opened (gq_scheme q = ''grpcs'') (gq_target q) (gq_cap q)) (raised (gp_open p)))
       (\<lambda>i r. if is_instance (sc_mro i r) [Ext ''asyncio.TimeoutError'', Ext ''OSError'']
         then sc_throw (grpc_transport_error q url (sc_mro i r)) r else sc_raise i r)"

definition run_channel :: "grpc_peer \<Rightarrow> grpc_request \<Rightarrow> string \<Rightarrow> (grpc_event, unit) script" where
  "run_channel p q url =
     sc_bind (open_channel p q url) (\<lambda>_.
     sc_lifecycle Channel_closed (channel_farewell p) cancelled_error (grpc_execute p q url))"

section \<open>The request\<close>

text \<open>What is written to the envelope, in the order it is written.\<close>

definition shown_by :: "(pyval \<Rightarrow> string) \<Rightarrow> rat \<Rightarrow> rat \<Rightarrow> grpc_event \<Rightarrow> envelope \<Rightarrow> envelope" where
  "shown_by str_of now started ev env = (case ev of
     Text_set s \<Rightarrow> env\<lparr>env_text := s\<rparr>
   | Json_set v \<Rightarrow> env\<lparr>env_json := v\<rparr>
   | Details_set d \<Rightarrow> env\<lparr>env_details := d\<rparr>
   | Finalised \<Rightarrow> finalise_ok str_of now 200 started env
   | _ \<Rightarrow> env)"

definition handle_grpc_request ::
  "grpc_peer \<Rightarrow> (pyval \<Rightarrow> string) \<Rightarrow> rat \<Rightarrow> grpc_request \<Rightarrow> breaker \<Rightarrow> envelope \<Rightarrow> exc_store
    \<Rightarrow> (exchanged \<times> grpc_event list) option" where
  "handle_grpc_request p str_of now q b env xs =
     (case run_channel p q (env_url env) \<lparr>ru_log = [], ru_store = xs, ru_breaker = b\<rparr> of
        None \<Rightarrow> None
      | Some (x, r) \<Rightarrow>
          let shown = fold (shown_by str_of now (br_start (gq_base q))) (ru_log r) env
          in Some ((case x of Inl i \<Rightarrow> Some i | Inr _ \<Rightarrow> None,
            shown\<lparr>env_url := grpc_text q (env_url shown)\<rparr>, ru_store r, ru_breaker r), ru_log r))"

end
