(* ===== verification/Runs.thy ===== *)
theory Runs
  imports Services
begin

text \<open>
  What a run of attempts under the breaker gives: a value is one that an attempt returned.
\<close>

lemma finish_returned: "finish_call fs cb now out n tr b = (b', Done (Returned x)) \<Longrightarrow> out = Returns x"
  by (auto simp: finish_call_def Let_def split: outcome.splits if_splits option.splits)

lemma run_alone_returned: "run_alone fs b n recent ts = Some (b', Returned x) \<Longrightarrow> \<exists>t \<in> set ts. t_outcome t = Returns x"
proof (induction fs b n recent ts rule: attempts_made.induct)
  case (2 fs b attempts recent t ts)
  obtain b1 p where p: "begin_attempt (t_enter t) b attempts recent = (b1, p :: 'a pc)" by fastforce
  show ?case
  proof (cases p)
    case (InCall m r trialling)
    obtain b2 q where q: "finish_call fs (t_callbacks t) (t_failed t) (t_outcome t) m trialling b1 = (b2, q)"
      by fastforce
    show ?thesis
    proof (cases q)
      case (InSleep m' e' tr d)
      with 2 p q InCall show ?thesis by (fastforce split: option.splits)
    next
      case (Done g)
      with 2(2) p q InCall finish_returned show ?thesis by fastforce
    qed (use 2(2) p q InCall in simp_all)
  next
    case (Done g)
    with 2(2) p show ?thesis by (auto simp: begin_attempt_def split: prod.splits if_splits)
  qed (use 2(2) p in simp_all)
qed simp

lemma attempts_value:
  assumes "sc_attempts fs ev attempt turns r = Some (Inr (Inr y), r')"
  shows "\<exists>t \<in> set turns. attempt (t_outcome t) = Returns y"
proof -
  from assms obtain b f xs where
    "run_alone fs (ru_breaker r) 0 None (map (map_turn attempt) turns) = Some (b, f)" "leave_run f (ru_store r) = (Inr y, xs)"
    by (auto simp: sc_attempts_def sc_bind_Inr sc_say_def Let_def split: option.splits prod.splits sum.splits)
  then have "run_alone fs (ru_breaker r) 0 None (map (map_turn attempt) turns) = Some (b, Returned y)"
    by (auto dest: leave_run_returned)
  from run_alone_returned [OF this] show ?thesis by auto
qed

end
