(* ===== verification/Posix.thy ===== *)
theory Posix
  imports Errors
begin

text \<open>
  The operating system interface \<open>utils/paths.py\<close> relies on, as far as the source uses it:
  an inode table, a table of open descriptors, and the calls of Python's \<open>os\<close> module over
  them. A call may fail with any error number at any time, and another process may change
  the file system between two calls: both are functions of the \<open>world\<close> an operation runs
  in, as are the wake-ups of the event loop. A call appends what it opened to a trace, as
  \<open>strace\<close> would.
\<close>

section \<open>The machine\<close>

datatype errno =
    ENOENT | EEXIST | ELOOP | EMLINK | ENOTDIR | EISDIR | ENXIO | EOPNOTSUPP | EIO | EACCES
  | ENOSPC | EBADF | EINVAL | ENAMETOOLONG | Errno nat

datatype flag =
    O_WRONLY | O_CREAT | O_EXCL | O_TRUNC | O_NOFOLLOW | O_NONBLOCK | O_CLOEXEC | O_DIRECTORY

type_synonym ino = nat

text \<open>
  What an inode is. A regular file carries its bytes and its link count; a directory its
  entries, the parent's under \<open>..\<close>. A FIFO says whether a reader holds it open.
\<close>

datatype special = Fifo bool | Socket | Char_device | Block_device

datatype node =
    Dir "(string, ino) dict"
  | Reg string nat
  | Symlink string
  | Special special

type_synonym nodes = "ino \<Rightarrow> node option"

record fd =
  fd_ino :: ino
  fd_flags :: "flag set"
  fd_pos :: nat

datatype event =
    Opened ino string ino
  | Followed ino string ino
  | Saw ino node
  | Truncated ino

record os =
  os_nodes :: nodes
  os_next :: ino
  os_fds :: "nat \<Rightarrow> fd option"
  os_next_fd :: nat
  os_cwd :: "string list"
  os_cwd_ino :: ino
  os_tick :: nat
  os_trace :: "event list"

definition root_ino :: ino where
  "root_ino = 0"

text \<open>The calls that may fail, named so that an assumption can speak of one of them.\<close>

datatype call =
    Call_open | Call_dup | Call_close_dir | Call_close_file | Call_stat | Call_fcntl
  | Call_truncate | Call_read | Call_write | Call_sync | Call_chmod | Call_unlink | Call_replace

text \<open>
  How one await of a pending thread ends, wake-up by wake-up: the caller is cancelled while
  the thread still runs, the caller is cancelled when the thread has just finished, the
  thread raised, or it returned.
\<close>

datatype wake = Cancelled_pending | Cancelled_done | Woken_raised | Woken_returned

record world =
  w_fault :: "call \<Rightarrow> nat \<Rightarrow> errno option"
  w_meddle :: "nat \<Rightarrow> nodes \<Rightarrow> nodes"
  w_follow :: "nodes \<Rightarrow> ino \<Rightarrow> string \<Rightarrow> ino option"
  w_taken :: "nat \<Rightarrow> nat"
  w_token :: "nat \<Rightarrow> string"
  w_wakes :: "nat \<Rightarrow> wake list"

text \<open>
  What an operation raises: an \<open>OSError\<close> with its number, a class of the library, the
  cancellation of the task, or one of Python's own. \<open>Hangs\<close> is not an exception: the call
  never returns.
\<close>

datatype fail =
    Os_error errno
  | Raised exc_class
  | Cancelled_error
  | Runtime_error
  | Value_error
  | Foreign string
  | Hangs

section \<open>Operations that act on the machine\<close>

type_synonym 'a sys = "world \<Rightarrow> os \<Rightarrow> (fail + 'a) \<times> os"

definition sreturn :: "'a \<Rightarrow> 'a sys" where
  "sreturn x = (\<lambda>w s. (Inr x, s))"

definition sraise :: "fail \<Rightarrow> 'a sys" where
  "sraise e = (\<lambda>w s. (Inl e, s))"

definition sbind :: "'a sys \<Rightarrow> ('a \<Rightarrow> 'b sys) \<Rightarrow> 'b sys" where
  "sbind m f = (\<lambda>w s. case m w s of (Inl e, s') \<Rightarrow> (Inl e, s') | (Inr x, s') \<Rightarrow> f x w s')"

text \<open>\<open>try: m; except BaseException as e: h(e)\<close>, and \<open>try: m; finally: c\<close>.\<close>

definition scatch :: "'a sys \<Rightarrow> (fail \<Rightarrow> 'a sys) \<Rightarrow> 'a sys" where
  "scatch m h = (\<lambda>w s. case m w s of (Inl e, s') \<Rightarrow> h e w s' | (Inr x, s') \<Rightarrow> (Inr x, s'))"

definition sfinally :: "'a sys \<Rightarrow> unit sys \<Rightarrow> 'a sys" where
  "sfinally m c = (\<lambda>w s. case m w s of (r, s') \<Rightarrow>
     (case c w s' of (Inl e, s'') \<Rightarrow> (Inl e, s'') | (Inr _, s'') \<Rightarrow> (r, s'')))"

text \<open>\<open>with suppress(OSError): m\<close>.\<close>

fun is_os_error :: "fail \<Rightarrow> bool" where
  "is_os_error (Os_error _) = True"
| "is_os_error _ = False"

definition suppress_os :: "unit sys \<Rightarrow> unit sys" where
  "suppress_os m = scatch m (\<lambda>e. if is_os_error e then sreturn () else sraise e)"

definition lift_res :: "fail + 'a \<Rightarrow> 'a sys" where
  "lift_res r = (\<lambda>w s. (r, s))"

section \<open>Calls\<close>

text \<open>
  Every call lets the world act first. \<open>syscall\<close> is a call that has no effect when it
  fails.
\<close>

definition advance :: "world \<Rightarrow> os \<Rightarrow> os" where
  "advance w s = s\<lparr>os_nodes := w_meddle w (os_tick s) (os_nodes s), os_tick := Suc (os_tick s)\<rparr>"

definition syscall :: "call \<Rightarrow> 'a sys \<Rightarrow> 'a sys" where
  "syscall c body = (\<lambda>w s. case w_fault w c (os_tick s) of
     Some e \<Rightarrow> (Inl (Os_error e), advance w s) | None \<Rightarrow> body w (advance w s))"

text \<open>A fresh descriptor number; the kernel's choice of the lowest free one is not observed.\<close>

definition new_fd :: "ino \<Rightarrow> flag set \<Rightarrow> nat sys" where
  "new_fd i fl = (\<lambda>w s. (Inr (os_next_fd s),
     s\<lparr>os_fds := (os_fds s)(os_next_fd s \<mapsto> \<lparr>fd_ino = i, fd_flags = fl, fd_pos = 0\<rparr>),
       os_next_fd := Suc (os_next_fd s)\<rparr>))"

definition log_event :: "event \<Rightarrow> os \<Rightarrow> os" where
  "log_event e s = s\<lparr>os_trace := os_trace s @ [e]\<rparr>"

text \<open>
  Why the kernel refuses to open an existing node, if it does. Linux answers \<open>ENOTDIR\<close> for
  a symbolic link opened with \<open>O_DIRECTORY | O_NOFOLLOW\<close>, and opening a FIFO nobody holds
  the other end of waits for one unless \<open>O_NONBLOCK\<close> says otherwise.
\<close>

fun refuse_open :: "flag set \<Rightarrow> node \<Rightarrow> fail option" where
  "refuse_open fl nd =
     (if O_CREAT \<in> fl \<and> O_EXCL \<in> fl then Some (Os_error EEXIST)
      else case nd of
        Dir _ \<Rightarrow> if O_WRONLY \<in> fl \<or> O_CREAT \<in> fl then Some (Os_error EISDIR) else None
      | Symlink _ \<Rightarrow> Some (Os_error (if O_DIRECTORY \<in> fl then ENOTDIR else ELOOP))
      | Reg _ _ \<Rightarrow> if O_DIRECTORY \<in> fl then Some (Os_error ENOTDIR) else None
      | Special k \<Rightarrow>
          if O_DIRECTORY \<in> fl then Some (Os_error ENOTDIR)
          else (case k of
              Socket \<Rightarrow> Some (Os_error ENXIO)
            | Fifo reader \<Rightarrow>
                if O_WRONLY \<in> fl \<and> reader then None
                else if O_NONBLOCK \<in> fl
                then (if O_WRONLY \<in> fl then Some (Os_error ENXIO) else None)
                else Some Hangs
            | _ \<Rightarrow> None))"

declare refuse_open.simps [simp del]

definition open_node :: "flag set \<Rightarrow> event \<Rightarrow> ino \<Rightarrow> node \<Rightarrow> nat sys" where
  "open_node fl ev i nd = (\<lambda>w s. case refuse_open fl nd of
     Some e \<Rightarrow> (Inl e, s)
   | None \<Rightarrow>
       new_fd i fl w
         (log_event ev
           (case nd of
              Reg _ n \<Rightarrow> if O_TRUNC \<in> fl then s\<lparr>os_nodes := (os_nodes s)(i \<mapsto> Reg [] n)\<rparr> else s
            | _ \<Rightarrow> s)))"

definition create_entry :: "flag set \<Rightarrow> ino \<Rightarrow> (string, ino) dict \<Rightarrow> string \<Rightarrow> nat sys" where
  "create_entry fl d es name = (\<lambda>w s.
     let i = os_next s in
     new_fd i fl w
       (log_event (Opened d name i)
         (s\<lparr>os_nodes := (os_nodes s)(d \<mapsto> Dir (dict_set es name i), i \<mapsto> Reg [] 1),
            os_next := Suc i\<rparr>)))"

definition follow_entry :: "flag set \<Rightarrow> ino \<Rightarrow> string \<Rightarrow> ino \<Rightarrow> nat sys" where
  "follow_entry fl d name i = (\<lambda>w s. case os_nodes s i of
     None \<Rightarrow> (Inl (Os_error ENOENT), s)
   | Some nd \<Rightarrow>
       (case (if O_NOFOLLOW \<in> fl \<or> O_EXCL \<in> fl then None
              else case nd of Symlink t \<Rightarrow> Some t | _ \<Rightarrow> None) of
          None \<Rightarrow> open_node fl (Opened d name i) i nd w s
        | Some t \<Rightarrow>
            (case w_follow w (os_nodes s) d t of
               None \<Rightarrow> (Inl (Os_error ENOENT), s)
             | Some j \<Rightarrow> (case os_nodes s j of
                 None \<Rightarrow> (Inl (Os_error ENOENT), s)
               | Some nd' \<Rightarrow> open_node fl (Followed d name j) j nd' w s))))"

definition dir_of :: "nat \<Rightarrow> os \<Rightarrow> (ino \<times> (string, ino) dict) option" where
  "dir_of d s = (case os_fds s d of None \<Rightarrow> None
     | Some f \<Rightarrow> (case os_nodes s (fd_ino f) of Some (Dir es) \<Rightarrow> Some (fd_ino f, es) | _ \<Rightarrow> None))"

text \<open>\<open>os.open(name, flags, mode, dir_fd=d)\<close>.\<close>

definition sys_openat :: "nat \<Rightarrow> string \<Rightarrow> flag set \<Rightarrow> nat sys" where
  "sys_openat d name fl = syscall Call_open (\<lambda>w s. case dir_of d s of
     None \<Rightarrow> (Inl (Os_error ENOTDIR), s)
   | Some (di, es) \<Rightarrow>
       (case map_of es name of
          None \<Rightarrow> if O_CREAT \<in> fl then create_entry fl di es name w s
                  else (Inl (Os_error ENOENT), s)
        | Some i \<Rightarrow> follow_entry fl di name i w s))"

definition start_of :: "bool \<Rightarrow> os \<Rightarrow> ino" where
  "start_of absolute s = (if absolute then root_ino else os_cwd_ino s)"

text \<open>\<open>os.open(anchor, flags)\<close> for the root or the working directory.\<close>

definition sys_open_anchor :: "bool \<Rightarrow> flag set \<Rightarrow> nat sys" where
  "sys_open_anchor absolute fl = syscall Call_open (\<lambda>w s.
     let i = start_of absolute s in
     case os_nodes s i of Some (Dir _) \<Rightarrow> new_fd i fl w s | _ \<Rightarrow> (Inl (Os_error ENOTDIR), s))"

definition sys_dup :: "nat \<Rightarrow> nat sys" where
  "sys_dup d = syscall Call_dup (\<lambda>w s. case os_fds s d of
     None \<Rightarrow> (Inl (Os_error EBADF), s) | Some f \<Rightarrow> new_fd (fd_ino f) (fd_flags f) w s)"

text \<open>A descriptor is gone after \<open>close\<close>, whatever the call answers.\<close>

definition sys_close :: "nat \<Rightarrow> unit sys" where
  "sys_close d = (\<lambda>w s. case os_fds s d of
     None \<Rightarrow> (Inl (Os_error EBADF), advance w s)
   | Some f \<Rightarrow>
       (case w_fault w (if O_DIRECTORY \<in> fd_flags f then Call_close_dir else Call_close_file)
               (os_tick s) of
          None \<Rightarrow> Inr () | Some e \<Rightarrow> Inl (Os_error e),
        (advance w s)\<lparr>os_fds := (os_fds s)(d := None)\<rparr>))"

text \<open>\<open>os.fstat(d)\<close> and \<open>os.lstat(name, dir_fd=d)\<close>: the inode number and the node.\<close>

definition sys_fstat :: "nat \<Rightarrow> (ino \<times> node) sys" where
  "sys_fstat d = syscall Call_stat (\<lambda>w s. case os_fds s d of
     None \<Rightarrow> (Inl (Os_error EBADF), s)
   | Some f \<Rightarrow> (case os_nodes s (fd_ino f) of
       None \<Rightarrow> (Inl (Os_error EBADF), s)
     | Some nd \<Rightarrow> (Inr (fd_ino f, nd), log_event (Saw (fd_ino f) nd) s)))"

definition sys_lstat :: "nat \<Rightarrow> string \<Rightarrow> (ino \<times> node) sys" where
  "sys_lstat d name = syscall Call_stat (\<lambda>w s. case dir_of d s of
     None \<Rightarrow> (Inl (Os_error ENOTDIR), s)
   | Some (di, es) \<Rightarrow>
       (case map_of es name of None \<Rightarrow> (Inl (Os_error ENOENT), s)
        | Some i \<Rightarrow> (case os_nodes s i of None \<Rightarrow> (Inl (Os_error ENOENT), s)
            | Some nd \<Rightarrow> (Inr (i, nd), s))))"

definition sys_getfl :: "nat \<Rightarrow> (flag set) sys" where
  "sys_getfl d = syscall Call_fcntl (\<lambda>w s. case os_fds s d of
     None \<Rightarrow> (Inl (Os_error EBADF), s) | Some f \<Rightarrow> (Inr (fd_flags f), s))"

definition sys_setfl :: "nat \<Rightarrow> flag set \<Rightarrow> unit sys" where
  "sys_setfl d fl = syscall Call_fcntl (\<lambda>w s. case os_fds s d of
     None \<Rightarrow> (Inl (Os_error EBADF), s)
   | Some f \<Rightarrow> (Inr (), s\<lparr>os_fds := (os_fds s)
       (d \<mapsto> f\<lparr>fd_flags := (fd_flags f - {O_NONBLOCK}) \<union> (fl \<inter> {O_NONBLOCK})\<rparr>)\<rparr>))"

definition sys_fchmod :: "nat \<Rightarrow> unit sys" where
  "sys_fchmod d = syscall Call_chmod (\<lambda>w s. (Inr (), s))"

definition sys_fsync :: "nat \<Rightarrow> unit sys" where
  "sys_fsync d = syscall Call_sync (\<lambda>w s. (Inr (), s))"

definition sys_truncate :: "nat \<Rightarrow> unit sys" where
  "sys_truncate d = syscall Call_truncate (\<lambda>w s. case os_fds s d of
     None \<Rightarrow> (Inl (Os_error EBADF), s)
   | Some f \<Rightarrow> (case os_nodes s (fd_ino f) of
       Some (Reg _ n) \<Rightarrow>
         (Inr (), log_event (Truncated (fd_ino f))
                    (s\<lparr>os_nodes := (os_nodes s)(fd_ino f \<mapsto> Reg [] n)\<rparr>))
     | _ \<Rightarrow> (Inl (Os_error EINVAL), s)))"

text \<open>\<open>os.read(d, n)\<close>: at most \<open>n\<close> bytes from the position of the descriptor.\<close>

definition sys_read :: "nat \<Rightarrow> nat \<Rightarrow> string sys" where
  "sys_read d n = syscall Call_read (\<lambda>w s. case os_fds s d of
     None \<Rightarrow> (Inl (Os_error EBADF), s)
   | Some f \<Rightarrow> (case os_nodes s (fd_ino f) of
       Some (Reg c _) \<Rightarrow>
         (let got = take (min n (Suc (w_taken w (os_tick s)))) (drop (fd_pos f) c) in
          (Inr got, s\<lparr>os_fds := (os_fds s)(d \<mapsto> f\<lparr>fd_pos := fd_pos f + length got\<rparr>)\<rparr>))
     | _ \<Rightarrow> (Inl (Os_error EINVAL), s)))"

text \<open>
  \<open>os.write(d, bytes)\<close>: the world says how many of the bytes the kernel takes. The bytes go
  to the position of the descriptor, over what was there.
\<close>

definition overlay :: "nat \<Rightarrow> string \<Rightarrow> string \<Rightarrow> string" where
  "overlay pos new old =
     take pos old @ replicate (pos - length old) (CHR 0x00) @ new @ drop (pos + length new) old"

definition sys_write :: "nat \<Rightarrow> string \<Rightarrow> nat sys" where
  "sys_write d bs = syscall Call_write (\<lambda>w s. case os_fds s d of
     None \<Rightarrow> (Inl (Os_error EBADF), s)
   | Some f \<Rightarrow> (case os_nodes s (fd_ino f) of
       Some (Reg c n) \<Rightarrow>
         (let put = take (w_taken w (os_tick s)) bs in
          (Inr (length put),
           s\<lparr>os_nodes := (os_nodes s)(fd_ino f \<mapsto> Reg (overlay (fd_pos f) put c) n),
             os_fds := (os_fds s)(d \<mapsto> f\<lparr>fd_pos := fd_pos f + length put\<rparr>)\<rparr>))
     | _ \<Rightarrow> (Inl (Os_error EINVAL), s)))"

fun dict_del :: "('k, 'v) dict \<Rightarrow> 'k \<Rightarrow> ('k, 'v) dict" where
  "dict_del [] k = []"
| "dict_del ((k', v) # d) k = (if k' = k then dict_del d k else (k', v) # dict_del d k)"

fun drop_link :: "node \<Rightarrow> node" where
  "drop_link (Reg c n) = Reg c (n - 1)"
| "drop_link nd = nd"

definition forget :: "ino \<Rightarrow> nodes \<Rightarrow> nodes" where
  "forget i ns = ns(i := map_option drop_link (ns i))"

text \<open>\<open>os.unlink(name, dir_fd=d)\<close>.\<close>

definition sys_unlink :: "nat \<Rightarrow> string \<Rightarrow> unit sys" where
  "sys_unlink d name = syscall Call_unlink (\<lambda>w s. case dir_of d s of
     None \<Rightarrow> (Inl (Os_error ENOTDIR), s)
   | Some (di, es) \<Rightarrow>
       (case map_of es name of None \<Rightarrow> (Inl (Os_error ENOENT), s)
        | Some i \<Rightarrow>
            (case os_nodes s i of
               Some (Dir _) \<Rightarrow> (Inl (Os_error EISDIR), s)
             | _ \<Rightarrow> (Inr (), s\<lparr>os_nodes :=
                 (forget i (os_nodes s))(di \<mapsto> Dir (dict_del es name))\<rparr>))))"

text \<open>
  \<open>os.replace(source, target)\<close> within one directory: the target's entry becomes the
  source's inode in one step. Two names of one inode are left as they are.
\<close>

definition sys_replace :: "nat \<Rightarrow> string \<Rightarrow> string \<Rightarrow> unit sys" where
  "sys_replace d source target = syscall Call_replace (\<lambda>w s. case dir_of d s of
     None \<Rightarrow> (Inl (Os_error ENOTDIR), s)
   | Some (di, es) \<Rightarrow>
       (case map_of es source of
          None \<Rightarrow> (Inl (Os_error ENOENT), s)
        | Some i \<Rightarrow>
            (case map_of es target of
               None \<Rightarrow> (Inr (), s\<lparr>os_nodes := (os_nodes s)
                         (di \<mapsto> Dir (dict_set (dict_del es source) target i))\<rparr>)
             | Some j \<Rightarrow>
                 if i = j then (Inr (), s)
                 else (case os_nodes s j of
                   Some (Dir _) \<Rightarrow> (Inl (Os_error EISDIR), s)
                 | _ \<Rightarrow> (Inr (), s\<lparr>os_nodes := (forget j (os_nodes s))
                         (di \<mapsto> Dir (dict_set (dict_del es source) target i))\<rparr>)))))"


section \<open>Calls that take a path\<close>

text \<open>
  The kernel's own walk, which follows links; where a link leads is the world's. \<open>os.remove\<close>,
  \<open>os.path.islink\<close> and \<open>os.path.isdir\<close> look a path up afresh, and the last two answer
  \<^term>\<open>False\<close> for every failure.
\<close>

fun kernel_walk :: "world \<Rightarrow> nodes \<Rightarrow> ino \<Rightarrow> string list \<Rightarrow> ino option" where
  "kernel_walk w ns d [] = Some d"
| "kernel_walk w ns d (n # p) = (case ns d of
     Some (Dir es) \<Rightarrow> (case map_of es n of
        None \<Rightarrow> None
      | Some i \<Rightarrow> (case ns i of
          Some (Symlink t) \<Rightarrow>
            (case w_follow w ns d t of Some j \<Rightarrow> kernel_walk w ns j p | None \<Rightarrow> None)
        | _ \<Rightarrow> kernel_walk w ns i p))
   | _ \<Rightarrow> None)"

definition entry_at :: "world \<Rightarrow> os \<Rightarrow> bool \<Rightarrow> string list \<Rightarrow> (ino \<times> (string, ino) dict \<times> ino) option" where
  "entry_at w s absolute parts =
     (if parts = [] then None
      else case kernel_walk w (os_nodes s) (start_of absolute s) (butlast parts) of
          None \<Rightarrow> None
        | Some d \<Rightarrow> (case os_nodes s d of
            Some (Dir es) \<Rightarrow> (case map_of es (last parts) of Some i \<Rightarrow> Some (d, es, i) | None \<Rightarrow> None)
          | _ \<Rightarrow> None))"

definition sys_remove :: "bool \<Rightarrow> string list \<Rightarrow> unit sys" where
  "sys_remove absolute parts = syscall Call_unlink (\<lambda>w s. case entry_at w s absolute parts of
     None \<Rightarrow> (Inl (Os_error ENOENT), s)
   | Some (d, es, i) \<Rightarrow>
       (case os_nodes s i of
          Some (Dir _) \<Rightarrow> (Inl (Os_error EISDIR), s)
        | _ \<Rightarrow> (Inr (), s\<lparr>os_nodes :=
            (forget i (os_nodes s))(d \<mapsto> Dir (dict_del es (last parts)))\<rparr>)))"

definition sys_islink :: "bool \<Rightarrow> string list \<Rightarrow> bool sys" where
  "sys_islink absolute parts = scatch
     (syscall Call_stat (\<lambda>w s. (Inr (case entry_at w s absolute parts of
        None \<Rightarrow> False
      | Some (_, _, i) \<Rightarrow> (case os_nodes s i of Some (Symlink _) \<Rightarrow> True | _ \<Rightarrow> False)), s)))
     (\<lambda>_. sreturn False)"

definition sys_isdir :: "bool \<Rightarrow> string list \<Rightarrow> bool sys" where
  "sys_isdir absolute parts = scatch
     (syscall Call_stat (\<lambda>w s.
       (Inr (case kernel_walk w (os_nodes s) (start_of absolute s) parts of
          None \<Rightarrow> False
        | Some i \<Rightarrow> (case os_nodes s i of Some (Dir _) \<Rightarrow> True | _ \<Rightarrow> False)), s)))
     (\<lambda>_. sreturn False)"

end
