(* ===== verification/Descriptors.thy ===== *)
theory Descriptors
  imports Posix
begin

text \<open>
  A small calculus for operations on the machine. \<open>wp\<close> is the weakest precondition of an
  operation, with one postcondition for results and raises; \<open>fdp\<close> is its image on the
  table of open descriptors, in which a proof that nothing leaks is a walk over the
  operation's text. \<open>calm\<close> is a world in which nobody else touches the file system.
\<close>

section \<open>Weakest preconditions\<close>

named_theorems wp_simps \<open>weakest preconditions of the combinators\<close>

definition wp :: "'a sys \<Rightarrow> (fail + 'a \<Rightarrow> os \<Rightarrow> bool) \<Rightarrow> world \<Rightarrow> os \<Rightarrow> bool" where
  "wp m Q w s = (case m w s of (r, s') \<Rightarrow> Q r s')"

lemma wpD: "wp m Q w s \<Longrightarrow> m w s = (r, s') \<Longrightarrow> Q r s'"
  by (simp add: wp_def)

lemma wpI: "(\<And>r s'. m w s = (r, s') \<Longrightarrow> Q r s') \<Longrightarrow> wp m Q w s"
  by (cases "m w s") (simp add: wp_def)

lemma wp_mono: "wp m Q w s \<Longrightarrow> (\<And>r s'. Q r s' \<Longrightarrow> Q' r s') \<Longrightarrow> wp m Q' w s"
  by (cases "m w s") (simp add: wp_def)

lemma wp_return [wp_simps]: "wp (sreturn x) Q w s \<longleftrightarrow> Q (Inr x) s"
  by (simp add: wp_def sreturn_def)

lemma wp_raise [wp_simps]: "wp (sraise e) Q w s \<longleftrightarrow> Q (Inl e) s"
  by (simp add: wp_def sraise_def)

lemma wp_lift [wp_simps]: "wp (lift_res r) Q w s \<longleftrightarrow> Q r s"
  by (simp add: wp_def lift_res_def)

lemma wp_bind [wp_simps]:
  "wp (sbind m f) Q w s \<longleftrightarrow>
     wp m (\<lambda>r s'. case r of Inl e \<Rightarrow> Q (Inl e) s' | Inr x \<Rightarrow> wp (f x) Q w s') w s"
  by (auto simp: wp_def sbind_def split: prod.splits sum.splits)

lemma wp_catch [wp_simps]:
  "wp (scatch m h) Q w s \<longleftrightarrow>
     wp m (\<lambda>r s'. case r of Inl e \<Rightarrow> wp (h e) Q w s' | Inr x \<Rightarrow> Q (Inr x) s') w s"
  by (auto simp: wp_def scatch_def split: prod.splits sum.splits)

lemma wp_finally [wp_simps]:
  "wp (sfinally m c) Q w s \<longleftrightarrow>
     wp m (\<lambda>r s'. wp c (\<lambda>u s''. case u of Inl e \<Rightarrow> Q (Inl e) s'' | Inr _ \<Rightarrow> Q r s'') w s') w s"
  by (auto simp: wp_def sfinally_def split: prod.splits sum.splits)

section \<open>The descriptor table\<close>

text \<open>The open descriptors, and which of them are directories.\<close>

type_synonym fd_table = "nat \<Rightarrow> bool option"

definition fd_table :: "os \<Rightarrow> fd_table" where
  "fd_table s = (\<lambda>d. map_option (\<lambda>f. O_DIRECTORY \<in> fd_flags f) (os_fds s d))"

definition wf_fds :: "os \<Rightarrow> bool" where
  "wf_fds s \<longleftrightarrow> (\<forall>d \<ge> os_next_fd s. os_fds s d = None)"

text \<open>Closing a directory opened for reading has nothing to flush and does not fail.\<close>

definition dirs_close :: "world \<Rightarrow> bool" where
  "dirs_close w \<longleftrightarrow> (\<forall>t. w_fault w Call_close_dir t = None)"

definition fdp :: "world \<Rightarrow> 'a sys \<Rightarrow> fd_table \<Rightarrow> (fail + 'a \<Rightarrow> fd_table \<Rightarrow> bool) \<Rightarrow> bool" where
  "fdp w m X Q \<longleftrightarrow>
     (\<forall>s. wf_fds s \<longrightarrow> fd_table s = X \<longrightarrow> wp m (\<lambda>r s'. wf_fds s' \<and> Q r (fd_table s')) w s)"

named_theorems fdp_rules \<open>rules of the descriptor table\<close>

lemma fdp_mono: "fdp w m X Q \<Longrightarrow> (\<And>r Y. Q r Y \<Longrightarrow> Q' r Y) \<Longrightarrow> fdp w m X Q'"
  unfolding fdp_def by (blast intro: wp_mono)

lemma fdp_return: "Q (Inr x) X \<Longrightarrow> fdp w (sreturn x) X Q"
  by (simp add: fdp_def wp_simps)

lemma fdp_raise: "Q (Inl e) X \<Longrightarrow> fdp w (sraise e) X Q"
  by (simp add: fdp_def wp_simps)

lemma fdp_lift: "Q r X \<Longrightarrow> fdp w (lift_res r) X Q"
  by (simp add: fdp_def wp_simps)

lemma fdp_bind:
  assumes "fdp w m X (\<lambda>r Y. case r of Inl e \<Rightarrow> Q (Inl e) Y | Inr x \<Rightarrow> fdp w (f x) Y Q)"
  shows "fdp w (sbind m f) X Q"
  unfolding fdp_def wp_bind
proof (intro allI impI)
  fix s assume "wf_fds s" "fd_table s = X"
  with assms show "wp m (\<lambda>r s'. case r of Inl e \<Rightarrow> wf_fds s' \<and> Q (Inl e) (fd_table s')
      | Inr x \<Rightarrow> wp (f x) (\<lambda>r s'. wf_fds s' \<and> Q r (fd_table s')) w s') w s"
    unfolding fdp_def by (auto elim!: wp_mono split: sum.splits)
qed

lemma fdp_catch:
  assumes "fdp w m X (\<lambda>r Y. case r of Inl e \<Rightarrow> fdp w (h e) Y Q | Inr x \<Rightarrow> Q (Inr x) Y)"
  shows "fdp w (scatch m h) X Q"
  unfolding fdp_def wp_catch
proof (intro allI impI)
  fix s assume "wf_fds s" "fd_table s = X"
  with assms show "wp m (\<lambda>r s'. case r of
        Inl e \<Rightarrow> wp (h e) (\<lambda>r s'. wf_fds s' \<and> Q r (fd_table s')) w s'
      | Inr x \<Rightarrow> wf_fds s' \<and> Q (Inr x) (fd_table s')) w s"
    unfolding fdp_def by (auto elim!: wp_mono split: sum.splits)
qed

lemma fdp_finally:
  assumes "fdp w m X (\<lambda>r Y. fdp w c Y (\<lambda>u Z. case u of Inl e \<Rightarrow> Q (Inl e) Z | Inr _ \<Rightarrow> Q r Z))"
  shows "fdp w (sfinally m c) X Q"
  unfolding fdp_def wp_finally
proof (intro allI impI)
  fix s assume "wf_fds s" "fd_table s = X"
  with assms show "wp m (\<lambda>r s'. wp c (\<lambda>u s''. case u of
        Inl e \<Rightarrow> wf_fds s'' \<and> Q (Inl e) (fd_table s'')
      | Inr _ \<Rightarrow> wf_fds s'' \<and> Q r (fd_table s'')) w s') w s"
    unfolding fdp_def by (auto elim!: wp_mono split: sum.splits)
qed

lemma fdp_suppress:
  assumes "fdp w m X (\<lambda>r Y. case r of Inl e \<Rightarrow> if is_os_error e then Q (Inr ()) Y else Q (Inl e) Y
      | Inr x \<Rightarrow> Q (Inr x) Y)"
  shows "fdp w (suppress_os m) X Q"
  unfolding suppress_os_def
  by (rule fdp_catch, rule fdp_mono [OF assms])
    (auto intro: fdp_return fdp_raise split: sum.splits if_splits)

section \<open>The calls, on the descriptor table\<close>

lemma fd_table_advance [simp]: "fd_table (advance w s) = fd_table s"
  by (simp add: fd_table_def advance_def)

lemma wf_fds_advance [simp]: "wf_fds (advance w s) = wf_fds s"
  by (simp add: wf_fds_def advance_def)

lemma fd_table_log [simp]: "fd_table (log_event e s) = fd_table s"
  by (simp add: fd_table_def log_event_def)

lemma wf_fds_log [simp]: "wf_fds (log_event e s) = wf_fds s"
  by (simp add: wf_fds_def log_event_def)

lemma fd_table_nodes [simp]: "fd_table (s\<lparr>os_nodes := n\<rparr>) = fd_table s"
  by (simp add: fd_table_def)

lemma wf_fds_nodes [simp]: "wf_fds (s\<lparr>os_nodes := n\<rparr>) = wf_fds s"
  by (simp add: wf_fds_def)

lemma fd_table_next [simp]: "fd_table (s\<lparr>os_next := n\<rparr>) = fd_table s"
  by (simp add: fd_table_def)

lemma wf_fds_next [simp]: "wf_fds (s\<lparr>os_next := n\<rparr>) = wf_fds s"
  by (simp add: wf_fds_def)

lemma wf_fds_fresh: "wf_fds s \<Longrightarrow> fd_table s (os_next_fd s) = None"
  by (simp add: wf_fds_def fd_table_def)

text \<open>A call that opens nothing and closes nothing.\<close>

definition quiet :: "'a sys \<Rightarrow> bool" where
  "quiet m \<longleftrightarrow> (\<forall>w s r s'. m w s = (r, s') \<longrightarrow> wf_fds s \<longrightarrow> wf_fds s' \<and> fd_table s' = fd_table s)"

lemma quietI:
  "(\<And>w s r s'. m w s = (r, s') \<Longrightarrow> wf_fds s \<Longrightarrow> wf_fds s' \<and> fd_table s' = fd_table s) \<Longrightarrow> quiet m"
  by (simp add: quiet_def)

lemma quietD: "quiet m \<Longrightarrow> m w s = (r, s') \<Longrightarrow> wf_fds s \<Longrightarrow> wf_fds s' \<and> fd_table s' = fd_table s"
  by (simp add: quiet_def)

lemma fdp_quiet:
  assumes "quiet m" "\<And>r. Q r X"
  shows "fdp w m X Q"
  unfolding fdp_def
  using assms(2) quietD [OF assms(1)] by (auto intro!: wpI)

lemma quiet_syscall:
  assumes "quiet body"
  shows "quiet (syscall c body)"
proof (rule quietI)
  fix w s r s'
  assume "syscall c body w s = (r, s')" "wf_fds s"
  then show "wf_fds s' \<and> fd_table s' = fd_table s"
    using quietD [OF assms, of w "advance w s" r s']
    by (auto simp: syscall_def split: option.splits)
qed

lemma fd_table_same_flags:
  "os_fds s d = Some f \<Longrightarrow> (O_DIRECTORY \<in> fd_flags g) = (O_DIRECTORY \<in> fd_flags f) \<Longrightarrow>
    fd_table (s\<lparr>os_fds := (os_fds s)(d \<mapsto> g)\<rparr>) = fd_table s"
  by (auto simp: fd_table_def)

lemma wf_fds_same: "wf_fds s \<Longrightarrow> os_fds s d = Some f \<Longrightarrow> wf_fds (s\<lparr>os_fds := (os_fds s)(d \<mapsto> g)\<rparr>)"
  by (auto simp: wf_fds_def)

lemma quiet_fstat: "quiet (sys_fstat d)"
  unfolding sys_fstat_def by (rule quiet_syscall) (auto simp: quiet_def split: option.splits)

lemma quiet_lstat: "quiet (sys_lstat d name)"
  unfolding sys_lstat_def by (rule quiet_syscall) (auto simp: quiet_def split: option.splits)

lemma quiet_getfl: "quiet (sys_getfl d)"
  unfolding sys_getfl_def by (rule quiet_syscall) (auto simp: quiet_def split: option.splits)

lemma quiet_setfl: "quiet (sys_setfl d fl)"
  unfolding sys_setfl_def
  by (rule quiet_syscall)
    (auto simp: quiet_def wf_fds_same fd_table_same_flags split: option.splits)

lemma quiet_fchmod: "quiet (sys_fchmod d)"
  unfolding sys_fchmod_def by (rule quiet_syscall) (auto simp: quiet_def)

lemma quiet_fsync: "quiet (sys_fsync d)"
  unfolding sys_fsync_def by (rule quiet_syscall) (auto simp: quiet_def)

lemma quiet_truncate: "quiet (sys_truncate d)"
  unfolding sys_truncate_def
  by (rule quiet_syscall) (auto simp: quiet_def split: option.splits node.splits)

lemma quiet_read: "quiet (sys_read d n)"
  unfolding sys_read_def
  by (rule quiet_syscall)
    (auto simp: quiet_def wf_fds_same fd_table_same_flags Let_def split: option.splits node.splits)

lemma quiet_write: "quiet (sys_write d bs)"
  unfolding sys_write_def
  by (rule quiet_syscall)
    (auto simp: quiet_def wf_fds_def fd_table_def fun_eq_iff Let_def split: option.splits node.splits)

lemma quiet_unlink: "quiet (sys_unlink d name)"
  unfolding sys_unlink_def
  by (rule quiet_syscall) (auto simp: quiet_def split: option.splits node.splits)

lemma quiet_replace: "quiet (sys_replace d a b)"
  unfolding sys_replace_def
  by (rule quiet_syscall) (auto simp: quiet_def split: option.splits node.splits)

lemma quiet_remove: "quiet (sys_remove a p)"
  unfolding sys_remove_def
  by (rule quiet_syscall) (auto simp: quiet_def split: option.splits node.splits)

lemma quiet_scatch_return: "quiet m \<Longrightarrow> quiet (scatch m (\<lambda>_. sreturn x))"
  by (auto simp: quiet_def scatch_def sreturn_def split: prod.splits sum.splits)

lemma quiet_islink: "quiet (sys_islink a p)"
  unfolding sys_islink_def
  by (rule quiet_scatch_return, rule quiet_syscall) (auto simp: quiet_def)

lemma quiet_isdir: "quiet (sys_isdir a p)"
  unfolding sys_isdir_def
  by (rule quiet_scatch_return, rule quiet_syscall) (auto simp: quiet_def)

lemmas quiet_calls = quiet_remove quiet_islink quiet_isdir quiet_fstat quiet_lstat quiet_getfl quiet_setfl quiet_fchmod quiet_fsync
  quiet_truncate quiet_read quiet_write quiet_unlink quiet_replace

lemmas fdp_calls = quiet_calls [THEN fdp_quiet]

text \<open>The calls that open answer a descriptor that was not open.\<close>

definition opened :: "bool \<Rightarrow> os \<Rightarrow> fail + nat \<Rightarrow> os \<Rightarrow> bool" where
  "opened b s r s' \<longleftrightarrow> wf_fds s' \<and>
     (case r of Inl e \<Rightarrow> fd_table s' = fd_table s
      | Inr d \<Rightarrow> fd_table s d = None \<and> fd_table s' = (fd_table s)(d \<mapsto> b))"

definition opens :: "bool \<Rightarrow> nat sys \<Rightarrow> bool" where
  "opens b m \<longleftrightarrow> (\<forall>w s r s'. m w s = (r, s') \<longrightarrow> wf_fds s \<longrightarrow> opened b s r s')"

lemma opensI: "(\<And>w s r s'. m w s = (r, s') \<Longrightarrow> wf_fds s \<Longrightarrow> opened b s r s') \<Longrightarrow> opens b m"
  by (simp add: opens_def)

lemma opensD: "opens b m \<Longrightarrow> m w s = (r, s') \<Longrightarrow> wf_fds s \<Longrightarrow> opened b s r s'"
  by (simp add: opens_def)

lemma opened_Inl [simp]: "opened b s (Inl e) s' \<longleftrightarrow> wf_fds s' \<and> fd_table s' = fd_table s"
  by (simp add: opened_def)

lemma opened_from: "opened b s r s' \<Longrightarrow> fd_table s = fd_table s0 \<Longrightarrow> opened b s0 r s'"
  by (cases r) (auto simp: opened_def)

lemma fdp_opens:
  assumes "opens b m" "\<And>e. Q (Inl e) X" "\<And>d. X d = None \<Longrightarrow> Q (Inr d) (X(d \<mapsto> b))"
  shows "fdp w m X Q"
  unfolding fdp_def
proof (intro allI impI wpI)
  fix s r s'
  assume "wf_fds s" "fd_table s = X" "m w s = (r, s')"
  then have "opened b s r s'" by (auto dest: opensD [OF assms(1)])
  with assms(2,3) \<open>fd_table s = X\<close> show "wf_fds s' \<and> Q r (fd_table s')"
    by (cases r) (auto simp: opened_def)
qed

lemma opens_new_fd: "opens (O_DIRECTORY \<in> fl) (new_fd i fl)"
  by (rule opensI) (auto simp: opened_def new_fd_def wf_fds_def fd_table_def fun_eq_iff)

lemma opens_syscall:
  assumes "opens b body"
  shows "opens b (syscall c body)"
proof (rule opensI)
  fix w s r s'
  assume "syscall c body w s = (r, s')" "wf_fds s"
  then show "opened b s r s'"
    using opensD [OF assms, of w "advance w s" r s']
    by (auto simp: syscall_def intro: opened_from split: option.splits)
qed

text \<open>Opening after a change that leaves the table as it was.\<close>

lemma opened_after:
  assumes "new_fd i fl w s' = (r, s'')" "wf_fds s'" "fd_table s' = fd_table s"
  shows "opened (O_DIRECTORY \<in> fl) s r s''"
  using opensD [OF opens_new_fd assms(1,2)] assms(3) by (rule opened_from)

lemma opens_open_node: "opens (O_DIRECTORY \<in> fl) (open_node fl ev i nd)"
proof (rule opensI)
  fix w s r s'
  assume m: "open_node fl ev i nd w s = (r, s')" and wf: "wf_fds s"
  show "opened (O_DIRECTORY \<in> fl) s r s'"
  proof (cases "refuse_open fl nd")
    case None
    from m [unfolded open_node_def None option.simps] show ?thesis
      by (rule opened_after) (use wf in \<open>auto split: node.splits\<close>)
  next
    case (Some e)
    with m wf show ?thesis by (auto simp: open_node_def)
  qed
qed

lemma opens_create: "opens (O_DIRECTORY \<in> fl) (create_entry fl d es name)"
proof (rule opensI)
  fix w s r s'
  assume m: "create_entry fl d es name w s = (r, s')" and wf: "wf_fds s"
  from m [unfolded create_entry_def Let_def] show "opened (O_DIRECTORY \<in> fl) s r s'"
    by (rule opened_after) (use wf in simp_all)
qed

lemma opens_follow: "opens (O_DIRECTORY \<in> fl) (follow_entry fl d name i)"
  by (rule opensI)
    (auto simp: follow_entry_def split: option.splits dest: opensD [OF opens_open_node])

lemma opens_openat: "opens (O_DIRECTORY \<in> fl) (sys_openat d name fl)"
  unfolding sys_openat_def
  by (rule opens_syscall, rule opensI)
    (auto split: option.splits if_splits
      dest: opensD [OF opens_create] opensD [OF opens_follow])

lemma opens_anchor: "opens (O_DIRECTORY \<in> fl) (sys_open_anchor a fl)"
  unfolding sys_open_anchor_def Let_def
  by (rule opens_syscall, rule opensI)
    (auto split: option.splits node.splits dest: opensD [OF opens_new_fd])

lemmas fdp_openat = opens_openat [THEN fdp_opens]
lemmas fdp_anchor = opens_anchor [THEN fdp_opens]

lemma fdp_dup:
  assumes "X d = Some b" "\<And>e. Q (Inl e) X" "\<And>d'. X d' = None \<Longrightarrow> Q (Inr d') (X(d' \<mapsto> b))"
  shows "fdp w (sys_dup d) X Q"
  unfolding fdp_def
proof (intro allI impI wpI)
  fix s r s'
  assume wf: "wf_fds s" and X: "fd_table s = X" and m: "sys_dup d w s = (r, s')"
  from assms(1) X obtain f where f: "os_fds (advance w s) d = Some f" "b = (O_DIRECTORY \<in> fd_flags f)"
    by (auto simp: fd_table_def advance_def)
  have "opened b s r s'"
    using m wf f opened_after [of "fd_ino f" "fd_flags f" w "advance w s" r s' s]
    by (auto simp: sys_dup_def syscall_def split: option.splits)
  with assms(2,3) X show "wf_fds s' \<and> Q r (fd_table s')"
    by (cases r) (auto simp: opened_def)
qed

lemma fdp_close:
  assumes "X d = Some b" "Q (Inr ()) (X(d := None))"
    "\<And>e. \<not> (b \<and> dirs_close w) \<Longrightarrow> Q (Inl (Os_error e)) (X(d := None))"
  shows "fdp w (sys_close d) X Q"
  unfolding fdp_def wp_def
proof (intro allI impI)
  fix s assume wf: "wf_fds s" and X: "fd_table s = X"
  from assms(1) X obtain f where f: "os_fds s d = Some f" and b: "b = (O_DIRECTORY \<in> fd_flags f)"
    by (auto simp: fd_table_def)
  have wf': "wf_fds ((advance w s)\<lparr>os_fds := (os_fds s)(d := None)\<rparr>)"
    using wf by (auto simp: wf_fds_def advance_def)
  have X': "fd_table ((advance w s)\<lparr>os_fds := (os_fds s)(d := None)\<rparr>) = X(d := None)"
    using X by (auto simp: fd_table_def)
  show "case sys_close d w s of (r, s') \<Rightarrow> wf_fds s' \<and> Q r (fd_table s')"
    using assms(2,3) b by (auto simp: sys_close_def f wf' X' dirs_close_def split: option.splits)
qed

end
