(* ===== verification/Paths.thy ===== *)
theory Paths
  imports Posix "HOL-Library.Sublist"
begin

text \<open>
  Where a local write may land: \<open>resolve_within\<close>, \<open>under\<close> and \<open>caller_path\<close> of
  \<open>utils/paths.py\<close>, with \<open>pathlib\<close>'s pure paths and \<open>os.path.realpath\<close> (in the non-strict
  form of Python 3.10 to 3.12, where \<open>Path.resolve\<close> raises \<open>RuntimeError\<close> for a loop of
  links) over a snapshot of the file system. A path is a \<open>str\<close>.
\<close>

section \<open>Pure paths\<close>

record ppath =
  p_root :: string
  p_parts :: "string list"

definition slash :: char where
  "slash = CHR 0x2F"

definition dotdot :: string where
  "dotdot = ''..''"

text \<open>\<open>PurePosixPath(s)\<close>: exactly two leading slashes are a root of their own.\<close>

definition root_of :: "string \<Rightarrow> string" where
  "root_of s = (let n = length (takeWhile (\<lambda>c. c = slash) s) in
     if n = 0 then '''' else if n = 2 then ''//'' else ''/'')"

definition pure_path :: "string \<Rightarrow> ppath" where
  "pure_path s =
     \<lparr>p_root = root_of s, p_parts = filter (\<lambda>p. p \<noteq> '''' \<and> p \<noteq> ''.'') (str_split slash s)\<rparr>"

definition path_str :: "ppath \<Rightarrow> string" where
  "path_str p = (let s = p_root p @ str_join [slash] (p_parts p) in if s = '''' then ''.'' else s)"

text \<open>\<open>.parts\<close>, \<open>.name\<close>, \<open>.parent\<close>, \<open>/\<close>, \<open>.is_absolute()\<close>, \<open>.absolute()\<close>, \<open>.relative_to()\<close>.\<close>

definition py_parts :: "ppath \<Rightarrow> string list" where
  "py_parts p = (if p_root p = '''' then p_parts p else p_root p # p_parts p)"

definition path_name :: "ppath \<Rightarrow> string" where
  "path_name p = (if p_parts p = [] then '''' else last (p_parts p))"

definition path_parent :: "ppath \<Rightarrow> ppath" where
  "path_parent p = p\<lparr>p_parts := butlast (p_parts p)\<rparr>"

definition path_join :: "ppath \<Rightarrow> ppath \<Rightarrow> ppath" where
  "path_join a b = (if p_root b \<noteq> '''' then b else a\<lparr>p_parts := p_parts a @ p_parts b\<rparr>)"

definition is_absolute :: "ppath \<Rightarrow> bool" where
  "is_absolute p = (p_root p \<noteq> '''')"

definition absolute :: "string list \<Rightarrow> ppath \<Rightarrow> ppath" where
  "absolute cwd p = (if is_absolute p then p else \<lparr>p_root = ''/'', p_parts = cwd @ p_parts p\<rparr>)"

definition relative_to :: "ppath \<Rightarrow> ppath \<Rightarrow> ppath option" where
  "relative_to p other =
     (if p_root p = p_root other \<and> take (length (p_parts other)) (p_parts p) = p_parts other
      then Some \<lparr>p_root = '''', p_parts = drop (length (p_parts other)) (p_parts p)\<rparr> else None)"

section \<open>Looking at the file system\<close>

fun lookup :: "nodes \<Rightarrow> ino \<Rightarrow> string list \<Rightarrow> ino option" where
  "lookup ns d [] = Some d"
| "lookup ns d (n # p) = (case ns d of
     Some (Dir es) \<Rightarrow> (case map_of es n of Some i \<Rightarrow> lookup ns i p | None \<Rightarrow> None)
   | _ \<Rightarrow> None)"

text \<open>
  \<open>os.lstat\<close> of an absolute path whose directories are no links; a path of \<open>PATH_MAX\<close> bytes
  or more is refused by the kernel.
\<close>

definition PATH_MAX :: nat where
  "PATH_MAX = 4096"

definition short_path :: "string list \<Rightarrow> bool" where
  "short_path p = (length (str_join [slash] p) + 2 \<le> PATH_MAX)"

definition lstat_path :: "nodes \<Rightarrow> string list \<Rightarrow> node option" where
  "lstat_path ns p =
     (if short_path p then (case lookup ns root_ino p of Some i \<Rightarrow> ns i | None \<Rightarrow> None) else None)"

fun link_target :: "node option \<Rightarrow> string option" where
  "link_target (Some (Symlink t)) = Some t"
| "link_target _ = None"

definition is_link :: "nodes \<Rightarrow> string list \<Rightarrow> bool" where
  "is_link ns p = (link_target (lstat_path ns p) \<noteq> None)"

text \<open>No directory on the way to \<open>p\<close>, nor \<open>p\<close> itself, is a link.\<close>

definition canonical :: "nodes \<Rightarrow> string list \<Rightarrow> bool" where
  "canonical ns p = list_all (\<lambda>k. \<not> is_link ns (take (Suc k) p)) [0..<length p]"

lemma canonical_Nil [simp]: "canonical ns []"
  by (simp add: canonical_def)

lemma canonical_snoc [simp]: "canonical ns (p @ [n]) \<longleftrightarrow> canonical ns p \<and> \<not> is_link ns (p @ [n])"
  by (auto simp: canonical_def list_all_iff)

lemma canonical_butlast: "canonical ns p \<Longrightarrow> canonical ns (butlast p)"
  by (cases p rule: rev_cases) auto

lemma canonical_prefix:
  assumes "canonical ns p" "prefix q p"
  shows "canonical ns q"
proof -
  from assms(2) obtain r where "p = q @ r" by (auto simp: prefix_def)
  with assms(1) show ?thesis
    by (induction r arbitrary: p rule: rev_induct) (auto simp flip: append_assoc)
qed

section \<open>\<open>os.path.realpath\<close>\<close>

text \<open>
  \<open>_joinrealpath\<close>: the components still to walk, with a marker where the target of a link
  ends and its resolution is remembered. \<open>seen\<close> maps a link to its resolution, or to
  \<^term>\<open>None\<close> while it is being resolved; meeting it again then is a loop. Paths are kept
  absolute: the working directory is where a relative one starts.
\<close>

datatype work = Name string | Resolved "string list"

lemma finite_short_paths: "finite {p. short_path p}"
proof -
  have n: "length p \<le> length (str_join [slash] p) + 1 \<and>
      (\<forall>c \<in> set p. length c \<le> length (str_join [slash] p))" for p
    by (induction "[slash]" p rule: str_join.induct) auto
  have "{p. short_path p} \<subseteq>
    {p. set p \<subseteq> {c. set c \<subseteq> UNIV \<and> length c \<le> PATH_MAX} \<and> length p \<le> PATH_MAX}"
  proof safe
    fix p c assume "short_path p"
    then have len: "length (str_join [slash] p) + 2 \<le> PATH_MAX" by (simp add: short_path_def)
    then show "length p \<le> PATH_MAX" using n [of p] by linarith
    assume "c \<in> set p"
    then show "length c \<le> PATH_MAX" using len n [of p] by fastforce
  qed simp
  then show ?thesis
    by (rule finite_subset) (intro finite_lists_length_le finite_UNIV)
qed

definition unseen :: "(string list, string list option) dict \<Rightarrow> nat" where
  "unseen seen = card ({p. short_path p} - set (dict_keys seen))"

lemma unseen_dict_set: "unseen (dict_set seen p v) \<le> unseen seen"
  unfolding unseen_def set_keys_dict_set
  by (rule card_mono) (auto simp: finite_short_paths)

lemma unseen_link:
  assumes "link_target (lstat_path ns p) = Some t" "map_of seen p = None"
  shows "unseen (dict_set seen p v) < unseen seen"
  unfolding unseen_def
proof (rule psubset_card_mono)
  have "short_path p" using assms(1) by (auto simp: lstat_path_def split: if_splits)
  moreover have "p \<notin> set (dict_keys seen)" using assms(2) by (simp add: map_of_eq_None_iff)
  ultimately show "{p. short_path p} - set (dict_keys (dict_set seen p v)) \<subset>
      {p. short_path p} - set (dict_keys seen)"
    by (simp only: set_keys_dict_set) blast
qed (simp add: finite_short_paths)

function realpath_loop ::
  "nodes \<Rightarrow> (string list, string list option) dict \<Rightarrow> string list \<Rightarrow> work list \<Rightarrow> string list option"
where
  "realpath_loop ns seen path [] = Some path"
| "realpath_loop ns seen path (Resolved p # rest) =
     realpath_loop ns (dict_set seen p (Some path)) path rest"
| "realpath_loop ns seen path (Name n # rest) =
     (if n = '''' \<or> n = ''.'' then realpath_loop ns seen path rest
      else if n = dotdot then realpath_loop ns seen (butlast path) rest
      else case link_target (lstat_path ns (path @ [n])) of
          None \<Rightarrow> realpath_loop ns seen (path @ [n]) rest
        | Some t \<Rightarrow>
            (case map_of seen (path @ [n]) of
               Some (Some p) \<Rightarrow> realpath_loop ns seen p rest
             | Some None \<Rightarrow> None
             | None \<Rightarrow>
                 realpath_loop ns (dict_set seen (path @ [n]) None)
                   (if starts_with [slash] t then [] else path)
                   (map Name (str_split slash t) @ Resolved (path @ [n]) # rest)))"
  by pat_completeness auto
termination
proof (relation "inv_image (less_than <*lex*> less_than)
    (\<lambda>(ns, seen, path, work). (unseen seen, length work))", goal_cases)
  case (2 ns seen path p rest)
  then show ?case using unseen_dict_set [of seen p "Some path"] by auto
qed (auto intro: unseen_link)

definition resolve_path :: "nodes \<Rightarrow> string list \<Rightarrow> ppath \<Rightarrow> fail + ppath" where
  "resolve_path ns cwd p =
     (case realpath_loop ns [] (if is_absolute p then [] else cwd) (map Name (p_parts p)) of
        Some q \<Rightarrow> Inr \<lparr>p_root = ''/'', p_parts = q\<rparr>
      | None \<Rightarrow> Inl Runtime_error)"

lemma realpath_loop_canonical:
  assumes "realpath_loop ns seen path work = Some p" "canonical ns path"
    "\<forall>q r. map_of seen q = Some (Some r) \<longrightarrow> canonical ns r"
  shows "canonical ns p"
  using assms
proof (induction ns seen path work rule: realpath_loop.induct)
  case (3 ns seen path n rest)
  consider "n = '''' \<or> n = ''.''" | "\<not> (n = '''' \<or> n = ''.'')" "n = dotdot"
    | "\<not> (n = '''' \<or> n = ''.'')" "n \<noteq> dotdot" by blast
  then show ?case
  proof cases
    case 3
    show ?thesis
    proof (cases "link_target (lstat_path ns (path @ [n]))")
      case None
      with "3.IH"(3) "3.prems" 3 show ?thesis by (auto simp: is_link_def)
    next
      case (Some t)
      with "3.IH"(4,5) "3.prems" 3 show ?thesis
        by (auto split: option.splits if_splits)
    qed
  qed (use 3 canonical_butlast in auto)
qed auto

text \<open>What \<open>resolve()\<close> answers names no link, whatever the path was.\<close>

lemma resolve_path_canonical:
  assumes "resolve_path ns cwd p = Inr q" "canonical ns cwd"
  shows "p_root q = ''/'' \<and> canonical ns (p_parts q)"
  using assms realpath_loop_canonical [of ns "[]"]
  by (auto simp: resolve_path_def split: option.splits if_splits)

section \<open>Containment\<close>

definition names_a_directory :: "ppath \<Rightarrow> bool" where
  "names_a_directory relative =
     (let parts = py_parts relative in parts = [] \<or> last parts = dotdot)"

definition within_base :: "ppath \<Rightarrow> ppath \<Rightarrow> bool" where
  "within_base base resolved = (resolved = base \<or> relative_to resolved base \<noteq> None)"

abbreviation escape :: fail where
  "escape \<equiv> Raised PathContainmentError"

definition resolve_within :: "nodes \<Rightarrow> string list \<Rightarrow> string \<Rightarrow> string \<Rightarrow> fail + ppath" where
  "resolve_within ns cwd base candidate =
     rbind (ensure (CHR 0x00 \<notin> set candidate \<and> CHR 0x00 \<notin> set base) escape) (\<lambda>_.
     let relative = pure_path candidate in
     rbind (ensure (\<not> is_absolute relative) escape) (\<lambda>_.
     rbind (resolve_path ns cwd (pure_path base)) (\<lambda>canonical_base.
     let combined = path_join (pure_path base) relative in
     if py_parts relative = [] then
       (let whole = absolute cwd (pure_path base) in
        rbind (resolve_path ns cwd (path_parent whole)) (\<lambda>parent.
        Inr (path_join parent (pure_path (path_name whole)))))
     else if names_a_directory relative then
       rbind (resolve_path ns cwd combined) (\<lambda>whole.
       rbind (ensure (within_base canonical_base whole) escape) (\<lambda>_. Inr whole))
     else
       rbind (resolve_path ns cwd (path_parent combined)) (\<lambda>parent.
       rbind (ensure (within_base canonical_base parent) escape) (\<lambda>_.
       Inr (path_join parent (pure_path (path_name combined))))))))"

definition under :: "nodes \<Rightarrow> string list \<Rightarrow> string \<Rightarrow> string \<Rightarrow> fail + ppath" where
  "under ns cwd base path =
     (let root = pure_path base; composed = pure_path path in
      case relative_to composed root of
        None \<Rightarrow> Inl escape
      | Some tail \<Rightarrow> resolve_within ns cwd (path_str root) (path_str tail))"

definition caller_path :: "nodes \<Rightarrow> string list \<Rightarrow> string \<Rightarrow> fail + ppath" where
  "caller_path ns cwd spelled =
     (if spelled = '''' \<or> ends_with [slash] spelled \<or>
         names_a_directory (pure_path (path_name (pure_path spelled)))
      then Inl escape
      else (let whole = absolute cwd (pure_path spelled) in
        resolve_within ns cwd (path_str (path_parent whole)) (path_name whole)))"

section \<open>What the resolution promises\<close>

text \<open>A name one directory entry can have, other than the two that every directory has.\<close>

definition entry_name :: "string \<Rightarrow> bool" where
  "entry_name n \<longleftrightarrow> n \<noteq> '''' \<and> n \<noteq> ''.'' \<and> slash \<notin> set n"

lemma entry_name_parts: "list_all entry_name (p_parts (pure_path s))"
  by (auto simp: pure_path_def entry_name_def list_all_iff dest: str_split_no_sep)

lemma str_split_no_sep_id: "c \<notin> set s \<Longrightarrow> str_split c s = [s]"
  by (induction s) auto

lemma pure_path_entry_name [simp]:
  assumes "entry_name n"
  shows "pure_path n = \<lparr>p_root = '''', p_parts = [n]\<rparr>"
proof -
  have "takeWhile (\<lambda>c. c = slash) n = []"
    using assms by (cases n) (auto simp: entry_name_def)
  then show ?thesis
    using assms by (auto simp: pure_path_def root_of_def str_split_no_sep_id entry_name_def)
qed

lemma pure_path_Nil [simp]: "pure_path '''' = \<lparr>p_root = '''', p_parts = []\<rparr>"
  by (simp add: pure_path_def root_of_def)

lemma path_join_entry:
  "path_join a \<lparr>p_root = '''', p_parts = [n]\<rparr> = a\<lparr>p_parts := p_parts a @ [n]\<rparr>"
  by (simp add: path_join_def)

lemma within_base_prefix:
  "within_base b p \<Longrightarrow> p_root p = p_root b \<and> prefix (p_parts b) (p_parts p)"
  by (auto simp: within_base_def relative_to_def prefix_def split: if_splits)
    (metis append_take_drop_id)

lemma last_entry_name: "p_parts (pure_path s) \<noteq> [] \<Longrightarrow> entry_name (last (p_parts (pure_path s)))"
  using entry_name_parts [of s] by (simp add: list_all_iff)

text \<open>The three arms of the resolution, as the caller sees them.\<close>

lemma resolve_within_leaf:
  assumes "resolve_within ns cwd base candidate = Inr p"
    "py_parts (pure_path candidate) \<noteq> []" "\<not> names_a_directory (pure_path candidate)"
  obtains b parent where
    "resolve_path ns cwd (pure_path base) = Inr b"
    "resolve_path ns cwd (path_parent (path_join (pure_path base) (pure_path candidate))) = Inr parent"
    "within_base b parent"
    "p = parent\<lparr>p_parts := p_parts parent @ [last (p_parts (pure_path candidate))]\<rparr>"
    "entry_name (last (p_parts (pure_path candidate)))"
proof -
  from assms(1) have rel: "p_root (pure_path candidate) = ''''"
    by (auto simp: resolve_within_def Let_def rbind_eq_Inr ensure_eq_Inr is_absolute_def)
  then have ne: "p_parts (pure_path candidate) \<noteq> []" using assms(2) by (simp add: py_parts_def)
  have name: "path_name (path_join (pure_path base) (pure_path candidate)) =
      last (p_parts (pure_path candidate))"
    using rel ne by (simp add: path_name_def path_join_def)
  from assms ne last_entry_name [of candidate] show thesis
    by (auto simp: resolve_within_def Let_def rbind_eq_Inr ensure_eq_Inr name path_join_entry
        intro!: that)
qed

lemma resolve_within_directory:
  assumes "resolve_within ns cwd base candidate = Inr p"
    "py_parts (pure_path candidate) \<noteq> []" "names_a_directory (pure_path candidate)"
  obtains b where
    "resolve_path ns cwd (pure_path base) = Inr b"
    "resolve_path ns cwd (path_join (pure_path base) (pure_path candidate)) = Inr p"
    "within_base b p"
  using assms
  by (auto simp: resolve_within_def Let_def rbind_eq_Inr ensure_eq_Inr intro!: that)

lemma resolve_within_itself:
  assumes "resolve_within ns cwd base candidate = Inr p" "py_parts (pure_path candidate) = []"
  obtains parent where
    "resolve_path ns cwd (path_parent (absolute cwd (pure_path base))) = Inr parent"
    "p = path_join parent (pure_path (path_name (absolute cwd (pure_path base))))"
  using assms
  by (auto simp: resolve_within_def Let_def rbind_eq_Inr ensure_eq_Inr intro!: that)

lemma resolved_inside:
  assumes "resolve_within ns cwd base candidate = Inr p" "canonical ns cwd"
    "py_parts (pure_path candidate) \<noteq> []"
  shows "\<exists>b. resolve_path ns cwd (pure_path base) = Inr b \<and> p_root p = p_root b \<and>
      prefix (p_parts b) (p_parts p) \<and> canonical ns (p_parts b) \<and>
      canonical ns (butlast (p_parts p)) \<and>
      (p_parts p = [] \<or> last (p_parts p) = last (p_parts (pure_path candidate))
        \<or> canonical ns (p_parts p))"
proof (cases "names_a_directory (pure_path candidate)")
  case True
  from resolve_within_directory [OF assms(1,3) True] obtain b where
    b: "resolve_path ns cwd (pure_path base) = Inr b" "within_base b p"
      "resolve_path ns cwd (path_join (pure_path base) (pure_path candidate)) = Inr p" .
  then show ?thesis
    using within_base_prefix [OF b(2)] resolve_path_canonical [OF b(1) assms(2)]
      resolve_path_canonical [OF b(3) assms(2)] canonical_butlast by auto
next
  case False
  from resolve_within_leaf [OF assms(1,3) False] obtain b parent where
    b: "resolve_path ns cwd (pure_path base) = Inr b" "within_base b parent"
      "resolve_path ns cwd (path_parent (path_join (pure_path base) (pure_path candidate))) = Inr parent"
      "p = parent\<lparr>p_parts := p_parts parent @ [last (p_parts (pure_path candidate))]\<rparr>" .
  then show ?thesis
    using within_base_prefix [OF b(2)] resolve_path_canonical [OF b(1) assms(2)]
      resolve_path_canonical [OF b(3) assms(2)] by (auto simp: prefix_append)
qed

text \<open>
  C6. A write confined to a directory stays in it: for every name with a component, whatever a remote
  server supplied, the path \<open>resolve_within\<close> answers lies under the base with all links resolved, no
  directory on the way to its last component is a symbolic link, and the last component is either the
  one the server gave, verbatim (so that a link there is still there to be refused when the file is
  opened), or, for a name ending in \<open>..\<close>, itself resolved. A name without components (empty, or dots
  alone) stands for the base itself: the answer is the base, with its parent resolved and its own last
  component verbatim, for the same reason.
\<close>

theorem resolved_names_stay_inside:
  assumes "resolve_within ns cwd base candidate = Inr p" "canonical ns cwd"
  shows "if py_parts (pure_path candidate) \<noteq> [] then
      \<exists>b. resolve_path ns cwd (pure_path base) = Inr b \<and> p_root p = p_root b \<and>
      prefix (p_parts b) (p_parts p) \<and> canonical ns (p_parts b) \<and>
      canonical ns (butlast (p_parts p)) \<and>
      (p_parts p = [] \<or> last (p_parts p) = last (p_parts (pure_path candidate))
        \<or> canonical ns (p_parts p))
    else \<exists>parent. resolve_path ns cwd (path_parent (absolute cwd (pure_path base))) = Inr parent \<and>
      canonical ns (p_parts parent) \<and>
      p = path_join parent (pure_path (path_name (absolute cwd (pure_path base))))"
proof (cases "py_parts (pure_path candidate) = []")
  case True
  with assms(1) obtain parent where
    "resolve_path ns cwd (path_parent (absolute cwd (pure_path base))) = Inr parent"
    "p = path_join parent (pure_path (path_name (absolute cwd (pure_path base))))"
    by (auto simp: resolve_within_def Let_def rbind_eq_Inr)
  with True resolve_path_canonical [OF _ assms(2)] show ?thesis by auto
next
  case False
  with resolved_inside [OF assms] show ?thesis by simp
qed

text \<open>Without links there is nothing to resolve: an honest name is answered as it stands.\<close>

lemma realpath_loop_plain:
  assumes "list_all entry_name p" "dotdot \<notin> set p" "canonical ns (q @ p)"
  shows "realpath_loop ns seen q (map Name p) = Some (q @ p)"
  using assms
proof (induction p arbitrary: q)
  case (Cons n p)
  have "prefix (q @ [n]) (q @ n # p)" by (auto simp: prefix_def)
  then have "canonical ns (q @ [n])" using canonical_prefix Cons.prems(3) by blast
  then have "link_target (lstat_path ns (q @ [n])) = None" by (simp add: is_link_def)
  then show ?case
    using Cons.IH [of "q @ [n]"] Cons.prems by (auto simp: entry_name_def)
qed simp

lemma resolve_path_plain:
  assumes "list_all entry_name p" "dotdot \<notin> set p" "canonical ns p"
  shows "resolve_path ns cwd \<lparr>p_root = ''/'', p_parts = p\<rparr> = Inr \<lparr>p_root = ''/'', p_parts = p\<rparr>"
  using realpath_loop_plain [of p ns "[]"] assms by (simp add: resolve_path_def is_absolute_def)

text \<open>
  No honest name is refused: below a base without links, a relative name without
  \<open>..\<close> whose directories are no links is answered as the base followed by the name.
\<close>

theorem honest_names_are_answered_verbatim:
  assumes "pure_path base = \<lparr>p_root = ''/'', p_parts = b\<rparr>" "dotdot \<notin> set b"
    "pure_path candidate = \<lparr>p_root = '''', p_parts = c\<rparr>" "c \<noteq> []" "dotdot \<notin> set c"
    "canonical ns (b @ butlast c)" "CHR 0x00 \<notin> set base \<union> set candidate"
  shows "resolve_within ns cwd base candidate = Inr \<lparr>p_root = ''/'', p_parts = b @ c\<rparr>"
proof -
  have b: "list_all entry_name b" and c: "list_all entry_name c"
    using entry_name_parts [of base] entry_name_parts [of candidate] assms(1,3) by auto
  have "canonical ns b" using assms(6) canonical_prefix by (meson prefixI)
  then have base: "resolve_path ns cwd (pure_path base) = Inr \<lparr>p_root = ''/'', p_parts = b\<rparr>"
    using resolve_path_plain b assms(1,2) by simp
  have "list_all entry_name (b @ butlast c)" "dotdot \<notin> set (b @ butlast c)"
    using b c assms(2,5) by (auto simp: list_all_iff dest: in_set_butlastD)
  then have parent: "resolve_path ns cwd (path_parent (path_join (pure_path base) (pure_path candidate)))
      = Inr \<lparr>p_root = ''/'', p_parts = b @ butlast c\<rparr>"
    using resolve_path_plain [of "b @ butlast c" ns cwd] assms
    by (simp add: path_parent_def path_join_def butlast_append)
  have "entry_name (last c)" using c assms(4) by (simp add: list_all_iff)
  moreover have "last c \<noteq> dotdot" using last_in_set [OF assms(4)] assms(5) by metis
  then have "\<not> names_a_directory (pure_path candidate)"
    using assms(3,4) by (simp add: names_a_directory_def py_parts_def)
  ultimately show ?thesis
    using base parent assms
    by (simp add: resolve_within_def Let_def is_absolute_def py_parts_def within_base_def
        relative_to_def path_join_def path_name_def)
qed

text \<open>A path the caller names is resolved but for its last component.\<close>

lemma str_split_append:
  "c \<notin> set n \<Longrightarrow> str_split c (n @ c # s) = n # str_split c s"
  by (induction n) auto

lemma str_split_join:
  "p \<noteq> [] \<Longrightarrow> \<forall>n \<in> set p. c \<notin> set n \<Longrightarrow> str_split c (str_join [c] p) = p"
  by (induction "[c]" p rule: str_join.induct) (auto simp: str_split_append str_split_no_sep_id)

lemma pure_path_str_parts:
  assumes "list_all entry_name p" "p \<noteq> []"
  shows "filter (\<lambda>p. p \<noteq> '''' \<and> p \<noteq> ''.'') (str_split slash (str_join [slash] p)) = p"
    "takeWhile (\<lambda>c. c = slash) (str_join [slash] p) = []"
proof -
  have "\<forall>n \<in> set p. slash \<notin> set n" using assms(1) by (auto simp: list_all_iff entry_name_def)
  with assms show "filter (\<lambda>p. p \<noteq> '''' \<and> p \<noteq> ''.'') (str_split slash (str_join [slash] p)) = p"
    by (auto simp: str_split_join filter_id_conv list_all_iff entry_name_def)
  obtain n q where "p = n # q" "entry_name n" using assms by (cases p) auto
  then obtain x n' where "n = x # n'" "x \<noteq> slash" by (cases n) (auto simp: entry_name_def)
  with \<open>p = n # q\<close> show "takeWhile (\<lambda>c. c = slash) (str_join [slash] p) = []"
    by (cases q) auto
qed

lemma pure_path_str:
  assumes "p_root p = '''' \<or> p_root p = ''/'' \<or> p_root p = ''//''" "list_all entry_name (p_parts p)"
  shows "pure_path (path_str p) = p"
proof (cases "p_parts p = []")
  case True
  with assms(1) show ?thesis
    by (cases p) (auto simp: path_str_def pure_path_def root_of_def slash_def)
next
  case False
  note parts = pure_path_str_parts [OF assms(2) False]
  have "takeWhile (\<lambda>c. c = slash) (p_root p @ str_join [slash] (p_parts p)) = p_root p"
    using assms(1) parts(2) by (auto simp: slash_def)
  moreover have "str_join [slash] (p_parts p) \<noteq> ''''"
    using parts(1) False by (cases "str_join [slash] (p_parts p)") auto
  ultimately show ?thesis
    using assms(1) parts(1)
    by (cases p) (auto simp: path_str_def pure_path_def root_of_def slash_def)
qed


lemma root_of_cases: "root_of s = [] \<or> root_of s = ''/'' \<or> root_of s = ''//''"
  by (simp add: root_of_def Let_def)

lemma pure_path_roundtrip: "pure_path (path_str (pure_path s)) = pure_path s"
  using entry_name_parts [of s] root_of_cases [of s]
  by (intro pure_path_str) (auto simp: pure_path_def)

text \<open>
  A path composed by a transfer client is brought back under the directory it was confined
  to before it is opened.
\<close>

lemma under_confines:
  assumes "under ns cwd base path = Inr p" "canonical ns cwd"
    "p_parts (pure_path path) \<noteq> p_parts (pure_path base)"
  shows "\<exists>b. resolve_path ns cwd (pure_path base) = Inr b \<and> p_root p = p_root b \<and>
      prefix (p_parts b) (p_parts p) \<and> canonical ns (butlast (p_parts p))"
proof -
  from assms(1) obtain tail where t: "relative_to (pure_path path) (pure_path base) = Some tail"
    "resolve_within ns cwd (path_str (pure_path base)) (path_str tail) = Inr p"
    by (auto simp: under_def Let_def split: option.splits)
  then have tail: "p_root tail = []" "p_parts (pure_path path) = p_parts (pure_path base) @ p_parts tail"
    by (auto simp: relative_to_def split: if_splits) (metis append_take_drop_id)
  then have "list_all entry_name (p_parts tail)"
    using entry_name_parts [of path] by simp
  then have "pure_path (path_str tail) = tail" using tail(1) by (intro pure_path_str) auto
  moreover have "py_parts tail \<noteq> []" using tail assms(3) by (auto simp: py_parts_def)
  ultimately show ?thesis
    using resolved_inside [OF t(2) assms(2)] by (auto simp: pure_path_roundtrip)
qed

text \<open>
  The path a caller names is answered with its directory resolved and its own last component.
\<close>

lemma caller_path_leaf:
  assumes "caller_path ns cwd s = Inr p" "canonical ns cwd"
  shows "p_root p = ''/'' \<and> p_parts p \<noteq> [] \<and> canonical ns (butlast (p_parts p)) \<and>
    last (p_parts p) = last (p_parts (pure_path s))"
proof -
  let ?n = "path_name (pure_path s)" and ?w = "absolute cwd (pure_path s)"
  from assms(1) have ok: "\<not> names_a_directory (pure_path ?n)"
    "resolve_within ns cwd (path_str (path_parent ?w)) (path_name ?w) = Inr p"
    by (auto simp: caller_path_def Let_def split: if_splits)
  then have ne: "p_parts (pure_path s) \<noteq> []"
    by (auto simp: path_name_def names_a_directory_def py_parts_def split: if_splits)
  then have name: "entry_name ?n" "path_name ?w = ?n" "?n = last (p_parts (pure_path s))"
    using last_entry_name [of s] by (auto simp: path_name_def absolute_def)
  then have "py_parts (pure_path (path_name ?w)) \<noteq> []" "\<not> names_a_directory (pure_path (path_name ?w))"
    using ok(1) by (simp_all add: py_parts_def)
  from resolve_within_leaf [OF ok(2) this] obtain b parent where
    "resolve_path ns cwd (path_parent (path_join (pure_path (path_str (path_parent ?w)))
       (pure_path (path_name ?w)))) = Inr parent"
    "p = parent\<lparr>p_parts := p_parts parent @ [last (p_parts (pure_path (path_name ?w)))]\<rparr>" .
  with name resolve_path_canonical [OF this(1) assms(2)] show ?thesis by simp
qed

section \<open>Examples\<close>

text \<open>A served directory with a subdirectory and a link out of it.\<close>

definition served :: nodes where
  "served =
     [0 \<mapsto> Dir [(''..'', 0), (''srv'', 1), (''etc'', 4)],
      1 \<mapsto> Dir [(''..'', 0), (''data'', 2), (''out'', 3)],
      2 \<mapsto> Dir [(''..'', 1)],
      3 \<mapsto> Symlink ''/etc'',
      4 \<mapsto> Dir [(''..'', 0)]]"

lemma served_answers:
  "resolve_within served [] ''/srv'' ''data/../data/report'' =
     Inr \<lparr>p_root = ''/'', p_parts = [''srv'', ''data'', ''report'']\<rparr>"
  "resolve_within served [] ''/srv'' ''out/passwd'' = Inl escape"
  "resolve_within served [] ''/srv'' ''data/../../etc/passwd'' = Inl escape"
  "resolve_within served [] ''/srv'' ''/etc/passwd'' = Inl escape"
  "resolve_within served [] ''/srv'' ''out'' =
     Inr \<lparr>p_root = ''/'', p_parts = [''srv'', ''out'']\<rparr>"
  by code_simp+

theorem resolved_names_stay_inside_witness:
  "prefix [''srv''] (p_parts \<lparr>p_root = ''/'', p_parts = [''srv'', ''data'', ''report'']\<rparr>)"
proof -
  have "resolve_path served [] (pure_path ''/srv'') = Inr \<lparr>p_root = ''/'', p_parts = [''srv'']\<rparr>"
    "py_parts (pure_path ''data/../data/report'') \<noteq> []"
    by code_simp+
  with resolved_names_stay_inside [OF served_answers(1)] show ?thesis by auto
qed

theorem honest_names_are_answered_verbatim_witness:
  "resolve_within served [] ''/srv'' ''data/report'' =
     Inr \<lparr>p_root = ''/'', p_parts = [''srv'', ''data'', ''report'']\<rparr>"
proof -
  have "pure_path ''/srv'' = \<lparr>p_root = ''/'', p_parts = [''srv'']\<rparr>"
    "pure_path ''data/report'' = \<lparr>p_root = [], p_parts = [''data'', ''report'']\<rparr>"
    "canonical served ([''srv''] @ butlast [''data'', ''report''])"
    "CHR 0x00 \<notin> set ''/srv'' \<union> set ''data/report''"
    by code_simp+
  from honest_names_are_answered_verbatim [OF this(1) _ this(2) _ _ this(3,4)]
  show ?thesis by (simp add: dotdot_def)
qed

end
