(* ===== verification/Opens.thy ===== *)
theory Opens
  imports Descriptors Paths
begin

text \<open>
  How a local file is opened: the descriptor walk of \<open>open_within\<close>, the checks on the
  descriptor it ends with, the classification of a refusal, \<open>safe_writer\<close>, and the opening
  of a file to be read, of \<open>utils/paths.py\<close>. The flags are sets; an \<open>O_NOFOLLOW\<close> that the
  platform lacks is the empty one.
\<close>

section \<open>Flags and error numbers\<close>

definition SYMLINK_ERRNOS :: "errno set" where
  "SYMLINK_ERRNOS = {ELOOP, EMLINK}"

definition NOT_A_REGULAR_FILE_ERRNOS :: "errno set" where
  "NOT_A_REGULAR_FILE_ERRNOS = {ENXIO, EOPNOTSUPP}"

definition NOFOLLOW :: "flag set" where
  "NOFOLLOW = {O_NOFOLLOW}"

definition DIRECTORY_FLAGS :: "flag set" where
  "DIRECTORY_FLAGS = {O_DIRECTORY, O_NOFOLLOW, O_CLOEXEC}"

section \<open>The walk\<close>

definition or_close :: "nat \<Rightarrow> 'a sys \<Rightarrow> 'a sys" where
  "or_close d m = scatch m (\<lambda>e. sbind (sys_close d) (\<lambda>_. sraise e))"

fun walk_from :: "nat \<Rightarrow> string list \<Rightarrow> nat sys" where
  "walk_from current [] = sreturn current"
| "walk_from current (part # parts) =
     sbind (or_close current (sys_openat current part DIRECTORY_FLAGS)) (\<lambda>following.
     sbind (or_close current (sys_close current)) (\<lambda>_.
     walk_from following parts))"

definition walk_to_parent :: "nat \<Rightarrow> string list \<Rightarrow> nat sys" where
  "walk_to_parent base parts = sbind (sys_dup base) (\<lambda>current. walk_from current parts)"

section \<open>The checks on the descriptor\<close>

definition restore_blocking :: "nat \<Rightarrow> flag set \<Rightarrow> unit sys" where
  "restore_blocking d nonblock =
     (if nonblock = {} then sreturn ()
      else sbind (sys_getfl d) (\<lambda>flags. sys_setfl d (flags - nonblock)))"

definition reject_irregular :: "nat \<Rightarrow> unit sys" where
  "reject_irregular d = sbind (sys_fstat d) (\<lambda>(i, nd). case nd of
       Reg _ links \<Rightarrow> if links > 1 then sraise escape else sreturn ()
     | _ \<Rightarrow> sraise escape)"

fun describe :: "node \<Rightarrow> string" where
  "describe (Special (Fifo _)) = ''named pipe''"
| "describe (Special Char_device) = ''character device''"
| "describe (Special Block_device) = ''block device''"
| "describe (Special Socket) = ''socket''"
| "describe (Dir _) = ''directory''"
| "describe (Symlink _) = ''symbolic link''"
| "describe (Reg _ _) = ''special file''"

definition describe_at :: "nat \<Rightarrow> string \<Rightarrow> string sys" where
  "describe_at parent leaf =
     scatch (sbind (sys_lstat parent leaf) (\<lambda>(i, nd). sreturn (describe nd)))
       (\<lambda>e. if is_os_error e then sreturn ''named pipe or unconnected device'' else sraise e)"

definition refuse_symlink_at :: "nat \<Rightarrow> string \<Rightarrow> unit sys" where
  "refuse_symlink_at parent leaf =
     sbind (scatch (sbind (sys_lstat parent leaf) (\<lambda>found. sreturn (Some (snd found))))
       (\<lambda>e. if e = Os_error ENOENT then sreturn None else sraise e)) (\<lambda>info.
     case info of Some (Symlink _) \<Rightarrow> sraise escape | _ \<Rightarrow> sreturn ())"

section \<open>\<open>open_within\<close>\<close>

definition open_leaf :: "nat \<Rightarrow> string \<Rightarrow> flag set \<Rightarrow> flag set \<Rightarrow> nat sys" where
  "open_leaf parent leaf flags nofollow =
     sbind (if nofollow = {} then refuse_symlink_at parent leaf else sreturn ()) (\<lambda>_.
     scatch (sys_openat parent leaf ((flags - {O_TRUNC}) \<union> nofollow \<union> {O_NONBLOCK, O_CLOEXEC}))
       (\<lambda>e. case e of
          Os_error n \<Rightarrow>
            if n \<in> NOT_A_REGULAR_FILE_ERRNOS
            then sbind (describe_at parent leaf) (\<lambda>_. sraise escape) else sraise e
        | _ \<Rightarrow> sraise e))"

definition settle_descriptor :: "nat \<Rightarrow> flag set \<Rightarrow> unit sys" where
  "settle_descriptor d flags =
     sbind (reject_irregular d) (\<lambda>_.
     sbind (restore_blocking d {O_NONBLOCK}) (\<lambda>_.
     if O_TRUNC \<in> flags then sys_truncate d else sreturn ()))"

definition open_within :: "string \<Rightarrow> flag set \<Rightarrow> flag set \<Rightarrow> nat sys" where
  "open_within path flags nofollow =
     (let pure = pure_path path; parts = p_parts pure in
      if parts = [] then sraise escape
      else
        sbind (sys_open_anchor (is_absolute pure) ((DIRECTORY_FLAGS - nofollow) \<union> {O_CLOEXEC}))
          (\<lambda>base.
        sbind (sfinally (walk_to_parent base (butlast parts)) (sys_close base)) (\<lambda>parent.
        sbind (sfinally (open_leaf parent (last parts) flags nofollow) (sys_close parent))
          (\<lambda>descriptor.
        sbind (or_close descriptor (settle_descriptor descriptor flags)) (\<lambda>_.
        sreturn descriptor)))))"

definition guarded_opener :: "bool \<Rightarrow> flag set \<Rightarrow> string \<Rightarrow> flag set \<Rightarrow> nat sys" where
  "guarded_opener overwrite nofollow path flags =
     open_within path (if overwrite then flags else (flags - {O_TRUNC}) \<union> {O_EXCL}) nofollow"

section \<open>Refusals\<close>

definition what_is_there :: "string \<Rightarrow> string sys" where
  "what_is_there path = (let p = pure_path path in
     sbind (sys_islink (is_absolute p) (p_parts p)) (\<lambda>link.
     if link then sreturn ''symlink''
     else sbind (sys_isdir (is_absolute p) (p_parts p)) (\<lambda>dir.
       sreturn (if dir then ''directory'' else ''file''))))"

definition classify_refusal :: "string \<Rightarrow> errno \<Rightarrow> fail sys" where
  "classify_refusal path n =
     (if n \<in> SYMLINK_ERRNOS then sreturn escape
      else if n \<noteq> EEXIST then sreturn (Raised LocalWriteError)
      else sbind (what_is_there path) (\<lambda>kind.
        sreturn (if kind = ''symlink'' then escape else Raised ConfigurationError)))"

definition raise_classified :: "string \<Rightarrow> fail \<Rightarrow> 'a sys" where
  "raise_classified path e = (case e of
     Os_error n \<Rightarrow> sbind (classify_refusal path n) sraise | _ \<Rightarrow> sraise e)"

definition safe_unlink :: "string \<Rightarrow> unit sys" where
  "safe_unlink path = (let p = pure_path path in
     scatch (sys_remove (is_absolute p) (p_parts p))
       (\<lambda>e. if e = Os_error ENOENT then sreturn () else sraise e))"

text \<open>What \<open>aiofiles.open(path, 'wb')\<close> asks its opener for.\<close>

definition WB_FLAGS :: "flag set" where
  "WB_FLAGS = {O_WRONLY, O_CREAT, O_TRUNC, O_CLOEXEC}"

text \<open>
  \<open>safe_writer\<close>, around the block of its caller, which gets the handle.
\<close>

definition safe_writer :: "string \<Rightarrow> bool \<Rightarrow> (nat \<Rightarrow> 'a sys) \<Rightarrow> 'a sys" where
  "safe_writer path overwrite block =
     sbind (scatch (guarded_opener overwrite NOFOLLOW path WB_FLAGS) (raise_classified path))
       (\<lambda>handle.
     sbind (scatch (block handle) (\<lambda>e.
       sbind (suppress_os (sys_close handle)) (\<lambda>_.
       sbind (safe_unlink path) (\<lambda>_. raise_classified path e)))) (\<lambda>x.
     sbind (scatch (sys_close handle) (\<lambda>e.
       if is_os_error e then sbind (safe_unlink path) (\<lambda>_. raise_classified path e)
       else sraise e)) (\<lambda>_.
     sreturn x)))"

section \<open>Opening to read\<close>

definition leaf_name :: "string \<Rightarrow> string sys" where
  "leaf_name path = (let p = pure_path path in
     if py_parts p = [] \<or> path_name p = '''' then sraise escape else sreturn (path_name p))"

definition open_parent_descriptor :: "string \<Rightarrow> nat sys" where
  "open_parent_descriptor path = (let p = pure_path path in
     if p_parts p = [] then sraise escape
     else sbind (sys_open_anchor (is_absolute p) DIRECTORY_FLAGS) (\<lambda>base.
       sfinally (walk_to_parent base (butlast (p_parts p))) (sys_close base)))"

definition inspect_source :: "nat \<Rightarrow> string \<Rightarrow> ino sys" where
  "inspect_source parent leaf = sbind (sys_lstat parent leaf) (\<lambda>(i, nd). case nd of
       Symlink _ \<Rightarrow> sraise escape
     | Reg _ _ \<Rightarrow> sreturn i
     | _ \<Rightarrow> sraise (Raised ConfigurationError))"

definition open_source :: "nat \<Rightarrow> string \<Rightarrow> flag set \<Rightarrow> nat sys" where
  "open_source parent leaf nofollow =
     scatch (sys_openat parent leaf (nofollow \<union> {O_NONBLOCK, O_CLOEXEC}))
       (\<lambda>e. case e of
          Os_error n \<Rightarrow> if n \<in> SYMLINK_ERRNOS then sraise escape else sraise e
        | _ \<Rightarrow> sraise e)"

definition settle_source :: "nat \<Rightarrow> ino option \<Rightarrow> unit sys" where
  "settle_source d seen =
     sbind (sys_fstat d) (\<lambda>(i, nd).
     case nd of
       Reg _ _ \<Rightarrow>
         if seen \<noteq> None \<and> seen \<noteq> Some i then sraise escape
         else restore_blocking d {O_NONBLOCK}
     | _ \<Rightarrow> sraise (Raised ConfigurationError))"

definition open_read_descriptor :: "string \<Rightarrow> flag set \<Rightarrow> nat sys" where
  "open_read_descriptor path nofollow =
     sbind (leaf_name path) (\<lambda>leaf.
     sbind (open_parent_descriptor path) (\<lambda>parent.
     sfinally
       (sbind (if nofollow = {} then sbind (inspect_source parent leaf) (\<lambda>i. sreturn (Some i))
               else sreturn None) (\<lambda>seen.
        sbind (open_source parent leaf nofollow) (\<lambda>d.
        sbind (or_close d (settle_source d seen)) (\<lambda>_.
        sreturn d))))
       (sys_close parent)))"

section \<open>No descriptor leaks\<close>

lemma fdp_or_close:
  assumes "X d = Some b" "fdp w m X (\<lambda>r Y. case r of
      Inl e \<Rightarrow> Y = X \<and> Q (Inl e) (X(d := None)) \<and> (\<forall>n. \<not> (b \<and> dirs_close w) \<longrightarrow> Q (Inl (Os_error n)) (X(d := None)))
    | Inr x \<Rightarrow> Q (Inr x) Y)"
  shows "fdp w (or_close d m) X Q"
  unfolding or_close_def
  by (rule fdp_catch, rule fdp_mono [OF assms(2)])
    (auto intro!: fdp_bind fdp_close [where b = b] fdp_raise simp: assms(1) split: sum.splits)

lemma fresh_then_gone: "X d = None \<Longrightarrow> X(d := None) = X"
  by (simp add: fun_upd_idem)

lemma DIRECTORY_FLAGS_dir [simp]: "O_DIRECTORY \<in> DIRECTORY_FLAGS"
  by (simp add: DIRECTORY_FLAGS_def)

lemma fdp_walk_from:
  assumes "dirs_close w" "X cur = Some True" "\<And>e. Q (Inl e) (X(cur := None))"
    "\<And>d. X d = None \<or> d = cur \<Longrightarrow> Q (Inr d) ((X(cur := None))(d \<mapsto> True))"
  shows "fdp w (walk_from cur parts) X Q"
  using assms(2-)
proof (induction parts arbitrary: X cur)
  case Nil
  have eq: "(X(cur := None))(cur \<mapsto> True) = X" using Nil(1) by (auto simp: fun_eq_iff)
  have "Q (Inr cur) X" using Nil(3) [of cur] unfolding eq by simp
  then show ?case unfolding walk_from.simps by (rule fdp_return)
next
  case (Cons part parts)
  have next_step: "fdp w (walk_from d parts) ((X(d \<mapsto> True))(cur := None)) Q" if "X d = None" for d
  proof -
    have "d \<noteq> cur" using that Cons.prems(1) by auto
    then have a: "((X(d \<mapsto> True))(cur := None))(d := None) = X(cur := None)"
      using that by (auto simp: fun_eq_iff)
    show ?thesis
    proof (rule Cons.IH, unfold a)
      show "((X(d \<mapsto> True))(cur := None)) d = Some True" using \<open>d \<noteq> cur\<close> by simp
      show "Q (Inl e) (X(cur := None))" for e by (rule Cons.prems(2))
      show "Q (Inr d') ((X(cur := None))(d' \<mapsto> True))"
        if "((X(d \<mapsto> True))(cur := None)) d' = None \<or> d' = d" for d'
        by (rule Cons.prems(3)) (use that \<open>X d = None\<close> in \<open>auto split: if_splits\<close>)
    qed
  qed
  have "fdp w (or_close cur (sys_close cur)) (X(d \<mapsto> True))
      (\<lambda>r Y. case r of Inl e \<Rightarrow> Q (Inl e) Y | Inr _ \<Rightarrow> fdp w (walk_from d parts) Y Q)"
    if "X d = None" for d
    unfolding or_close_def using that Cons.prems(1) assms(1) next_step
    by (intro fdp_catch fdp_close [where b = True]) auto
  then show ?case
    unfolding walk_from.simps using Cons.prems(1) assms(1)
    by (intro fdp_bind fdp_or_close [where b = True] fdp_openat)
      (auto intro!: Cons.prems(2) fdp_bind)
qed

lemma fdp_walk_to_parent:
  assumes "dirs_close w" "X base = Some True" "\<And>e. Q (Inl e) X"
    "\<And>d. X d = None \<Longrightarrow> Q (Inr d) (X(d \<mapsto> True))"
  shows "fdp w (walk_to_parent base parts) X Q"
  unfolding walk_to_parent_def
proof (intro fdp_bind fdp_dup [where b = True])
  fix d assume d: "X d = None"
  have "fdp w (walk_from d parts) (X(d \<mapsto> True)) Q"
  proof (rule fdp_walk_from [OF assms(1)])
    have eq: "(X(d \<mapsto> True))(d := None) = X" using d by auto
    show "Q (Inl e) ((X(d \<mapsto> True))(d := None))" for e unfolding eq by (rule assms(3))
    show "Q (Inr d') ((X(d \<mapsto> True, d := None))(d' \<mapsto> True))"
      if "(X(d \<mapsto> True)) d' = None \<or> d' = d" for d'
      unfolding eq by (rule assms(4)) (use that d in \<open>auto split: if_splits\<close>)
  qed simp
  then show "case Inr d of Inl e \<Rightarrow> Q (Inl e) (X(d \<mapsto> True))
      | Inr x \<Rightarrow> fdp w (walk_from x parts) (X(d \<mapsto> True)) Q" by simp
qed (use assms in auto)

text \<open>Acquire a directory, use it, and close it: what is left is what the use left.\<close>

lemma fdp_then_close_dir:
  assumes "dirs_close w" "fdp w m X (\<lambda>r Y. Y d = Some True \<and> Q r (Y(d := None)))"
  shows "fdp w (sfinally m (sys_close d)) X Q"
  by (rule fdp_finally, rule fdp_mono [OF assms(2)])
    (auto intro!: fdp_close [where b = True] simp: assms(1))

lemma quiet_bind: "quiet m \<Longrightarrow> (\<And>x. quiet (f x)) \<Longrightarrow> quiet (sbind m f)"
  by (fastforce simp: quiet_def sbind_def split: prod.splits sum.splits)

lemma quiet_catch: "quiet m \<Longrightarrow> (\<And>e. quiet (h e)) \<Longrightarrow> quiet (scatch m h)"
  by (fastforce simp: quiet_def scatch_def split: prod.splits sum.splits)

lemma quiet_if: "quiet m \<Longrightarrow> quiet m' \<Longrightarrow> quiet (if b then m else m')"
  by simp

lemma quiet_return [intro!]: "quiet (sreturn x)" "quiet (sraise e)" "quiet (lift_res r)"
  by (auto simp: quiet_def sreturn_def sraise_def lift_res_def)

lemmas quiet_intros = quiet_bind quiet_catch quiet_return quiet_calls

lemma quiet_checks [intro!]:
  "quiet (restore_blocking d nb)" "quiet (reject_irregular d)" "quiet (describe_at p leaf)"
  "quiet (refuse_symlink_at p leaf)" "quiet (inspect_source p leaf)"
  by (auto simp: restore_blocking_def reject_irregular_def describe_at_def refuse_symlink_at_def
      inspect_source_def intro!: quiet_intros split: prod.splits node.splits option.splits)

lemma quiet_settle [intro!]: "quiet (settle_descriptor d fl)" "quiet (settle_source d seen)"
  by (auto simp: settle_descriptor_def settle_source_def intro!: quiet_intros
      split: prod.splits node.splits)

lemma quiet_refusals [intro!]:
  "quiet (classify_refusal path n)" "quiet (raise_classified path e)" "quiet (safe_unlink path)"
  "quiet (leaf_name path)"
  by (auto simp: what_is_there_def classify_refusal_def raise_classified_def safe_unlink_def
      leaf_name_def Let_def intro!: quiet_intros split: fail.splits)

text \<open>The step that opens the last component, and the checks on what it opened.\<close>

lemma fdp_open_leaf:
  assumes "\<And>e. Q (Inl e) X" "\<And>d. X d = None \<Longrightarrow> Q (Inr d) (X(d \<mapsto> (O_DIRECTORY \<in> flags)))"
    "O_DIRECTORY \<notin> nofollow"
  shows "fdp w (open_leaf parent leaf flags nofollow) X Q"
proof -
  have "fdp w (scatch (sys_openat parent leaf (flags - {O_TRUNC} \<union> nofollow \<union> {O_NONBLOCK, O_CLOEXEC}))
       (\<lambda>e. case e of
          Os_error n \<Rightarrow>
            if n \<in> NOT_A_REGULAR_FILE_ERRNOS
            then sbind (describe_at parent leaf) (\<lambda>_. sraise escape) else sraise e
        | _ \<Rightarrow> sraise e)) X Q"
    using assms
    by (intro fdp_catch fdp_openat)
      (auto intro!: fdp_raise fdp_bind fdp_quiet [OF quiet_checks(3)] split: fail.splits sum.splits)
  then show ?thesis
    unfolding open_leaf_def using assms(1)
    by (intro fdp_bind fdp_quiet [OF quiet_if]) (auto intro: quiet_checks split: sum.splits)
qed

text \<open>An operation that answers a new descriptor, or fails and leaves none.\<close>

definition acquires :: "world \<Rightarrow> bool \<Rightarrow> nat sys \<Rightarrow> fd_table \<Rightarrow> bool" where
  "acquires w b m X \<longleftrightarrow> fdp w m X (\<lambda>r Y. case r of
     Inl e \<Rightarrow> Y = X | Inr d \<Rightarrow> X d = None \<and> Y = X(d \<mapsto> b))"

lemma acquiresI:
  "(\<And>Q. (\<And>e. Q (Inl e) X) \<Longrightarrow> (\<And>d. X d = None \<Longrightarrow> Q (Inr d) (X(d \<mapsto> b))) \<Longrightarrow> fdp w m X Q) \<Longrightarrow>
    acquires w b m X"
  unfolding acquires_def by simp

lemma acquiresD:
  assumes "acquires w b m X" "\<And>e. Q (Inl e) X" "\<And>d. X d = None \<Longrightarrow> Q (Inr d) (X(d \<mapsto> b))"
  shows "fdp w m X Q"
  by (rule fdp_mono [OF assms(1) [unfolded acquires_def]])
    (use assms(2,3) in \<open>auto split: sum.splits\<close>)

text \<open>Opening relative to a directory that is closed right after, whatever happened.\<close>

lemma fdp_open_below:
  assumes "dirs_close w" "X d = None" "\<And>e. Q (Inl e) X"
    "\<And>d'. X d' = None \<Longrightarrow> Q (Inr d') (X(d' \<mapsto> b))"
    "acquires w b m (X(d \<mapsto> True))"
  shows "fdp w (sfinally m (sys_close d)) (X(d \<mapsto> True)) Q"
proof (rule fdp_then_close_dir [OF assms(1)], rule acquiresD [OF assms(5)])
  have gone: "(X(d \<mapsto> True))(d := None) = X" using assms(2) by auto
  show "(X(d \<mapsto> True)) d = Some True \<and> Q (Inl e) ((X(d \<mapsto> True))(d := None))" for e
    unfolding gone using assms(3) by simp
  fix d' assume "(X(d \<mapsto> True)) d' = None"
  then have "d' \<noteq> d" "X d' = None" by (auto split: if_splits)
  moreover have "(X(d \<mapsto> True, d' \<mapsto> b))(d := None) = X(d' \<mapsto> b)"
    using assms(2) \<open>d' \<noteq> d\<close> by auto
  ultimately show "(X(d \<mapsto> True, d' \<mapsto> b)) d = Some True \<and> Q (Inr d') ((X(d \<mapsto> True, d' \<mapsto> b))(d := None))"
    using assms(4) by simp
qed

text \<open>Keep a descriptor only if the checks on it pass.\<close>

lemma fdp_keep_if:
  assumes "X d = None" "b \<Longrightarrow> dirs_close w" "quiet m" "\<And>e. Q (Inl e) X" "Q (Inr d) (X(d \<mapsto> b))"
  shows "fdp w (sbind (or_close d m) (\<lambda>_. sreturn d)) (X(d \<mapsto> b)) Q"
proof -
  have gone: "(X(d \<mapsto> b))(d := None) = X" using assms(1) by auto
  have "fdp w (or_close d m) (X(d \<mapsto> b)) (\<lambda>r Y. case r of Inl e \<Rightarrow> Q (Inl e) Y
      | Inr _ \<Rightarrow> fdp w (sreturn d) Y Q)"
  proof (rule fdp_or_close [where b = b], simp, rule fdp_quiet [OF assms(3)], unfold gone)
    show "case r of Inl e \<Rightarrow> X(d \<mapsto> b) = X(d \<mapsto> b) \<and>
            (case Inl e of Inl e \<Rightarrow> Q (Inl e) X | Inr u \<Rightarrow> fdp w (sreturn d) X Q) \<and>
            (\<forall>n. \<not> (b \<and> dirs_close w) \<longrightarrow>
              (case Inl (Os_error n) of Inl e \<Rightarrow> Q (Inl e) X | Inr u \<Rightarrow> fdp w (sreturn d) X Q))
      | Inr u \<Rightarrow> (case Inr u of Inl e \<Rightarrow> Q (Inl e) (X(d \<mapsto> b)) | Inr u \<Rightarrow> fdp w (sreturn d) (X(d \<mapsto> b)) Q)" for r
      using assms(4,5) by (auto intro: fdp_return split: sum.splits)
  qed
  then show ?thesis by (rule fdp_bind)
qed

lemma acquires_open_leaf:
  "O_DIRECTORY \<notin> nofollow \<Longrightarrow> acquires w (O_DIRECTORY \<in> flags) (open_leaf p leaf flags nofollow) X"
  by (rule acquiresI, rule fdp_open_leaf)

lemma acquires_walk:
  "dirs_close w \<Longrightarrow> X base = Some True \<Longrightarrow> acquires w True (walk_to_parent base parts) X"
  by (rule acquiresI, rule fdp_walk_to_parent)

lemma acquires_bind_below:
  assumes "dirs_close w" "X d = None" "acquires w b m (X(d \<mapsto> True))" "\<And>e. Q (Inl e) X"
    "\<And>d'. X d' = None \<Longrightarrow> fdp w (f d') (X(d' \<mapsto> b)) Q"
  shows "fdp w (sbind (sfinally m (sys_close d)) f) (X(d \<mapsto> True)) Q"
  by (rule fdp_bind, rule fdp_open_below [OF assms(1,2) _ _ assms(3)]) (simp_all add: assms(4,5))

lemma acquires_open_within:
  assumes "dirs_close w" "O_DIRECTORY \<notin> nofollow"
  shows "acquires w (O_DIRECTORY \<in> flags) (open_within path flags nofollow) X"
proof (rule acquiresI)
  fix Q
  assume e: "\<And>e. Q (Inl e :: fail + nat) X"
    and d: "\<And>d. X d = None \<Longrightarrow> Q (Inr d) (X(d \<mapsto> (O_DIRECTORY \<in> flags)))"
  let ?parts = "p_parts (pure_path path)" and ?b = "O_DIRECTORY \<in> flags"
  let ?keep = "\<lambda>d. sbind (or_close d (settle_descriptor d flags)) (\<lambda>_. sreturn d)"
  let ?leaf = "\<lambda>p. sbind (sfinally (open_leaf p (last ?parts) flags nofollow) (sys_close p)) ?keep"
  have keep: "fdp w (?keep d) (X(d \<mapsto> ?b)) Q" if "X d = None" for d
    by (rule fdp_keep_if) (use that assms e d in auto)
  have leaf: "fdp w (?leaf p) (X(p \<mapsto> True)) Q" if "X p = None" for p
    by (rule acquires_bind_below [OF assms(1) that acquires_open_leaf [OF assms(2)] e keep])
  have walk: "fdp w (sbind (sfinally (walk_to_parent b (butlast ?parts)) (sys_close b)) ?leaf)
      (X(b \<mapsto> True)) Q" if "X b = None" for b
    by (rule acquires_bind_below [OF assms(1) that acquires_walk [OF assms(1)] e leaf]) auto
  have "O_DIRECTORY \<in> DIRECTORY_FLAGS - nofollow \<union> {O_CLOEXEC}" using assms(2) by simp
  with walk show "fdp w (open_within path flags nofollow) X Q"
    unfolding open_within_def Let_def by (auto intro!: fdp_raise e fdp_bind [OF fdp_anchor])
qed

lemma acquires_open_parent:
  assumes "dirs_close w"
  shows "acquires w True (open_parent_descriptor path) X"
proof (rule acquiresI)
  fix Q
  assume e: "\<And>e. Q (Inl e :: fail + nat) X" and d: "\<And>d. X d = None \<Longrightarrow> Q (Inr d) (X(d \<mapsto> True))"
  have "fdp w (sfinally (walk_to_parent b p) (sys_close b)) (X(b \<mapsto> True)) Q" if "X b = None" for b p
    by (rule fdp_open_below [OF assms that e d acquires_walk [OF assms]]) auto
  then show "fdp w (open_parent_descriptor path) X Q"
    unfolding open_parent_descriptor_def Let_def by (auto intro!: fdp_raise e fdp_bind [OF fdp_anchor])
qed

lemma acquires_bind_quiet:
  assumes "quiet m" "\<And>x. acquires w b (f x) X"
  shows "acquires w b (sbind m f) X"
proof (rule acquiresI)
  fix Q
  assume "\<And>e. Q (Inl e :: fail + nat) X" "\<And>d. X d = None \<Longrightarrow> Q (Inr d) (X(d \<mapsto> b))"
  then show "fdp w (sbind m f) X Q"
    by (intro fdp_bind fdp_quiet [OF assms(1)]) (auto intro: acquiresD [OF assms(2)] split: sum.splits)
qed

lemma acquires_open_source:
  assumes "O_DIRECTORY \<notin> nofollow"
  shows "acquires w False (open_source parent leaf nofollow) X"
proof (rule acquiresI)
  fix Q
  assume "\<And>e. Q (Inl e :: fail + nat) X" "\<And>d. X d = None \<Longrightarrow> Q (Inr d) (X(d \<mapsto> False))"
  with assms show "fdp w (open_source parent leaf nofollow) X Q"
    unfolding open_source_def
    by (intro fdp_catch fdp_openat) (auto intro!: fdp_raise split: fail.splits)
qed

lemma acquires_open_read:
  assumes "dirs_close w" "O_DIRECTORY \<notin> nofollow"
  shows "acquires w False (open_read_descriptor path nofollow) X"
  unfolding open_read_descriptor_def
proof (rule acquires_bind_quiet [OF quiet_refusals(4)], rule acquiresI)
  fix leaf Q
  assume e: "\<And>e. Q (Inl e :: fail + nat) X" and d: "\<And>d. X d = None \<Longrightarrow> Q (Inr d) (X(d \<mapsto> False))"
  let ?look = "\<lambda>p. if nofollow = {} then sbind (inspect_source p leaf) (\<lambda>i. sreturn (Some i))
    else sreturn None"
  let ?keep = "\<lambda>seen d. sbind (or_close d (settle_source d seen)) (\<lambda>_. sreturn d)"
  let ?read = "\<lambda>p. sbind (?look p) (\<lambda>seen. sbind (open_source p leaf nofollow) (?keep seen))"
  have look: "quiet (?look p)" for p by (auto intro!: quiet_intros)
  have opn: "acquires w False (sbind (open_source p leaf nofollow) (?keep seen)) Y" for p seen Y
  proof (rule acquiresI)
    fix R
    assume "\<And>e. R (Inl e :: fail + nat) Y" "\<And>d. Y d = None \<Longrightarrow> R (Inr d) (Y(d \<mapsto> False))"
    then show "fdp w (sbind (open_source p leaf nofollow) (?keep seen)) Y R"
      by (intro fdp_bind acquiresD [OF acquires_open_source [OF assms(2)]])
        (auto intro!: fdp_keep_if [where b = False])
  qed
  have "fdp w (sfinally (?read p) (sys_close p)) (X(p \<mapsto> True)) Q" if "X p = None" for p
    by (rule fdp_open_below [OF assms(1) that e d acquires_bind_quiet [OF look opn]])
  then show "fdp w (sbind (open_parent_descriptor path) (\<lambda>p. sfinally (?read p) (sys_close p))) X Q"
    by (intro fdp_bind acquiresD [OF acquires_open_parent [OF assms(1)]]) (auto simp: e)
qed

text \<open>
  Opening a transfer target or an upload source leaks no descriptor: whatever the kernel
  answers to any of the calls, a failure leaves exactly the descriptors that were open
  before, and a success exactly one more.
\<close>

theorem opening_leaks_no_descriptor:
  assumes "dirs_close w" "wf_fds s"
    "m = open_within path WB_FLAGS NOFOLLOW \<or> m = open_read_descriptor path NOFOLLOW"
    "m w s = (r, s')"
  shows "wf_fds s' \<and> (case r of
      Inl e \<Rightarrow> fd_table s' = fd_table s
    | Inr d \<Rightarrow> fd_table s d = None \<and> fd_table s' = (fd_table s)(d \<mapsto> False))"
proof -
  have "acquires w False m (fd_table s)"
    using assms(3) acquires_open_within [OF assms(1), of NOFOLLOW WB_FLAGS path]
      acquires_open_read [OF assms(1), of NOFOLLOW path]
    by (auto simp: NOFOLLOW_def WB_FLAGS_def)
  then have "wp m (\<lambda>r s'. wf_fds s' \<and> (case r of Inl e \<Rightarrow> fd_table s' = fd_table s
      | Inr d \<Rightarrow> fd_table s d = None \<and> fd_table s' = (fd_table s)(d \<mapsto> False))) w s"
    using assms(2) unfolding acquires_def fdp_def by blast
  then show ?thesis using assms(4) by (rule wpD)
qed

end
