(* ===== verification/Open_Guarantees.thy ===== *)
theory Open_Guarantees
  imports Opens
begin

text \<open>
  What a successful \<open>open_within\<close> guarantees, whatever another process does to the file
  system between its calls, and what a refused one leaves alone.
\<close>

section \<open>Successful runs, step by step\<close>

lemma sbind_Inr:
  "sbind m f w s = (Inr y, s') \<longleftrightarrow> (\<exists>x s1. m w s = (Inr x, s1) \<and> f x w s1 = (Inr y, s'))"
  by (auto simp: sbind_def split: prod.splits sum.splits)

lemma sfinally_Inr:
  "sfinally m c w s = (Inr y, s') \<longleftrightarrow>
    (\<exists>s1 u. m w s = (Inr y, s1) \<and> c w s1 = (Inr u, s'))"
  by (auto simp: sfinally_def split: prod.splits sum.splits)

lemma sreturn_Inr: "sreturn x w s = (Inr y, s') \<longleftrightarrow> y = x \<and> s' = s"
  by (auto simp: sreturn_def)

lemma sraise_Inr: "\<not> sraise e w s = (Inr y, s')"
  by (auto simp: sraise_def)

lemma or_close_Inr: "or_close d m w s = (Inr x, s') \<longleftrightarrow> m w s = (Inr x, s')"
  by (auto simp: or_close_def scatch_def sbind_def sraise_def split: prod.splits sum.splits)

lemmas run_simps = sbind_Inr sfinally_Inr sreturn_Inr sraise_Inr or_close_Inr

lemma syscall_Inr: "syscall c body w s = (Inr x, s') \<Longrightarrow> body w (advance w s) = (Inr x, s')"
  by (auto simp: syscall_def split: option.splits)

lemma advance_simps [simp]:
  "os_fds (advance w s) = os_fds s" "os_next_fd (advance w s) = os_next_fd s"
  "os_trace (advance w s) = os_trace s" "os_cwd_ino (advance w s) = os_cwd_ino s"
  "os_next (advance w s) = os_next s" "os_cwd (advance w s) = os_cwd s"
  by (simp_all add: advance_def)

lemma log_event_simps [simp]:
  "os_fds (log_event e s) = os_fds s" "os_next_fd (log_event e s) = os_next_fd s"
  "os_trace (log_event e s) = os_trace s @ [e]" "os_nodes (log_event e s) = os_nodes s"
  "os_next (log_event e s) = os_next s"
  by (simp_all add: log_event_def)

text \<open>What a descriptor number stands for: the inode, if it is open.\<close>

definition fd_at :: "os \<Rightarrow> nat \<Rightarrow> ino option" where
  "fd_at s d = map_option fd_ino (os_fds s d)"

lemma fd_at_simps [simp]:
  "fd_at (advance w s) = fd_at s" "fd_at (log_event e s) = fd_at s"
  "fd_at (s\<lparr>os_nodes := n\<rparr>) = fd_at s" "fd_at (s\<lparr>os_next := k\<rparr>) = fd_at s"
  by (simp_all add: fd_at_def fun_eq_iff)

text \<open>
  An open without following links logs one \<open>Opened\<close> event, for the entry of the directory
  the descriptor stands for, and answers a new descriptor of exactly that inode.
\<close>

definition stepped :: "nat \<Rightarrow> string \<Rightarrow> os \<Rightarrow> nat \<Rightarrow> os \<Rightarrow> bool" where
  "stepped d name s d' s' \<longleftrightarrow> (\<exists>di i. fd_at s d = Some di \<and>
     os_trace s' = os_trace s @ [Opened di name i] \<and>
     d' = os_next_fd s \<and> os_next_fd s' = Suc d' \<and>
     fd_at s' = (fd_at s)(d' \<mapsto> i))"

lemma new_fd_Inr:
  assumes "new_fd i fl w s = (Inr d, s')"
  shows "d = os_next_fd s" "os_trace s' = os_trace s" "fd_at s' = (fd_at s)(d \<mapsto> i)"
    "os_next_fd s' = Suc d" "os_nodes s' = os_nodes s" "os_next s' = os_next s"
  using assms by (auto simp: new_fd_def fd_at_def fun_eq_iff)

lemma open_node_Inr:
  assumes "open_node fl ev i nd w s = (Inr d, s')"
  shows "refuse_open fl nd = None" "d = os_next_fd s" "os_trace s' = os_trace s @ [ev]"
    "fd_at s' = (fd_at s)(d \<mapsto> i)" "os_next_fd s' = Suc d"
proof -
  from assms show r: "refuse_open fl nd = None" by (auto simp: open_node_def split: option.splits)
  let ?s = "log_event ev (case nd of
    Reg _ n \<Rightarrow> if O_TRUNC \<in> fl then s\<lparr>os_nodes := (os_nodes s)(i \<mapsto> Reg [] n)\<rparr> else s | _ \<Rightarrow> s)"
  from assms r have "new_fd i fl w ?s = (Inr d, s')" by (simp add: open_node_def)
  note new_fd_Inr [OF this]
  moreover have "os_next_fd ?s = os_next_fd s" "os_trace ?s = os_trace s @ [ev]" "fd_at ?s = fd_at s"
    by (auto split: node.splits)
  ultimately show "d = os_next_fd s" "os_trace s' = os_trace s @ [ev]"
    "fd_at s' = (fd_at s)(d \<mapsto> i)" "os_next_fd s' = Suc d" by simp_all
qed

lemma create_entry_Inr:
  assumes "create_entry fl di es name w s = (Inr d, s')"
  shows "d = os_next_fd s" "os_trace s' = os_trace s @ [Opened di name (os_next s)]"
    "fd_at s' = (fd_at s)(d \<mapsto> os_next s)" "os_next_fd s' = Suc d"
  using new_fd_Inr [OF assms [unfolded create_entry_def Let_def]] by simp_all

lemma sys_openat_Inr:
  assumes "sys_openat d name fl w s = (Inr d', s')" "O_NOFOLLOW \<in> fl"
  shows "stepped d name s d' s'"
proof -
  let ?s = "advance w s"
  from syscall_Inr [OF assms(1) [unfolded sys_openat_def]] obtain di es where
    di: "dir_of d ?s = Some (di, es)" and
    go: "(case map_of es name of
          None \<Rightarrow> if O_CREAT \<in> fl then create_entry fl di es name w ?s
                  else (Inl (Os_error ENOENT), ?s)
        | Some i \<Rightarrow> follow_entry fl di name i w ?s) = (Inr d', s')"
    by (auto split: option.splits)
  have at: "fd_at s d = Some di" and same: "fd_at ?s = fd_at s"
    using di by (auto simp: fd_at_def dir_of_def split: option.splits node.splits)
  show ?thesis
  proof (cases "map_of es name")
    case None
    with go have "create_entry fl di es name w ?s = (Inr d', s')" by (auto split: if_splits)
    from create_entry_Inr [OF this] at same show ?thesis by (auto simp: stepped_def)
  next
    case (Some i)
    with go assms(2) obtain nd where "open_node fl (Opened di name i) i nd w ?s = (Inr d', s')"
      by (auto simp: follow_entry_def split: option.splits)
    from open_node_Inr [OF this] at same show ?thesis by (auto simp: stepped_def)
  qed
qed

lemma sys_open_anchor_Inr:
  assumes "sys_open_anchor a fl w s = (Inr d, s')"
  shows "d = os_next_fd s" "os_trace s' = os_trace s" "fd_at s' = (fd_at s)(d \<mapsto> start_of a s)"
    "os_next_fd s' = Suc d"
proof -
  have "start_of a (advance w s) = start_of a s" by (simp add: start_of_def)
  with syscall_Inr [OF assms [unfolded sys_open_anchor_def]]
  have "new_fd (start_of a s) fl w (advance w s) = (Inr d, s')"
    by (auto simp: Let_def split: option.splits node.splits)
  from new_fd_Inr [OF this] show "d = os_next_fd s" "os_trace s' = os_trace s"
    "fd_at s' = (fd_at s)(d \<mapsto> start_of a s)" "os_next_fd s' = Suc d"
    by simp_all
qed

lemma sys_dup_Inr:
  assumes "sys_dup d w s = (Inr d', s')"
  shows "d' = os_next_fd s \<and> os_trace s' = os_trace s \<and> os_next_fd s' = Suc d' \<and>
    (\<exists>i. fd_at s d = Some i \<and> fd_at s' = (fd_at s)(d' \<mapsto> i))"
proof -
  from syscall_Inr [OF assms [unfolded sys_dup_def]] obtain f where
    "os_fds s d = Some f" "new_fd (fd_ino f) (fd_flags f) w (advance w s) = (Inr d', s')"
    by (auto split: option.splits)
  with new_fd_Inr [OF this(2)] show ?thesis by (auto simp: fd_at_def)
qed

lemma sys_close_Inr:
  assumes "sys_close d w s = (Inr u, s')"
  shows "os_trace s' = os_trace s" "fd_at s' = (fd_at s)(d := None)" "os_next_fd s' = os_next_fd s"
  using assms by (auto simp: sys_close_def fd_at_def fun_eq_iff split: option.splits)

lemma wf_fds_fd_at: "wf_fds s \<longleftrightarrow> (\<forall>d \<ge> os_next_fd s. fd_at s d = None)"
  by (simp add: wf_fds_def fd_at_def)

section \<open>The walk, as a trace\<close>

text \<open>
  The events of a walk that opens the named entries one below the other, and the inode it
  ends at.
\<close>

fun walk_events :: "ino \<Rightarrow> (string \<times> ino) list \<Rightarrow> event list" where
  "walk_events d [] = []"
| "walk_events d ((name, i) # steps) = Opened d name i # walk_events i steps"

fun walk_end :: "ino \<Rightarrow> (string \<times> ino) list \<Rightarrow> ino" where
  "walk_end d [] = d"
| "walk_end d ((name, i) # steps) = walk_end i steps"

lemma walk_events_snoc: "walk_events d (steps @ [(n, i)]) = walk_events d steps @ [Opened (walk_end d steps) n i]"
  by (induction d steps rule: walk_events.induct) auto

lemma walk_end_snoc [simp]: "walk_end d (steps @ [(n, i)]) = i"
  by (induction d steps rule: walk_end.induct) auto

definition walked :: "ino \<Rightarrow> string list \<Rightarrow> os \<Rightarrow> nat \<Rightarrow> os \<Rightarrow> (string \<times> ino) list \<Rightarrow> bool" where
  "walked d0 parts s d s' steps \<longleftrightarrow> wf_fds s' \<and> map fst steps = parts \<and>
     os_trace s' = os_trace s @ walk_events d0 steps \<and> fd_at s' d = Some (walk_end d0 steps)"

lemma walk_from_Inr:
  assumes "walk_from cur parts w s = (Inr d, s')" "wf_fds s" "fd_at s cur = Some d0"
  shows "(\<exists>steps. walked d0 parts s d s' steps) \<and> (d = cur \<or> os_next_fd s \<le> d)"
  using assms
proof (induction parts arbitrary: cur s d0)
  case Nil
  then show ?case by (auto simp: run_simps walked_def intro!: exI [of _ "[]"])
next
  case (Cons part parts)
  from Cons.prems(1) obtain d1 s1 s2 u where
    o: "sys_openat cur part DIRECTORY_FLAGS w s = (Inr d1, s1)" and
    c: "sys_close cur w s1 = (Inr u, s2)" and
    r: "walk_from d1 parts w s2 = (Inr d, s')"
    by (auto simp: run_simps)
  have "O_NOFOLLOW \<in> DIRECTORY_FLAGS" by (simp add: DIRECTORY_FLAGS_def)
  from sys_openat_Inr [OF o this] Cons.prems(3) obtain i where
    st: "os_trace s1 = os_trace s @ [Opened d0 part i]" "d1 = os_next_fd s"
      "os_next_fd s1 = Suc d1" "fd_at s1 = (fd_at s)(d1 \<mapsto> i)"
    by (auto simp: stepped_def)
  have "cur < d1"
    using Cons.prems(2,3) st(2) by (metis wf_fds_fd_at leI option.distinct(1))
  then have "fd_at s2 d1 = Some i" using sys_close_Inr [OF c] st by simp
  moreover have "wf_fds s2"
    using Cons.prems(2) sys_close_Inr [OF c] st by (simp add: wf_fds_fd_at)
  ultimately obtain steps where "walked i parts s2 d s' steps" "d = d1 \<or> os_next_fd s2 \<le> d"
    using Cons.IH [OF r] by blast
  then have "walked d0 (part # parts) s d s' ((part, i) # steps)"
    using sys_close_Inr [OF c] st by (simp add: walked_def)
  moreover have "os_next_fd s \<le> d"
    using \<open>d = d1 \<or> os_next_fd s2 \<le> d\<close> sys_close_Inr [OF c] st by auto
  ultimately show ?case by blast
qed

lemma walk_to_parent_Inr:
  assumes "walk_to_parent base parts w s = (Inr d, s')" "wf_fds s" "fd_at s base = Some d0"
  shows "(\<exists>steps. walked d0 parts s d s' steps) \<and> d \<noteq> base"
proof -
  from assms(1) obtain cur s1 where
    dup: "sys_dup base w s = (Inr cur, s1)" and go: "walk_from cur parts w s1 = (Inr d, s')"
    by (auto simp: walk_to_parent_def run_simps)
  note dup = sys_dup_Inr [OF dup]
  have "base < os_next_fd s"
    using assms(2,3) by (metis wf_fds_fd_at leI option.distinct(1))
  have "wf_fds s1" "fd_at s1 cur = Some d0"
    using dup assms(2,3) by (auto simp: wf_fds_fd_at)
  from walk_from_Inr [OF go this] dup \<open>base < os_next_fd s\<close> show ?thesis
    by (auto simp: walked_def)
qed

text \<open>A directory opened below a base that is closed again.\<close>

lemma walk_then_close_Inr:
  assumes "sfinally (walk_to_parent base parts) (sys_close base) w s = (Inr d, s')"
    "wf_fds s" "fd_at s base = Some d0"
  shows "\<exists>steps. walked d0 parts s d s' steps"
proof -
  from assms(1) obtain s1 u where "walk_to_parent base parts w s = (Inr d, s1)"
    and c: "sys_close base w s1 = (Inr u, s')"
    by (auto simp: sfinally_Inr)
  with walk_to_parent_Inr [OF this(1) assms(2,3)] sys_close_Inr [OF c] show ?thesis
    by (auto simp: walked_def wf_fds_fd_at)
qed

lemma open_parent_Inr:
  assumes "sbind (sys_open_anchor a fl) (\<lambda>base. sfinally (walk_to_parent base parts) (sys_close base)) w s
      = (Inr d, s')" "wf_fds s"
  shows "\<exists>steps. walked (start_of a s) parts s d s' steps"
proof -
  from assms(1) obtain base s1 where
    o: "sys_open_anchor a fl w s = (Inr base, s1)" and
    g: "sfinally (walk_to_parent base parts) (sys_close base) w s1 = (Inr d, s')"
    by (auto simp: sbind_Inr)
  note o = sys_open_anchor_Inr [OF o]
  then have "wf_fds s1" "fd_at s1 base = Some (start_of a s)"
    using assms(2) by (auto simp: wf_fds_fd_at)
  from walk_then_close_Inr [OF g this] o show ?thesis by (auto simp: walked_def)
qed

section \<open>The last component\<close>

lemma sys_fstat_Inr:
  assumes "sys_fstat d w s = (Inr (i, nd), s')"
  shows "fd_at s d = Some i" "os_trace s' = os_trace s @ [Saw i nd]" "fd_at s' = fd_at s"
  using syscall_Inr [OF assms [unfolded sys_fstat_def]]
  by (auto simp: fd_at_def split: option.splits)

lemma reject_irregular_Inr:
  assumes "reject_irregular d w s = (Inr u, s')"
  obtains i c n where "fd_at s d = Some i" "n \<le> 1" "os_trace s' = os_trace s @ [Saw i (Reg c n)]"
    "fd_at s' = fd_at s"
proof -
  from assms obtain i nd s1 where f: "sys_fstat d w s = (Inr (i, nd), s1)" and
    k: "(case nd of Reg _ links \<Rightarrow> if Suc 0 < links then sraise escape else sreturn () | _ \<Rightarrow> sraise escape)
      w s1 = (Inr u, s')"
    by (auto simp: reject_irregular_def run_simps)
  from k obtain c n where "nd = Reg c n" "n \<le> 1" "s' = s1"
    by (cases nd) (auto simp: run_simps split: if_splits)
  with sys_fstat_Inr [OF f] show thesis by (auto intro: that)
qed

lemma restore_blocking_Inr:
  assumes "restore_blocking d nb w s = (Inr u, s')"
  shows "os_trace s' = os_trace s" "fd_at s' = fd_at s"
  using assms
  by (auto simp: restore_blocking_def run_simps sys_getfl_def sys_setfl_def fd_at_def fun_eq_iff
      split: if_splits option.splits dest!: syscall_Inr)

lemma sys_truncate_Inr:
  assumes "sys_truncate d w s = (Inr u, s')"
  shows "\<exists>i. fd_at s d = Some i \<and> os_trace s' = os_trace s @ [Truncated i] \<and> fd_at s' = fd_at s"
  using syscall_Inr [OF assms [unfolded sys_truncate_def]]
  by (auto simp: fd_at_def split: option.splits node.splits)

lemma settle_descriptor_Inr:
  assumes "settle_descriptor d fl w s = (Inr u, s')"
  obtains i c n where "fd_at s d = Some i" "fd_at s' d = Some i" "n \<le> 1"
    "os_trace s' = os_trace s @ Saw i (Reg c n) # (if O_TRUNC \<in> fl then [Truncated i] else [])"
proof -
  from assms obtain s1 s2 u' where
    r: "reject_irregular d w s = (Inr (), s1)" "restore_blocking d {O_NONBLOCK} w s1 = (Inr u', s2)"
    and t: "(if O_TRUNC \<in> fl then sys_truncate d else sreturn ()) w s2 = (Inr u, s')"
    by (auto simp: settle_descriptor_def run_simps)
  from r(1) obtain i c n where i: "fd_at s d = Some i" "n \<le> 1"
    "os_trace s1 = os_trace s @ [Saw i (Reg c n)]" "fd_at s1 = fd_at s"
    by (rule reject_irregular_Inr)
  with restore_blocking_Inr [OF r(2)] t that show thesis
    by (cases "O_TRUNC \<in> fl") (fastforce simp: sreturn_Inr dest: sys_truncate_Inr)+
qed

lemma open_leaf_Inr:
  assumes "open_leaf p leaf fl nofollow w s = (Inr d, s')" "O_NOFOLLOW \<in> nofollow"
  shows "stepped p leaf s d s'"
proof -
  from assms have "sys_openat p leaf ((fl - {O_TRUNC}) \<union> nofollow \<union> {O_NONBLOCK, O_CLOEXEC}) w s
      = (Inr d, s')"
    by (auto simp: open_leaf_def scatch_def sbind_def sraise_def sreturn_def
        split: prod.splits sum.splits fail.splits if_splits)
  then show ?thesis by (rule sys_openat_Inr) (use assms(2) in simp)
qed

text \<open>
  C7. However another process changes the file system between two calls, a successful open of
  a transfer target walked from the root (or the working directory) entry by entry: each
  directory was opened by its name in the directory opened before it, no symbolic link was
  followed, and the descriptor answered is of the entry the last name had in the last of
  them. That inode was then seen to be a regular file with a single name, and only after
  that was it truncated, if at all.
\<close>

theorem open_within_walks_entry_by_entry:
  assumes "open_within path flags NOFOLLOW w s = (Inr d, s')" "wf_fds s"
  shows "\<exists>steps i c n. map fst steps = p_parts (pure_path path) \<and> n \<le> 1 \<and>
    walk_end (start_of (is_absolute (pure_path path)) s) steps = i \<and> fd_at s' d = Some i \<and>
    os_trace s' = os_trace s @ walk_events (start_of (is_absolute (pure_path path)) s) steps @
      Saw i (Reg c n) # (if O_TRUNC \<in> flags then [Truncated i] else [])"
proof -
  let ?p = "pure_path path"
  from assms(1) obtain parent s1 s2 s3 u where ne: "p_parts ?p \<noteq> []" and
    w: "sbind (sys_open_anchor (is_absolute ?p) (DIRECTORY_FLAGS - NOFOLLOW \<union> {O_CLOEXEC}))
        (\<lambda>base. sfinally (walk_to_parent base (butlast (p_parts ?p))) (sys_close base)) w s
      = (Inr parent, s1)" and
    l: "open_leaf parent (last (p_parts ?p)) flags NOFOLLOW w s1 = (Inr d, s2)" and
    c: "sys_close parent w s2 = (Inr u, s3)" and
    t: "settle_descriptor d flags w s3 = (Inr (), s')"
    by (auto simp: open_within_def Let_def run_simps split: if_splits) 
  from open_parent_Inr [OF w assms(2)] obtain steps where
    p: "walked (start_of (is_absolute ?p) s) (butlast (p_parts ?p)) s parent s1 steps" by blast
  have "stepped parent (last (p_parts ?p)) s1 d s2"
    using l by (rule open_leaf_Inr) (simp add: NOFOLLOW_def)
  with p obtain i where i:
    "os_trace s2 = os_trace s1 @ [Opened (walk_end (start_of (is_absolute ?p) s) steps) (last (p_parts ?p)) i]"
    "d = os_next_fd s1" "fd_at s2 = (fd_at s1)(d \<mapsto> i)"
    by (auto simp: stepped_def walked_def)
  have "parent < d" using p i(2) by (auto simp: walked_def wf_fds_fd_at) (metis leI option.distinct(1))
  with i sys_close_Inr [OF c] have "fd_at s3 d = Some i" by simp
  from t obtain c n where "fd_at s' d = Some i" "n \<le> 1"
    "os_trace s' = os_trace s3 @ Saw i (Reg c n) # (if O_TRUNC \<in> flags then [Truncated i] else [])"
    by (rule settle_descriptor_Inr) (use \<open>fd_at s3 d = Some i\<close> in auto)
  then show ?thesis
    using p i sys_close_Inr [OF c] ne
    by (intro exI [of _ "steps @ [(last (p_parts ?p), i)]"] exI [of _ i] exI [of _ c] exI [of _ n])
      (auto simp: walked_def walk_events_snoc)
qed

section \<open>What a refusal leaves alone\<close>

text \<open>A world in which nobody else touches the file system.\<close>

definition calm :: "world \<Rightarrow> bool" where
  "calm w \<longleftrightarrow> (\<forall>t ns. w_meddle w t ns = ns)"

definition wf_nodes :: "os \<Rightarrow> bool" where
  "wf_nodes s \<longleftrightarrow> (\<forall>i \<ge> os_next s. os_nodes s i = None)"

text \<open>A directory may have gained an entry; everything else is as it was.\<close>

fun grown :: "node \<Rightarrow> node \<Rightarrow> bool" where
  "grown (Dir es) nd \<longleftrightarrow> (\<exists>es'. nd = Dir es' \<and> map_of es \<subseteq>\<^sub>m map_of es')"
| "grown nd nd' \<longleftrightarrow> nd' = nd"

definition spares :: "os \<Rightarrow> os \<Rightarrow> bool" where
  "spares s s' \<longleftrightarrow> wf_nodes s' \<and> os_next s \<le> os_next s' \<and>
     (\<forall>i nd. os_nodes s i = Some nd \<longrightarrow> (\<exists>nd'. os_nodes s' i = Some nd' \<and> grown nd nd'))"

lemma grown_refl [simp]: "grown nd nd"
  by (cases nd) auto

lemma grown_trans: "grown a b \<Longrightarrow> grown b c \<Longrightarrow> grown a c"
  by (cases a) (auto simp: map_le_def dom_def)

lemma spares_refl: "wf_nodes s \<Longrightarrow> spares s s"
  by (auto simp: spares_def intro: grown_refl)

lemma spares_trans: "spares a b \<Longrightarrow> spares b c \<Longrightarrow> spares a c"
  unfolding spares_def by (meson grown_trans order_trans)

lemma spares_wf: "spares s s' \<Longrightarrow> wf_nodes s'"
  by (simp add: spares_def)

definition sparing :: "world \<Rightarrow> 'a sys \<Rightarrow> bool" where
  "sparing w m \<longleftrightarrow> (\<forall>s r s'. wf_nodes s \<longrightarrow> m w s = (r, s') \<longrightarrow> spares s s')"

definition sparing_on_error :: "world \<Rightarrow> 'a sys \<Rightarrow> bool" where
  "sparing_on_error w m \<longleftrightarrow> (\<forall>s e s'. wf_nodes s \<longrightarrow> m w s = (Inl e, s') \<longrightarrow> spares s s')"

lemma sparing_return [intro!]: "sparing w (sreturn x)" "sparing w (sraise e)" "sparing w (lift_res r)"
  by (auto simp: sparing_def sreturn_def sraise_def lift_res_def spares_refl)

lemma sparing_bind: "sparing w m \<Longrightarrow> (\<And>x. sparing w (f x)) \<Longrightarrow> sparing w (sbind m f)"
  unfolding sparing_def sbind_def
  by (auto split: prod.splits sum.splits) (meson spares_trans spares_wf)

lemma sparing_catch: "sparing w m \<Longrightarrow> (\<And>e. sparing w (h e)) \<Longrightarrow> sparing w (scatch m h)"
  unfolding sparing_def scatch_def
  by (auto split: prod.splits sum.splits) (meson spares_trans spares_wf)

lemma sparing_finally: "sparing w m \<Longrightarrow> sparing w c \<Longrightarrow> sparing w (sfinally m c)"
  unfolding sparing_def sfinally_def
  by (auto split: prod.splits sum.splits) (meson spares_trans spares_wf)+

lemma sparing_or_close: "sparing w m \<Longrightarrow> sparing w (sys_close d) \<Longrightarrow> sparing w (or_close d m)"
  unfolding or_close_def by (intro sparing_catch sparing_bind) auto

lemma on_error_bind:
  "sparing w m \<Longrightarrow> (\<And>x. sparing_on_error w (f x)) \<Longrightarrow> sparing_on_error w (sbind m f)"
  unfolding sparing_def sparing_on_error_def sbind_def
  by (auto split: prod.splits sum.splits) (meson spares_trans spares_wf)

lemma on_error_catch:
  "sparing_on_error w m \<Longrightarrow> (\<And>e. sparing w (h e)) \<Longrightarrow> sparing_on_error w (scatch m h)"
  unfolding sparing_def sparing_on_error_def scatch_def
  by (auto split: prod.splits sum.splits) (meson spares_trans spares_wf)

lemma on_error_then_return:
  "sparing_on_error w m \<Longrightarrow> sparing_on_error w (sbind m (\<lambda>_. sreturn x))"
  unfolding sparing_on_error_def by (auto simp: sbind_def sreturn_def split: prod.splits sum.splits)

lemma sparing_on_error: "sparing w m \<Longrightarrow> sparing_on_error w m"
  by (auto simp: sparing_def sparing_on_error_def)

lemma calm_advance:
  "calm w \<Longrightarrow> os_nodes (advance w s) = os_nodes s" "calm w \<Longrightarrow> wf_nodes (advance w s) = wf_nodes s"
  by (simp_all add: calm_def advance_def wf_nodes_def)

lemma spares_same: "wf_nodes s \<Longrightarrow> os_nodes s' = os_nodes s \<Longrightarrow> os_next s' = os_next s \<Longrightarrow> spares s s'"
  by (auto simp: spares_def wf_nodes_def intro: grown_refl)

lemma sparing_syscall:
  assumes "calm w" "\<And>s r s'. wf_nodes s \<Longrightarrow> body w s = (r, s') \<Longrightarrow> spares s s'"
  shows "sparing w (syscall c body)"
  unfolding sparing_def
proof (intro allI impI)
  fix s r s'
  assume s: "wf_nodes s" and m: "syscall c body w s = (r, s')"
  have a: "spares s (advance w s)" using s by (rule spares_same) (simp_all add: calm_advance assms(1))
  with m assms(2) [of "advance w s" r s'] show "spares s s'"
    by (auto simp: syscall_def split: option.splits dest: spares_wf intro: spares_trans)
qed

lemma calls_sparing:
  assumes "calm w"
  shows "sparing w (sys_fstat d)" "sparing w (sys_lstat d n)" "sparing w (sys_getfl d)"
    "sparing w (sys_setfl d fl)" "sparing w (sys_fsync d)" "sparing w (sys_fchmod d)"
    "sparing w (sys_dup d)" "sparing w (sys_open_anchor a fl)" "sparing w (sys_read d k)"
  unfolding sys_fstat_def sys_lstat_def sys_getfl_def sys_setfl_def sys_fsync_def sys_fchmod_def
    sys_dup_def sys_open_anchor_def sys_read_def
  by (rule sparing_syscall [OF assms];
      auto simp: new_fd_def Let_def split: option.splits node.splits intro!: spares_same)+

lemma close_sparing:
  assumes "calm w"
  shows "sparing w (sys_close d)"
  unfolding sparing_def sys_close_def
  by (auto simp: calm_advance assms split: option.splits intro!: spares_same)

lemma new_fd_spares:
  "new_fd i fl w s' = (r, s'') \<Longrightarrow> spares s s' \<Longrightarrow> spares s s''"
  by (auto simp: new_fd_def spares_def wf_nodes_def)

lemma openat_sparing:
  assumes "calm w" "O_TRUNC \<notin> fl"
  shows "sparing w (sys_openat d name fl)"
  unfolding sys_openat_def
proof (rule sparing_syscall [OF assms(1)])
  have create: "spares s s'" if "wf_nodes s" "create_entry fl di es name w s = (r, s')"
    "os_nodes s di = Some (Dir es)" "map_of es name = None" for s r s' di es
  proof -
    have "spares s (log_event (Opened di name (os_next s))
        (s\<lparr>os_nodes := (os_nodes s)(di \<mapsto> Dir (dict_set es name (os_next s)), os_next s \<mapsto> Reg [] 1),
            os_next := Suc (os_next s)\<rparr>))"
      using that(1,3,4) by (auto simp: spares_def wf_nodes_def map_le_def intro: grown_refl)
    with that(2) show ?thesis by (auto simp: create_entry_def Let_def intro: new_fd_spares)
  qed
  have opn: "spares s s'" if "wf_nodes s" "open_node fl ev i nd w s = (r, s')" for s r s' ev i nd
  proof -
    have "spares s (log_event ev (case nd of
       Reg _ n \<Rightarrow> if O_TRUNC \<in> fl then s\<lparr>os_nodes := (os_nodes s)(i \<mapsto> Reg [] n)\<rparr> else s | _ \<Rightarrow> s))"
      using that(1) assms(2) by (auto intro!: spares_same split: node.splits)
    with that show ?thesis
      by (auto simp: open_node_def intro: new_fd_spares spares_refl split: option.splits)
  qed
  fix s r s'
  assume "wf_nodes s" "(case dir_of d s of
     None \<Rightarrow> (Inl (Os_error ENOTDIR), s)
   | Some (di, es) \<Rightarrow>
       (case map_of es name of
          None \<Rightarrow> if O_CREAT \<in> fl then create_entry fl di es name w s
                  else (Inl (Os_error ENOENT), s)
        | Some i \<Rightarrow> follow_entry fl di name i w s)) = (r, s')"
  then show "spares s s'"
    by (auto simp: follow_entry_def dir_of_def intro: spares_refl opn create
        split: option.splits node.splits if_splits)
qed

lemma walk_sparing:
  assumes "calm w"
  shows "sparing w (walk_from cur parts)" "sparing w (walk_to_parent base parts)"
proof -
  have "O_TRUNC \<notin> DIRECTORY_FLAGS" by (simp add: DIRECTORY_FLAGS_def)
  with assms show "sparing w (walk_from cur parts)" for cur
    by (induction parts arbitrary: cur)
      (auto intro!: sparing_bind sparing_or_close openat_sparing close_sparing)
  with assms show "sparing w (walk_to_parent base parts)"
    unfolding walk_to_parent_def by (auto intro!: sparing_bind calls_sparing)
qed

lemma checks_sparing:
  assumes "calm w"
  shows "sparing w (reject_irregular d)" "sparing w (restore_blocking d nb)"
    "sparing w (describe_at p leaf)" "sparing w (refuse_symlink_at p leaf)"
  using assms
  by (auto simp: reject_irregular_def restore_blocking_def describe_at_def refuse_symlink_at_def
      intro!: sparing_bind sparing_catch calls_sparing split: node.splits option.splits)

lemma open_leaf_sparing:
  assumes "calm w" "O_TRUNC \<notin> nofollow"
  shows "sparing w (open_leaf p leaf fl nofollow)"
proof -
  have "sparing w (case e of
       Os_error n \<Rightarrow> if n \<in> NOT_A_REGULAR_FILE_ERRNOS
         then sbind (describe_at p leaf) (\<lambda>_. sraise escape) else sraise e
     | _ \<Rightarrow> sraise e)" for e
    using assms(1) by (cases e) (auto intro!: sparing_bind checks_sparing)
  with assms show ?thesis
    unfolding open_leaf_def
    by (intro sparing_bind sparing_catch openat_sparing) (auto intro: checks_sparing)
qed

text \<open>A truncation that fails changed nothing.\<close>

lemma truncate_on_error:
  assumes "calm w"
  shows "sparing_on_error w (sys_truncate d)"
  unfolding sparing_on_error_def sys_truncate_def syscall_def
  using assms by (auto simp: calm_advance intro!: spares_same split: option.splits node.splits)

lemma settle_on_error:
  assumes "calm w"
  shows "sparing_on_error w (settle_descriptor d fl)"
  using assms unfolding settle_descriptor_def
  by (intro on_error_bind checks_sparing) (auto intro: truncate_on_error sparing_on_error)

lemma open_within_on_error:
  assumes "calm w" "O_TRUNC \<notin> nofollow"
  shows "sparing_on_error w (open_within path flags nofollow)"
  using assms unfolding open_within_def Let_def or_close_def
  by (simp, intro impI conjI on_error_bind on_error_then_return on_error_catch settle_on_error
      sparing_finally calls_sparing close_sparing walk_sparing open_leaf_sparing)
    (auto intro: sparing_on_error sparing_bind close_sparing)

section \<open>No open waits\<close>

definition returns :: "'a sys \<Rightarrow> bool" where
  "returns m \<longleftrightarrow> (\<forall>w s s'. m w s \<noteq> (Inl Hangs, s'))"

lemma returns_basic [intro!]: "returns (sreturn x)" "e \<noteq> Hangs \<Longrightarrow> returns (sraise e)"
  by (auto simp: returns_def sreturn_def sraise_def)

lemma returns_bind: "returns m \<Longrightarrow> (\<And>x. returns (f x)) \<Longrightarrow> returns (sbind m f)"
  by (auto simp: returns_def sbind_def split: prod.splits sum.splits)

lemma returns_catch: "returns m \<Longrightarrow> (\<And>e. e \<noteq> Hangs \<Longrightarrow> returns (h e)) \<Longrightarrow> returns (scatch m h)"
  unfolding returns_def scatch_def
  by (intro allI, split prod.split, intro allI impI, split sum.split) (metis Inr_Inl_False prod.inject)

lemma returns_finally: "returns m \<Longrightarrow> returns c \<Longrightarrow> returns (sfinally m c)"
  unfolding returns_def sfinally_def
  by (intro allI, split prod.split, intro allI impI, split prod.split, intro allI impI, split sum.split)
    (auto dest: sym)

lemma returns_syscall: "(\<And>w s s'. body w s \<noteq> (Inl Hangs, s')) \<Longrightarrow> returns (syscall c body)"
  by (auto simp: returns_def syscall_def split: option.splits)

lemma calls_return [intro!]:
  "returns (sys_fstat d)" "returns (sys_lstat d n)" "returns (sys_getfl d)" "returns (sys_setfl d fl)"
  "returns (sys_dup d)" "returns (sys_open_anchor a fl)" "returns (sys_truncate d)"
  unfolding sys_fstat_def sys_lstat_def sys_getfl_def sys_setfl_def sys_dup_def
    sys_open_anchor_def sys_truncate_def
  by (rule returns_syscall; auto simp: new_fd_def Let_def split: option.splits node.splits)+

lemma close_returns [intro!]: "returns (sys_close d)"
  by (auto simp: returns_def sys_close_def split: option.splits)

lemma openat_returns:
  assumes "O_NONBLOCK \<in> fl \<or> O_DIRECTORY \<in> fl"
  shows "returns (sys_openat d name fl)"
proof -
  have "refuse_open fl nd \<noteq> Some Hangs" for nd
    using assms by (auto simp: refuse_open.simps split: node.splits special.splits)
  then show ?thesis
    unfolding sys_openat_def
    by (intro returns_syscall)
      (auto simp: create_entry_def follow_entry_def open_node_def new_fd_def Let_def
        split: option.splits if_splits)
qed

lemma or_close_returns: "returns m \<Longrightarrow> returns (or_close d m)"
  unfolding or_close_def by (auto intro!: returns_catch returns_bind)

lemma walk_returns: "returns (walk_from cur parts)"
  by (induction parts arbitrary: cur) (auto intro!: returns_bind or_close_returns openat_returns)

lemma open_within_returns: "returns (open_within path flags nofollow)"
  unfolding open_within_def Let_def walk_to_parent_def open_leaf_def settle_descriptor_def
    reject_irregular_def restore_blocking_def describe_at_def refuse_symlink_at_def
  by (auto intro!: returns_bind returns_finally returns_catch or_close_returns walk_returns
      openat_returns split: node.splits option.splits fail.splits)

text \<open>
  C31. A refused transfer target is left alone: when \<open>open_within\<close> raises, in a world nobody
  else writes to, every file, link and device is as it was, contents and link count
  included, and no directory has lost or changed an entry (one may have gained the entry of a file
  that was created before a later check failed); truncation, asked for or not, is
  the last step of a successful open. And it always answers: no FIFO or device can make it
  wait.
\<close>

theorem refused_opens_harm_nothing:
  assumes "open_within path flags NOFOLLOW w s = (Inl e, s')" "calm w" "wf_nodes s"
  shows "e \<noteq> Hangs \<and> (\<forall>i nd. os_nodes s i = Some nd \<longrightarrow>
    (\<exists>nd'. os_nodes s' i = Some nd' \<and> grown nd nd'))"
proof -
  have "sparing_on_error w (open_within path flags NOFOLLOW)"
    using assms(2) by (rule open_within_on_error) (simp add: NOFOLLOW_def)
  with assms open_within_returns [of path flags NOFOLLOW] show ?thesis
    unfolding sparing_on_error_def spares_def returns_def by blast
qed

section \<open>Examples\<close>

definition still_world :: world where
  "still_world = \<lparr>w_fault = (\<lambda>c t. None), w_meddle = (\<lambda>t ns. ns), w_follow = (\<lambda>ns d t. None),
     w_taken = (\<lambda>t. 3), w_token = (\<lambda>t. ''c0ffee''), w_wakes = (\<lambda>t. [Woken_returned])\<rparr>"

definition machine :: os where
  "machine = \<lparr>os_nodes = served, os_next = 5, os_fds = (\<lambda>d. None), os_next_fd = 3, os_cwd = [],
     os_cwd_ino = 0, os_tick = 0, os_trace = []\<rparr>"

lemma machine_wf: "wf_fds machine" "wf_nodes machine" "calm still_world" "dirs_close still_world"
  by (auto simp: wf_fds_def wf_nodes_def calm_def dirs_close_def machine_def still_world_def served_def)

lemma machine_opens:
  obtains s' where "open_within ''/srv/data/report'' WB_FLAGS NOFOLLOW still_world machine = (Inr 7, s')"
proof -
  have "fst (open_within ''/srv/data/report'' WB_FLAGS NOFOLLOW still_world machine) = Inr 7"
    by code_simp
  then show thesis using that by (metis prod.collapse)
qed

lemma machine_refuses:
  obtains s' where
    "open_within ''/srv/out'' WB_FLAGS NOFOLLOW still_world machine = (Inl (Os_error ELOOP), s')"
proof -
  have "fst (open_within ''/srv/out'' WB_FLAGS NOFOLLOW still_world machine) = Inl (Os_error ELOOP)"
    by code_simp
  then show thesis using that by (metis prod.collapse)
qed

theorem opening_leaks_no_descriptor_witness:
  "\<exists>s'. open_within ''/srv/out'' WB_FLAGS NOFOLLOW still_world machine = (Inl (Os_error ELOOP), s') \<and>
    fd_table s' = fd_table machine"
proof -
  obtain s' where
    r: "open_within ''/srv/out'' WB_FLAGS NOFOLLOW still_world machine = (Inl (Os_error ELOOP), s')"
    by (rule machine_refuses)
  with opening_leaks_no_descriptor [OF machine_wf(4,1) disjI1 [OF refl] r] show ?thesis by auto
qed

theorem open_within_walks_entry_by_entry_witness:
  "\<exists>s' i c n. open_within ''/srv/data/report'' WB_FLAGS NOFOLLOW still_world machine = (Inr 7, s') \<and>
    fd_at s' 7 = Some i \<and> n \<le> 1 \<and> Saw i (Reg c n) \<in> set (os_trace s')"
proof -
  obtain s' where
    r: "open_within ''/srv/data/report'' WB_FLAGS NOFOLLOW still_world machine = (Inr 7, s')"
    by (rule machine_opens)
  let ?d = "start_of (is_absolute (pure_path ''/srv/data/report'')) machine"
  from open_within_walks_entry_by_entry [OF r machine_wf(1)] obtain steps i c n where
    h: "n \<le> 1" "fd_at s' 7 = Some i" and
    t: "os_trace s' = os_trace machine @ walk_events ?d steps @
      Saw i (Reg c n) # (if O_TRUNC \<in> WB_FLAGS then [Truncated i] else [])"
    by blast
  from t have "Saw i (Reg c n) \<in> set (os_trace s')" by simp
  with r h show ?thesis by blast
qed

theorem refused_opens_harm_nothing_witness:
  "\<exists>s'. open_within ''/srv/out'' WB_FLAGS NOFOLLOW still_world machine = (Inl (Os_error ELOOP), s') \<and>
    os_nodes s' 3 = Some (Symlink ''/etc'')"
proof -
  obtain s' where
    r: "open_within ''/srv/out'' WB_FLAGS NOFOLLOW still_world machine = (Inl (Os_error ELOOP), s')"
    by (rule machine_refuses)
  moreover have "os_nodes machine 3 = Some (Symlink ''/etc'')" by (simp add: machine_def served_def)
  ultimately show ?thesis
    using refused_opens_harm_nothing [OF r machine_wf(3,2)] by fastforce
qed

end
