(* ===== verification/Streams.thy ===== *)
theory Streams
  imports Open_Guarantees Pyval
begin

text \<open>
  Blocking calls behind \<open>await\<close>, with the cancellations the caller may receive while a
  thread runs; \<open>read_guarded_file\<close>; and \<open>stream_to_path\<close> with its two write policies, of
  \<open>utils/paths.py\<close>. A \<open>try ... finally\<close> over local variables is written as its cleanup at
  each point where the body may raise, with the values the variables have there.
\<close>

section \<open>Waiting for a thread\<close>

text \<open>
  The loop of \<open>_await_shielded_operation\<close> over the wake-ups of the caller, ending when the
  operation is done; its result is whether \<open>caller_cancellation\<close> is set by then.
\<close>

fun shield_loop :: "bool \<Rightarrow> wake list \<Rightarrow> bool \<Rightarrow> bool" where
  "shield_loop op_cancelled [] caller = caller"
| "shield_loop op_cancelled (Cancelled_pending # ws) caller = shield_loop op_cancelled ws True"
| "shield_loop op_cancelled (Cancelled_done # ws) caller =
     (if \<not> op_cancelled \<and> \<not> caller then True else caller)"
| "shield_loop op_cancelled (Woken_raised # ws) caller = caller"
| "shield_loop op_cancelled (Woken_returned # ws) caller = caller"

definition await_tick :: "os \<Rightarrow> os" where
  "await_tick s = s\<lparr>os_tick := Suc (os_tick s)\<rparr>"

definition await_shielded :: "bool \<Rightarrow> 'a sys \<Rightarrow> 'a sys" where
  "await_shielded suppress_cancellation operation = (\<lambda>w s.
     case operation w (await_tick s) of (result, s') \<Rightarrow>
       let op_cancelled = (result = Inl Cancelled_error);
           caller = shield_loop op_cancelled (w_wakes w (os_tick s)) False
       in if op_cancelled \<or> result = Inl Hangs then (result, s')
          else if caller \<and> \<not> suppress_cancellation then (Inl Cancelled_error, s')
          else (result, s'))"

definition run_thread_call :: "bool \<Rightarrow> 'a sys \<Rightarrow> 'a sys" where
  "run_thread_call suppress_cancellation call = await_shielded suppress_cancellation call"

text \<open>
  The first wake-up of an await that is not retried: a cancellation reaches the caller at
  once, and the thread's effects happen all the same.
\<close>

definition interrupted :: "wake list \<Rightarrow> bool" where
  "interrupted ws = (case ws of
     Cancelled_pending # _ \<Rightarrow> True | Cancelled_done # _ \<Rightarrow> True | _ \<Rightarrow> False)"

definition to_thread :: "'a sys \<Rightarrow> 'a sys" where
  "to_thread call = (\<lambda>w s. case call w (await_tick s) of (r, s') \<Rightarrow>
     (if interrupted (w_wakes w (os_tick s)) then Inl Cancelled_error else r, s'))"

text \<open>\<open>await asyncio.sleep(0)\<close>: nothing but a chance to be cancelled.\<close>

definition checkpoint :: "unit sys" where
  "checkpoint = to_thread (sreturn ())"

text \<open>
  \<open>_await_open_descriptor\<close>, \<open>_await_temporary_file\<close> and \<open>_await_exclusive_file\<close>: a caller
  cancelled while a thread opens something waits for it, undoes it, and is cancelled then.
\<close>

definition await_or_undo :: "'a sys \<Rightarrow> ('a \<Rightarrow> unit sys) \<Rightarrow> 'a sys" where
  "await_or_undo creating undo = (\<lambda>w s. case creating w (await_tick s) of (r, s') \<Rightarrow>
     if interrupted (w_wakes w (os_tick s))
     then (case r of
         Inl _ \<Rightarrow> (Inl Cancelled_error, s')
       | Inr x \<Rightarrow> sbind (undo x) (\<lambda>_. sraise Cancelled_error) w s')
     else (r, s'))"

definition close_descriptor :: "bool \<Rightarrow> nat \<Rightarrow> unit sys" where
  "close_descriptor suppress_cancellation d = run_thread_call suppress_cancellation (sys_close d)"

definition unlink_at :: "nat \<Rightarrow> string \<Rightarrow> unit sys" where
  "unlink_at parent name = scatch (sys_unlink parent name)
     (\<lambda>e. if e = Os_error ENOENT then sreturn () else sraise e)"

definition unlink_quietly :: "nat \<Rightarrow> string \<Rightarrow> unit sys" where
  "unlink_quietly parent name = suppress_os (run_thread_call True (unlink_at parent name))"

definition close_quietly :: "bool \<Rightarrow> nat \<Rightarrow> unit sys" where
  "close_quietly suppress_cancellation d = suppress_os (close_descriptor suppress_cancellation d)"

definition await_open_descriptor :: "nat sys \<Rightarrow> nat sys" where
  "await_open_descriptor creating = await_or_undo creating (close_quietly True)"

definition await_temporary_file :: "(nat \<times> string) sys \<Rightarrow> nat \<Rightarrow> (nat \<times> string) sys" where
  "await_temporary_file creating parent = await_or_undo creating
     (\<lambda>(d, name). sbind (close_quietly True d) (\<lambda>_. unlink_quietly parent name))"

definition await_exclusive_file :: "nat sys \<Rightarrow> nat \<Rightarrow> string \<Rightarrow> nat sys" where
  "await_exclusive_file creating parent target_name = await_or_undo creating
     (\<lambda>d. sbind (close_quietly True d) (\<lambda>_. unlink_quietly parent target_name))"

section \<open>Reading a file\<close>

definition validated_byte_limit :: "pyval \<Rightarrow> fail + int" where
  "validated_byte_limit v = (case v of
     PInt n \<Rightarrow> if n \<le> 0 then Inl (Raised ConfigurationError) else Inr n
   | _ \<Rightarrow> Inl (Raised ConfigurationError))"

definition resolve_caller_path :: "string \<Rightarrow> ppath sys" where
  "resolve_caller_path path = to_thread (\<lambda>w s.
     let s' = advance w s in (caller_path (os_nodes s') (os_cwd s') path, s'))"

function read_loop :: "nat \<Rightarrow> nat \<Rightarrow> nat \<Rightarrow> nat \<Rightarrow> string list \<Rightarrow> string list sys" where
  "read_loop d read_size limit observed chunks =
     sbind (run_thread_call False (sys_read d read_size)) (\<lambda>chunk.
     if chunk = [] then sreturn chunks
     else if limit < observed + length chunk then sraise (Raised ConfigurationError)
     else read_loop d read_size limit (observed + length chunk) (chunks @ [chunk]))"
  by pat_completeness auto
termination
  by (relation "measure (\<lambda>(d, read_size, limit, observed, chunks). limit - observed)")
    (auto simp flip: length_greater_0_conv)

declare read_loop.simps [simp del]

definition read_guarded_file :: "string \<Rightarrow> pyval \<Rightarrow> pyval \<Rightarrow> string sys" where
  "read_guarded_file path max_bytes chunk_size =
     sbind (lift_res (validated_byte_limit max_bytes)) (\<lambda>limit.
     sbind (lift_res (validated_byte_limit chunk_size)) (\<lambda>read_size.
     sbind (resolve_caller_path path) (\<lambda>source.
     sbind (await_open_descriptor (open_read_descriptor (path_str source) NOFOLLOW)) (\<lambda>descriptor.
     sbind (scatch (read_loop descriptor (nat read_size) (nat limit) 0 []) (\<lambda>e.
       sbind (close_quietly True descriptor) (\<lambda>_. sraise e))) (\<lambda>chunks.
     sbind (close_descriptor False descriptor) (\<lambda>_.
     sreturn (concat chunks)))))))"

section \<open>Creating the file to write\<close>

definition CREATE_FLAGS :: "flag set" where
  "CREATE_FLAGS = {O_WRONLY, O_CREAT, O_EXCL, O_NOFOLLOW, O_CLOEXEC}"

text \<open>\<open>f'.asyncio-gateway-{secrets.token_hex(16)}.tmp'\<close>: the world chooses the token.\<close>

definition temporary_name :: "string sys" where
  "temporary_name = (\<lambda>w s. (Inr (''.asyncio-gateway-'' @ w_token w (os_tick s) @ ''.tmp''), s))"

definition unlink_if_there :: "nat \<Rightarrow> string \<Rightarrow> unit sys" where
  "unlink_if_there parent name = scatch (sys_unlink parent name)
     (\<lambda>e. if e = Os_error ENOENT then sreturn () else sraise e)"

definition restrict_mode :: "nat \<Rightarrow> nat \<Rightarrow> string \<Rightarrow> unit sys" where
  "restrict_mode parent descriptor name = scatch (sys_fchmod descriptor) (\<lambda>e.
     sbind (sys_close descriptor) (\<lambda>_.
     sbind (unlink_if_there parent name) (\<lambda>_. sraise e)))"

fun temporary_file_for :: "nat \<Rightarrow> nat \<Rightarrow> (nat \<times> string) sys" where
  "temporary_file_for parent 0 = sraise (Raised ConfigurationError)"
| "temporary_file_for parent (Suc attempts) =
     sbind temporary_name (\<lambda>name.
     sbind (scatch (sbind (sys_openat parent name CREATE_FLAGS) (\<lambda>d. sreturn (Some d)))
       (\<lambda>e. if e = Os_error EEXIST then sreturn None else sraise e)) (\<lambda>opened.
     case opened of
       None \<Rightarrow> temporary_file_for parent attempts
     | Some descriptor \<Rightarrow>
         sbind (restrict_mode parent descriptor name) (\<lambda>_. sreturn (descriptor, name))))"

definition TEMPORARY_ATTEMPTS :: nat where
  "TEMPORARY_ATTEMPTS = 128"

definition exclusive_file_for :: "nat \<Rightarrow> string \<Rightarrow> nat sys" where
  "exclusive_file_for parent target_name =
     sbind (sys_openat parent target_name CREATE_FLAGS) (\<lambda>descriptor.
     sbind (restrict_mode parent descriptor target_name) (\<lambda>_. sreturn descriptor))"

section \<open>Writing the body\<close>

text \<open>
  What the remote body yields, item by item, and how it is closed: no \<open>aclose\<close>, one whose
  answer cannot be awaited, or one that ends or raises.
\<close>

datatype item = Chunk string | Not_bytes | Breaks fail

datatype closing = No_aclose | Bad_aclose | Aclose "fail option"

record body =
  b_items :: "item list"
  b_closing :: closing

function write_all :: "nat \<Rightarrow> string \<Rightarrow> unit sys" where
  "write_all d remaining =
     (if remaining = [] then sreturn ()
      else sbind (sys_write d remaining) (\<lambda>written.
        if written = 0 then sraise (Os_error EIO) else write_all d (drop written remaining)))"
  by pat_completeness auto
termination
  by (relation "measure (\<lambda>(d, remaining). length remaining)")
    (auto simp flip: length_greater_0_conv)

declare write_all.simps [simp del]

fun copy_items :: "nat \<Rightarrow> int option \<Rightarrow> item list \<Rightarrow> int \<Rightarrow> int sys" where
  "copy_items d limit [] written = sreturn written"
| "copy_items d limit (Not_bytes # items) written = sraise (Raised SerializationError)"
| "copy_items d limit (Breaks e # items) written = sraise e"
| "copy_items d limit (Chunk chunk # items) written =
     (let written' = written + int (length chunk) in
      if (case limit of Some l \<Rightarrow> l < written' | None \<Rightarrow> False)
      then sraise (Raised ResponseTooLargeError)
      else sbind (if chunk = [] then sreturn () else run_thread_call False (write_all d chunk))
        (\<lambda>_. copy_items d limit items written'))"

definition finalize_iterator :: "closing \<Rightarrow> unit sys" where
  "finalize_iterator c = (case c of
     No_aclose \<Rightarrow> sreturn ()
   | Bad_aclose \<Rightarrow> sraise (Raised SerializationError)
   | Aclose ends \<Rightarrow> await_shielded False
       (case ends of None \<Rightarrow> sreturn () | Some e \<Rightarrow> sraise e))"

definition outcome_of :: "'a sys \<Rightarrow> (fail + 'a) sys" where
  "outcome_of m = (\<lambda>w s. case m w s of (r, s') \<Rightarrow> (Inr r, s'))"

definition stream_descriptor :: "nat \<Rightarrow> body \<Rightarrow> int option \<Rightarrow> int sys" where
  "stream_descriptor d chunks limit =
     sbind (outcome_of (copy_items d limit (b_items chunks) 0)) (\<lambda>outcome.
     sbind (scatch (finalize_iterator (b_closing chunks))
       (\<lambda>e. if is_ok outcome then sraise e else sreturn ())) (\<lambda>_.
     lift_res outcome))"

definition atomic_replace_at :: "nat \<Rightarrow> string \<Rightarrow> string \<Rightarrow> unit sys" where
  "atomic_replace_at parent source_name target_name =
     sbind checkpoint (\<lambda>_. await_shielded True (sys_replace parent source_name target_name))"

section \<open>The two policies\<close>

definition or_cleanup :: "unit sys \<Rightarrow> 'a sys \<Rightarrow> 'a sys" where
  "or_cleanup cleanup m = scatch m (\<lambda>e. sbind cleanup (\<lambda>_. sraise e))"

definition overwrite_cleanup ::
  "nat \<Rightarrow> nat option \<Rightarrow> string option \<Rightarrow> bool \<Rightarrow> bool \<Rightarrow> unit sys"
where
  "overwrite_cleanup parent descriptor name committed failed =
     sbind (case descriptor of Some d \<Rightarrow> close_quietly True d | None \<Rightarrow> sreturn ()) (\<lambda>_.
     sbind (case name of
         Some n \<Rightarrow> if committed then sreturn () else unlink_quietly parent n
       | None \<Rightarrow> sreturn ()) (\<lambda>_.
     close_quietly (committed \<or> failed) parent))"

definition stream_overwrite :: "ppath \<Rightarrow> body \<Rightarrow> int option \<Rightarrow> int sys" where
  "stream_overwrite target chunks limit =
     sbind (await_open_descriptor (open_parent_descriptor (path_str target))) (\<lambda>parent.
     sbind (or_cleanup (overwrite_cleanup parent None None False True)
       (await_temporary_file (temporary_file_for parent TEMPORARY_ATTEMPTS) parent))
       (\<lambda>(descriptor, name).
     sbind (or_cleanup (overwrite_cleanup parent (Some descriptor) (Some name) False True)
       (sbind (stream_descriptor descriptor chunks limit) (\<lambda>written.
        sbind (run_thread_call False (sys_fsync descriptor)) (\<lambda>_. sreturn written))))
       (\<lambda>written.
     sbind (or_cleanup (overwrite_cleanup parent None (Some name) False True)
       (sbind (close_descriptor False descriptor) (\<lambda>_.
        atomic_replace_at parent name (path_name target)))) (\<lambda>_.
     sbind (overwrite_cleanup parent None (Some name) True False) (\<lambda>_.
     sreturn written)))))"

definition exclusive_cleanup ::
  "nat \<Rightarrow> string \<Rightarrow> nat option \<Rightarrow> bool \<Rightarrow> bool \<Rightarrow> bool \<Rightarrow> unit sys"
where
  "exclusive_cleanup parent target_name descriptor created succeeded failed =
     sbind (case descriptor of Some d \<Rightarrow> close_quietly True d | None \<Rightarrow> sreturn ()) (\<lambda>_.
     sbind (if created \<and> \<not> succeeded then unlink_quietly parent target_name else sreturn ()) (\<lambda>_.
     close_quietly failed parent))"

definition stream_exclusive :: "ppath \<Rightarrow> body \<Rightarrow> int option \<Rightarrow> int sys" where
  "stream_exclusive target chunks limit =
     (let name = path_name target in
     sbind (await_open_descriptor (open_parent_descriptor (path_str target))) (\<lambda>parent.
     sbind (or_cleanup (exclusive_cleanup parent name None False False True)
       (await_exclusive_file (exclusive_file_for parent name) parent name)) (\<lambda>descriptor.
     sbind (or_cleanup (exclusive_cleanup parent name (Some descriptor) True False True)
       (sbind (stream_descriptor descriptor chunks limit) (\<lambda>written.
        sbind (run_thread_call False (sys_fsync descriptor)) (\<lambda>_. sreturn written))))
       (\<lambda>written.
     sbind (or_cleanup (exclusive_cleanup parent name None True False True)
       (close_descriptor False descriptor)) (\<lambda>_.
     sbind (exclusive_cleanup parent name None True True False) (\<lambda>_.
     sreturn written))))))"

definition byte_limit_or_none :: "pyval \<Rightarrow> fail + int option" where
  "byte_limit_or_none max_bytes =
     (if max_bytes = PNone then Inr None
      else rbind (validated_byte_limit max_bytes) (\<lambda>n. Inr (Some n)))"

definition declares_too_much :: "int option \<Rightarrow> pyval \<Rightarrow> bool" where
  "declares_too_much limit advertised = (case (limit, advertised) of
     (Some l, PInt n) \<Rightarrow> l < n | _ \<Rightarrow> False)"

definition stream_to_path :: "string \<Rightarrow> body \<Rightarrow> pyval \<Rightarrow> pyval \<Rightarrow> pyval \<Rightarrow> int sys" where
  "stream_to_path path chunks overwrite max_bytes advertised =
     sbind (lift_res (if is_bool overwrite then Inr () else Inl (Raised ConfigurationError))) (\<lambda>_.
     sbind (lift_res (byte_limit_or_none max_bytes)) (\<lambda>limit.
     if declares_too_much limit advertised then sraise (Raised ResponseTooLargeError)
     else sbind (resolve_caller_path path) (\<lambda>target.
       scatch (if overwrite = PBool True then stream_overwrite target chunks limit
               else stream_exclusive target chunks limit)
         (\<lambda>e. case e of
            Os_error n \<Rightarrow>
              sbind (to_thread (classify_refusal (path_str target) n)) sraise
          | _ \<Rightarrow> sraise e))))"

end
