(* ===== verification/Contained.thy ===== *)
theory Contained
  imports Streams
begin

text \<open>
  \<open>utils/contained_io.py\<close>: the path layer given to \<open>aioftp\<close> and the local file system given to
  \<open>asyncssh\<close>, both confined to one directory and to one budget of bytes. What the two libraries
  do below them (\<open>AsyncPathIO\<close>, \<open>LocalFS\<close>, \<open>LocalFile\<close>) is not under \<open>src/\<close>: it is a function from
  requests to actions on the machine, an argument of every definition that calls it.
\<close>

section \<open>Requests, answers and failures\<close>

text \<open>
  What \<open>aioftp\<close> asks of its path layer. The same requests go in, with the paths it composed, and
  come out, with the paths that were checked. A handle is the number of its descriptor.
\<close>

datatype 'p io_request =
    Exists 'p
  | Is_dir 'p
  | Is_file 'p
  | Make_dir 'p bool bool
  | Remove_dir 'p
  | Unlink 'p
  | List_dir 'p
  | Stat 'p
  | Rename 'p 'p
  | Open 'p string
  | Write nat string
  | Close nat

text \<open>\<open>ClassifyingLocalFile\<close>: an open file and where it is.\<close>

record local_file =
  lf_handle :: nat
  lf_path :: ppath

datatype answer =
    Done
  | Truth bool
  | Listing "ppath list"
  | Attributes "(string, pyval) dict"
  | Moved ppath
  | Handle nat
  | Count int
  | File local_file

text \<open>\<open>aioftp\<close> wraps what its path layer raises; the reason may be an \<open>OSError\<close>.\<close>

datatype fault = Path_io_error "errno option" | Plain fail

record transfer_budget =
  bu_limit :: int
  bu_written :: int

text \<open>The object: its directory, its policy, the budget of the call, and the files it opened to write.\<close>

record transfer =
  tr_base :: ppath
  tr_overwrite :: bool
  tr_budget :: "transfer_budget option"
  tr_targets :: "(nat, ppath) dict"

type_synonym 'a action = "world \<Rightarrow> transfer \<times> os \<Rightarrow> (fault + 'a) \<times> transfer \<times> os"

type_synonym supplier = "ppath io_request \<Rightarrow> world \<Rightarrow> os \<Rightarrow> (fault + answer) \<times> os"

definition areturn :: "'a \<Rightarrow> 'a action" where
  "areturn x = (\<lambda>w ts. (Inr x, ts))"

definition araise :: "fault \<Rightarrow> 'a action" where
  "araise e = (\<lambda>w ts. (Inl e, ts))"

definition abind :: "'a action \<Rightarrow> ('a \<Rightarrow> 'b action) \<Rightarrow> 'b action" where
  "abind m f = (\<lambda>w ts. case m w ts of (Inl e, ts') \<Rightarrow> (Inl e, ts') | (Inr x, ts') \<Rightarrow> f x w ts')"

definition acatch :: "'a action \<Rightarrow> (fault \<Rightarrow> 'a action) \<Rightarrow> 'a action" where
  "acatch m h = (\<lambda>w ts. case m w ts of (Inl e, ts') \<Rightarrow> h e w ts' | (Inr x, ts') \<Rightarrow> (Inr x, ts'))"

definition on_os :: "'a sys \<Rightarrow> 'a action" where
  "on_os m = (\<lambda>w (t, s). case m w s of
     (Inl e, s') \<Rightarrow> (Inl (Plain e), t, s') | (Inr x, s') \<Rightarrow> (Inr x, t, s'))"

definition the_transfer :: "transfer action" where
  "the_transfer = (\<lambda>w (t, s). (Inr t, t, s))"

definition put_transfer :: "transfer \<Rightarrow> unit action" where
  "put_transfer t = (\<lambda>w (_, s). (Inr (), t, s))"

text \<open>\<open>super().m(...)\<close>.\<close>

definition inherited :: "supplier \<Rightarrow> ppath io_request \<Rightarrow> answer action" where
  "inherited super r = (\<lambda>w (t, s). case super r w s of (x, s') \<Rightarrow> (x, t, s'))"

section \<open>The budget\<close>

definition WRITING_MODES :: "char set" where
  "WRITING_MODES = {CHR ''w'', CHR ''x'', CHR ''a''}"

definition writes :: "string \<Rightarrow> bool" where
  "writes mode = (mode \<noteq> [] \<and> hd mode \<in> WRITING_MODES)"

text \<open>\<open>TransferBudget.spend\<close>: the count includes the block that crosses the limit.\<close>

definition spend :: "nat \<Rightarrow> transfer_budget \<Rightarrow> (fault + unit) \<times> transfer_budget" where
  "spend n b =
     (let b' = b\<lparr>bu_written := bu_written b + int n\<rparr> in
      (if bu_written b' > bu_limit b' then Inl (Plain (Raised ResponseTooLargeError)) else Inr (), b'))"

definition charge :: "nat \<Rightarrow> unit action" where
  "charge n = (\<lambda>w (t, s). case tr_budget t of
     None \<Rightarrow> (Inr (), t, s)
   | Some b \<Rightarrow> (case spend n b of (r, b') \<Rightarrow> (r, t\<lparr>tr_budget := Some b'\<rparr>, s)))"

section \<open>Opening\<close>

text \<open>
  The flags of the modes Python's \<open>open\<close> takes that write. \<open>O_APPEND\<close> changes where a write goes,
  which is the handle's matter.
\<close>

definition mode_rest :: "string \<Rightarrow> bool" where
  "mode_rest rest = (set rest \<subseteq> {CHR ''b'', CHR ''t'', CHR ''+''} \<and> distinct rest \<and>
     \<not> (CHR ''b'' \<in> set rest \<and> CHR ''t'' \<in> set rest))"

definition mode_flags :: "string \<Rightarrow> flag set option" where
  "mode_flags mode = (case mode of
     c # rest \<Rightarrow>
       if \<not> mode_rest rest then None
       else if c = CHR ''w'' then Some {O_WRONLY, O_CREAT, O_TRUNC, O_CLOEXEC}
       else if c = CHR ''x'' then Some {O_WRONLY, O_CREAT, O_EXCL, O_CLOEXEC}
       else if c = CHR ''a'' then Some {O_WRONLY, O_CREAT, O_CLOEXEC}
       else if c = CHR ''r'' then Some ((if CHR ''+'' \<in> set rest then {O_WRONLY} else {}) \<union> {O_CLOEXEC})
       else None
   | [] \<Rightarrow> None)"

text \<open>
  Python's \<open>open(path, mode)\<close> without an opener: the kernel's walk, which follows links, and
  \<open>IsADirectoryError\<close> for a directory.
\<close>

definition sys_open_path :: "bool \<Rightarrow> string list \<Rightarrow> flag set \<Rightarrow> nat sys" where
  "sys_open_path rooted parts fl = syscall Call_open (\<lambda>w s.
     if parts = [] then (Inl (Os_error EISDIR), s)
     else case kernel_walk w (os_nodes s) (start_of rooted s) (butlast parts) of
       None \<Rightarrow> (Inl (Os_error ENOENT), s)
     | Some d \<Rightarrow> (case os_nodes s d of
         Some (Dir es) \<Rightarrow> (case map_of es (last parts) of
             None \<Rightarrow> if O_CREAT \<in> fl then create_entry fl d es (last parts) w s
                     else (Inl (Os_error ENOENT), s)
           | Some i \<Rightarrow> follow_entry fl d (last parts) i w s)
       | _ \<Rightarrow> (Inl (Os_error ENOTDIR), s)))"

definition builtin_open :: "ppath \<Rightarrow> flag set \<Rightarrow> nat sys" where
  "builtin_open path fl =
     sbind (sys_open_path (is_absolute path) (p_parts path) fl) (\<lambda>d.
     sbind (or_close d (sys_fstat d)) (\<lambda>(i, nd). case nd of
       Dir _ \<Rightarrow> sbind (sys_close d) (\<lambda>_. sraise (Os_error EISDIR))
     | _ \<Rightarrow> sreturn d))"

definition open_guarded :: "ppath \<Rightarrow> string \<Rightarrow> bool \<Rightarrow> nat sys" where
  "open_guarded path mode overwrite = (case mode_flags mode of
     None \<Rightarrow> sraise Value_error
   | Some fl \<Rightarrow>
       if \<not> writes mode then builtin_open path fl
       else scatch (guarded_opener overwrite NOFOLLOW (path_str path) fl)
              (raise_classified (path_str path)))"

definition classify_mkdir_refusal :: "ppath \<Rightarrow> errno \<Rightarrow> fail sys" where
  "classify_mkdir_refusal path n =
     sbind (classify_refusal (path_str path) n) (\<lambda>typed. sreturn (case typed of
       Raised c \<Rightarrow> if is_instance (lib_mro c) [ConfigurationError]
                   then Raised LocalWriteError else typed
     | _ \<Rightarrow> typed))"

text \<open>\<open>_unlink\<close>: \<open>path.unlink(missing_ok=True)\<close> in a thread.\<close>

definition unlink_path :: "ppath \<Rightarrow> unit sys" where
  "unlink_path path = to_thread (scatch (sys_remove (is_absolute path) (p_parts path))
     (\<lambda>e. if e = Os_error ENOENT then sreturn () else sraise e))"

section \<open>\<open>ContainedPathIO\<close>\<close>

definition as_given :: "ppath \<Rightarrow> ppath \<Rightarrow> ppath \<Rightarrow> fail + ppath" where
  "as_given given checked produced = (case relative_to produced checked of
     None \<Rightarrow> Inl Value_error | Some rest \<Rightarrow> Inr (path_join given rest))"

text \<open>\<open>under(base, path)\<close>, as a look at the file system.\<close>

definition look_under :: "ppath \<Rightarrow> string \<Rightarrow> ppath sys" where
  "look_under base path = (\<lambda>w s. let s' = advance w s in
     (under (os_nodes s') (os_cwd s') (path_str base) path, s'))"

definition contained :: "string \<Rightarrow> ppath action" where
  "contained path = abind the_transfer (\<lambda>t. on_os (look_under (tr_base t) path))"

definition classifying :: "(errno \<Rightarrow> fail sys) \<Rightarrow> 'a action \<Rightarrow> 'a action" where
  "classifying classify awaited = acatch awaited (\<lambda>e. case e of
     Path_io_error (Some n) \<Rightarrow> on_os (sbind (classify n) sraise)
   | _ \<Rightarrow> araise e)"

definition classifying_base :: "'a action \<Rightarrow> 'a action" where
  "classifying_base awaited =
     abind the_transfer (\<lambda>t. classifying (classify_refusal (path_str (tr_base t))) awaited)"

definition pio_exists :: "supplier \<Rightarrow> string \<Rightarrow> answer action" where
  "pio_exists super path = abind (contained path) (\<lambda>p. inherited super (Exists p))"

definition pio_is_dir :: "supplier \<Rightarrow> string \<Rightarrow> answer action" where
  "pio_is_dir super path = abind (contained path) (\<lambda>p. inherited super (Is_dir p))"

definition pio_is_file :: "supplier \<Rightarrow> string \<Rightarrow> answer action" where
  "pio_is_file super path = abind (contained path) (\<lambda>p. inherited super (Is_file p))"

definition pio_mkdir :: "supplier \<Rightarrow> string \<Rightarrow> bool \<Rightarrow> bool \<Rightarrow> answer action" where
  "pio_mkdir super path parents exist_ok =
     abind the_transfer (\<lambda>t. abind (on_os (\<lambda>w s. (Inr (os_cwd s), s))) (\<lambda>cwd.
     if absolute cwd (pure_path path) = path_parent (tr_base t) then areturn Done
     else abind (contained path) (\<lambda>target.
       classifying (classify_mkdir_refusal target) (inherited super (Make_dir target False exist_ok)))))"

definition pio_rmdir :: "supplier \<Rightarrow> string \<Rightarrow> answer action" where
  "pio_rmdir super path = abind (contained path) (\<lambda>p. inherited super (Remove_dir p))"

definition pio_unlink :: "supplier \<Rightarrow> string \<Rightarrow> answer action" where
  "pio_unlink super path = abind (contained path) (\<lambda>p. inherited super (Unlink p))"

text \<open>The listing, entry by entry, in the form the caller gave the directory.\<close>

fun given_entries :: "ppath \<Rightarrow> ppath \<Rightarrow> ppath list \<Rightarrow> fail + ppath list" where
  "given_entries given checked [] = Inr []"
| "given_entries given checked (p # ps) =
     rbind (as_given given checked p) (\<lambda>q. rbind (given_entries given checked ps) (\<lambda>qs. Inr (q # qs)))"

definition pio_list :: "supplier \<Rightarrow> string \<Rightarrow> answer action" where
  "pio_list super path = abind (contained path) (\<lambda>target.
     abind (inherited super (List_dir target)) (\<lambda>a. case a of
       Listing ps \<Rightarrow> abind (on_os (lift_res (given_entries (pure_path path) target ps)))
         (\<lambda>qs. areturn (Listing qs))
     | _ \<Rightarrow> areturn a))"

definition pio_stat :: "supplier \<Rightarrow> string \<Rightarrow> answer action" where
  "pio_stat super path = abind (contained path) (\<lambda>p. inherited super (Stat p))"

definition pio_rename :: "supplier \<Rightarrow> string \<Rightarrow> string \<Rightarrow> answer action" where
  "pio_rename super source destination =
     abind (contained source) (\<lambda>p. abind (contained destination) (\<lambda>q. inherited super (Rename p q)))"

text \<open>
  \<open>self.timeout\<close> is \<open>None\<close>: the FTP client gives its connection and socket timeouts to \<open>aioftp\<close>, and no
  timeout of paths, so the open is awaited without one.
\<close>

definition pio_open :: "supplier \<Rightarrow> string \<Rightarrow> string \<Rightarrow> answer action" where
  "pio_open super path mode = abind (contained path) (\<lambda>target.
     if \<not> writes mode then inherited super (Open target mode)
     else abind the_transfer (\<lambda>t.
       abind (on_os (to_thread (open_guarded target mode (tr_overwrite t)))) (\<lambda>handle.
       abind the_transfer (\<lambda>t.
       abind (put_transfer (t\<lparr>tr_targets := dict_set (tr_targets t) handle target\<rparr>)) (\<lambda>_.
       areturn (Handle handle))))))"

definition pop_target :: "nat \<Rightarrow> ppath option action" where
  "pop_target handle = abind the_transfer (\<lambda>t.
     abind (put_transfer (t\<lparr>tr_targets := dict_del (tr_targets t) handle\<rparr>)) (\<lambda>_.
     areturn (map_of (tr_targets t) handle)))"

text \<open>\<open>with suppress(Exception)\<close>: a cancellation is no \<open>Exception\<close>, and a call that hangs raises nothing.\<close>

fun is_exception :: "fault \<Rightarrow> bool" where
  "is_exception (Plain Cancelled_error) = False"
| "is_exception (Plain Hangs) = False"
| "is_exception _ = True"

definition unlink_target :: "ppath option \<Rightarrow> unit action" where
  "unlink_target target = (case target of None \<Rightarrow> areturn () | Some p \<Rightarrow> on_os (unlink_path p))"

definition discard :: "supplier \<Rightarrow> nat \<Rightarrow> unit action" where
  "discard super handle = abind (pop_target handle) (\<lambda>target.
     abind (acatch (inherited super (Close handle)) (\<lambda>e. if is_exception e then areturn Done else araise e))
       (\<lambda>_. unlink_target target))"

definition pio_write :: "supplier \<Rightarrow> nat \<Rightarrow> string \<Rightarrow> answer action" where
  "pio_write super handle data =
     acatch (abind (charge (length data)) (\<lambda>_. classifying_base (inherited super (Write handle data))))
       (\<lambda>e. abind (discard super handle) (\<lambda>_. araise e))"

definition pio_close :: "supplier \<Rightarrow> nat \<Rightarrow> answer action" where
  "pio_close super handle = abind (pop_target handle) (\<lambda>target.
     acatch (classifying_base (inherited super (Close handle)))
       (\<lambda>e. abind (unlink_target target) (\<lambda>_. araise e)))"

text \<open>The object as a whole: from requests with any path to requests with checked paths.\<close>

fun perform_io :: "supplier \<Rightarrow> string io_request \<Rightarrow> answer action" where
  "perform_io super (Exists path) = pio_exists super path"
| "perform_io super (Is_dir path) = pio_is_dir super path"
| "perform_io super (Is_file path) = pio_is_file super path"
| "perform_io super (Make_dir path parents exist_ok) = pio_mkdir super path parents exist_ok"
| "perform_io super (Remove_dir path) = pio_rmdir super path"
| "perform_io super (Unlink path) = pio_unlink super path"
| "perform_io super (List_dir path) = pio_list super path"
| "perform_io super (Stat path) = pio_stat super path"
| "perform_io super (Rename source destination) = pio_rename super source destination"
| "perform_io super (Open path mode) = pio_open super path mode"
| "perform_io super (Write handle data) = pio_write super handle data"
| "perform_io super (Close handle) = pio_close super handle"

definition contained_path_io :: "ppath \<Rightarrow> bool \<Rightarrow> transfer_budget option \<Rightarrow> transfer" where
  "contained_path_io base overwrite budget =
     \<lparr>tr_base = base, tr_overwrite = overwrite, tr_budget = budget, tr_targets = []\<rparr>"

text \<open>A session: requests one after another, each answered or refused.\<close>

fun session ::
  "('r \<Rightarrow> answer action) \<Rightarrow> 'r list \<Rightarrow> world \<Rightarrow> transfer \<times> os \<Rightarrow> (fault + answer) list \<times> transfer \<times> os"
where
  "session perform [] w ts = ([], ts)"
| "session perform (r # rs) w ts =
     (case perform r w ts of (a, ts') \<Rightarrow> (case session perform rs w ts' of (as, ts'') \<Rightarrow> (a # as, ts'')))"

section \<open>\<open>ContainedLocalFS\<close>\<close>

text \<open>
  The requests of \<open>asyncssh\<close>, of the local file system and of an open file. \<open>LocalFS\<close> raises
  \<open>OSError\<close> as it is.
\<close>

datatype 'p fs_request =
    Fs_stat 'p bool
  | Fs_setstat 'p "(string, pyval) dict" bool
  | Fs_exists 'p
  | Fs_isdir 'p
  | Fs_scandir 'p
  | Fs_mkdir 'p
  | Fs_readlink 'p
  | Fs_symlink string string
  | Fs_open 'p string
  | Fs_sparse nat
  | Fs_write local_file string int
  | Fs_close local_file

type_synonym fs_supplier = "ppath fs_request \<Rightarrow> world \<Rightarrow> os \<Rightarrow> (fault + answer) \<times> os"

definition delegated :: "fs_supplier \<Rightarrow> ppath fs_request \<Rightarrow> answer action" where
  "delegated local_fs r = (\<lambda>w (t, s). case local_fs r w s of (x, s') \<Rightarrow> (x, t, s'))"

definition UNPRESERVED_ATTRS :: "string list" where
  "UNPRESERVED_ATTRS = [''permissions'', ''uid'', ''gid'', ''owner'', ''group'']"

definition without_ownership :: "(string, pyval) dict \<Rightarrow> (string, pyval) dict" where
  "without_ownership attrs =
     map (\<lambda>(name, v). (name, if name \<in> set UNPRESERVED_ATTRS then PNone else v)) attrs"

definition fs_stat :: "fs_supplier \<Rightarrow> string \<Rightarrow> bool \<Rightarrow> answer action" where
  "fs_stat local_fs path follow = abind (contained path) (\<lambda>p. delegated local_fs (Fs_stat p follow))"

definition fs_setstat :: "fs_supplier \<Rightarrow> string \<Rightarrow> (string, pyval) dict \<Rightarrow> bool \<Rightarrow> answer action" where
  "fs_setstat local_fs path attrs follow =
     abind (contained path) (\<lambda>p. delegated local_fs (Fs_setstat p (without_ownership attrs) follow))"

definition fs_exists :: "fs_supplier \<Rightarrow> string \<Rightarrow> answer action" where
  "fs_exists local_fs path = abind (contained path) (\<lambda>p. delegated local_fs (Fs_exists p))"

definition fs_isdir :: "fs_supplier \<Rightarrow> string \<Rightarrow> answer action" where
  "fs_isdir local_fs path = abind (contained path) (\<lambda>p. delegated local_fs (Fs_isdir p))"

definition fs_scandir :: "fs_supplier \<Rightarrow> string \<Rightarrow> answer action" where
  "fs_scandir local_fs path = abind (contained path) (\<lambda>p. delegated local_fs (Fs_scandir p))"

definition fs_mkdir :: "fs_supplier \<Rightarrow> string \<Rightarrow> answer action" where
  "fs_mkdir local_fs path = abind (contained path) (\<lambda>target.
     acatch (delegated local_fs (Fs_mkdir target)) (\<lambda>e. case e of
       Plain (Os_error n) \<Rightarrow> on_os (sbind (classify_mkdir_refusal target n) sraise)
     | _ \<Rightarrow> araise e))"

definition fs_readlink :: "fs_supplier \<Rightarrow> string \<Rightarrow> answer action" where
  "fs_readlink local_fs path = abind (contained path) (\<lambda>p. delegated local_fs (Fs_readlink p))"

definition fs_symlink :: "string \<Rightarrow> string \<Rightarrow> answer action" where
  "fs_symlink oldpath newpath = araise (Plain escape)"

definition fs_open :: "fs_supplier \<Rightarrow> string \<Rightarrow> string \<Rightarrow> answer action" where
  "fs_open local_fs path mode = abind (contained path) (\<lambda>target. abind the_transfer (\<lambda>t.
     abind (on_os (to_thread (open_guarded target mode (tr_overwrite t)))) (\<lambda>handle.
     abind (if writes mode then delegated local_fs (Fs_sparse handle) else areturn Done) (\<lambda>_.
     areturn (File \<lparr>lf_handle = handle, lf_path = target\<rparr>)))))"

definition file_discard :: "fs_supplier \<Rightarrow> local_file \<Rightarrow> unit action" where
  "file_discard local_fs f =
     abind (acatch (delegated local_fs (Fs_close f)) (\<lambda>e. if is_exception e then areturn Done else araise e))
       (\<lambda>_. on_os (unlink_path (lf_path f)))"

definition file_write :: "fs_supplier \<Rightarrow> local_file \<Rightarrow> string \<Rightarrow> int \<Rightarrow> answer action" where
  "file_write local_fs f data offset =
     acatch (abind (charge (length data)) (\<lambda>_. delegated local_fs (Fs_write f data offset))) (\<lambda>e. case e of
       Plain (Os_error n) \<Rightarrow> abind (file_discard local_fs f)
         (\<lambda>_. on_os (sbind (classify_refusal (path_str (lf_path f)) n) sraise))
     | _ \<Rightarrow> abind (file_discard local_fs f) (\<lambda>_. araise e))"

definition file_close :: "fs_supplier \<Rightarrow> local_file \<Rightarrow> answer action" where
  "file_close local_fs f =
     acatch (delegated local_fs (Fs_close f)) (\<lambda>e. case e of
       Plain (Os_error n) \<Rightarrow> abind (on_os (unlink_path (lf_path f)))
         (\<lambda>_. on_os (sbind (classify_refusal (path_str (lf_path f)) n) sraise))
     | _ \<Rightarrow> araise e)"

fun perform_fs :: "fs_supplier \<Rightarrow> string fs_request \<Rightarrow> answer action" where
  "perform_fs local_fs (Fs_stat path follow) = fs_stat local_fs path follow"
| "perform_fs local_fs (Fs_setstat path attrs follow) = fs_setstat local_fs path attrs follow"
| "perform_fs local_fs (Fs_exists path) = fs_exists local_fs path"
| "perform_fs local_fs (Fs_isdir path) = fs_isdir local_fs path"
| "perform_fs local_fs (Fs_scandir path) = fs_scandir local_fs path"
| "perform_fs local_fs (Fs_mkdir path) = fs_mkdir local_fs path"
| "perform_fs local_fs (Fs_readlink path) = fs_readlink local_fs path"
| "perform_fs local_fs (Fs_symlink oldpath newpath) = fs_symlink oldpath newpath"
| "perform_fs local_fs (Fs_open path mode) = fs_open local_fs path mode"
| "perform_fs local_fs (Fs_sparse handle) = delegated local_fs (Fs_sparse handle)"
| "perform_fs local_fs (Fs_write f data offset) = file_write local_fs f data offset"
| "perform_fs local_fs (Fs_close f) = file_close local_fs f"

section \<open>Handing the transfer over\<close>

definition local_base :: "string list \<Rightarrow> string \<Rightarrow> ppath" where
  "local_base cwd path = absolute cwd (pure_path path)"

definition local_operand :: "string list \<Rightarrow> string \<Rightarrow> string" where
  "local_operand cwd path = path_str (local_base cwd path)"

definition GLOB_EXPANDING :: "(string, bool) dict" where
  "GLOB_EXPANDING = [(''get'', False), (''mget'', True)]"

definition COPY_OPTIONS :: "string list" where
  "COPY_OPTIONS = [''preserve'', ''recurse'', ''follow_symlinks'', ''sparse'', ''block_size'',
     ''max_requests'', ''progress_handler'', ''error_handler'']"

text \<open>
  \<open>inspect.signature(SFTPClient.get).bind\<close> with its defaults applied: the keyword parameters of the
  method, with their defaults, are an argument.
\<close>

definition bind_options ::
  "(string, pyval) dict \<Rightarrow> (string, pyval) dict \<Rightarrow> fail + (string, pyval) dict" where
  "bind_options defaults options =
     (if list_all (\<lambda>n. n \<in> set (map fst defaults)) (map fst options)
      then Inr (map (\<lambda>(n, v). (n, case map_of options n of Some u \<Rightarrow> u | None \<Rightarrow> v)) defaults)
      else Inl (Foreign ''TypeError''))"

fun collect_options :: "(string, pyval) dict \<Rightarrow> string list \<Rightarrow> fail + pyval list" where
  "collect_options settled [] = Inr []"
| "collect_options settled (n # ns) = (case map_of settled n of
     None \<Rightarrow> Inl (Foreign ''KeyError'')
   | Some v \<Rightarrow> rbind (collect_options settled ns) (\<lambda>vs. Inr (v # vs)))"

text \<open>The call of \<open>_begin_copy\<close>.\<close>

record copy_call =
  cc_local_fs :: transfer
  cc_remote :: pyval
  cc_local :: string
  cc_mode :: string
  cc_glob :: bool
  cc_options :: "pyval list"

definition contained_download ::
  "(string, pyval) dict \<Rightarrow> bool \<Rightarrow> string \<Rightarrow> pyval \<Rightarrow> string \<Rightarrow> ppath \<Rightarrow> bool \<Rightarrow> transfer_budget option
    \<Rightarrow> (string, pyval) dict \<Rightarrow> fail + copy_call" where
  "contained_download defaults has_begin_copy mode remote_paths local_path base overwrite budget options =
     rbind (bind_options defaults options) (\<lambda>settled.
     rbind (ensure has_begin_copy escape) (\<lambda>_.
     rbind (case map_of GLOB_EXPANDING mode of
         None \<Rightarrow> Inl (Foreign ''KeyError'') | Some g \<Rightarrow> Inr g) (\<lambda>glob.
     rbind (collect_options settled COPY_OPTIONS) (\<lambda>args.
     Inr \<lparr>cc_local_fs = contained_path_io base overwrite budget, cc_remote = remote_paths,
          cc_local = local_path, cc_mode = mode, cc_glob = glob, cc_options = args\<rparr>))))"

end
