(* ===== verification/Ftp.thy ===== *)
theory Ftp
  imports Scripts Contained
begin

text \<open>
  \<open>logic/ftp_client.py\<close>: the constructor, the choice of the TLS context, the session in its two
  forms (the one \<open>aioftp\<close> opens and the one that is upgraded before the login), the command under
  the breaker, and the classification of what fails. A session is a script: each call on \<open>aioftp\<close>
  is logged and its outcome is an argument.
\<close>

section \<open>Constants\<close>

definition DEFAULT_FTP_PORT :: int where
  "DEFAULT_FTP_PORT = 21"

definition FTP_SUCCESS_STATUS :: int where
  "FTP_SUCCESS_STATUS = 200"

definition TLS_MODES :: "string list" where
  "TLS_MODES = [''implicit'', ''explicit'']"

definition REMOVING_COMMANDS :: "string list" where
  "REMOVING_COMMANDS = [''remove'', ''remove_file'', ''remove_directory'']"

definition FTP_COMMANDS :: "string list" where
  "FTP_COMMANDS = [''download'', ''upload''] @ REMOVING_COMMANDS"

definition LOCAL_IS_SOURCE :: "(string, bool) dict" where
  "LOCAL_IS_SOURCE = [(''download'', False), (''upload'', True)]"

definition FTP_ACCEPTED_INFO_KEYS :: "string list" where
  "FTP_ACCEPTED_INFO_KEYS = COMMON_PROTOCOL_INFO_KEYS @
     [''client_path'', ''command'', ''max_response_bytes'', ''overwrite'', ''server_path'', ''tls_mode'',
      ''verify_ssl'']"

definition FTP_TRANSPORT_ERRORS :: "(exc_class \<times> exc_class) list" where
  "FTP_TRANSPORT_ERRORS =
    [(Ext ''asyncio.TimeoutError'', GatewayTimeoutError), (Ext ''TimeoutError'', GatewayTimeoutError),
     (Ext ''ssl.SSLError'', TlsError), (Ext ''socket.gaierror'', DnsError),
     (Ext ''ConnectionError'', ConnectError), (Ext ''OSError'', LocalWriteError)]"

abbreviation "AIOFTPException \<equiv> Ext ''aioftp.AIOFTPException''"

definition FTP_TRANSPORT_FAULTS :: "exc_class list" where
  "FTP_TRANSPORT_FAULTS = faults_of FTP_TRANSPORT_ERRORS @ [AIOFTPException]"

section \<open>The constructor\<close>

record ftp_request =
  fr_base :: base_request
  fr_port :: pyval
  fr_user :: string
  fr_password :: string
  fr_command :: pyval
  fr_server_path :: pyval
  fr_client_path :: pyval
  fr_overwrite :: bool
  fr_cap :: int
  fr_verify_ssl :: pyval
  fr_tls_mode :: "string option"
  fr_effective_tls_mode :: string

definition validated_tls_mode :: "pyval \<Rightarrow> exn + string option" where
  "validated_tls_mode info = (case dget info ''tls_mode'' of
     None \<Rightarrow> Inr None
   | Some (PStr m) \<Rightarrow> if m \<in> set TLS_MODES then Inr (Some m) else Inl config_error
   | Some _ \<Rightarrow> Inl config_error)"

definition ftp_request_of :: "(pyval \<Rightarrow> string \<Rightarrow> pyval) \<Rightarrow> base_request \<Rightarrow> exn + ftp_request" where
  "ftp_request_of attr b =
     (let info = br_info b; verify_ssl = dget_or info ''verify_ssl'' (PBool True) in
      rbind (credentials_of attr (br_auth b)) (\<lambda>(user, password).
      rbind (validated_max_response_bytes (dget_or info ''max_response_bytes'' (PInt MAX_RESPONSE_BYTES))) (\<lambda>cap.
      rbind (validated_tls_mode info) (\<lambda>tls_mode.
      rbind (ensure (tls_mode = None \<or> verify_ssl = PBool True) config_error) (\<lambda>_.
      rbind (ensure (tls_mode \<noteq> Some ''explicit'' \<or> br_certificate b = PNone) config_error) (\<lambda>_.
      Inr \<lparr>fr_base = b, fr_port = dget_or info ''port'' (PInt DEFAULT_FTP_PORT), fr_user = user,
           fr_password = password, fr_command = dget_or info ''command'' PNone,
           fr_server_path = dget_or info ''server_path'' PNone,
           fr_client_path = dget_or info ''client_path'' PNone,
           fr_overwrite = (dget_or info ''overwrite'' PNone = PBool True), fr_cap = cap,
           fr_verify_ssl = verify_ssl, fr_tls_mode = tls_mode,
           fr_effective_tls_mode = (case tls_mode of Some m \<Rightarrow> m
             | None \<Rightarrow> if py_truth verify_ssl then ''implicit'' else ''plaintext'')\<rparr>))))))"

definition new_ftp_request ::
  "(string \<Rightarrow> bool) \<Rightarrow> (pyval \<Rightarrow> string \<Rightarrow> pyval) \<Rightarrow> rat \<Rightarrow> pyval \<Rightarrow> pyval \<Rightarrow> string \<Rightarrow> pyval \<Rightarrow> envelope \<Rightarrow> pyval
    \<Rightarrow> string list \<Rightarrow> registry \<Rightarrow> (exn + ftp_request) \<times> registry" where
  "new_ftp_request ip6 attr now clock sleep url auth response info redact_params reg =
     (let (b, reg') = new_request ip6 now clock sleep url auth response info redact_params reg
      in (rbind b (ftp_request_of attr), reg'))"

section \<open>The peer\<close>

text \<open>The path layer \<open>aioftp\<close> is given: its own, or the contained one.\<close>

datatype path_layer = Plain_path_io | Contained_path_io transfer

datatype ftp_event =
    Opened_context "tls_context option" string pyval string string path_layer
  | New_client path_layer
  | Connected string pyval
  | Upgraded tls_context
  | Logged_in string string
  | Ran string "pyval list" bool
  | Stated string
  | Closed
  | Quitted

text \<open>
  How each call ends: reading the system's certificates, loading the caller's own, entering a
  session of \<open>aioftp\<close>, each step of an explicit one, the attempts of the command, \<open>STAT\<close>, and \<open>QUIT\<close>.
  \<open>fp_cancelling\<close> is what the task says of itself, where the interpreter has it; \<open>fp_codes\<close> are the
  reply codes a \<open>StatusCodeError\<close> carries.
\<close>

record ftp_peer =
  fp_failsafe :: failsafe
  fp_hierarchy :: hierarchy
  fp_texts :: "exn \<Rightarrow> string"
  fp_load :: "string \<Rightarrow> string \<Rightarrow> load_outcome"
  fp_bundle :: "exc_obj option"
  fp_default_context :: "exc_obj + tls_context"
  fp_enter :: "exc_obj option"
  fp_connect :: "exc_obj option"
  fp_upgrade :: "exc_obj option"
  fp_login :: "exc_obj option"
  fp_offers :: "string \<Rightarrow> bool"
  fp_turns :: "unit turn list"
  fp_stat :: "exc_obj + pyval"
  fp_quit :: "exc_obj option"
  fp_codes :: "exc_obj \<Rightarrow> string list"
  fp_cancelling :: "bool option"
  fp_cwd :: "string list"

abbreviation fp_object :: "ftp_peer \<Rightarrow> exn \<Rightarrow> exc_obj" where
  "fp_object p \<equiv> object_of (fp_hierarchy p) (fp_texts p)"

section \<open>TLS\<close>

text \<open>
  \<open>tls_context_for\<close>. A context the library loaded for the caller verifies its peer
  (\<open>verify_mode\<close> is \<open>CERT_NONE\<close> exactly when it does not require a certificate).
\<close>

definition tls_context_for :: "exc_obj + tls_context \<Rightarrow> ssl_setting \<Rightarrow> (exc_obj + exn) + tls_context" where
  "tls_context_for default_context setting = (case setting of
     ClientContext c \<Rightarrow> if \<not> cert_required c then Inl (Inr (Exn TlsError None)) else Inr c
   | _ \<Rightarrow> (case default_context of Inl e \<Rightarrow> Inl (Inl e) | Inr c \<Rightarrow> Inr c))"

text \<open>
  \<open>_tls_value\<close>: what \<open>get_ssl_config\<close> decides (it reads the system's certificates for a client context,
  and an \<open>OSError\<close> of that is a TLS failure), then the context of the session. \<open>None\<close> stands for
  \<open>False\<close>, a session in the clear.
\<close>

definition ssl_config_for :: "ftp_peer \<Rightarrow> ftp_request \<Rightarrow> (ftp_event, ssl_setting) script" where
  "ssl_config_for p q =
     (let certificate = br_certificate (fr_base q) in
      sc_catch
        (sc_bind (if py_truth certificate \<and> is_ok (normalised_certificate certificate)
             then sc_outcome (raised (fp_bundle p)) else sc_return ()) (\<lambda>_.
         sc_lift (fp_object p) (get_ssl_config (fp_load p) certificate (PBool True))))
        (\<lambda>i r. if is_instance (sc_mro i r) [Ext ''OSError'']
           then sc_raise_from TlsError (''ftp tls configuration failed for '' @
             redact_url (br_url (fr_base q)) (br_redact (fr_base q))) None i r
           else sc_raise i r))"

definition tls_value :: "ftp_peer \<Rightarrow> ftp_request \<Rightarrow> (ftp_event, tls_context option) script" where
  "tls_value p q =
     (if \<not> py_truth (fr_verify_ssl q) then sc_return None
      else sc_bind (ssl_config_for p q) (\<lambda>setting.
        case tls_context_for (fp_default_context p) setting of
           Inr c \<Rightarrow> sc_return (Some c)
         | Inl (Inl e) \<Rightarrow> sc_throw e
         | Inl (Inr e) \<Rightarrow> sc_throw (fp_object p e)))"

section \<open>The session\<close>

definition path_io_factory :: "ftp_peer \<Rightarrow> ftp_request \<Rightarrow> path_layer" where
  "path_io_factory p q = (case fr_client_path q of
     PStr path \<Rightarrow> if path = [] then Plain_path_io
       else Contained_path_io (contained_path_io (local_base (fp_cwd p) path) (fr_overwrite q)
         (Some \<lparr>bu_limit = fr_cap q, bu_written = 0\<rparr>))
   | _ \<Rightarrow> Plain_path_io)"

definition explicit_ftps_context ::
  "ftp_peer \<Rightarrow> ftp_request \<Rightarrow> tls_context \<Rightarrow> path_layer \<Rightarrow> (ftp_event, 'a) script \<Rightarrow> (ftp_event, 'a) script" where
  "explicit_ftps_context p q tls layer body =
     sc_bind (sc_say (New_client layer)) (\<lambda>_.
     sc_bind (sc_catch
       (sc_bind (sc_await (Connected (br_url (fr_base q)) (fr_port q)) (raised (fp_connect p))) (\<lambda>_.
        sc_bind (sc_await (Upgraded tls) (raised (fp_upgrade p))) (\<lambda>_.
        sc_await (Logged_in (fr_user q) (fr_password q)) (raised (fp_login p)))))
       (\<lambda>i. sc_bind (sc_say Closed) (\<lambda>_. sc_raise i))) (\<lambda>_.
     sc_finally body (sc_await Quitted (raised (fp_quit p)))))"

text \<open>\<open>aioftp.Client.context\<close>: it connects and logs in, and sends \<open>QUIT\<close> at the end.\<close>

definition library_context ::
  "ftp_peer \<Rightarrow> ftp_request \<Rightarrow> tls_context option \<Rightarrow> path_layer \<Rightarrow> (ftp_event, 'a) script \<Rightarrow> (ftp_event, 'a) script" where
  "library_context p q tls layer body =
     sc_bind (sc_await (Opened_context tls (br_url (fr_base q)) (fr_port q) (fr_user q) (fr_password q) layer)
       (raised (fp_enter p))) (\<lambda>_.
     sc_finally body (sc_await Quitted (raised (fp_quit p))))"

definition operands :: "string list \<Rightarrow> ftp_request \<Rightarrow> string \<Rightarrow> pyval \<times> pyval" where
  "operands cwd q command =
     (let local = (case fr_client_path q of PStr path \<Rightarrow> PStr (local_operand cwd path) | _ \<Rightarrow> PNone) in
      if map_of LOCAL_IS_SOURCE command = Some True then (local, fr_server_path q)
      else (fr_server_path q, local))"

definition command_name :: "pyval \<Rightarrow> string" where
  "command_name v = (case v of PStr s \<Rightarrow> str_lower (str_strip s) | _ \<Rightarrow> [])"

definition path_name_of :: "pyval \<Rightarrow> string" where
  "path_name_of v = (case v of PStr s \<Rightarrow> s | _ \<Rightarrow> [])"

definition run_command :: "ftp_peer \<Rightarrow> ftp_request \<Rightarrow> (ftp_event, pyval) script" where
  "run_command p q =
     sc_bind (sc_lift (fp_object p) (resolve_verb (fp_offers p) (fr_command q) FTP_COMMANDS)) (\<lambda>operation.
     let command = command_name (fr_command q) in
     sc_bind (sc_under_breaker (fp_failsafe p)
       (if py_truth (fr_client_path q) then
          (let (source, destination) = operands (fp_cwd p) q command in Ran operation [source, destination] True)
        else Ran operation [fr_server_path q] False) (fp_turns p)) (\<lambda>_.
     if command \<in> set REMOVING_COMMANDS then sc_return PNone
     else sc_await (Stated (path_name_of (fr_server_path q))) (fp_stat p)))"

definition ftp_session :: "ftp_peer \<Rightarrow> ftp_request \<Rightarrow> (ftp_event, pyval) script" where
  "ftp_session p q =
     sc_bind (tls_value p q) (\<lambda>tls.
     let layer = path_io_factory p q in
     if fr_tls_mode q = Some ''explicit'' then
       (case tls of
          None \<Rightarrow> sc_throw (fp_object p (Exn TlsError None))
        | Some c \<Rightarrow> explicit_ftps_context p q c layer (run_command p q))
     else library_context p q tls layer (run_command p q))"

section \<open>Failures\<close>

text \<open>A digit of Latin-1 that is no decimal one makes \<open>int\<close> raise.\<close>

fun reply_status :: "string list \<Rightarrow> exn + int option" where
  "reply_status [] = Inr None"
| "reply_status (text # codes) =
     (if text \<noteq> [] \<and> list_all is_unicode_digit text then
        (case int_of_text text of Some n \<Rightarrow> Inr (Some n) | None \<Rightarrow> raise_as (Ext ''ValueError''))
      else reply_status codes)"

definition being_cancelled :: "bool option \<Rightarrow> (nat \<Rightarrow> exc_obj) \<Rightarrow> nat \<Rightarrow> bool" where
  "being_cancelled cancelling heap err = (case cancelling of
     Some c \<Rightarrow> c
   | None \<Rightarrow> (case ex_context (heap err) of
       None \<Rightarrow> False | Some i \<Rightarrow> is_instance (ex_mro (heap i)) [Ext ''asyncio.CancelledError'']))"

definition raise_transport_error :: "ftp_peer \<Rightarrow> string list \<Rightarrow> nat \<Rightarrow> (ftp_event, 'a) script" where
  "raise_transport_error p redact_params err = (\<lambda>r.
     let message = message_of redact_params err r in
     case cause_of err r of
       None \<Rightarrow> sc_raise_from TransportError message None err r
     | Some c \<Rightarrow>
         if is_instance (sc_mro c r) [Ext ''aioftp.StatusCodeError''] then
           (case reply_status (fp_codes p (xs_heap (ru_store r) c)) of
              Inl e \<Rightarrow> sc_throw ((fp_object p e)\<lparr>ex_context := Some err\<rparr>) r
            | Inr status \<Rightarrow> sc_raise_from FtpStatusError message status err r)
         else if is_instance (sc_mro c r) [Ext ''aioftp.errors.InvalidCommand'']
         then sc_raise_from ConfigurationError message None err r
         else raise_by_family FTP_TRANSPORT_ERRORS AIOFTPException message c err r)"

section \<open>The request\<close>

definition validate_ftp_request :: "ftp_request \<Rightarrow> exn + string" where
  "validate_ftp_request q =
     rbind (ensure (is_str (fr_server_path q) \<and> py_truth (fr_server_path q)) config_error) (\<lambda>_.
     rbind (ensure (fr_client_path q = PNone \<or> is_str (fr_client_path q) \<and> py_truth (fr_client_path q))
       config_error) (\<lambda>_.
     validated_verb (fr_command q) FTP_COMMANDS))"

definition str_or_none :: "string option \<Rightarrow> pyval" where
  "str_or_none x = (case x of None \<Rightarrow> PNone | Some s \<Rightarrow> PStr s)"

definition ftp_details :: "ftp_request \<Rightarrow> pyval \<Rightarrow> (string, pyval) dict" where
  "ftp_details q file_stats =
     [(''command'', fr_command q), (''server_path'', fr_server_path q), (''client_path'', fr_client_path q),
      (''file_stats'', file_stats), (''tls_mode'', PStr (fr_effective_tls_mode q))]"

definition ftp_exchange :: "ftp_peer \<Rightarrow> ftp_request \<Rightarrow> (ftp_event, pyval) script" where
  "ftp_exchange p q =
     (let url = br_url (fr_base q); params = br_redact (fr_base q) in
      sc_bind (sc_lift (fp_object p) (validate_ftp_request q)) (\<lambda>_.
      sc_catch (ftp_session p q) (\<lambda>err r.
        let mro = sc_mro err r in
        if is_instance mro [CircuitOpen]
        then sc_raise_from CircuitOpenError (''circuit open for '' @ redact_url url params) None err r
        else if is_instance mro (FailsafeError # FTP_TRANSPORT_FAULTS) then
          (if being_cancelled (fp_cancelling p) (xs_heap (ru_store r)) err
           then sc_throw ((fp_object p (Exn (Ext ''asyncio.CancelledError'') None))
             \<lparr>ex_cause := Some err, ex_context := Some err\<rparr>) r
           else raise_transport_error p params err r)
        else sc_raise err r)))"

definition ftp_answer :: "(pyval \<Rightarrow> string) \<Rightarrow> rat \<Rightarrow> ftp_request \<Rightarrow> pyval \<Rightarrow> envelope \<Rightarrow> envelope" where
  "ftp_answer str_of now q file_stats env =
     finalise_ok str_of now FTP_SUCCESS_STATUS (br_start (fr_base q))
       (env\<lparr>env_details := ftp_details q file_stats\<rparr>)"

definition handle_ftp_request ::
  "ftp_peer \<Rightarrow> (pyval \<Rightarrow> string) \<Rightarrow> rat \<Rightarrow> ftp_request \<Rightarrow> breaker \<Rightarrow> envelope \<Rightarrow> exc_store
    \<Rightarrow> (exchanged \<times> ftp_event list) option" where
  "handle_ftp_request p str_of now q = concluded (ftp_exchange p q) (ftp_answer str_of now q)"

end
