(* ===== verification/S3.thy ===== *)
theory S3
  imports Services Ftp
begin

text \<open>
  \<open>logic/s3_client.py\<close>: the options of each operation, the target, the redactor of known secrets, the
  attempt and what the run under the breaker makes of its failures, the lifecycle of the SDK's
  client, the validation of a success, and the redaction of everything that is shown. What
  \<open>aioboto3\<close> does is an argument; the calls on it are logged, and so are the writes to the envelope.
\<close>

section \<open>Constants\<close>

definition S3_COMMANDS :: "string list" where
  "S3_COMMANDS = [''download'', ''upload'', ''head'', ''list'']"

definition S3_RETRYABLE_STATUSES :: "int list" where
  "S3_RETRYABLE_STATUSES = [408, 429, 500, 502, 503, 504]"

definition S3_RETRYABLE_CODES :: "string list" where
  "S3_RETRYABLE_CODES = [''RequestTimeout'', ''RequestTimeoutException'', ''Throttling'', ''ThrottlingException'',
     ''SlowDown'', ''InternalError'', ''ServiceUnavailable'']"

definition S3_BASE_INFO_KEYS :: "string list" where
  "S3_BASE_INFO_KEYS = [''command'', ''region'', ''circuit_breaker_config'', ''redact_query_params'']"

definition S3_OPERATION_INFO_KEYS :: "(string, string list) dict" where
  "S3_OPERATION_INFO_KEYS =
    [(''download'', S3_BASE_INFO_KEYS @ [''local_path'', ''max_response_bytes'']),
     (''upload'', S3_BASE_INFO_KEYS @ [''local_path'', ''max_upload_bytes'']),
     (''head'', S3_BASE_INFO_KEYS),
     (''list'', S3_BASE_INFO_KEYS @ [''max_items'', ''continuation_token''])]"

definition S3_ALLOWED_INFO_KEYS :: "string list" where
  "S3_ALLOWED_INFO_KEYS = concat (map snd S3_OPERATION_INFO_KEYS)"

abbreviation "ClientError \<equiv> Ext ''botocore.ClientError''"

definition CREDENTIAL_FAILURES :: "exc_class list" where
  "CREDENTIAL_FAILURES = [Ext ''botocore.NoCredentialsError'', Ext ''botocore.PartialCredentialsError'']"

definition SDK_TRANSPORT_FAILURES :: "exc_class list" where
  "SDK_TRANSPORT_FAILURES =
    [Ext ''botocore.ConnectTimeoutError'', Ext ''botocore.ReadTimeoutError'', Ext ''botocore.SSLError'',
     Ext ''botocore.EndpointConnectionError'', Ext ''botocore.ConnectionClosedError'',
     Ext ''botocore.HTTPClientError'', Ext ''botocore.BotoCoreError'', Ext ''socket.gaierror'',
     Ext ''asyncio.TimeoutError'', Ext ''TimeoutError'', Ext ''ssl.SSLError'', Ext ''OSError'']"

section \<open>Options\<close>

definition nonempty_string :: "pyval \<Rightarrow> exn + pyval" where
  "nonempty_string v = (case v of
     PStr s \<Rightarrow> if str_strip s = [] then Inl config_error else Inr v
   | _ \<Rightarrow> Inl config_error)"

definition positive_int :: "pyval \<Rightarrow> exn + pyval" where
  "positive_int v = (case v of PInt n \<Rightarrow> if n \<le> 0 then Inl config_error else Inr v | _ \<Rightarrow> Inl config_error)"

definition max_items :: "pyval \<Rightarrow> exn + pyval" where
  "max_items v = rbind (positive_int v) (\<lambda>m. case m of
     PInt n \<Rightarrow> if n > 1000 then Inl config_error else Inr m | _ \<Rightarrow> Inl config_error)"

text \<open>\<open>validated[k] = f(validated.get(k, ...))\<close>.\<close>

definition checked_entry :: "(pyval \<Rightarrow> exn + pyval) \<Rightarrow> string \<Rightarrow> pyval \<Rightarrow> pyval \<Rightarrow> exn + pyval" where
  "checked_entry check k dflt info = rbind (check (dget_or info k dflt)) (\<lambda>v. Inr (info_set info k v))"

definition checked_if_given :: "(pyval \<Rightarrow> exn + pyval) \<Rightarrow> string \<Rightarrow> pyval \<Rightarrow> exn + pyval" where
  "checked_if_given check k info = (if dhas info k then checked_entry check k PNone info else Inr info)"

definition s3_command_of :: "pyval \<Rightarrow> exn + string" where
  "s3_command_of v = (case v of
     PStr s \<Rightarrow> if str_lower (str_strip s) \<in> set S3_COMMANDS then Inr (str_lower (str_strip s)) else Inl config_error
   | _ \<Rightarrow> Inl config_error)"

definition s3_options :: "string \<Rightarrow> pyval \<Rightarrow> exn + pyval" where
  "s3_options command info =
     rbind (ensure (set (str_keys (entries info)) \<subseteq> set (dict_get_or S3_OPERATION_INFO_KEYS command [])) config_error) (\<lambda>_.
     rbind (checked_if_given nonempty_string ''region'' info) (\<lambda>info.
     rbind (if command \<in> {''download'', ''upload''} then
              rbind (ensure (dhas info ''local_path'') config_error) (\<lambda>_.
              checked_entry nonempty_string ''local_path'' PNone info)
            else Inr info) (\<lambda>info.
     rbind (if command = ''download''
            then checked_entry positive_int ''max_response_bytes'' (PInt MAX_RESPONSE_BYTES) info else Inr info) (\<lambda>info.
     rbind (if command = ''upload''
            then checked_entry positive_int ''max_upload_bytes'' (PInt MAX_RESPONSE_BYTES) info else Inr info) (\<lambda>info.
     if command = ''list'' then
       rbind (checked_entry max_items ''max_items'' (PInt 1000) info)
         (checked_if_given nonempty_string ''continuation_token'')
     else Inr info)))))"

definition validated_s3_info :: "pyval \<Rightarrow> exn + (pyval \<times> bool)" where
  "validated_s3_info info =
     rbind (validated_protocol_info info [''command''] (Some S3_ALLOWED_INFO_KEYS) (Some S3_ALLOWED_INFO_KEYS))
       (\<lambda>(info, warned).
     rbind (s3_command_of (dget_or info ''command'' PNone)) (\<lambda>command.
     rbind (s3_options command (info_set info ''command'' (PStr command))) (\<lambda>info. Inr (info, warned))))"

text \<open>
  \<open>_s3_target\<close>: bucket and key. User information needs an at sign and a port a colon, so the tests on
  the network location cover those on its parts.
\<close>

definition s3_target :: "(string \<Rightarrow> bool) \<Rightarrow> string \<Rightarrow> exn + (string \<times> string)" where
  "s3_target ip6 url =
     (if CHR ''?'' \<in> set url \<or> CHR ''#'' \<in> set url then Inl config_error
      else (case rbind (urlsplit ip6 [] url) (\<lambda>parts. rbind (su_port parts) (\<lambda>port. Inr (parts, port))) of
         Inl e \<Rightarrow> Inl (if exn_class e = Ext ''ValueError'' then config_error else e)
       | Inr (parts, port) \<Rightarrow>
           rbind (ensure (str_lower (su_scheme parts) = ''s3'') config_error) (\<lambda>_.
           rbind (ensure (su_netloc parts \<noteq> []) config_error) (\<lambda>_.
           rbind (ensure (port = None \<and> CHR ''@'' \<notin> set (su_netloc parts) \<and> CHR '':'' \<notin> set (su_netloc parts))
             config_error) (\<lambda>_.
           Inr (su_netloc parts,
             if take 1 (su_path parts) = ''/'' then drop 1 (su_path parts) else su_path parts))))))"

section \<open>The constructor\<close>

record s3_request =
  s3_base :: base_request
  s3_bucket :: string
  s3_key :: string
  s3_command :: string
  s3_region :: pyval
  s3_credentials :: "(string \<times> string) option"
  s3_local_path :: pyval
  s3_max_response :: pyval
  s3_max_upload :: pyval
  s3_max_items :: pyval
  s3_token :: pyval
  s3_secrets :: "string list"

definition s3_credentials_of :: "(pyval \<Rightarrow> string \<Rightarrow> pyval) \<Rightarrow> pyval \<Rightarrow> exn + (string \<times> string) option" where
  "s3_credentials_of attr auth =
     (if auth = PNone then Inr None
      else (case (auth_attr attr auth ''login'', auth_attr attr auth ''password'') of
         (PStr login, PStr password) \<Rightarrow>
           if str_strip login = [] \<or> str_strip password = [] then Inl config_error else Inr (Some (login, password))
       | _ \<Rightarrow> Inl config_error))"

definition s3_secrets_of :: "(string \<times> string) option \<Rightarrow> pyval \<Rightarrow> string list" where
  "s3_secrets_of credentials token =
     longest_first ((case credentials of None \<Rightarrow> [] | Some (l, p) \<Rightarrow> [l, p]) @
       (if token = PNone then [] else [str_of_val token]))"

definition s3_request_of ::
  "(string \<Rightarrow> bool) \<Rightarrow> (pyval \<Rightarrow> string \<Rightarrow> pyval) \<Rightarrow> base_request \<Rightarrow> exn + s3_request" where
  "s3_request_of ip6 attr b =
     (let info = br_info b; command = str_of_val (dget_or info ''command'' PNone);
          token = dget_or info ''continuation_token'' PNone in
      rbind (s3_target ip6 (br_url b)) (\<lambda>(bucket, key).
      rbind (s3_credentials_of attr (br_auth b)) (\<lambda>credentials.
      rbind (ensure (command = ''list'' \<or> key \<noteq> []) config_error) (\<lambda>_.
      Inr \<lparr>s3_base = b, s3_bucket = bucket, s3_key = key, s3_command = command,
           s3_region = dget_or info ''region'' PNone, s3_credentials = credentials,
           s3_local_path = dget_or info ''local_path'' PNone,
           s3_max_response = dget_or info ''max_response_bytes'' (PInt MAX_RESPONSE_BYTES),
           s3_max_upload = dget_or info ''max_upload_bytes'' (PInt MAX_RESPONSE_BYTES),
           s3_max_items = dget_or info ''max_items'' (PInt 1000), s3_token = token,
           s3_secrets = s3_secrets_of credentials token\<rparr>))))"

definition new_s3_request ::
  "(string \<Rightarrow> bool) \<Rightarrow> (pyval \<Rightarrow> string \<Rightarrow> pyval) \<Rightarrow> rat \<Rightarrow> pyval \<Rightarrow> pyval
    \<Rightarrow> string \<Rightarrow> pyval \<Rightarrow> envelope \<Rightarrow> pyval \<Rightarrow> string list \<Rightarrow> registry \<Rightarrow> (exn + s3_request) \<times> registry" where
  "new_s3_request ip6 attr now clock sleep url auth response info redact_params reg =
     (let (b, reg') = new_request ip6 now clock sleep url auth response info redact_params reg
      in (rbind b (s3_request_of ip6 attr), reg'))"

section \<open>The redactor\<close>

definition redactor_text :: "s3_request \<Rightarrow> string \<Rightarrow> string" where
  "redactor_text q s = hide_secrets (s3_secrets q) REDACTED (redact_text s (br_redact (s3_base q)))"

definition redacted_item :: "s3_request \<Rightarrow> pyval \<Rightarrow> pyval" where
  "redacted_item q v = (case v of PStr s \<Rightarrow> PStr (redactor_text q s) | _ \<Rightarrow> v)"

definition fixed_mapping_values :: "s3_request \<Rightarrow> ('k \<times> pyval) list \<Rightarrow> ('k \<times> pyval) list" where
  "fixed_mapping_values q d = map (\<lambda>(k, v). (k, redacted_item q v)) d"

definition dynamic_mapping :: "s3_request \<Rightarrow> (pyval, pyval) dict \<Rightarrow> (pyval, pyval) dict" where
  "dynamic_mapping q d =
     fold (\<lambda>(k, v) acc. dict_set acc (redacted_item q k) (redacted_item q v)) d []"

text \<open>\<open>exception\<close>: the message is redacted, and nothing is left of what led to the error.\<close>

definition redact_exception :: "s3_request \<Rightarrow> nat \<Rightarrow> exc_store \<Rightarrow> exc_store" where
  "redact_exception q i xs =
     (let e = xs_heap xs i; message = ex_text e in
      xs\<lparr>xs_heap := (xs_heap xs)(i := e\<lparr>ex_text := (if message = [] then [] else redactor_text q message),
        ex_cause := None, ex_context := None\<rparr>)\<rparr>)"

section \<open>Answers of the service\<close>

definition mapping_or_empty :: "pyval \<Rightarrow> pyval" where
  "mapping_or_empty v = (if is_mapping v then v else PDict [])"

definition service_components :: "pyval \<Rightarrow> int option \<times> string option" where
  "service_components response =
     (case dget_or (mapping_or_empty (dget_or response ''ResponseMetadata'' PNone)) ''HTTPStatusCode'' PNone of
        PInt n \<Rightarrow> Some n | _ \<Rightarrow> None,
      case dget_or (mapping_or_empty (dget_or response ''Error'' PNone)) ''Code'' PNone of
        PStr s \<Rightarrow> Some s | _ \<Rightarrow> None)"

definition is_retryable_service_response :: "pyval \<Rightarrow> bool" where
  "is_retryable_service_response response =
     (let (status, code) = service_components response in
      (\<exists>n \<in> set S3_RETRYABLE_STATUSES. status = Some n) \<or> (\<exists>c \<in> set S3_RETRYABLE_CODES. code = Some c))"

definition malformed_success :: "string \<Rightarrow> exc_obj" where
  "malformed_success reason =
     new_gateway_error S3StatusError (''malformed S3 success response: '' @ reason) (Some 502)"

text \<open>The validation of a success names its reason when it refuses.\<close>

definition success_status :: "pyval \<Rightarrow> string + int" where
  "success_status response = (case dget response ''ResponseMetadata'' of
     None \<Rightarrow> Inr 200
   | Some metadata \<Rightarrow>
       if \<not> is_mapping metadata then Inl ''ResponseMetadata is not a mapping''
       else (case dget_or metadata ''HTTPStatusCode'' PNone of
          PInt n \<Rightarrow> if 200 \<le> n \<and> n \<le> 299 then Inr n else Inl ''HTTPStatusCode is not a valid 2xx integer''
        | _ \<Rightarrow> Inl ''HTTPStatusCode is not a valid 2xx integer''))"

definition optional_string :: "string \<Rightarrow> pyval \<Rightarrow> string + pyval" where
  "optional_string field v =
     (if v = PNone \<or> is_str v then Inr v else Inl (field @ '' is not a string or null''))"

text \<open>
  What the client takes from outside. Of the SDK: opening a session, entering and leaving its client,
  the outcome of each attempt (the response, and for a download the bytes written, which
  \<open>stream_s3_download\<close> reports) and the response a \<open>ClientError\<close> carries. Of the standard library:
  \<open>isoformat\<close> of a value that is a \<open>datetime\<close>, and what \<open>fromisoformat\<close> accepts.
\<close>

record s3_peer =
  sx_failsafe :: failsafe
  sx_upload :: "exc_obj + string"
  sx_session :: "exc_obj option"
  sx_enter :: "exc_obj option"
  sx_turns :: "(pyval \<times> int) turn list"
  sx_response :: "exc_obj \<Rightarrow> pyval"
  sx_leave :: farewell
  sx_isoformat :: "pyval \<Rightarrow> string option"
  sx_iso_accepts :: "string \<Rightarrow> bool"

definition replace_char :: "char \<Rightarrow> string \<Rightarrow> string \<Rightarrow> string" where
  "replace_char c new s = concat (map (\<lambda>x. if x = c then new else [x]) s)"

definition optional_timestamp :: "s3_peer \<Rightarrow> string \<Rightarrow> pyval \<Rightarrow> string + pyval" where
  "optional_timestamp p field v =
     (if v = PNone then Inr PNone
      else (case sx_isoformat p v of
         Some s \<Rightarrow> Inr (PStr s)
       | None \<Rightarrow> (case v of
           PStr s \<Rightarrow> if sx_iso_accepts p (replace_char (CHR ''Z'') ''+00:00'' s) then Inr v
             else Inl (field @ '' is not an ISO-8601 timestamp'')
         | _ \<Rightarrow> Inl (field @ '' is not a timestamp or null''))))"

definition optional_size :: "string \<Rightarrow> pyval \<Rightarrow> string + pyval" where
  "optional_size field v = (case v of
     PNone \<Rightarrow> Inr PNone
   | PInt n \<Rightarrow> if n < 0 then Inl (field @ '' is not a non-negative integer or null'') else Inr v
   | _ \<Rightarrow> Inl (field @ '' is not a non-negative integer or null''))"

definition required_byte_count :: "int option \<Rightarrow> string + pyval" where
  "required_byte_count count = (case count of
     None \<Rightarrow> Inl ''transfer byte count is missing''
   | Some n \<Rightarrow> optional_size ''transfer byte count'' (PInt n))"

definition head_details :: "s3_peer \<Rightarrow> s3_request \<Rightarrow> pyval \<Rightarrow> string + (string, pyval) dict" where
  "head_details p q response =
     (let metadata = dget_or response ''Metadata'' (PDict []); field = (\<lambda>k. dget_or response k PNone) in
      rbind (ensure (is_mapping metadata \<and> list_all (\<lambda>(k, v). is_str k \<and> is_str v) (entries metadata))
        ''Metadata is not a string mapping'') (\<lambda>_.
      rbind (optional_size ''ContentLength'' (field ''ContentLength'')) (\<lambda>length.
      rbind (optional_string ''ContentType'' (field ''ContentType'')) (\<lambda>type.
      rbind (optional_string ''ETag'' (field ''ETag'')) (\<lambda>etag.
      rbind (optional_timestamp p ''LastModified'' (field ''LastModified'')) (\<lambda>modified.
      Inr [(''command'', PStr (s3_command q)), (''bucket'', PStr (s3_bucket q)), (''key'', PStr (s3_key q)),
           (''content_length'', length), (''content_type'', type), (''etag'', etag),
           (''last_modified'', modified), (''metadata'', PDict (entries metadata))]))))))"

definition list_item :: "s3_peer \<Rightarrow> pyval \<Rightarrow> string + pyval" where
  "list_item p v =
     (let field = (\<lambda>k. dget_or v k PNone) in
      rbind (ensure (is_mapping v) ''list item is not a mapping'') (\<lambda>_.
      rbind (ensure (is_str (field ''Key'') \<and> field ''Key'' \<noteq> PStr []) ''list item Key is not a non-empty string'') (\<lambda>_.
      rbind (optional_size ''list item Size'' (field ''Size'')) (\<lambda>length.
      rbind (ensure (length \<noteq> PNone) ''list item Size is missing'') (\<lambda>_.
      rbind (optional_string ''list item ETag'' (field ''ETag'')) (\<lambda>etag.
      rbind (optional_timestamp p ''list item LastModified'' (field ''LastModified'')) (\<lambda>modified.
      rbind (optional_string ''list item StorageClass'' (field ''StorageClass'')) (\<lambda>storage.
      Inr (PDict [(PStr ''key'', field ''Key''), (PStr ''size'', length), (PStr ''etag'', etag),
        (PStr ''last_modified'', modified), (PStr ''storage_class'', storage)])))))))))"

definition list_details :: "s3_peer \<Rightarrow> s3_request \<Rightarrow> pyval \<Rightarrow> string + (string, pyval) dict" where
  "list_details p q response =
     (case dget_or response ''Contents'' (PList []) of
        PList contents \<Rightarrow>
          rbind (rmap (list_item p) contents) (\<lambda>items.
          rbind (ensure (is_bool (dget_or response ''IsTruncated'' (PBool False))) ''IsTruncated is not a boolean'') (\<lambda>_.
          rbind (optional_string ''NextContinuationToken'' (dget_or response ''NextContinuationToken'' PNone)) (\<lambda>token.
          rbind (ensure (token \<noteq> PStr []) ''NextContinuationToken is empty'') (\<lambda>_.
          Inr [(''command'', PStr (s3_command q)), (''bucket'', PStr (s3_bucket q)), (''prefix'', PStr (s3_key q)),
               (''items'', PList items), (''key_count'', PInt (int (length items))),
               (''is_truncated'', dget_or response ''IsTruncated'' (PBool False)),
               (''next_continuation_token'', token)]))))
      | _ \<Rightarrow> Inl ''Contents is not a list'')"

definition success_details :: "s3_peer \<Rightarrow> s3_request \<Rightarrow> pyval \<Rightarrow> int option \<Rightarrow> string + (string, pyval) dict" where
  "success_details p q response byte_count =
     (if s3_command q \<in> {''download'', ''upload''} then
        rbind (required_byte_count byte_count) (\<lambda>count.
        rbind (optional_string ''ETag'' (dget_or response ''ETag'' PNone)) (\<lambda>etag.
        Inr [(''command'', PStr (s3_command q)), (''bucket'', PStr (s3_bucket q)), (''key'', PStr (s3_key q)),
             (''local_path'', s3_local_path q),
             (if s3_command q = ''download'' then ''bytes_written'' else ''bytes_read'', count), (''etag'', etag)]))
      else if s3_command q = ''head'' then head_details p q response
      else list_details p q response)"

section \<open>Failures\<close>

definition sdk_error_class :: "exc_class list \<Rightarrow> exc_class" where
  "sdk_error_class mro =
     (if is_instance mro [Ext ''socket.gaierror''] then DnsError
      else if is_instance mro [Ext ''botocore.ConnectTimeoutError'', Ext ''botocore.ReadTimeoutError'',
          Ext ''asyncio.TimeoutError'', Ext ''TimeoutError''] then GatewayTimeoutError
      else if is_instance mro [Ext ''botocore.SSLError'', Ext ''ssl.SSLError''] then TlsError
      else if is_instance mro [Ext ''botocore.EndpointConnectionError'', Ext ''botocore.ConnectionClosedError'',
          Ext ''ConnectionError'', Ext ''OSError''] then ConnectError
      else TransportError)"

definition sdk_transport_error :: "s3_request \<Rightarrow> exc_obj \<Rightarrow> exc_obj" where
  "sdk_transport_error q e =
     new_gateway_error (sdk_error_class (ex_mro e))
       (''S3 '' @ s3_command q @ '' transport failed for bucket '' @ py_repr (s3_bucket q)) None"

definition unresolved_credentials :: "s3_request \<Rightarrow> exc_obj" where
  "unresolved_credentials q =
     new_gateway_error ConfigurationError
       (''S3 credentials could not be resolved for bucket '' @ py_repr (s3_bucket q)) None"

abbreviation "RetryableS3ServiceError \<equiv> Ext ''s3_client._RetryableS3ServiceError''"
abbreviation "AbortableS3ServiceError \<equiv> Ext ''s3_client._AbortableS3ServiceError''"

section \<open>The attempt\<close>

datatype s3_call =
    Get_object string string pyval pyval
  | Put_object string string string
  | Head_object string string
  | List_objects "(string, pyval) dict"

definition list_arguments :: "s3_request \<Rightarrow> (string, pyval) dict" where
  "list_arguments q =
     [(''Bucket'', PStr (s3_bucket q)), (''Prefix'', PStr (s3_key q)), (''MaxKeys'', s3_max_items q)] @
     (if s3_token q = PNone then [] else [(''ContinuationToken'', s3_token q)])"

definition s3_call_of :: "s3_request \<Rightarrow> string \<Rightarrow> s3_call" where
  "s3_call_of q body =
     (if s3_command q = ''download'' then Get_object (s3_bucket q) (s3_key q) (s3_local_path q) (s3_max_response q)
      else if s3_command q = ''upload'' then Put_object (s3_bucket q) (s3_key q) body
      else if s3_command q = ''head'' then Head_object (s3_bucket q) (s3_key q)
      else List_objects (list_arguments q))"

definition s3_attempt ::
  "s3_peer \<Rightarrow> s3_request \<Rightarrow> string \<Rightarrow> (pyval \<times> int) outcome \<Rightarrow> (pyval \<times> int option) outcome" where
  "s3_attempt p q body answer = (case answer of
     Returns (response, written) \<Rightarrow>
       Returns (response,
         if s3_command q = ''download'' then Some written
         else if s3_command q = ''upload'' then Some (int (length body)) else None)
   | Raises e \<Rightarrow>
       if is_instance (ex_mro e) [ClientError] then
         (if \<not> is_mapping (sx_response p e) then Raises (malformed_success ''response is not a mapping'')
          else if is_retryable_service_response (sx_response p e)
          then Raises (private_error RetryableS3ServiceError AsyncGatewayError ''retryable S3 service response'')
          else Raises (private_error AbortableS3ServiceError AbortableServiceError ''abortable S3 service response''))
       else if is_instance (ex_mro e) CREDENTIAL_FAILURES then Raises (unresolved_credentials q)
       else if is_instance (ex_mro e) SDK_TRANSPORT_FAILURES then Raises (sdk_transport_error q e)
       else Raises e)"

datatype s3_event =
    Read_upload pyval pyval
  | Session_opened "(string, pyval) dict"
  | Client_entered
  | Attempted s3_call
  | Client_left
  | Detailed "(string, pyval) dict"

section \<open>The service's error\<close>

definition safe_text :: "s3_request \<Rightarrow> pyval \<Rightarrow> pyval" where
  "safe_text q v = (case v of PStr s \<Rightarrow> PStr (redactor_text q s) | _ \<Rightarrow> PNone)"

definition public_status :: "pyval \<Rightarrow> int option" where
  "public_status response = (case fst (service_components response) of
     Some n \<Rightarrow> if 100 \<le> n \<and> n \<le> 599 then Some n else None | None \<Rightarrow> None)"

definition service_details :: "s3_request \<Rightarrow> pyval \<Rightarrow> (string, pyval) dict" where
  "service_details q response =
     (let err = mapping_or_empty (dget_or response ''Error'' PNone);
          metadata = mapping_or_empty (dget_or response ''ResponseMetadata'' PNone);
          request_id = safe_text q (dget_or metadata ''RequestId'' PNone);
          retries = (case dget_or metadata ''RetryAttempts'' PNone of
            PInt n \<Rightarrow> if n < 0 then PNone else PInt n | _ \<Rightarrow> PNone)
      in [(''command'', PStr (s3_command q)), (''bucket'', PStr (s3_bucket q)),
          (if s3_command q = ''list'' then ''prefix'' else ''key'', PStr (s3_key q)),
          (''aws_error_code'', safe_text q (dget_or err ''Code'' PNone)),
          (''aws_error_message'', safe_text q (dget_or err ''Message'' PNone)),
          (''request_id'', request_id),
          (''response_metadata'', PDict
            [(PStr ''http_status_code'', int_or_none (public_status response)), (PStr ''request_id'', request_id),
             (PStr ''host_id'', safe_text q (dget_or metadata ''HostId'' PNone)),
             (PStr ''retry_attempts'', retries)])])"

definition service_message :: "s3_request \<Rightarrow> pyval \<Rightarrow> string" where
  "service_message q response =
     (let code = str_of_val (safe_text q (dget_or (mapping_or_empty (dget_or response ''Error'' PNone)) ''Code'' PNone))
      in ''S3 '' @ s3_command q @ '' failed for bucket '' @ py_repr (s3_bucket q) @ '' with AWS code '' @
         py_repr (if code = [] then ''Unknown'' else code))"

definition public_service_error :: "s3_request \<Rightarrow> pyval \<Rightarrow> nat \<Rightarrow> (s3_event, 'a) script" where
  "public_service_error q response err =
     sc_bind (sc_say (Detailed (service_details q response))) (\<lambda>_.
     sc_raise_from S3StatusError (service_message q response) (public_status response) err)"

section \<open>The run\<close>

text \<open>The response on the private exception of the last attempt.\<close>

definition sdk_response :: "s3_peer \<Rightarrow> (pyval \<times> int) turn option \<Rightarrow> pyval" where
  "sdk_response p attempt = (case attempt of
     Some t \<Rightarrow> (case t_outcome t of Raises e \<Rightarrow> sx_response p e | Returns _ \<Rightarrow> PNone) | None \<Rightarrow> PNone)"

definition raise_operation_error ::
  "s3_peer \<Rightarrow> s3_request \<Rightarrow> string \<Rightarrow> nat \<Rightarrow> (pyval \<times> int) turn option \<Rightarrow> (s3_event, 'a) script" where
  "raise_operation_error p q url err attempt = (\<lambda>r.
     let mro = sc_mro err r;
         failed = ''S3 '' @ s3_command q @ '' failed for bucket '' @ py_repr (s3_bucket q) in
     if is_instance mro [CircuitOpen] then sc_raise_from CircuitOpenError (''circuit open for '' @ url) None err r
     else if is_instance mro [AbortableS3ServiceError] then public_service_error q (sdk_response p attempt) err r
     else if is_instance mro [RetriesExhausted] then
       (case ex_cause (xs_heap (ru_store r) err) of
          None \<Rightarrow> sc_raise_from TransportError failed None err r
        | Some c \<Rightarrow>
            if is_instance (sc_mro c r) [RetryableS3ServiceError]
            then public_service_error q (sdk_response p attempt) c r
            else if is_instance (sc_mro c r) [AsyncGatewayError] then sc_raise_again c err r
            else sc_raise_from TransportError failed None err r)
     else sc_raise err r)"

definition s3_operation ::
  "s3_peer \<Rightarrow> s3_request \<Rightarrow> string \<Rightarrow> string \<Rightarrow> (s3_event, pyval \<times> int option) script" where
  "s3_operation p q url body =
     sc_bind (sc_attempts (sx_failsafe p) (Attempted (s3_call_of q body)) (s3_attempt p q body) (sx_turns p)) (\<lambda>x.
     case x of Inr y \<Rightarrow> sc_return y | Inl (err, attempt) \<Rightarrow> raise_operation_error p q url err attempt)"

definition suppressed_failure :: exc_obj where
  "suppressed_failure = \<lparr>ex_mro = [Ext ''RuntimeError'', Ext ''Exception''],
     ex_text = ''S3 client context suppressed a body failure without an operation'', ex_status = 0,
     ex_cause = None, ex_context = None\<rparr>"

definition run_client_context ::
  "s3_peer \<Rightarrow> s3_request \<Rightarrow> string \<Rightarrow> string \<Rightarrow> (s3_event, pyval \<times> int option) script" where
  "run_client_context p q url body =
     sc_bind (sc_await Client_entered (raised (sx_enter p))) (\<lambda>_.
     sc_lifecycle Client_left (sx_leave p) suppressed_failure (s3_operation p q url body))"

definition session_arguments :: "s3_request \<Rightarrow> (string, pyval) dict" where
  "session_arguments q =
     (case s3_credentials q of None \<Rightarrow> []
      | Some (l, s) \<Rightarrow> [(''aws_access_key_id'', PStr l), (''aws_secret_access_key'', PStr s)]) @
     (if s3_region q = PNone then [] else [(''region_name'', s3_region q)])"

definition raise_sdk_error :: "s3_request \<Rightarrow> nat \<Rightarrow> (s3_event, 'a) script" where
  "raise_sdk_error q err = (\<lambda>r.
     if is_instance (sc_mro err r) CREDENTIAL_FAILURES then
       sc_bind (sc_set_text err ''S3 credential resolution failed'')
         (\<lambda>_. sc_raise_instead (unresolved_credentials q) err) r
     else if is_instance (sc_mro err r) SDK_TRANSPORT_FAILURES then
       sc_bind (sc_set_text err ''S3 SDK transport failure'')
         (\<lambda>_. sc_raise_instead (sdk_transport_error q (xs_heap (ru_store r) err)) err) r
     else sc_raise err r)"

definition s3_session :: "s3_peer \<Rightarrow> s3_request \<Rightarrow> string \<Rightarrow> string \<Rightarrow> (s3_event, pyval \<times> int option) script" where
  "s3_session p q url body =
     sc_catch
       (sc_bind (sc_await (Session_opened (session_arguments q)) (raised (sx_session p))) (\<lambda>_.
        run_client_context p q url body))
       (raise_sdk_error q)"

definition s3_answer :: "s3_peer \<Rightarrow> s3_request \<Rightarrow> pyval \<Rightarrow> int option \<Rightarrow> string + (int \<times> (string, pyval) dict)" where
  "s3_answer p q response byte_count =
     rbind (ensure (is_mapping response) ''response is not a mapping'') (\<lambda>_.
     rbind (success_status response) (\<lambda>status.
     rbind (success_details p q response byte_count) (\<lambda>details. Inr (status, details))))"

definition checked_answer :: "string + 'a \<Rightarrow> (s3_event, 'a) script" where
  "checked_answer x = (case x of Inl reason \<Rightarrow> sc_throw (malformed_success reason) | Inr a \<Rightarrow> sc_return a)"

definition s3_upload_body :: "s3_peer \<Rightarrow> s3_request \<Rightarrow> (s3_event, string) script" where
  "s3_upload_body p q =
     (if s3_command q = ''upload'' then sc_await (Read_upload (s3_local_path q) (s3_max_upload q)) (sx_upload p)
      else sc_return [])"

definition s3_execute :: "s3_peer \<Rightarrow> s3_request \<Rightarrow> string \<Rightarrow> (s3_event, int \<times> (string, pyval) dict) script" where
  "s3_execute p q url =
     sc_bind (s3_upload_body p q) (\<lambda>body.
     sc_bind (s3_session p q url body) (\<lambda>(response, byte_count). checked_answer (s3_answer p q response byte_count)))"

section \<open>The request\<close>

text \<open>The details the call assigned last, with the kind the redaction asks for.\<close>

fun assigned_details :: "s3_event list \<Rightarrow> (string, pyval) dict option" where
  "assigned_details [] = None"
| "assigned_details (Detailed d # evs) = (case assigned_details evs of Some d' \<Rightarrow> Some d' | None \<Rightarrow> Some d)"
| "assigned_details (_ # evs) = assigned_details evs"

definition dict_update :: "('k, 'v) dict \<Rightarrow> 'k \<Rightarrow> ('v \<Rightarrow> 'v) \<Rightarrow> ('k, 'v) dict" where
  "dict_update d k f = map (\<lambda>(k', v). (k', if k' = k then f v else v)) d"

text \<open>
  \<open>_redact_response_surfaces\<close>. The values below \<open>metadata\<close>, \<open>items\<close> and \<open>response_metadata\<close> are
  mappings or a list of mappings by then; the token of the next page is kept as the server sent it.
\<close>

definition redact_surfaces :: "s3_request \<Rightarrow> string \<Rightarrow> envelope \<Rightarrow> envelope" where
  "redact_surfaces q kind env =
     (let details = env_details env;
          redacted = fixed_mapping_values q details;
          redacted = (if kind = ''success'' \<and> s3_command q = ''head''
            then dict_update redacted ''metadata'' (\<lambda>v. PDict (dynamic_mapping q (entries v))) else redacted);
          redacted = (if kind = ''success'' \<and> s3_command q = ''list''
            then dict_update redacted ''items''
              (\<lambda>v. PList (map (\<lambda>item. PDict (fixed_mapping_values q (entries item))) (elements v))) else redacted);
          redacted = (if kind = ''service''
            then dict_update redacted ''response_metadata'' (\<lambda>v. PDict (fixed_mapping_values q (entries v)))
            else redacted);
          redacted = (if kind = ''success'' \<and> s3_command q = ''list''
            then dict_update redacted ''next_continuation_token''
              (\<lambda>_. case map_of details ''next_continuation_token'' of Some v \<Rightarrow> v | None \<Rightarrow> PNone) else redacted)
      in env\<lparr>env_url := redactor_text q (env_url env), env_details := redacted\<rparr>)"

definition handle_s3_request ::
  "s3_peer \<Rightarrow> (pyval \<Rightarrow> string) \<Rightarrow> rat \<Rightarrow> s3_request \<Rightarrow> breaker \<Rightarrow> envelope \<Rightarrow> exc_store
    \<Rightarrow> (exchanged \<times> s3_event list) option" where
  "handle_s3_request p str_of now q b env xs =
     (case s3_execute p q (env_url env) \<lparr>ru_log = [], ru_store = xs, ru_breaker = b\<rparr> of
        None \<Rightarrow> None
      | Some (Inr (status, details), r) \<Rightarrow>
          Some ((None, redact_surfaces q ''success''
            (finalise_ok str_of now status (br_start (s3_base q)) (env\<lparr>env_details := details\<rparr>)),
            ru_store r, ru_breaker r), ru_log r)
      | Some (Inl i, r) \<Rightarrow>
          let xs' = (if is_instance (sc_mro i r) [AsyncGatewayError] then redact_exception q i (ru_store r) else ru_store r);
              env' = (case assigned_details (ru_log r) of
                Some d \<Rightarrow> redact_surfaces q ''service'' (env\<lparr>env_details := d\<rparr>)
              | None \<Rightarrow> redact_surfaces q [] env)
          in Some ((Some i, env', xs', ru_breaker r), ru_log r))"

end
