(* ===== verification/Sftp.thy ===== *)
theory Sftp
  imports Ftp
begin

text \<open>
  \<open>logic/sftp_client.py\<close> and the credential model of \<open>auth.py\<close>: credentials, the host key policy and
  the options of the connection, the session with its order of calls, the three operations under the
  breaker, and the classification of what fails. As for FTP, each call on \<open>asyncssh\<close> is logged and
  its outcome is an argument.
\<close>

section \<open>Credentials\<close>

record sftp_auth =
  sa_username :: pyval
  sa_password :: pyval
  sa_client_keys :: pyval
  sa_key_passphrase :: pyval
  sa_use_ssh_agent :: pyval

definition explicit_client_keys :: "pyval \<Rightarrow> pyval" where
  "explicit_client_keys v =
     (case v of
        PStr s \<Rightarrow> if s = [] then PNone else v
      | PBytes s \<Rightarrow> if s = [] then PNone else v
      | _ \<Rightarrow> if is_collection v \<and> \<not> py_truth v then PNone else v)"

record sftp_credentials =
  sc_username :: string
  sc_password :: pyval
  sc_client_keys :: pyval
  sc_passphrase :: pyval
  sc_agent :: bool

definition str_or_absent :: "pyval \<Rightarrow> bool" where
  "str_or_absent v = (v = PNone \<or> is_str v)"

text \<open>
  \<open>sftp_credentials_of\<close>: the typed model when the object is one (\<open>typed\<close>), else what the attributes
  of a legacy object say.
\<close>

definition sftp_credentials_of ::
  "(pyval \<Rightarrow> sftp_auth option) \<Rightarrow> (pyval \<Rightarrow> string \<Rightarrow> pyval) \<Rightarrow> pyval \<Rightarrow> pyval \<Rightarrow> exn + sftp_credentials" where
  "sftp_credentials_of typed attr auth legacy_client_keys =
     (let info_keys = explicit_client_keys legacy_client_keys in
      rbind (case typed auth of
          Some a \<Rightarrow>
            let model_keys = explicit_client_keys (sa_client_keys a) in
            rbind (ensure (model_keys = PNone \<or> info_keys = PNone) config_error) (\<lambda>_.
            rbind (ensure (str_or_absent (sa_key_passphrase a)) config_error) (\<lambda>_.
            rbind (ensure (is_bool (sa_use_ssh_agent a)) config_error) (\<lambda>_.
            Inr (sa_username a, sa_password a, if model_keys \<noteq> PNone then model_keys else info_keys,
                 sa_key_passphrase a, sa_use_ssh_agent a = PBool True))))
        | None \<Rightarrow> Inr (auth_attr attr auth ''login'', auth_attr attr auth ''password'', info_keys, PNone, False))
        (\<lambda>(username, password, client_keys, passphrase, agent).
      case username of
        PStr name \<Rightarrow>
          rbind (ensure (name \<noteq> []) config_error) (\<lambda>_.
          rbind (ensure (str_or_absent password) config_error) (\<lambda>_.
          rbind (ensure (passphrase = PNone \<or> client_keys \<noteq> PNone) config_error) (\<lambda>_.
          rbind (ensure (password \<noteq> PNone \<or> client_keys \<noteq> PNone) config_error) (\<lambda>_.
          Inr \<lparr>sc_username = name, sc_password = password, sc_client_keys = client_keys,
               sc_passphrase = passphrase, sc_agent = agent\<rparr>))))
      | _ \<Rightarrow> Inl config_error))"

section \<open>Constants\<close>

definition SFTP_SUCCESS_STATUS :: int where
  "SFTP_SUCCESS_STATUS = 200"

definition SFTP_STATUS_BY_FX_CODE :: "(int, int) dict" where
  "SFTP_STATUS_BY_FX_CODE = [(2, 404), (3, 403)]"

definition FILEXFER_TYPE_DIRECTORY :: int where
  "FILEXFER_TYPE_DIRECTORY = 2"

definition FILE_TYPE_NAMES :: "(int, string) dict" where
  "FILE_TYPE_NAMES = [(1, ''file''), (2, ''directory''), (3, ''symlink''), (4, ''special'')]"

definition UNKNOWN_FILE_TYPE :: string where
  "UNKNOWN_FILE_TYPE = ''unknown''"

definition FILE_STAT_FIELDS :: "string list" where
  "FILE_STAT_FIELDS = [''size'', ''permissions'', ''uid'', ''gid'', ''owner'', ''group'', ''atime'', ''mtime'']"

definition SFTP_TRANSPORT_ERRORS :: "(exc_class \<times> exc_class) list" where
  "SFTP_TRANSPORT_ERRORS =
    [(Ext ''asyncio.TimeoutError'', GatewayTimeoutError), (Ext ''TimeoutError'', GatewayTimeoutError),
     (Ext ''socket.gaierror'', DnsError), (Ext ''ConnectionError'', ConnectError),
     (Ext ''OSError'', LocalWriteError)]"

abbreviation "Asyncssh_error \<equiv> Ext ''asyncssh.Error''"

definition SFTP_TRANSPORT_FAULTS :: "exc_class list" where
  "SFTP_TRANSPORT_FAULTS = faults_of SFTP_TRANSPORT_ERRORS @ [Asyncssh_error]"

definition RECURSING_MODES :: "string list" where
  "RECURSING_MODES = [''copy'', ''get'', ''mcopy'', ''mget'', ''mput'', ''put'']"

definition SFTP_MODES :: "string list" where
  "SFTP_MODES = [''get'', ''put'', ''remove'']"

definition SFTP_LOCAL_IS_SOURCE :: "(string, bool) dict" where
  "SFTP_LOCAL_IS_SOURCE = [(''get'', False), (''mget'', False), (''put'', True), (''mput'', True)]"

definition DOWNLOADING_MODES :: "string list" where
  "DOWNLOADING_MODES = [''get'', ''mget'']"

definition SFTP_ACCEPTED_INFO_KEYS :: "string list" where
  "SFTP_ACCEPTED_INFO_KEYS = COMMON_PROTOCOL_INFO_KEYS @
     [''additional_arguments'', ''client_keys'', ''host_key'', ''insecure_skip_host_key_check'',
      ''known_hosts'', ''local_path'', ''max_response_bytes'', ''mode'', ''overwrite'', ''remote_path'']"

section \<open>The constructor\<close>

record sftp_request =
  sr_base :: base_request
  sr_credentials :: sftp_credentials
  sr_mode :: pyval
  sr_remote_path :: pyval
  sr_local_path :: pyval
  sr_overwrite :: bool
  sr_cap :: int
  sr_additional :: pyval
  sr_options :: "(string, pyval) dict"

text \<open>The policies a call names; more than one is refused.\<close>

definition host_key_policies :: "pyval \<Rightarrow> string list" where
  "host_key_policies info =
     (if dget_or info ''host_key'' PNone \<noteq> PNone then [''host_key''] else []) @
     (if dget_or info ''insecure_skip_host_key_check'' PNone = PBool True
      then [''insecure_skip_host_key_check''] else []) @
     (if dget_or info ''known_hosts'' PNone \<noteq> PNone then [''known_hosts''] else [])"

definition connect_options :: "base_request \<Rightarrow> sftp_credentials \<Rightarrow> exn + (string, pyval) dict" where
  "connect_options b c =
     (let info = br_info b in
      rbind (ensure (dget info ''known_hosts'' \<noteq> Some PNone) config_error) (\<lambda>_.
      rbind (ensure (length (host_key_policies info) \<le> 1) config_error) (\<lambda>_.
      Inr ([(''host'', PStr (br_url b)), (''username'', PStr (sc_username c)), (''password'', sc_password c),
            (''port'', dget_or info ''port'' (PInt 22)), (''connect_timeout'', br_timeout b),
            (''login_timeout'', br_timeout b), (''client_keys'', sc_client_keys c)] @
           (if sc_agent c then [] else [(''agent_path'', PNone)]) @
           (if sc_passphrase c = PNone then [] else [(''passphrase'', sc_passphrase c)]) @
           (if dget_or info ''insecure_skip_host_key_check'' PNone = PBool True then [(''known_hosts'', PNone)]
            else if dget_or info ''host_key'' PNone \<noteq> PNone
            then [(''known_hosts'', PTuple [PList [dget_or info ''host_key'' PNone], PList [], PList []])]
            else if dget_or info ''known_hosts'' PNone \<noteq> PNone
            then [(''known_hosts'', dget_or info ''known_hosts'' PNone)]
            else [])))))"

definition sftp_request_of ::
  "(pyval \<Rightarrow> sftp_auth option) \<Rightarrow> (pyval \<Rightarrow> string \<Rightarrow> pyval) \<Rightarrow> base_request \<Rightarrow> exn + sftp_request" where
  "sftp_request_of typed attr b =
     (let info = br_info b in
      rbind (sftp_credentials_of typed attr (br_auth b) (dget_or info ''client_keys'' PNone)) (\<lambda>c.
      rbind (validated_max_response_bytes (dget_or info ''max_response_bytes'' (PInt MAX_RESPONSE_BYTES))) (\<lambda>cap.
      rbind (connect_options b c) (\<lambda>options.
      Inr \<lparr>sr_base = b, sr_credentials = c, sr_mode = dget_or info ''mode'' PNone,
           sr_remote_path = dget_or info ''remote_path'' PNone,
           sr_local_path = dget_or info ''local_path'' PNone,
           sr_overwrite = (dget_or info ''overwrite'' PNone = PBool True), sr_cap = cap,
           sr_additional = dget_or info ''additional_arguments'' (PDict []), sr_options = options\<rparr>))))"

definition new_sftp_request ::
  "(string \<Rightarrow> bool) \<Rightarrow> (pyval \<Rightarrow> sftp_auth option) \<Rightarrow> (pyval \<Rightarrow> string \<Rightarrow> pyval) \<Rightarrow> rat \<Rightarrow> pyval \<Rightarrow> pyval
    \<Rightarrow> string \<Rightarrow> pyval \<Rightarrow> envelope \<Rightarrow> pyval \<Rightarrow> string list \<Rightarrow> registry \<Rightarrow> (exn + sftp_request) \<times> registry" where
  "new_sftp_request ip6 typed attr now clock sleep url auth response info redact_params reg =
     (let (b, reg') = new_request ip6 now clock sleep url auth response info redact_params reg
      in (rbind b (sftp_request_of typed attr), reg'))"

definition validate_mode :: "sftp_request \<Rightarrow> exn + unit" where
  "validate_mode q =
     rbind (ensure (is_str (sr_mode q) \<and> py_truth (sr_mode q)) config_error) (\<lambda>_.
     rbind (validated_verb (sr_mode q) SFTP_MODES) (\<lambda>_.
     rbind (ensure (is_str (sr_remote_path q) \<and> py_truth (sr_remote_path q)) config_error) (\<lambda>_.
     ensure (sr_local_path q = PNone \<or> is_str (sr_local_path q) \<and> py_truth (sr_local_path q)) config_error)))"

section \<open>The session\<close>

record sftp_attrs =
  at_type :: int
  at_fields :: "(string, pyval) dict"

definition file_stats_for :: "sftp_attrs \<Rightarrow> (pyval \<times> pyval) list" where
  "file_stats_for attrs =
     (PStr ''type'', PStr (case map_of FILE_TYPE_NAMES (at_type attrs) of
         Some n \<Rightarrow> n | None \<Rightarrow> UNKNOWN_FILE_TYPE)) #
     map (\<lambda>n. (PStr n, case map_of (at_fields attrs) n of Some v \<Rightarrow> v | None \<Rightarrow> PNone)) FILE_STAT_FIELDS"

datatype sftp_event =
    Ssh_connected "(string, pyval) dict"
  | Sftp_started
  | Looked_up string
  | Listed string
  | Local_isdir string
  | Ran_operation string "pyval list" "(string, pyval) dict"
  | Ran_download "fail + copy_call"
  | Sftp_left
  | Ssh_left

record sftp_peer =
  sp_failsafe :: failsafe
  sp_hierarchy :: hierarchy
  sp_texts :: "exn \<Rightarrow> string"
  sp_fault :: "fail \<Rightarrow> exc_obj"
  sp_connect :: "exc_obj option"
  sp_start :: "exc_obj option"
  sp_lstat :: "exc_obj + sftp_attrs"
  sp_listdir :: "exc_obj + string list"
  sp_isdir :: "exc_obj + bool"
  sp_offers :: "string \<Rightarrow> bool"
  sp_turns :: "unit turn list"
  sp_get_defaults :: "(string, pyval) dict"
  sp_begin_copy :: bool
  sp_exit :: "exc_obj option"
  sp_close :: "exc_obj option"
  sp_fx_code :: "exc_obj \<Rightarrow> int"
  sp_text :: "exc_obj \<Rightarrow> string"
  sp_cwd :: "string list"

abbreviation sp_object :: "sftp_peer \<Rightarrow> exn \<Rightarrow> exc_obj" where
  "sp_object p \<equiv> object_of (sp_hierarchy p) (sp_texts p)"

text \<open>
  \<open>dict(additional_arguments)\<close>, a copy: a mapping, or a collection of pairs. \<open>**options\<close> takes only
  string keys, and none the call names itself.
\<close>

fun pairs_of :: "pyval list \<Rightarrow> (pyval, pyval) dict \<Rightarrow> exn + (pyval, pyval) dict" where
  "pairs_of [] d = Inr d"
| "pairs_of (v # vs) d =
     (if \<not> is_collection v then raise_as (Ext ''TypeError'')
      else (case elements v of [k, x] \<Rightarrow> pairs_of vs (dict_set d k x) | _ \<Rightarrow> raise_as (Ext ''ValueError'')))"

definition copied_options :: "pyval \<Rightarrow> exn + (pyval, pyval) dict" where
  "copied_options v =
     (if is_mapping v then Inr (entries v)
      else if is_collection v then pairs_of (elements v) []
      else raise_as (Ext ''TypeError''))"

definition keyword_options :: "string list \<Rightarrow> (pyval, pyval) dict \<Rightarrow> exn + (string, pyval) dict" where
  "keyword_options taken d =
     (if list_all (\<lambda>(k, _). is_str k \<and> (\<forall>n \<in> set taken. k \<noteq> PStr n)) d
      then Inr (map (\<lambda>(k, x). (path_name_of k, x)) d) else raise_as (Ext ''TypeError''))"

definition sftp_operands :: "string list \<Rightarrow> sftp_request \<Rightarrow> string \<Rightarrow> pyval list" where
  "sftp_operands cwd q mode =
     (let local = (case sr_local_path q of PStr path \<Rightarrow> PStr (local_operand cwd path) | _ \<Rightarrow> PNone) in
      if map_of SFTP_LOCAL_IS_SOURCE mode = Some True then [local, sr_remote_path q]
      else [sr_remote_path q, local])"

text \<open>The settled download, which the breaker runs; when it cannot be settled, every attempt raises.\<close>

definition download_call :: "sftp_peer \<Rightarrow> sftp_request \<Rightarrow> string \<Rightarrow> string \<Rightarrow> (string, pyval) dict \<Rightarrow> fail + copy_call" where
  "download_call p q mode local options =
     contained_download (sp_get_defaults p) (sp_begin_copy p) mode (sr_remote_path q)
       (local_operand (sp_cwd p) local) (local_base (sp_cwd p) local) (sr_overwrite q)
       (Some \<lparr>bu_limit = sr_cap q, bu_written = 0\<rparr>) options"

definition download_turns :: "sftp_peer \<Rightarrow> fail + copy_call \<Rightarrow> unit turn list" where
  "download_turns p c = (case c of
     Inr _ \<Rightarrow> sp_turns p
   | Inl e \<Rightarrow> map (\<lambda>t. t\<lparr>t_outcome := Raises (sp_fault p e)\<rparr>) (sp_turns p))"

definition run_operation :: "sftp_peer \<Rightarrow> sftp_request \<Rightarrow> bool \<Rightarrow> (sftp_event, unit) script" where
  "run_operation p q is_directory =
     sc_bind (sc_lift (sp_object p) (resolve_verb (sp_offers p) (sr_mode q) SFTP_MODES)) (\<lambda>operation.
     sc_bind (sc_lift (sp_object p) (copied_options (sr_additional q))) (\<lambda>copy.
     let mode = command_name (sr_mode q);
         options = (if is_directory \<and> mode \<in> set RECURSING_MODES
                    then dict_set copy (PStr ''recurse'') (PBool True) else copy);
         run = (\<lambda>args. sc_bind (sc_lift (sp_object p) (keyword_options [''self'', ''call''] options)) (\<lambda>kw.
           sc_under_breaker (sp_failsafe p) (Ran_operation operation args kw) (sp_turns p)))
     in case sr_local_path q of
          PStr local \<Rightarrow>
            if local = [] then run [sr_remote_path q]
            else if mode \<in> set DOWNLOADING_MODES then
              sc_bind (sc_lift (sp_object p)
                (keyword_options [''self'', ''call'', ''base'', ''overwrite'', ''budget''] options)) (\<lambda>kw.
              let c = download_call p q mode local kw
              in sc_under_breaker (sp_failsafe p) (Ran_download c) (download_turns p c))
            else run (sftp_operands (sp_cwd p) q mode)
        | _ \<Rightarrow> run [sr_remote_path q]))"

definition list_if_directory :: "sftp_peer \<Rightarrow> string \<Rightarrow> sftp_attrs \<Rightarrow> (sftp_event, string list option) script" where
  "list_if_directory p remote_path attrs =
     (if at_type attrs = FILEXFER_TYPE_DIRECTORY
      then sc_bind (sc_await (Listed remote_path) (sp_listdir p)) (\<lambda>files. sc_return (Some files))
      else sc_return None)"

definition run_session :: "sftp_peer \<Rightarrow> sftp_request \<Rightarrow> (sftp_event, sftp_attrs \<times> string list option) script" where
  "run_session p q =
     (let remote_path = path_name_of (sr_remote_path q);
          uploading = (map_of SFTP_LOCAL_IS_SOURCE (command_name (sr_mode q)) = Some True)
      in sc_bind (sc_await (Ssh_connected (sr_options q)) (raised (sp_connect p))) (\<lambda>_.
         sc_finally
           (sc_bind (sc_await Sftp_started (raised (sp_start p))) (\<lambda>_.
            sc_finally
              (if uploading then
                 sc_bind (if py_truth (sr_local_path q)
                     then sc_await (Local_isdir (path_name_of (sr_local_path q))) (sp_isdir p)
                     else sc_return False) (\<lambda>is_directory.
                 sc_bind (run_operation p q is_directory) (\<lambda>_.
                 sc_bind (sc_await (Looked_up remote_path) (sp_lstat p)) (\<lambda>attrs.
                 sc_bind (list_if_directory p remote_path attrs) (\<lambda>files. sc_return (attrs, files)))))
               else
                 sc_bind (sc_await (Looked_up remote_path) (sp_lstat p)) (\<lambda>attrs.
                 sc_bind (list_if_directory p remote_path attrs) (\<lambda>files.
                 sc_bind (run_operation p q (at_type attrs = FILEXFER_TYPE_DIRECTORY)) (\<lambda>_.
                 sc_return (attrs, files)))))
              (sc_await Sftp_left (raised (sp_exit p)))))
           (sc_await Ssh_left (raised (sp_close p)))))"

section \<open>Failures and the request\<close>

definition raise_sftp_transport_error :: "sftp_peer \<Rightarrow> string list \<Rightarrow> nat \<Rightarrow> (sftp_event, 'a) script" where
  "raise_sftp_transport_error p redact_params err = (\<lambda>r.
     let message = message_of redact_params err r in
     case cause_of err r of
       None \<Rightarrow> sc_raise_from TransportError message None err r
     | Some c \<Rightarrow>
         if is_instance (sc_mro c r) [Ext ''asyncssh.SFTPError'']
         then sc_raise_from SftpStatusError message
                (map_of SFTP_STATUS_BY_FX_CODE (sp_fx_code p (xs_heap (ru_store r) c))) err r
         else raise_by_family SFTP_TRANSPORT_ERRORS Asyncssh_error message c err r)"

definition host_key_message :: "sftp_peer \<Rightarrow> string \<Rightarrow> string list \<Rightarrow> exc_obj \<Rightarrow> string" where
  "host_key_message p url redact_params err =
     ''SSH host key verification failed for '' @ redact_url url redact_params @ '': '' @ sp_text p err @
     ''. Trust this server explicitly with protocol_info[\"known_hosts\"] or protocol_info[\"host_key\"] '' @
     ''if it is not in ~/.ssh/known_hosts.''"

definition sftp_exchange :: "sftp_peer \<Rightarrow> sftp_request \<Rightarrow> (sftp_event, sftp_attrs \<times> string list option) script" where
  "sftp_exchange p q =
     (let url = br_url (sr_base q); params = br_redact (sr_base q) in
      sc_bind (sc_lift (sp_object p) (validate_mode q)) (\<lambda>_.
      sc_catch (run_session p q) (\<lambda>err r.
        let mro = sc_mro err r in
        if is_instance mro [Ext ''asyncssh.HostKeyNotVerifiable'', Ext ''asyncssh.KeyExchangeFailed'']
        then sc_raise_from HostKeyError (host_key_message p url params (xs_heap (ru_store r) err)) None err r
        else if is_instance mro [CircuitOpen]
        then sc_raise_from CircuitOpenError (''circuit open for '' @ redact_url url params) None err r
        else if is_instance mro (FailsafeError # SFTP_TRANSPORT_FAULTS)
        then raise_sftp_transport_error p params err r
        else sc_raise err r)))"

definition sftp_details :: "sftp_request \<Rightarrow> sftp_attrs \<Rightarrow> string list option \<Rightarrow> (string, pyval) dict" where
  "sftp_details q attrs files =
     [(''mode'', sr_mode q), (''remote_path'', sr_remote_path q), (''local_path'', sr_local_path q),
      (''file_stats'', PDict (file_stats_for attrs)),
      (''files'', case files of None \<Rightarrow> PNone | Some fs \<Rightarrow> PList (map PStr fs))]"

definition sftp_answer ::
  "(pyval \<Rightarrow> string) \<Rightarrow> rat \<Rightarrow> sftp_request \<Rightarrow> sftp_attrs \<times> string list option \<Rightarrow> envelope \<Rightarrow> envelope" where
  "sftp_answer str_of now q answered env =
     (let (attrs, files) = answered in
      finalise_ok str_of now SFTP_SUCCESS_STATUS (br_start (sr_base q))
        (env\<lparr>env_details := sftp_details q attrs files\<rparr>))"

definition handle_sftp_request ::
  "sftp_peer \<Rightarrow> (pyval \<Rightarrow> string) \<Rightarrow> rat \<Rightarrow> sftp_request \<Rightarrow> breaker \<Rightarrow> envelope \<Rightarrow> exc_store
    \<Rightarrow> (exchanged \<times> sftp_event list) option" where
  "handle_sftp_request p str_of now q = concluded (sftp_exchange p q) (sftp_answer str_of now q)"

end
