(* ===== verification/Transfers.thy ===== *)
theory Transfers
  imports Sftp
begin

text \<open>
  What is shown of the FTP and SFTP clients: credentials travel only inside verified TLS, host keys
  are skipped only by name, and both clients report every fault of their transport as an exception
  of the library.
\<close>

section \<open>What the clients report\<close>

text \<open>The two exceptions of Python the FTP client raises itself are no faults of a transport.\<close>

definition ftp_sane :: "ftp_peer \<Rightarrow> bool" where
  "ftp_sane p \<longleftrightarrow> (\<forall>c \<in> {Ext ''ValueError'', Ext ''asyncio.CancelledError''}.
     \<not> is_instance (c # fp_hierarchy p c) FTP_TRANSPORT_FAULTS)"

lemma reply_status_error: "reply_status codes = Inl e \<Longrightarrow> exn_class e = Ext ''ValueError''"
  by (induction codes) (auto split: if_splits option.splits)

lemma ftp_rows: "\<forall>k \<in> snd ` set FTP_TRANSPORT_ERRORS. is_lib k"
  by (simp add: FTP_TRANSPORT_ERRORS_def)

lemma sftp_rows: "\<forall>k \<in> snd ` set SFTP_TRANSPORT_ERRORS. is_lib k"
  by (simp add: SFTP_TRANSPORT_ERRORS_def)

lemma ftp_family_reported:
  "raise_by_family FTP_TRANSPORT_ERRORS AIOFTPException m c err r = Some (Inl j, r') \<Longrightarrow>
     reported FTP_TRANSPORT_FAULTS j r'"
  unfolding FTP_TRANSPORT_FAULTS_def by (rule raise_by_family_reported [OF _ ftp_rows])

lemma sftp_family_reported:
  "raise_by_family SFTP_TRANSPORT_ERRORS Asyncssh_error m c err r = Some (Inl j, r') \<Longrightarrow>
     reported SFTP_TRANSPORT_FAULTS j r'"
  unfolding SFTP_TRANSPORT_FAULTS_def by (rule raise_by_family_reported [OF _ sftp_rows])

lemma ftp_error_reported:
  assumes "ftp_sane p" "raise_transport_error p params err r = Some (Inl j, r')"
  shows "reported FTP_TRANSPORT_FAULTS j r'"
  using assms
  by (auto simp: raise_transport_error_def Let_def ftp_sane_def object_of_def
      split: option.splits if_splits sum.splits
      elim!: reported_raise_from [rotated] reported_throw [rotated] dest!: reply_status_error
      dest: ftp_family_reported)

lemma sftp_error_reported:
  assumes "raise_sftp_transport_error p params err r = Some (Inl j, r')"
  shows "reported SFTP_TRANSPORT_FAULTS j r'"
  using assms
  by (auto simp: raise_sftp_transport_error_def Let_def split: option.splits if_splits
      elim!: reported_raise_from [rotated]
      dest: sftp_family_reported)

lemma validate_ftp_lib: "validate_ftp_request q = Inl e \<Longrightarrow> is_lib (exn_class e)"
  by (auto simp: validate_ftp_request_def validated_verb_def rbind_eq_Inl ensure_def Let_def
      split: if_splits pyval.splits)

lemma validate_mode_lib: "validate_mode q = Inl e \<Longrightarrow> is_lib (exn_class e)"
  by (auto simp: validate_mode_def validated_verb_def rbind_eq_Inl ensure_def Let_def
      split: if_splits pyval.splits)

lemma ftp_exchange_reported:
  assumes "ftp_sane p" "ftp_exchange p q r = Some (Inl i, r')"
  shows "reported FTP_TRANSPORT_FAULTS i r'"
  using assms(2) unfolding ftp_exchange_def Let_def
proof (cases rule: bind_lift_cases)
  case (1 e)
  then show ?thesis by (auto elim!: reported_new [rotated] dest: validate_ftp_lib)
next
  case (2 err r1)
  from 2(2) assms(1) show ?thesis
    by (auto simp: sc_raise_def object_of_def ftp_sane_def is_instance_Cons [of _ FailsafeError]
        split: if_splits elim!: reported_raise_from [rotated] reported_throw [rotated]
        dest: ftp_error_reported [OF assms(1)] intro: reported_same)
qed

lemma sftp_exchange_reported:
  assumes "sftp_exchange p q r = Some (Inl i, r')"
  shows "reported SFTP_TRANSPORT_FAULTS i r'"
  using assms unfolding sftp_exchange_def Let_def
proof (cases rule: bind_lift_cases)
  case (1 e)
  then show ?thesis by (auto elim!: reported_new [rotated] dest: validate_mode_lib)
next
  case (2 err r1)
  from 2(2) show ?thesis
    by (auto simp: sc_raise_def is_instance_Cons [of _ FailsafeError]
        split: if_splits elim!: reported_raise_from [rotated]
        dest: sftp_error_reported intro: reported_same)
qed

interpretation ftp: reporting_client ftp_sane ftp_exchange ftp_answer FTP_TRANSPORT_FAULTS
  by unfold_locales
    (auto simp: ftp_answer_def FTP_SUCCESS_STATUS_def HTTP_ERROR_STATUS_def finalise_ok_sealed
      intro: ftp_exchange_reported)

interpretation sftp: reporting_client "\<lambda>_. True" sftp_exchange sftp_answer SFTP_TRANSPORT_FAULTS
  by unfold_locales
    (auto simp: sftp_answer_def SFTP_SUCCESS_STATUS_def HTTP_ERROR_STATUS_def finalise_ok_sealed
      intro: sftp_exchange_reported)

section \<open>Credentials and TLS\<close>

text \<open>
  What a log of an FTP session may hold: a login comes after the session was upgraded under a
  context that requires a certificate, and a session \<open>aioftp\<close> opens itself is opened under such a
  context, or in the clear when the call turned verification off.
\<close>

definition encrypted_log :: "bool \<Rightarrow> ftp_event list \<Rightarrow> bool" where
  "encrypted_log verify l \<longleftrightarrow>
     (\<forall>before user password rest. l = before @ Logged_in user password # rest \<longrightarrow>
        (\<exists>c. Upgraded c \<in> set before \<and> cert_required c)) \<and>
     (\<forall>tls h po u w la. Opened_context tls h po u w la \<in> set l \<longrightarrow>
        (case tls of None \<Rightarrow> \<not> verify | Some c \<Rightarrow> verify \<and> cert_required c))"

lemma encrypted_log_append:
  assumes "encrypted_log v l"
    and "\<And>u w. ev = Logged_in u w \<Longrightarrow> \<exists>c. Upgraded c \<in> set l \<and> cert_required c"
    and "\<And>tls h po u w la. ev = Opened_context tls h po u w la \<Longrightarrow>
      (case tls of None \<Rightarrow> \<not> v | Some c \<Rightarrow> v \<and> cert_required c)"
  shows "encrypted_log v (l @ [ev])"
  unfolding encrypted_log_def
proof (intro conjI allI impI)
  fix before u w rest assume e: "l @ [ev] = before @ Logged_in u w # rest"
  show "\<exists>c. Upgraded c \<in> set before \<and> cert_required c"
  proof (cases rest rule: rev_cases)
    case Nil
    then show ?thesis using e assms(2) by simp
  next
    case (snoc rest' ev')
    then have "l = before @ Logged_in u w # rest'" using e by (metis append_Cons append_assoc append_eq_append_conv butlast_snoc)
    then show ?thesis using assms(1) unfolding encrypted_log_def by blast
  qed
next
  fix tls h po u w la assume "Opened_context tls h po u w la \<in> set (l @ [ev])"
  then consider "Opened_context tls h po u w la \<in> set l" | "ev = Opened_context tls h po u w la" by auto
  then show "case tls of None \<Rightarrow> \<not> v | Some c \<Rightarrow> v \<and> cert_required c"
    by cases (use assms(1) in \<open>unfold encrypted_log_def, blast\<close>, rule assms(3))
qed

lemma encrypted_neutral:
  "encrypted_log v l \<Longrightarrow> (\<forall>u w. ev \<noteq> Logged_in u w) \<Longrightarrow> (\<forall>t h po u w la. ev \<noteq> Opened_context t h po u w la) \<Longrightarrow>
     encrypted_log v (l @ [ev])"
  by (rule encrypted_log_append) auto

text \<open>A neutral call, and the command, which is made of neutral calls.\<close>

lemma log_run_command: "keeps_log (encrypted_log v) (run_command p q)"
  unfolding run_command_def Let_def
  by (intro log_rules log_under_breaker)
    (auto intro!: log_rules log_await encrypted_neutral split: prod.splits)

lemma tls_value_triple:
  assumes "\<And>c. fp_default_context p = Inr c \<Longrightarrow> cert_required c"
  shows "sc_triple (on_log I) (tls_value p q)
    (\<lambda>tls r. on_log I r \<and> (case tls of None \<Rightarrow> \<not> py_truth (fr_verify_ssl q)
       | Some c \<Rightarrow> py_truth (fr_verify_ssl q) \<and> cert_required c)) (\<lambda>_. on_log I)"
proof (cases "py_truth (fr_verify_ssl q)")
  case False
  then show ?thesis by (simp add: tls_value_def sc_triple_return)
next
  case True
  let ?Q = "\<lambda>tls r. on_log I r \<and> (case tls of None \<Rightarrow> False | Some c \<Rightarrow> cert_required c)"
  have config: "keeps_log I (ssl_config_for p q)"
    unfolding ssl_config_for_def Let_def
    by (intro log_rules)
  have "sc_triple (on_log I) (tls_value p q) ?Q (\<lambda>_. on_log I)"
    unfolding tls_value_def if_not_P [OF not_not [THEN iffD2, OF True]]
  proof (rule sc_triple_bind [OF config])
    show "sc_triple (on_log I) (case tls_context_for (fp_default_context p) setting of
         Inl (Inl e) \<Rightarrow> sc_throw e | Inl (Inr e) \<Rightarrow> sc_throw (fp_object p e) | Inr c \<Rightarrow> sc_return (Some c)) ?Q
       (\<lambda>_. on_log I)" for setting
      using assms
      by (auto simp: sc_triple_def sc_return_def sc_throw_def on_log_def Let_def tls_context_for_def
          split: sum.splits prod.splits ssl_setting.splits)
  qed
  then show ?thesis by (rule sc_triple_mono) (auto simp: True split: option.splits)
qed

lemma log_explicit_context:
  assumes "cert_required c" "keeps_log (encrypted_log v) body"
  shows "keeps_log (encrypted_log v) (explicit_ftps_context p q c layer body)"
proof -
  let ?I = "encrypted_log v" and ?J = "\<lambda>l. encrypted_log v l \<and> Upgraded c \<in> set l"
  have J: "sc_triple (on_log ?J) m (\<lambda>_. on_log ?J) (\<lambda>_. on_log ?J) \<Longrightarrow>
      sc_triple (on_log ?J) m (\<lambda>_. on_log ?I) (\<lambda>_. on_log ?I)" for m :: "(ftp_event, unit) script"
    by (erule sc_triple_mono) (auto simp: on_log_def)
  have upgrade: "sc_triple (on_log ?I) (sc_await (Upgraded c) (raised (fp_upgrade p))) (\<lambda>_. on_log ?J) (\<lambda>_. on_log ?I)"
    by (rule sc_triple_mono [OF await_triple [where P = ?I and R = ?J]])
      (auto simp: on_log_def intro: encrypted_neutral)
  have "sc_triple (on_log ?J) (sc_await (Logged_in (fr_user q) (fr_password q)) (raised (fp_login p)))
      (\<lambda>_. on_log ?I) (\<lambda>_. on_log ?I)"
    by (rule await_triple) (auto intro!: encrypted_log_append assms(1))
  note tail = sc_triple_bind [OF upgrade this]
  have login: "keeps_log ?I (sc_bind (sc_await (Connected (br_url (fr_base q)) (fr_port q)) (raised (fp_connect p))) (\<lambda>_.
      sc_bind (sc_await (Upgraded c) (raised (fp_upgrade p))) (\<lambda>_.
      sc_await (Logged_in (fr_user q) (fr_password q)) (raised (fp_login p)))))"
    by (rule log_bind [OF log_await tail]) (auto intro: encrypted_neutral)
  show ?thesis
    unfolding explicit_ftps_context_def
    by (rule log_bind [OF log_say log_bind [OF log_catch [OF login log_bind [OF log_say log_raise]]
          log_finally [OF assms(2) log_await]]]) (auto intro: encrypted_neutral)
qed

lemma log_ftp_session:
  assumes "\<And>c. fp_default_context p = Inr c \<Longrightarrow> cert_required c"
  shows "keeps_log (encrypted_log (py_truth (fr_verify_ssl q))) (ftp_session p q)"
proof -
  let ?v = "py_truth (fr_verify_ssl q)"
  let ?I = "encrypted_log ?v"
  show ?thesis
    unfolding ftp_session_def Let_def
  proof (rule sc_triple_bind [OF tls_value_triple [OF assms]])
    fix tls
    show "sc_triple (\<lambda>r. on_log ?I r \<and> (case tls of None \<Rightarrow> \<not> ?v | Some c \<Rightarrow> ?v \<and> cert_required c))
        (if fr_tls_mode q = Some ''explicit''
         then case tls of None \<Rightarrow> sc_throw (fp_object p (Exn TlsError None))
           | Some c \<Rightarrow> explicit_ftps_context p q c (path_io_factory p q) (run_command p q)
         else library_context p q tls (path_io_factory p q) (run_command p q))
        (\<lambda>_. on_log ?I) (\<lambda>_. on_log ?I)"
    proof (cases "case tls of None \<Rightarrow> \<not> ?v | Some c \<Rightarrow> ?v \<and> cert_required c")
      case tls: True
      have "keeps_log ?I (library_context p q tls (path_io_factory p q) (run_command p q))"
        unfolding library_context_def
      proof (intro log_rules log_await log_run_command)
        fix l assume "?I l"
        then show "?I (l @ [Quitted])" by (rule encrypted_neutral) simp_all
        from \<open>?I l\<close> show "?I (l @ [Opened_context tls (br_url (fr_base q)) (fr_port q) (fr_user q)
            (fr_password q) (path_io_factory p q)])"
          by (rule encrypted_log_append) (use tls in auto)
      qed
      moreover have "keeps_log ?I (case tls of None \<Rightarrow> sc_throw (fp_object p (Exn TlsError None))
          | Some c \<Rightarrow> explicit_ftps_context p q c (path_io_factory p q) (run_command p q))"
        using tls by (cases tls) (auto intro!: log_rules log_explicit_context log_run_command)
      ultimately show ?thesis by (auto elim: sc_triple_mono)
    qed (auto simp: sc_triple_def)
  qed
qed

lemma log_cases [log_rules]:
  "(\<And>c. keeps_log I (f c)) \<Longrightarrow> keeps_log I g \<Longrightarrow> keeps_log I (\<lambda>r. case h r of None \<Rightarrow> g r | Some c \<Rightarrow> f c r)"
  by (rule keeps_logI) (auto split: option.splits dest: keeps_logD)

lemma log_raise_with [log_rules]:
  "keeps_log I (\<lambda>r. sc_raise_from c (m r) s i r)" "keeps_log I (\<lambda>r. sc_throw (e r) r)"
  by (auto intro!: keeps_logI simp: sc_raise_from_def sc_throw_def Let_def split: prod.splits)

lemma log_by_family:
  "raise_by_family table base m c err r = Some (x, r') \<Longrightarrow> ru_log r' = ru_log r"
  by (auto simp: raise_by_family_def sc_raise_from_def sc_raise_without_cause_def Let_def
      split: option.splits if_splits prod.splits)

lemma log_transport_error:
  "raise_transport_error p params err r = Some (x, r') \<Longrightarrow> ru_log r' = ru_log r"
  by (auto simp: raise_transport_error_def sc_raise_from_def sc_throw_def Let_def
      split: option.splits if_splits prod.splits sum.splits dest: log_by_family)

lemma log_sftp_transport_error:
  "raise_sftp_transport_error p params err r = Some (x, r') \<Longrightarrow> ru_log r' = ru_log r"
  by (auto simp: raise_sftp_transport_error_def sc_raise_from_def Let_def
      split: option.splits if_splits prod.splits dest: log_by_family)

lemma log_ftp_exchange:
  assumes "keeps_log I (ftp_session p q)"
  shows "keeps_log I (ftp_exchange p q)"
  unfolding ftp_exchange_def Let_def
  by (intro log_bind log_catch log_lift assms, rule keeps_logI)
    (auto simp: sc_raise_def sc_raise_from_def sc_throw_def Let_def split: if_splits prod.splits
      dest: log_transport_error)

lemma log_sftp_exchange:
  assumes "keeps_log I (run_session p q)"
  shows "keeps_log I (sftp_exchange p q)"
  unfolding sftp_exchange_def Let_def
  by (intro log_bind log_catch log_lift assms, rule keeps_logI)
    (auto simp: sc_raise_def sc_raise_from_def Let_def split: if_splits prod.splits
      dest: log_sftp_transport_error)

lemma concluded_log:
  assumes "concluded script answer b env xs = Some (x, calls)" "keeps_log I script" "I []"
  shows "I calls"
  using assms keeps_logD [OF assms(2), of "\<lparr>ru_log = [], ru_store = xs, ru_breaker = b\<rparr>"]
  by (auto simp: concluded_def split: option.splits sum.splits)

lemma encrypted_Nil: "encrypted_log v []"
  by (simp add: encrypted_log_def)

lemma tls_mode_names: "validated_tls_mode info = Inr (Some m) \<Longrightarrow> m \<in> set TLS_MODES"
  by (auto simp: validated_tls_mode_def split: option.splits pyval.splits if_splits)

lemma plaintext_only_unverified:
  assumes "ftp_request_of attr b = Inr q"
  shows "fr_effective_tls_mode q \<noteq> ''plaintext'' \<longleftrightarrow> py_truth (fr_verify_ssl q)"
proof -
  from assms obtain m v where m: "validated_tls_mode (br_info b) = Inr m" "m = None \<or> v = PBool True"
    "fr_verify_ssl q = v" "fr_effective_tls_mode q = (case m of Some m \<Rightarrow> m
       | None \<Rightarrow> if py_truth v then ''implicit'' else ''plaintext'')"
    by (fastforce simp: ftp_request_of_def Let_def rbind_eq_Inr ensure_eq_Inr)
  then show ?thesis
    using tls_mode_names [of "br_info b"] by (cases m) (auto simp: TLS_MODES_def)
qed

section \<open>SFTP connections\<close>

lemma connect_options_lookup:
  assumes "connect_options b c = Inr options"
  shows "map_of options ''password'' = Some (sc_password c)"
    "map_of options ''client_keys'' = Some (sc_client_keys c)"
    "map_of options ''agent_path'' = (if sc_agent c then None else Some PNone)"
    "map_of options ''known_hosts'' =
      (if dget_or (br_info b) ''insecure_skip_host_key_check'' PNone = PBool True then Some PNone
       else if dget_or (br_info b) ''host_key'' PNone \<noteq> PNone
       then Some (PTuple [PList [dget_or (br_info b) ''host_key'' PNone], PList [], PList []])
       else if dget_or (br_info b) ''known_hosts'' PNone \<noteq> PNone
       then Some (dget_or (br_info b) ''known_hosts'' PNone) else None)"
    "length (host_key_policies (br_info b)) \<le> 1"
  using assms by (auto simp: connect_options_def Let_def rbind_eq_Inr ensure_eq_Inr simp del: One_nat_def)

lemma credentials_offered:
  assumes "sftp_credentials_of typed attr auth keys = Inr c"
  shows "(sc_agent c \<longrightarrow> (\<exists>a. typed auth = Some a \<and> sa_use_ssh_agent a = PBool True)) \<and>
    \<not> (sc_password c = PNone \<and> sc_client_keys c = PNone)"
proof -
  from assms obtain u pw ks ph ag where *:
    "(case typed auth of Some a \<Rightarrow>
        rbind (ensure (explicit_client_keys (sa_client_keys a) = PNone \<or> explicit_client_keys keys = PNone) config_error) (\<lambda>_.
        rbind (ensure (str_or_absent (sa_key_passphrase a)) config_error) (\<lambda>_.
        rbind (ensure (is_bool (sa_use_ssh_agent a)) config_error) (\<lambda>_.
        Inr (sa_username a, sa_password a,
          if explicit_client_keys (sa_client_keys a) \<noteq> PNone then explicit_client_keys (sa_client_keys a)
          else explicit_client_keys keys, sa_key_passphrase a, sa_use_ssh_agent a = PBool True))))
      | None \<Rightarrow> Inr (auth_attr attr auth ''login'', auth_attr attr auth ''password'',
          explicit_client_keys keys, PNone, False)) = Inr (u, pw, ks, ph, ag)"
    "pw \<noteq> PNone \<or> ks \<noteq> PNone" "sc_agent c = ag" "sc_password c = pw" "sc_client_keys c = ks"
    unfolding sftp_credentials_of_def Let_def rbind_eq_Inr
    by (fastforce simp: rbind_eq_Inr ensure_eq_Inr split: pyval.splits)
  then show ?thesis by (auto simp: rbind_eq_Inr ensure_eq_Inr split: option.splits)
qed

section \<open>Properties\<close>

text \<open>
  C11. FTP credentials travel only inside verified TLS. Whatever the server does, a login of an
  explicit session comes after the upgrade under a context that requires the server's certificate,
  and a session \<open>aioftp\<close> opens is opened under such a context, unless the envelope reports the mode
  \<open>plaintext\<close>, which the call asked for by turning verification off. The contexts Python builds by
  default require a certificate, as documented.
\<close>

theorem ftp_credentials_need_verified_tls:
  assumes "ftp_request_of attr b = Inr q" "handle_ftp_request p str_of now q br env xs = Some (x, calls)"
    and "\<And>c. fp_default_context p = Inr c \<Longrightarrow> cert_required c"
  shows "encrypted_log (fr_effective_tls_mode q \<noteq> ''plaintext'') calls"
  unfolding plaintext_only_unverified [OF assms(1)]
  using assms(2) unfolding handle_ftp_request_def
  by (rule concluded_log [OF _ log_ftp_exchange [OF log_ftp_session [OF assms(3)]] encrypted_Nil])

text \<open>
  The FTP and SFTP clients keep the contract of the HTTP ones: an exchange that returns leaves a
  sealed envelope that is \<open>ok\<close> with a status below 400; one that raises leaves the envelope as it was
  and raises an exception of the library or something that is no fault of the transport. The
  interpreter's \<open>ValueError\<close> and \<open>CancelledError\<close> are no such faults, as documented.
\<close>

theorem file_transfers_keep_the_contract:
  assumes "ftp_sane p"
    and "handle_ftp_request p str_of now q b env xs = Some ((r, env', xs', b'), calls)"
    and "handle_sftp_request sp str_of now sq b env xs = Some ((sr, senv', sxs', sb'), scalls)"
  shows "(case r of
        None \<Rightarrow> sealed str_of env' \<and> env_ok env' \<and> env_status env' < HTTP_ERROR_STATUS
      | Some i \<Rightarrow> env' = env \<and>
          (is_lib (ex_class (xs_heap xs' i)) \<or> \<not> is_instance (ex_mro (xs_heap xs' i)) FTP_TRANSPORT_FAULTS)) \<and>
    (case sr of
        None \<Rightarrow> sealed str_of senv' \<and> env_ok senv' \<and> env_status senv' < HTTP_ERROR_STATUS
      | Some i \<Rightarrow> senv' = env \<and>
          (is_lib (ex_class (xs_heap sxs' i)) \<or> \<not> is_instance (ex_mro (xs_heap sxs' i)) SFTP_TRANSPORT_FAULTS))"
  using ftp.concluded_contract [OF assms(1) assms(2) [unfolded handle_ftp_request_def]]
    sftp.concluded_contract [OF TrueI assms(3) [unfolded handle_sftp_request_def]] by blast

text \<open>
  C12. An SFTP connection skips the check of the host key only when the call says so by name, and then
  under no other policy; it consults the agent only for a typed credential that asks for it; and it
  offers a password or keys of the call's own.
\<close>

theorem sftp_skips_host_keys_only_by_name:
  assumes "sftp_request_of typed attr b = Inr q" "handle_sftp_request p str_of now q br env xs = Some (x, calls)"
    and "Ssh_connected options \<in> set calls"
  shows "(map_of options ''known_hosts'' = Some PNone \<longleftrightarrow>
        host_key_policies (br_info b) = [''insecure_skip_host_key_check'']) \<and>
    (map_of options ''known_hosts'' = None \<longleftrightarrow> host_key_policies (br_info b) = []) \<and>
    (map_of options ''agent_path'' = Some PNone \<or>
        (\<exists>a. typed (br_auth b) = Some a \<and> sa_use_ssh_agent a = PBool True)) \<and>
    \<not> (map_of options ''password'' = Some PNone \<and> map_of options ''client_keys'' = Some PNone)"
proof -
  let ?I = "\<lambda>l. \<forall>d. Ssh_connected d \<in> set l \<longrightarrow> d = sr_options q"
  have "keeps_log ?I (run_session p q)"
    unfolding run_session_def list_if_directory_def run_operation_def Let_def
    by (intro log_rules log_await log_under_breaker) (auto intro!: log_rules log_await log_under_breaker
        split: pyval.splits)
  from concluded_log [OF assms(2) [unfolded handle_sftp_request_def] log_sftp_exchange [OF this]] assms(3)
  have "options = sr_options q" by auto
  moreover from assms(1) obtain c keys where
    c: "sftp_credentials_of typed attr (br_auth b) keys = Inr c" "connect_options b c = Inr (sr_options q)"
    by (auto simp: sftp_request_of_def Let_def rbind_eq_Inr)
  ultimately show ?thesis
    using connect_options_lookup [OF c(2)] credentials_offered [OF c(1)]
    by (auto simp: host_key_policies_def split: if_splits)
qed

section \<open>Examples\<close>

definition one_turn :: "unit turn" where
  "one_turn = \<lparr>t_enter = 0, t_outcome = Returns (), t_failed = 0, t_callbacks = (\<lambda>_. None), t_sleep = None\<rparr>"

definition willing_failsafe :: failsafe where
  "willing_failsafe = \<lparr>fs_should_abort = (\<lambda>_ _. False), fs_is_retriable = (\<lambda>_ _. True), fs_for_attempt = (\<lambda>_ _. 0)\<rparr>"

definition willing_server :: ftp_peer where
  "willing_server =
     \<lparr>fp_failsafe = willing_failsafe, fp_hierarchy = (\<lambda>_. [Ext ''Exception'']), fp_texts = (\<lambda>_. []),
      fp_load = (\<lambda>_ _. LoadFailed), fp_bundle = None,
      fp_default_context = Inr \<lparr>check_hostname = True, cert_required = True\<rparr>,
      fp_enter = None, fp_connect = None, fp_upgrade = None, fp_login = None, fp_offers = (\<lambda>_. True),
      fp_turns = [one_turn], fp_stat = Inr (PDict []), fp_quit = None, fp_codes = (\<lambda>_. []),
      fp_cancelling = Some False, fp_cwd = []\<rparr>"

definition ftp_base :: base_request where
  "ftp_base = \<lparr>br_url = ''ftp.example.org'', br_auth = PBasicAuth ''user'' ''secret'',
     br_info = PDict [(PStr ''tls_mode'', PStr ''explicit''), (PStr ''command'', PStr ''download''),
       (PStr ''server_path'', PStr ''/pub/f''), (PStr ''client_path'', PStr ''/srv/data/f'')],
     br_redact = [], br_start = 0, br_timeout = PInt 15, br_certificate = PNone, br_breaker = 0\<rparr>"

definition explicit_request :: ftp_request where
  "explicit_request = \<lparr>fr_base = ftp_base, fr_port = PInt 21, fr_user = ''user'', fr_password = ''secret'',
     fr_command = PStr ''download'', fr_server_path = PStr ''/pub/f'', fr_client_path = PStr ''/srv/data/f'',
     fr_overwrite = False, fr_cap = MAX_RESPONSE_BYTES, fr_verify_ssl = PBool True,
     fr_tls_mode = Some ''explicit'', fr_effective_tls_mode = ''explicit''\<rparr>"

lemma explicit_request_made: "ftp_request_of (\<lambda>_ _. PNone) ftp_base = Inr explicit_request"
  by code_simp

definition explicit_download :: "(exchanged \<times> ftp_event list) option" where
  "explicit_download = handle_ftp_request willing_server (\<lambda>_. []) 1 explicit_request plain_breaker plain_env no_exceptions"

lemma explicit_download_calls:
  "map_option snd explicit_download = Some
    [New_client (Contained_path_io (contained_path_io \<lparr>p_root = ''/'', p_parts = [''srv'', ''data'', ''f'']\<rparr> False
       (Some \<lparr>bu_limit = MAX_RESPONSE_BYTES, bu_written = 0\<rparr>))),
     Connected ''ftp.example.org'' (PInt 21), Upgraded \<lparr>check_hostname = True, cert_required = True\<rparr>,
     Logged_in ''user'' ''secret'', Ran ''download'' [PStr ''/pub/f'', PStr ''/srv/data/f''] True,
     Stated ''/pub/f'', Quitted]"
  by code_simp

theorem ftp_credentials_need_verified_tls_witness:
  "case explicit_download of Some (x, calls) \<Rightarrow>
      Logged_in ''user'' ''secret'' \<in> set calls \<and> encrypted_log True calls | None \<Rightarrow> False"
proof -
  obtain x calls where d: "explicit_download = Some (x, calls)" "Logged_in ''user'' ''secret'' \<in> set calls"
    using explicit_download_calls by (cases explicit_download) auto
  have "encrypted_log (fr_effective_tls_mode explicit_request \<noteq> ''plaintext'') calls"
    by (rule ftp_credentials_need_verified_tls [OF explicit_request_made d(1) [unfolded explicit_download_def]])
      (simp add: willing_server_def)
  with d(2) show ?thesis unfolding d(1) option.case prod.case by (simp add: explicit_request_def)
qed

text \<open>
  The documentation of \<open>_tls_value\<close> promises a TLS failure when the system's certificates cannot be
  read. Without a client certificate they are read outside its handler: the call reports a local
  write.
\<close>

lemma unreadable_bundle_is_a_local_write:
  "map_option (\<lambda>((r, env, xs, b), calls). (map_option (\<lambda>i. ex_class (xs_heap xs i)) r, calls))
     (handle_ftp_request (willing_server\<lparr>fp_default_context := Inl \<lparr>ex_mro = [Ext ''OSError'', Ext ''Exception''],
        ex_text = ''unreadable'', ex_status = 0, ex_cause = None, ex_context = None\<rparr>\<rparr>)
        (\<lambda>_. []) 1 explicit_request plain_breaker plain_env no_exceptions)
   = Some (Some LocalWriteError, [])"
  by code_simp

definition sftp_base :: base_request where
  "sftp_base = \<lparr>br_url = ''sftp.example.org'', br_auth = PBasicAuth ''user'' ''secret'',
     br_info = PDict [(PStr ''mode'', PStr ''get''), (PStr ''remote_path'', PStr ''/pub/d''),
       (PStr ''local_path'', PStr ''/srv/data/d''), (PStr ''host_key'', PStr ''ssh-ed25519 AAAA'')],
     br_redact = [], br_start = 0, br_timeout = PInt 15, br_certificate = PNone, br_breaker = 0\<rparr>"

definition sftp_server :: sftp_peer where
  "sftp_server =
     \<lparr>sp_failsafe = willing_failsafe, sp_hierarchy = (\<lambda>_. [Ext ''Exception'']), sp_texts = (\<lambda>_. []),
      sp_fault = (\<lambda>_. failsafe_error CircuitOpen None None), sp_connect = None, sp_start = None,
      sp_lstat = Inr \<lparr>at_type = 2, at_fields = []\<rparr>, sp_listdir = Inr [''a'', ''b''], sp_isdir = Inr False,
      sp_offers = (\<lambda>_. True), sp_turns = [one_turn],
      sp_get_defaults = map (\<lambda>n. (n, PNone)) COPY_OPTIONS @ [(''remote_only'', PBool False)],
      sp_begin_copy = True, sp_exit = None, sp_close = None, sp_fx_code = (\<lambda>_. 0), sp_text = (\<lambda>_. []),
      sp_cwd = []\<rparr>"

definition tree_download :: "(exchanged \<times> sftp_event list) option" where
  "tree_download = (case sftp_request_of (\<lambda>_. None) (\<lambda>_ _. PNone) sftp_base of
     Inl e \<Rightarrow> None
   | Inr q \<Rightarrow> handle_sftp_request sftp_server (\<lambda>_. []) 1 q plain_breaker plain_env no_exceptions)"

lemma tree_download_calls:
  "map_option (\<lambda>((r, env, xs, b), calls). (r, env_ok env, map (\<lambda>c. case c of
       Ssh_connected d \<Rightarrow> map_of d ''known_hosts''
     | Ran_download (Inr c) \<Rightarrow> Some (PList (cc_options c)) | _ \<Rightarrow> None) calls)) tree_download
   = Some (None, True,
      [Some (PTuple [PList [PStr ''ssh-ed25519 AAAA''], PList [], PList []]), None, None, None,
       Some (PList [PNone, PBool True, PNone, PNone, PNone, PNone, PNone, PNone]), None, None])"
  by code_simp

lemma sftp_request_made: "is_ok (sftp_request_of (\<lambda>_. None) (\<lambda>_ _. PNone) sftp_base)"
  by code_simp

theorem sftp_skips_host_keys_only_by_name_witness:
  "case tree_download of Some (x, calls) \<Rightarrow>
     (\<forall>options. Ssh_connected options \<in> set calls \<longrightarrow> map_of options ''known_hosts'' \<noteq> Some PNone) | None \<Rightarrow> False"
proof -
  obtain q where q: "sftp_request_of (\<lambda>_. None) (\<lambda>_ _. PNone) sftp_base = Inr q"
    using sftp_request_made by (cases "sftp_request_of (\<lambda>_. None) (\<lambda>_ _. PNone) sftp_base") auto
  obtain x calls where d: "tree_download = Some (x, calls)"
    using tree_download_calls by (cases tree_download) auto
  have h: "handle_sftp_request sftp_server (\<lambda>_. []) 1 q plain_breaker plain_env no_exceptions = Some (x, calls)"
    using d by (simp add: tree_download_def q)
  have "host_key_policies (br_info sftp_base) = [''host_key'']" by code_simp
  with sftp_skips_host_keys_only_by_name [OF q h] show ?thesis unfolding d option.case prod.case by auto
qed

theorem file_transfers_keep_the_contract_witness:
  "case (explicit_download, tree_download) of
     (Some ((r, env, xs, b), _), Some ((sr, senv, sxs, sb), _)) \<Rightarrow>
       (r = None \<longrightarrow> env_ok env) \<and> (sr = None \<longrightarrow> env_ok senv)
   | _ \<Rightarrow> False"
proof -
  obtain q where q: "sftp_request_of (\<lambda>_. None) (\<lambda>_ _. PNone) sftp_base = Inr q"
    using sftp_request_made by (cases "sftp_request_of (\<lambda>_. None) (\<lambda>_ _. PNone) sftp_base") auto
  obtain r env xs b calls where d: "explicit_download = Some ((r, env, xs, b), calls)"
    using explicit_download_calls by (cases explicit_download) auto
  obtain sr senv sxs sb scalls where s: "tree_download = Some ((sr, senv, sxs, sb), scalls)"
    using tree_download_calls by (cases tree_download) auto
  have "ftp_sane willing_server" by code_simp
  from file_transfers_keep_the_contract [OF this d [unfolded explicit_download_def]
      s [unfolded tree_download_def q sum.case]] show ?thesis
    unfolding d s by (auto split: option.splits)
qed

end
