(* ===== verification/S3_Guarantees.thy ===== *)
theory S3_Guarantees
  imports S3 Transfers
begin

text \<open>
  What is shown of the S3 client: no known secret is left in what a call shows, what it raises and
  seals, and that the error of a service is the one of the last attempt.
\<close>

section \<open>Secrets\<close>

text \<open>
  The strings a caller sees below \<open>protocol_details\<close>: the values at any depth, and the keys of the
  metadata, which the server names. The token of the next page is the server's own and is exempt.
\<close>

fun value_strings :: "pyval \<Rightarrow> string list" where
  "value_strings (PStr s) = [s]"
| "value_strings (PList vs) = concat (map value_strings vs)"
| "value_strings (PTuple vs) = concat (map value_strings vs)"
| "value_strings (PDict kvs) = concat (map (\<lambda>kv. value_strings (snd kv)) kvs)"
| "value_strings _ = []"

definition shown_at :: "string \<Rightarrow> pyval \<Rightarrow> string list" where
  "shown_at k v =
     (if k = ''next_continuation_token'' then []
      else value_strings v @ (if k = ''metadata'' then concat (map (\<lambda>kv. value_strings (fst kv)) (entries v)) else []))"

definition shown_strings :: "(string, pyval) dict \<Rightarrow> string list" where
  "shown_strings d = concat (map (\<lambda>(k, v). shown_at k v) d)"

definition free_of :: "string \<Rightarrow> string list \<Rightarrow> bool" where
  "free_of t strings \<longleftrightarrow> (\<forall>s \<in> set strings. \<not> contains_str t s)"

fun scalar :: "pyval \<Rightarrow> bool" where
  "scalar (PList _) = False"
| "scalar (PTuple _) = False"
| "scalar (PDict _) = False"
| "scalar _ = True"

lemma scalarI [simp]: "v = PNone \<or> is_str v \<Longrightarrow> scalar v" "is_str v \<Longrightarrow> scalar v" "is_bool v \<Longrightarrow> scalar v"
  by (cases v; auto)+

lemma free_of_append [simp]: "free_of t (a @ b) \<longleftrightarrow> free_of t a \<and> free_of t b"
  by (auto simp: free_of_def)

lemma free_of_simps [simp]: "free_of t []" "free_of t (s # ss) \<longleftrightarrow> \<not> contains_str t s \<and> free_of t ss"
  by (auto simp: free_of_def)

lemma free_of_concat [simp]: "free_of t (concat ss) \<longleftrightarrow> (\<forall>s \<in> set ss. free_of t s)"
  by (auto simp: free_of_def)

lemma free_of_shown: "free_of t (shown_strings d) \<longleftrightarrow> (\<forall>(k, v) \<in> set d. free_of t (shown_at k v))"
  by (auto simp: shown_strings_def)

text \<open>One secret the redactor of a request knows.\<close>

definition hidden :: "s3_request \<Rightarrow> string \<Rightarrow> bool" where
  "hidden q t \<longleftrightarrow> t \<in> set (s3_secrets q) \<and> clear_of REDACTED t \<and> [] \<notin> set (s3_secrets q)"

lemma redactor_hides: "hidden q t \<Longrightarrow> \<not> contains_str t (redactor_text q s)"
  unfolding hidden_def redactor_text_def by (rule hide_secrets_hides) auto

lemma redacted_item_free: "hidden q t \<Longrightarrow> scalar v \<Longrightarrow> free_of t (shown_at k (redacted_item q v))"
  by (cases v) (auto simp: redacted_item_def shown_at_def redactor_hides)

lemma redacted_value_free: "hidden q t \<Longrightarrow> scalar v \<Longrightarrow> free_of t (value_strings (redacted_item q v))"
  by (cases v) (auto simp: redacted_item_def redactor_hides)

lemma fixed_free:
  "hidden q t \<Longrightarrow> \<forall>(k, v) \<in> set d. scalar v \<Longrightarrow> free_of t (value_strings (PDict (fixed_mapping_values q d)))"
  by (fastforce simp: fixed_mapping_values_def redacted_value_free)

lemma dict_set_entries: "kv \<in> set (dict_set d k v) \<Longrightarrow> kv \<in> set d \<or> snd kv = v \<and> (fst kv = k \<or> fst kv \<in> fst ` set d)"
  by (induction d k v rule: dict_set.induct) (auto split: if_splits)

lemma dynamic_free:
  assumes "hidden q t" "\<forall>(k, v) \<in> set d. scalar k \<and> scalar v"
  shows "\<forall>(k, v) \<in> set (dynamic_mapping q d). free_of t (value_strings k) \<and> free_of t (value_strings v)"
proof -
  have "\<forall>(k, v) \<in> set (fold (\<lambda>(k, v) acc. dict_set acc (redacted_item q k) (redacted_item q v)) d acc).
      free_of t (value_strings k) \<and> free_of t (value_strings v)"
    if "\<forall>(k, v) \<in> set acc. free_of t (value_strings k) \<and> free_of t (value_strings v)" for acc
    using assms(2) that
  proof (induction d arbitrary: acc)
    case (Cons kv d)
    obtain k v where kv: "kv = (k, v)" by fastforce
    have "\<forall>(a, b) \<in> set (dict_set acc (redacted_item q k) (redacted_item q v)).
        free_of t (value_strings a) \<and> free_of t (value_strings b)"
      using Cons.prems kv redacted_value_free [OF assms(1)]
      by (auto dest!: dict_set_entries)
    with Cons show ?case by (simp add: kv)
  qed simp
  from this [of "[]"] show ?thesis by (simp add: dynamic_mapping_def)
qed

text \<open>The details a success gives: flat, but for the metadata or the items.\<close>

lemma optional_scalar:
  "optional_string f v = Inr w \<Longrightarrow> scalar w" "optional_size f v = Inr w \<Longrightarrow> scalar w"
  "optional_timestamp p f v = Inr w \<Longrightarrow> scalar w"
  by (auto simp: optional_string_def optional_size_def optional_timestamp_def split: if_splits pyval.splits option.splits)

lemma byte_count_scalar: "required_byte_count c = Inr w \<Longrightarrow> scalar w"
  by (auto simp: required_byte_count_def split: option.splits dest: optional_scalar)

definition flat_but :: "string \<Rightarrow> (pyval \<Rightarrow> bool) \<Rightarrow> (string, pyval) dict \<Rightarrow> bool" where
  "flat_but n P d \<longleftrightarrow> (\<forall>(k, v) \<in> set d. if k = n then P v else scalar v)"

lemma transfer_details_flat:
  assumes "success_details p q response count = Inr d" "s3_command q \<in> {''download'', ''upload''}" "scalar (s3_local_path q)"
  shows "flat_but n scalar d"
  using assms by (auto simp: success_details_def flat_but_def rbind_eq_Inr dest: optional_scalar byte_count_scalar)

lemma strings_scalar:
  assumes "list_all (\<lambda>(k, v). is_str k \<and> is_str v) d" "(k, v) \<in> set d"
  shows "scalar k" "scalar v"
  using assms by (auto simp: list_all_iff)

lemma head_details_flat:
  assumes "head_details p q response = Inr d"
  shows "flat_but ''metadata'' (\<lambda>v. \<forall>(k, w) \<in> set (entries v). scalar k \<and> scalar w) d"
proof -
  from assms obtain m l ty e t where
    "list_all (\<lambda>(k, v). is_str k \<and> is_str v) m" "scalar l" "scalar ty" "scalar e" "scalar t"
    "d = [(''command'', PStr (s3_command q)), (''bucket'', PStr (s3_bucket q)), (''key'', PStr (s3_key q)),
      (''content_length'', l), (''content_type'', ty), (''etag'', e), (''last_modified'', t),
      (''metadata'', PDict m)]"
    by (auto simp: head_details_def Let_def rbind_eq_Inr ensure_eq_Inr dest!: optional_scalar)
  then show ?thesis by (auto simp: flat_but_def dest: strings_scalar)
qed

lemma list_item_flat: "list_item p v = Inr w \<Longrightarrow> \<forall>(k, x) \<in> set (entries w). scalar x"
  by (auto simp: list_item_def Let_def rbind_eq_Inr ensure_eq_Inr dest: optional_scalar)

lemma items_flat:
  assumes "rmap (list_item p) vs = Inr items" "w \<in> set items" "(k, x) \<in> set (entries w)"
  shows "scalar x"
proof -
  from assms(1,2) obtain v where "list_item p v = Inr w"
    by (auto simp: rmap_Inr_iff list_all2_conv_all_nth in_set_conv_nth)
  with assms(3) show ?thesis by (auto dest!: list_item_flat)
qed

lemma list_details_flat:
  "list_details p q response = Inr d \<Longrightarrow>
     flat_but ''items'' (\<lambda>v. \<exists>vs. v = PList vs \<and> (\<forall>w \<in> set vs. \<forall>(k, x) \<in> set (entries w). scalar x)) d"
  by (auto simp: list_details_def flat_but_def rbind_eq_Inr ensure_eq_Inr dest: optional_scalar items_flat
      split: pyval.splits)

text \<open>What redaction leaves of them.\<close>

lemma update_shown:
  assumes "hidden q t" "flat_but n P d" "\<And>k v. P v \<Longrightarrow> (n, v) \<in> set d \<Longrightarrow> free_of t (shown_at n (f (redacted_item q v)))"
  shows "free_of t (shown_strings (dict_update (fixed_mapping_values q d) n f))"
  using assms redacted_item_free [OF assms(1)]
  by (fastforce simp: free_of_shown dict_update_def fixed_mapping_values_def flat_but_def split: if_splits)

lemma fixed_shown:
  "hidden q t \<Longrightarrow> flat_but n scalar d \<Longrightarrow> free_of t (shown_strings (fixed_mapping_values q d))"
  using redacted_item_free [of q t]
  by (fastforce simp: free_of_shown fixed_mapping_values_def flat_but_def split: if_splits)

lemma token_shown:
  "free_of t (shown_strings (dict_update d ''next_continuation_token'' f)) \<longleftrightarrow> free_of t (shown_strings d)"
  by (fastforce simp: free_of_shown dict_update_def shown_at_def split: if_splits)

lemma redacted_item_same [simp]: "redacted_item q (PDict d) = PDict d" "redacted_item q (PList vs) = PList vs"
  by (simp_all add: redacted_item_def)

section \<open>What the options promise\<close>

lemma dget_info_set: "dget (info_set info k v) k' = (if k' = k then Some v else dget info k')"
  by (simp add: dget_def info_set_def map_of_dict_set)

lemma checked_entry_Inr:
  "checked_entry check k dflt info = Inr info' \<longleftrightarrow> (\<exists>v. check (dget_or info k dflt) = Inr v \<and> info' = info_set info k v)"
  by (auto simp: checked_entry_def rbind_eq_Inr)

lemma nonempty_string_Inr: "nonempty_string v = Inr w \<longleftrightarrow> w = v \<and> (\<exists>s. v = PStr s \<and> str_strip s \<noteq> [])"
  by (auto simp: nonempty_string_def split: pyval.splits)

lemma dget_keys: "dget info k \<noteq> None \<Longrightarrow> k \<in> set (str_keys (entries info))"
  by (auto simp: dget_def str_keys_mem map_of_eq_None_iff image_iff)

text \<open>The options a constructed request relies on.\<close>

definition options_ok :: "pyval \<Rightarrow> bool" where
  "options_ok info \<longleftrightarrow>
     (\<exists>c \<in> set S3_COMMANDS. dget info ''command'' = Some (PStr c)) \<and> scalar (dget_or info ''local_path'' PNone) \<and>
     (dget info ''continuation_token'' = None \<or>
       (\<exists>s. dget info ''continuation_token'' = Some (PStr s) \<and> str_strip s \<noteq> []))"

lemma strip_Nil [simp]: "str_strip [] = []"
  by (simp add: str_strip_def lstrip_by_def rstrip_by_def)

lemma given_only:
  assumes "set (str_keys (entries info)) \<subseteq> ks" "k \<notin> ks"
  shows "dget info k = None"
  using assms dget_keys [of info k] by blast

lemma checked_if_given_Inr:
  "checked_if_given check k info = Inr info' \<longleftrightarrow>
     (if dhas info k then \<exists>v. check (dget_or info k PNone) = Inr v \<and> info' = info_set info k v else info' = info)"
  by (auto simp: checked_if_given_def checked_entry_Inr)

lemma checked_string:
  assumes "checked_if_given nonempty_string k info = Inr info'"
  shows "dget info' k' = dget info k'" "\<forall>v. dget info' k = Some v \<longrightarrow> (\<exists>s. v = PStr s \<and> str_strip s \<noteq> [])"
  using assms
  by (auto simp: checked_if_given_Inr dget_info_set nonempty_string_Inr dget_or_def dhas_def split: if_splits option.splits)

lemma s3_options_ok:
  assumes "s3_options command info = Inr info'" "command \<in> set S3_COMMANDS" "dget info ''command'' = Some (PStr command)"
  shows "options_ok info'"
proof -
  let ?ks = "set (dict_get_or S3_OPERATION_INFO_KEYS command [])"
  note table = dict_get_or_def S3_OPERATION_INFO_KEYS_def S3_BASE_INFO_KEYS_def
  obtain i where keys: "set (str_keys (entries info)) \<subseteq> ?ks"
    and i: "checked_if_given nonempty_string ''region'' info = Inr i"
    using assms(1) by (auto simp: s3_options_def rbind_eq_Inr ensure_eq_Inr)
  note same = checked_string(1) [OF i]
  have command: "dget i ''command'' = Some (PStr command)" by (simp add: same assms(3))
  have absent: "dget i k = None" if "k \<notin> ?ks" for k
    using given_only [OF keys that] by (simp add: same)
  note common = options_ok_def S3_COMMANDS_def rbind_eq_Inr ensure_eq_Inr checked_entry_Inr dget_info_set
    nonempty_string_Inr dget_or_def
  consider "command = ''download''" | "command = ''upload''" | "command = ''head''" | "command = ''list''"
    using assms(2) by (auto simp: S3_COMMANDS_def)
  then show ?thesis
  proof cases
    case 1
    with assms(1) i command absent [of "''continuation_token''"] show ?thesis
      by (auto simp: s3_options_def common table)
  next
    case 2
    with assms(1) i command absent [of "''continuation_token''"] show ?thesis
      by (auto simp: s3_options_def common table)
  next
    case 3
    with assms(1) i command absent [of "''continuation_token''"] absent [of "''local_path''"] show ?thesis
      by (auto simp: s3_options_def common table)
  next
    case 4
    with assms(1) i obtain j v where j: "checked_if_given nonempty_string ''continuation_token'' j = Inr info'"
        "j = info_set i ''max_items'' v"
      by (auto simp: s3_options_def rbind_eq_Inr ensure_eq_Inr checked_entry_Inr)
    with 4 absent [of "''local_path''"] checked_string [OF j(1)] command show ?thesis
      by (cases "dget i ''continuation_token''") (auto simp: common table)
  qed
qed

lemma validated_s3_info_ok:
  assumes "validated_s3_info raw = Inr (info, warned)"
  shows "options_ok info"
proof -
  from assms obtain i command where "s3_command_of (dget_or i ''command'' PNone) = Inr command"
      "s3_options command (info_set i ''command'' (PStr command)) = Inr info"
    by (auto simp: validated_s3_info_def rbind_eq_Inr split: prod.splits)
  then show ?thesis
    by (intro s3_options_ok [of command]) (auto simp: s3_command_of_def dget_info_set split: pyval.splits if_splits)
qed

text \<open>The secrets of a constructed request are the credentials and the token of the page.\<close>

lemma s3_request_parts:
  assumes "s3_request_of ip6 attr b = Inr q"
  shows "s3_command q = str_of_val (dget_or (br_info b) ''command'' PNone)"
    "s3_local_path q = dget_or (br_info b) ''local_path'' PNone"
    "s3_token q = dget_or (br_info b) ''continuation_token'' PNone"
    "s3_credentials_of attr (br_auth b) = Inr (s3_credentials q)"
    "s3_secrets q = s3_secrets_of (s3_credentials q) (s3_token q)" "s3_base q = b"
  using assms by (auto simp: s3_request_of_def Let_def rbind_eq_Inr split: prod.splits)

lemma s3_credentials_nonempty:
  "s3_credentials_of attr auth = Inr (Some (l, p)) \<Longrightarrow> l \<noteq> [] \<and> p \<noteq> []"
  by (auto simp: s3_credentials_of_def split: pyval.splits if_splits)

lemma s3_request_fields:
  assumes "s3_request_of ip6 attr b = Inr q" "options_ok (br_info b)"
  shows "s3_command q \<in> set S3_COMMANDS" "scalar (s3_local_path q)" "[] \<notin> set (s3_secrets q)"
    "set (s3_secrets q) = (case s3_credentials q of None \<Rightarrow> {} | Some (l, p) \<Rightarrow> {l, p}) \<union>
       (case s3_token q of PStr s \<Rightarrow> {s} | _ \<Rightarrow> {})"
proof -
  note parts = s3_request_parts [OF assms(1)]
  have token: "s3_token q = PNone \<or> (\<exists>s. s3_token q = PStr s \<and> s \<noteq> [])"
    using assms(2) by (auto simp: parts(3) options_ok_def dget_or_def)
  show "s3_command q \<in> set S3_COMMANDS" "scalar (s3_local_path q)"
    using assms(2) by (auto simp: parts(1,2) options_ok_def dget_or_def str_of_val_def)
  show "[] \<notin> set (s3_secrets q)"
    using token s3_credentials_nonempty [of attr "br_auth b"] parts(4)
    by (cases "s3_credentials q") (fastforce simp: parts(5) s3_secrets_of_def str_of_val_def)+
  show "set (s3_secrets q) = (case s3_credentials q of None \<Rightarrow> {} | Some (l, p) \<Rightarrow> {l, p}) \<union>
       (case s3_token q of PStr s \<Rightarrow> {s} | _ \<Rightarrow> {})"
    using token by (auto simp: parts(5) s3_secrets_of_def str_of_val_def split: option.splits)
qed

section \<open>What is left on the envelope and on the exception\<close>

lemma surfaces_details:
  "env_url (redact_surfaces q kind env) = redactor_text q (env_url env)"
  "env_details (redact_surfaces q kind env) = (let redacted = fixed_mapping_values q (env_details env) in
     if kind = ''success'' \<and> s3_command q = ''head''
     then dict_update redacted ''metadata'' (\<lambda>v. PDict (dynamic_mapping q (entries v)))
     else if kind = ''success'' \<and> s3_command q = ''list''
     then dict_update (dict_update redacted ''items''
         (\<lambda>v. PList (map (\<lambda>item. PDict (fixed_mapping_values q (entries item))) (elements v))))
       ''next_continuation_token''
       (\<lambda>_. case map_of (env_details env) ''next_continuation_token'' of Some v \<Rightarrow> v | None \<Rightarrow> PNone)
     else if kind = ''service''
     then dict_update redacted ''response_metadata'' (\<lambda>v. PDict (fixed_mapping_values q (entries v)))
     else redacted)"
  by (simp_all add: redact_surfaces_def Let_def)

lemma scalar_entries [simp]: "scalar v \<Longrightarrow> entries v = []"
  by (cases v) auto

lemma entries_redacted [simp]: "entries (redacted_item q v) = entries v"
  by (cases v) (simp_all add: redacted_item_def)

lemma metadata_free:
  assumes "hidden q t" "\<forall>(k, w) \<in> set (entries v). scalar k \<and> scalar w"
  shows "free_of t (shown_at ''metadata'' (PDict (dynamic_mapping q (entries v))))"
  using dynamic_free [OF assms] by (auto simp: shown_at_def)

lemma mapping_free:
  assumes "hidden q t" "\<forall>(k, w) \<in> set (entries v). scalar w"
  shows "free_of t (value_strings (PDict (fixed_mapping_values q (entries v))))"
  using fixed_free [OF assms] .

lemma items_free:
  assumes "hidden q t" "\<forall>w \<in> set vs. \<forall>(k, x) \<in> set (entries w). scalar x"
  shows "free_of t (shown_at ''items'' (PList (map (\<lambda>item. PDict (fixed_mapping_values q (entries item))) vs)))"
proof -
  have "\<forall>w \<in> set vs. free_of t (value_strings (PDict (fixed_mapping_values q (entries w))))"
    using mapping_free [OF assms(1)] assms(2) by blast
  then show ?thesis unfolding shown_at_def by simp
qed

lemma success_surfaces:
  assumes "hidden q t" "success_details p q response count = Inr (env_details env)"
    "s3_command q \<in> set S3_COMMANDS" "scalar (s3_local_path q)"
  shows "free_of t (shown_strings (env_details (redact_surfaces q ''success'' env)))"
proof -
  consider "s3_command q \<in> {''download'', ''upload''}" | "s3_command q = ''head''" | "s3_command q = ''list''"
    using assms(3) by (auto simp: S3_COMMANDS_def)
  then show ?thesis
  proof cases
    case 1
    from fixed_shown [OF assms(1) transfer_details_flat [OF assms(2) 1 assms(4), of "[]"]] 1 show ?thesis
      by (auto simp: surfaces_details)
  next
    case 2
    with assms(2) have "head_details p q response = Inr (env_details env)" by (simp add: success_details_def)
    from update_shown [OF assms(1) head_details_flat [OF this]] have
      "free_of t (shown_strings (dict_update (fixed_mapping_values q (env_details env)) ''metadata''
         (\<lambda>v. PDict (dynamic_mapping q (entries v)))))"
      using metadata_free [OF assms(1)] by simp
    with 2 show ?thesis by (simp add: surfaces_details)
  next
    case 3
    with assms(2) have "list_details p q response = Inr (env_details env)" by (simp add: success_details_def)
    have "free_of t (shown_strings (dict_update (fixed_mapping_values q (env_details env)) ''items''
         (\<lambda>v. PList (map (\<lambda>item. PDict (fixed_mapping_values q (entries item))) (elements v)))))"
      by (rule update_shown [OF assms(1) list_details_flat [OF \<open>list_details p q response = Inr (env_details env)\<close>]])
        (elim exE conjE, simp add: items_free [OF assms(1)])
    with 3 show ?thesis by (simp add: surfaces_details token_shown)
  qed
qed

lemma service_surfaces:
  assumes "hidden q t" "env_details env = service_details q response"
  shows "free_of t (shown_strings (env_details (redact_surfaces q ''service'' env)))"
proof -
  have "flat_but ''response_metadata'' (\<lambda>v. \<forall>(k, w) \<in> set (entries v). scalar w) (service_details q response)"
    by (auto simp: service_details_def Let_def flat_but_def safe_text_def int_or_none_def split: pyval.splits option.splits)
  from update_shown [OF assms(1) this] have
    "free_of t (shown_strings (dict_update (fixed_mapping_values q (service_details q response)) ''response_metadata''
       (\<lambda>v. PDict (fixed_mapping_values q (entries v)))))"
    using mapping_free [OF assms(1)] by (simp add: shown_at_def)
  with assms(2) show ?thesis by (simp add: surfaces_details)
qed

section \<open>The run\<close>

lemma checked_answer_Inr: "checked_answer x r = Some (Inr a, r') \<longleftrightarrow> x = Inr a \<and> r' = r"
  by (cases x) (auto simp: checked_answer_def)

lemma s3_execute_success:
  assumes "s3_execute p q url r = Some (Inr (status, details), r')"
  obtains response count where "success_details p q response count = Inr details" "200 \<le> status" "status \<le> 299"
proof -
  from assms obtain response count where "s3_answer p q response count = Inr (status, details)"
    by (auto simp: s3_execute_def sc_bind_Inr checked_answer_Inr)
  then show thesis
    using that [of response count]
    by (auto simp: s3_answer_def rbind_eq_Inr success_status_def split: option.splits pyval.splits if_splits)
qed

text \<open>The only details a call assigns before it succeeds are those of a service's error.\<close>

definition details_of_service :: "s3_request \<Rightarrow> s3_event list \<Rightarrow> bool" where
  "details_of_service q l \<longleftrightarrow> (\<forall>d. Detailed d \<in> set l \<longrightarrow> (\<exists>response. d = service_details q response))"

lemma details_append [simp]:
  "details_of_service q (l @ [ev]) \<longleftrightarrow>
     details_of_service q l \<and> (\<forall>d. ev = Detailed d \<longrightarrow> (\<exists>response. d = service_details q response))"
  by (auto simp: details_of_service_def)

lemma assigned_in_log: "assigned_details l = Some d \<Longrightarrow> Detailed d \<in> set l"
  by (induction l rule: assigned_details.induct) (auto split: option.splits)

lemma raise_error_log:
  assumes "raise_operation_error p q url err attempt r = Some (y, r')" "details_of_service q (ru_log r)"
  shows "details_of_service q (ru_log r')"
  using assms
  by (auto simp: raise_operation_error_def public_service_error_def sc_bind_def sc_say_def Let_def
      split: if_splits option.splits dest!: same_log)

lemma raise_sdk_log: "raise_sdk_error q err r = Some (y, r') \<Longrightarrow> ru_log r' = ru_log r"
  by (auto simp: raise_sdk_error_def sc_bind_def split: if_splits option.splits sum.splits
      dest!: same_log sc_set_text_Some)

lemma log_operation: "keeps_log (details_of_service q) (s3_operation p q url body)"
  unfolding s3_operation_def
  by (intro log_bind log_attempts)
    (auto intro: log_rules keeps_logI raise_error_log split: sum.split)

lemma log_execute: "keeps_log (details_of_service q) (s3_execute p q url)"
  unfolding s3_execute_def s3_session_def run_client_context_def s3_upload_body_def checked_answer_def
  by (intro log_rules log_await log_lifecycle log_operation)
    (auto intro: log_rules keeps_logI simp: raise_sdk_log split: sum.split)

section \<open>Failures\<close>

definition S3_FAULTS :: "exc_class list" where
  "S3_FAULTS = CREDENTIAL_FAILURES @ SDK_TRANSPORT_FAILURES"

definition settled_fault :: "exc_class list \<Rightarrow> exc_class list \<Rightarrow> bool" where
  "settled_fault faults mro \<longleftrightarrow> is_instance mro [AsyncGatewayError] \<or> \<not> is_instance mro faults"

lemma gateway_mro [simp]: "is_lib c \<Longrightarrow> is_instance (lib_mro c) [AsyncGatewayError]"
  using lib_mro_gateway [of c] by (simp add: is_instance_def)

lemma settled_throw:
  "sc_throw e r = Some (Inl i, r') \<Longrightarrow> ex_mro e = lib_mro c \<Longrightarrow> is_lib c \<Longrightarrow> settled_fault faults (sc_mro i r')"
  by (auto simp: settled_fault_def sc_mro_def dest!: sc_throw_eq)

lemma sdk_error_lib [simp]: "is_lib (sdk_error_class mro)"
  by (simp add: sdk_error_class_def)

lemma new_gateway_error_mro [simp]: "ex_mro (new_gateway_error c m s) = lib_mro c"
  by (simp add: new_gateway_error_def)

lemma raise_sdk_settled:
  "raise_sdk_error q err r = Some (Inl i, r') \<Longrightarrow> settled_fault S3_FAULTS (sc_mro i r')"
  by (auto simp: raise_sdk_error_def sc_bind_Inl sc_raise_instead_def unresolved_credentials_def sdk_transport_error_def
      settled_fault_def S3_FAULTS_def is_instance_append sc_mro_def split: if_splits
      dest!: sc_set_text_Some sc_throw_eq)

lemma s3_execute_settled:
  assumes "s3_execute p q url r = Some (Inl i, r')"
    and "\<And>e. sx_upload p = Inl e \<Longrightarrow> settled_fault S3_FAULTS (ex_mro e)"
  shows "settled_fault S3_FAULTS (sc_mro i r')"
proof -
  have "settled_fault S3_FAULTS (sc_mro i r')" if "checked_answer x r1 = Some (Inl i, r')" for x :: "string + int \<times> (string, pyval) dict" and r1
    using that by (cases x) (auto simp: checked_answer_def malformed_success_def elim: settled_throw)
  then show ?thesis
    using assms
    by (auto simp: s3_execute_def sc_bind_Inl s3_session_def sc_catch_Inl s3_upload_body_def sc_mro_def
        dest!: sc_await_Inl raise_sdk_settled split: if_splits)
qed

lemma sealed_surfaces [simp]: "sealed str_of (redact_surfaces q kind env) = sealed str_of env"
  "env_ok (redact_surfaces q kind env) = env_ok env" "env_status (redact_surfaces q kind env) = env_status env"
  by (simp_all add: redact_surfaces_def sealed_def Let_def)

lemma s3_answered:
  assumes "handle_s3_request p str_of now q br env xs = Some ((None, env', xs', br'), calls)"
  shows "sealed str_of env' \<and> env_ok env' \<and> 200 \<le> env_status env' \<and> env_status env' \<le> 299"
  using assms
  by (auto simp: handle_s3_request_def Let_def finalise_ok_sealed split: option.splits sum.splits
      elim!: s3_execute_success)

lemma s3_reported:
  assumes "handle_s3_request p str_of now q br env xs = Some ((Some i, env', xs', br'), calls)"
    and "\<And>e. sx_upload p = Inl e \<Longrightarrow> settled_fault S3_FAULTS (ex_mro e)"
  shows "settled_fault S3_FAULTS (ex_mro (xs_heap xs' i))"
  using assms s3_execute_settled [OF _ assms(2)]
  by (auto simp: handle_s3_request_def Let_def redact_exception_def sc_mro_def split: option.splits sum.splits if_splits)

section \<open>Properties\<close>

text \<open>
  C13. A secret of an S3 call is not shown. Whatever the service answers and however the call ends, the
  credentials and the caller's page token occur in no value below \<open>protocol_details\<close> but
  \<open>next_continuation_token\<close> (the service's own token, which the caller needs as it is), in no key of
  the metadata, not in the URL and not in the message of an exception of the library, which keeps
  neither cause nor context; an exception that is none of the library's leaves as it was. Left out are
  secrets that hold an asterisk or occur in the mark \<open>***redacted***\<close>: the marks put in could show
  them again.
\<close>

theorem s3_secrets_are_never_shown:
  assumes "validated_s3_info raw = Inr (br_info b, warned)" "s3_request_of ip6 attr b = Inr q"
    and "handle_s3_request p str_of now q br env xs = Some ((ended, env', xs', br'), calls)" "env_details env = []"
    and "s3_credentials_of attr (br_auth b) = Inr credentials"
    and "(\<exists>l s. credentials = Some (l, s) \<and> t \<in> {l, s}) \<or> dget (br_info b) ''continuation_token'' = Some (PStr t)"
    and "clear_of REDACTED t"
  shows "\<not> contains_str t (env_url env') \<and> free_of t (shown_strings (env_details env')) \<and>
    (\<forall>i. ended = Some i \<and> is_instance (ex_mro (xs_heap xs' i)) [AsyncGatewayError] \<longrightarrow>
       \<not> contains_str t (ex_text (xs_heap xs' i)) \<and> ex_cause (xs_heap xs' i) = None \<and> ex_context (xs_heap xs' i) = None)"
proof -
  note parts = s3_request_parts [OF assms(2)]
  note fields = s3_request_fields [OF assms(2) validated_s3_info_ok [OF assms(1)]]
  have "t \<in> set (s3_secrets q)"
    using assms(5,6) parts(3,4) unfolding fields(4) by (auto simp: dget_or_def)
  then have h: "hidden q t" using assms(7) fields(3) by (simp add: hidden_def)
  have t: "t \<noteq> []" using assms(7) by (simp add: clear_of_def)
  let ?r = "\<lparr>ru_log = [], ru_store = xs, ru_breaker = br\<rparr>"
  obtain x r where x: "s3_execute p q (env_url env) ?r = Some (x, r)"
    using assms(3) by (auto simp: handle_s3_request_def split: option.splits)
  show ?thesis
  proof (cases x)
    case (Inl i)
    have log: "details_of_service q (ru_log r)"
      by (rule keeps_logD [OF log_execute x]) (simp add: details_of_service_def)
    have "free_of t (shown_strings (env_details env'))"
    proof (cases "assigned_details (ru_log r)")
      case None
      with assms(3,4) x Inl show ?thesis
        by (auto simp: handle_s3_request_def Let_def surfaces_details fixed_mapping_values_def shown_strings_def)
    next
      case (Some d)
      then obtain response where "d = service_details q response"
        using log assigned_in_log [OF Some] by (auto simp: details_of_service_def)
      with service_surfaces [OF h, of "env\<lparr>env_details := d\<rparr>" response] assms(3) x Inl Some show ?thesis
        by (auto simp: handle_s3_request_def Let_def)
    qed
    with assms(3) x Inl t redactor_hides [OF h] show ?thesis
      by (auto simp: handle_s3_request_def Let_def surfaces_details redact_exception_def sc_mro_def
          split: option.splits if_splits)
  next
    case (Inr answer)
    obtain status details where a: "answer = (status, details)" by fastforce
    from s3_execute_success [OF x [unfolded Inr a]] obtain response count where
      d: "success_details p q response count = Inr details" by blast
    let ?env = "finalise_ok str_of now status (br_start (s3_base q)) (env\<lparr>env_details := details\<rparr>)"
    have "env_details ?env = details" by (simp add: finalise_ok_def seal_def)
    with success_surfaces [OF h _ fields(1,2), of p response count ?env] d have
      "free_of t (shown_strings (env_details (redact_surfaces q ''success'' ?env)))" by simp
    with assms(3) x a Inr redactor_hides [OF h] show ?thesis
      by (auto simp: handle_s3_request_def surfaces_details)
  qed
qed

text \<open>
  C14. The SDK's client is left, once and last, however the operation under the breaker ended, and
  leaving it changes no outcome but as the contract has it: a cancellation that the body raised
  stays; else the first cancellation during the exit wins, else what the exit raised, else the
  failure of the body, with the message, cause and context it had before the exit touched it, unless
  the exit suppressed it, which becomes a failure of its own. A value passes only a clean exit.
\<close>

theorem s3_client_is_left_last:
  assumes "sx_enter p = None" "run_client_context p q url body r = Some (y, r3)"
    and "s3_operation p q url body (r\<lparr>ru_log := ru_log r @ [Client_entered]\<rparr>) = Some (x, r2)"
    and "\<And>i. x = Inl i \<Longrightarrow> i < xs_next (ru_store r2)"
  shows "ru_log r3 = ru_log r2 @ [Client_left] \<and> ru_breaker r3 = ru_breaker r2 \<and>
    lifecycle_end (sx_leave p) suppressed_failure x (xs_heap (ru_store r2)) y (xs_heap (ru_store r3))"
proof -
  let ?r = "r\<lparr>ru_log := ru_log r @ [Client_entered]\<rparr>"
  have "sc_await Client_entered (raised (sx_enter p)) r = Some (Inr (), ?r)"
    by (simp add: sc_await_Inr assms(1) raised_def)
  with assms(2) have run:
    "sc_lifecycle Client_left (sx_leave p) suppressed_failure (s3_operation p q url body) ?r = Some (y, r3)"
    by (simp add: run_client_context_def sc_bind_def)
  show ?thesis
  proof (cases x)
    case (Inl i)
    from lifecycle_after_failure [OF assms(3) [unfolded Inl] run assms(4) [OF Inl]] Inl show ?thesis by simp
  next
    case (Inr a)
    from lifecycle_after_success [OF assms(3) [unfolded Inr] run] Inr show ?thesis by simp
  qed
qed

section \<open>Examples\<close>

text \<open>
  A listing that the service refuses, echoing the caller's secret in its message; the caller is
  cancelled while the client is left.
\<close>

definition s3_example_base :: base_request where
  "s3_example_base = \<lparr>br_url = ''s3://b/d'', br_auth = PBasicAuth ''AKIA1'' ''hunter2'',
     br_info = PDict [(PStr ''command'', PStr ''list''), (PStr ''max_items'', PInt 1000)],
     br_redact = [], br_start = 0, br_timeout = PInt 15, br_certificate = PNone, br_breaker = 0\<rparr>"

definition basic_attr :: "pyval \<Rightarrow> string \<Rightarrow> pyval" where
  "basic_attr _ k = (if k = ''login'' then PStr ''AKIA1'' else PStr ''hunter2'')"

definition refused_call :: "(pyval \<times> int) turn" where
  "refused_call = \<lparr>t_enter = 0, t_outcome = Raises \<lparr>ex_mro = [ClientError, Ext ''Exception''], ex_text = [],
       ex_status = 0, ex_cause = None, ex_context = None\<rparr>, t_failed = 0, t_callbacks = (\<lambda>_. None), t_sleep = None\<rparr>"

definition echoing_service :: s3_peer where
  "echoing_service =
     \<lparr>sx_failsafe = willing_failsafe\<lparr>fs_should_abort := (\<lambda>_ _. True)\<rparr>, sx_upload = Inr [],
      sx_session = None, sx_enter = None, sx_turns = [refused_call],
      sx_response = (\<lambda>_. PDict [(PStr ''Error'', PDict [(PStr ''Code'', PStr ''No''),
          (PStr ''Message'', PStr ''hunter2'')]),
        (PStr ''ResponseMetadata'', PDict [(PStr ''HTTPStatusCode'', PInt 403)])]),
      sx_leave = \<lparr>fw_interrupts = 0, fw_outcome = Inr False, fw_touches = (\<lambda>e. e\<lparr>ex_text := ''hunter2''\<rparr>)\<rparr>,
      sx_isoformat = (\<lambda>_. None), sx_iso_accepts = (\<lambda>_. True)\<rparr>"

definition s3_example :: "(exchanged \<times> s3_event list) option" where
  "s3_example = (case s3_request_of (\<lambda>_. False) basic_attr s3_example_base of
     Inl e \<Rightarrow> None
   | Inr q \<Rightarrow> handle_s3_request echoing_service (\<lambda>_. []) 1 q plain_breaker plain_env no_exceptions)"

lemma s3_example_made: "is_ok (s3_request_of (\<lambda>_. False) basic_attr s3_example_base)"
  by code_simp

text \<open>The operation alone, and the same under a client that is left while the caller is cancelled.\<close>

definition before_operation :: "s3_event run" where
  "before_operation = \<lparr>ru_log = [], ru_store = no_exceptions, ru_breaker = plain_breaker\<rparr>"

definition interrupted_service :: s3_peer where
  "interrupted_service =
     echoing_service\<lparr>sx_leave := \<lparr>fw_interrupts = 2, fw_outcome = Inr True, fw_touches = (\<lambda>e. e)\<rparr>\<rparr>"

definition operated :: "((nat + pyval \<times> int option) \<times> s3_event run) option" where
  "operated = (case s3_request_of (\<lambda>_. False) basic_attr s3_example_base of
     Inl e \<Rightarrow> None
   | Inr q \<Rightarrow> s3_operation interrupted_service q ''s3://b/d'' []
       (before_operation\<lparr>ru_log := [Client_entered]\<rparr>))"

lemma operated_outcome:
  "map_option (\<lambda>(x, r). case x of
      Inl i \<Rightarrow> i < xs_next (ru_store r) \<and> ex_class (xs_heap (ru_store r) i) = S3StatusError \<and>
        \<not> is_instance (ex_mro (xs_heap (ru_store r) i)) [CancelledError]
    | Inr _ \<Rightarrow> False) operated = Some True"
  by code_simp

lemma lifecycle_ends: "body r \<noteq> None \<Longrightarrow> sc_lifecycle ev fw e body r \<noteq> None"
  by (auto simp: sc_lifecycle_def Let_def raise_exact_def sc_throw_def
      split: prod.splits sum.splits option.splits)

lemma s3_example_ends: "s3_example \<noteq> None"
proof -
  have "map_option (\<lambda>q. s3_execute echoing_service q (env_url plain_env)
      \<lparr>ru_log = [], ru_store = no_exceptions, ru_breaker = plain_breaker\<rparr> = None)
    (case s3_request_of (\<lambda>_. False) basic_attr s3_example_base of Inl e \<Rightarrow> None | Inr q \<Rightarrow> Some q) = Some False"
    by code_simp
  then show ?thesis
    by (auto simp: s3_example_def handle_s3_request_def Let_def split: sum.splits option.splits)
qed

theorem s3_secrets_are_never_shown_witness:
  "case s3_example of Some ((r, env, xs, b), calls) \<Rightarrow>
      free_of ''hunter2'' (shown_strings (env_details env)) \<and> \<not> contains_str ''hunter2'' (env_url env)
   | None \<Rightarrow> False"
proof -
  obtain q where q: "s3_request_of (\<lambda>_. False) basic_attr s3_example_base = Inr q"
    using s3_example_made by (cases "s3_request_of (\<lambda>_. False) basic_attr s3_example_base") auto
  obtain r env xs b calls where d: "s3_example = Some ((r, env, xs, b), calls)"
    using s3_example_ends by auto
  have h: "handle_s3_request echoing_service (\<lambda>_. []) 1 q plain_breaker plain_env no_exceptions = Some ((r, env, xs, b), calls)"
    using d by (simp add: s3_example_def q)
  have v: "validated_s3_info (br_info s3_example_base) = Inr (br_info s3_example_base, False)" by code_simp
  have c: "s3_credentials_of basic_attr (br_auth s3_example_base) = Inr (Some (''AKIA1'', ''hunter2''))" by code_simp
  have t: "clear_of REDACTED ''hunter2''" by code_simp
  have env: "env_details plain_env = []" by code_simp
  from s3_secrets_are_never_shown [OF v q h env c _ t] show ?thesis unfolding d option.case prod.case by simp
qed

theorem s3_client_is_left_last_witness:
  "case operated of Some (x, r) \<Rightarrow>
     (case s3_request_of (\<lambda>_. False) basic_attr s3_example_base of Inl e \<Rightarrow> False
      | Inr q \<Rightarrow> (case run_client_context interrupted_service q ''s3://b/d'' [] before_operation of
           Some (Inl j, r') \<Rightarrow> ru_log r' = ru_log r @ [Client_left] \<and> xs_heap (ru_store r') j = cancelled_error
         | _ \<Rightarrow> False))
   | None \<Rightarrow> False"
proof -
  obtain q where q: "s3_request_of (\<lambda>_. False) basic_attr s3_example_base = Inr q"
    using s3_example_made by (cases "s3_request_of (\<lambda>_. False) basic_attr s3_example_base") auto
  obtain i r where x: "operated = Some (Inl i, r)" and i: "i < xs_next (ru_store r)"
      and n: "\<not> is_instance (ex_mro (xs_heap (ru_store r) i)) [CancelledError]"
  proof -
    obtain z r where z: "operated = Some (z, r)" using operated_outcome by (cases operated) auto
    show thesis
      using operated_outcome [unfolded z] z that by (cases z) auto
  qed
  have enter: "sx_enter interrupted_service = None" "fw_interrupts (sx_leave interrupted_service) = 2"
    by (simp_all add: interrupted_service_def echoing_service_def)
  have body: "s3_operation interrupted_service q ''s3://b/d'' []
      (before_operation\<lparr>ru_log := ru_log before_operation @ [Client_entered]\<rparr>) = Some (Inl i, r)"
    using x by (simp add: operated_def q before_operation_def)
  let ?run = "run_client_context interrupted_service q ''s3://b/d'' [] before_operation"
  have "?run \<noteq> None"
    using body enter(1)
    by (simp add: run_client_context_def sc_bind_def sc_await_def sc_outcome_def sc_say_def sc_return_def raised_def lifecycle_ends)
  then obtain y r' where y: "?run = Some (y, r')" by fastforce
  from s3_client_is_left_last [OF enter(1) y body] i n enter(2) show ?thesis
    unfolding x y q option.case sum.case prod.case by (auto simp: lifecycle_end_def y split: sum.splits)
qed

text \<open>
  A caller that lists \<open>AsyncGatewayError\<close> as abortable sees the private marker of a retryable response
  leave the client: no clause of the handler takes it. The documentation of the marker of the other
  kind rules that out.
\<close>

definition throttling_service :: s3_peer where
  "throttling_service = echoing_service\<lparr>sx_failsafe := willing_failsafe\<lparr>fs_should_abort := (\<lambda>p e.
       case rp_abortable p of None \<Rightarrow> False | Some cs \<Rightarrow> is_instance (ex_mro e) cs)\<rparr>,
     sx_response := (\<lambda>_. PDict [(PStr ''ResponseMetadata'', PDict [(PStr ''HTTPStatusCode'', PInt 503)])])\<rparr>"

definition guarded_breaker :: breaker where
  "guarded_breaker = plain_breaker\<lparr>br_policy := Some \<lparr>allowed_retries = 3, rp_backoff = Constant 0, rp_retriable = None,
     rp_abortable = Some [AsyncGatewayError]\<rparr>\<rparr>"

lemma retryable_marker_escapes:
  "map_option (\<lambda>(x, r). case x of Inl i \<Rightarrow> Some (ex_class (xs_heap (ru_store r) i)) | Inr _ \<Rightarrow> None)
     (case s3_request_of (\<lambda>_. False) basic_attr s3_example_base of
        Inl e \<Rightarrow> None | Inr q \<Rightarrow> s3_operation throttling_service q ''s3://b/d'' []
          (before_operation\<lparr>ru_breaker := guarded_breaker\<rparr>))
   = Some (Some RetryableS3ServiceError)"
  by code_simp
end
