(* ===== verification/Grpc_Guarantees.thy ===== *)
theory Grpc_Guarantees
  imports Grpc Runs S3_Guarantees
begin

text \<open>
  What is shown of the gRPC client: constructed requests are within their limits and a refused one
  has not touched the registry; the secrets of the call are not echoed; a success shows the bytes of
  the peer; a status of the peer becomes the exception of the library that belongs to it.
\<close>

section \<open>Constructed requests\<close>

lemma validated_pair_Inr: "validated_pair p = Inr (k, v) \<Longrightarrow> metadata_key_ok k \<and> metadata_value_ok v"
  by (auto simp: validated_pair_def rbind_eq_Inr ensure_eq_Inr split: if_splits list.splits pyval.splits)

lemma validated_pairs_Inr:
  "validated_pairs n vs = Inr pairs \<Longrightarrow> n \<le> MAX_REQUEST_METADATA_TOTAL \<Longrightarrow>
     length pairs = length vs \<and> (\<forall>(k, v) \<in> set pairs. metadata_key_ok k \<and> metadata_value_ok v) \<and>
     n + sum_list (map (\<lambda>(k, v). int (length v)) pairs) \<le> MAX_REQUEST_METADATA_TOTAL"
  by (induction n vs arbitrary: pairs rule: validated_pairs.induct)
    (fastforce simp: rbind_eq_Inr ensure_eq_Inr Let_def dest: validated_pair_Inr)+

definition metadata_within :: "(string \<times> string) list \<Rightarrow> bool" where
  "metadata_within pairs \<longleftrightarrow>
     int (length pairs) \<le> MAX_REQUEST_METADATA_PAIRS \<and> (\<forall>(k, v) \<in> set pairs. metadata_key_ok k \<and> metadata_value_ok v) \<and>
     sum_list (map (\<lambda>(k, v). int (length v)) pairs) \<le> MAX_REQUEST_METADATA_TOTAL"

lemma validated_metadata_Inr: "validated_metadata v = Inr pairs \<Longrightarrow> metadata_within pairs"
  using validated_pairs_Inr [of 0 "elements v" pairs]
  by (auto simp: MAX_REQUEST_METADATA_TOTAL_def MAX_REQUEST_METADATA_PAIRS_def validated_metadata_def metadata_within_def rbind_eq_Inr ensure_eq_Inr split: if_splits)

lemma metadata_pairs_val [simp]: "metadata_pairs (metadata_val pairs) = pairs"
  by (induction pairs) (auto simp: metadata_pairs_def metadata_val_def str_of_val_def)

lemma checked_callable_Inr:
  "checked_callable g k info = Inr info' \<Longrightarrow> k' \<noteq> k \<Longrightarrow> dget info' k' = dget info k'"
  by (auto simp: checked_callable_def rbind_eq_Inr dget_info_set split: if_splits)

lemma validated_grpc_info_ok:
  assumes "validated_grpc_info g raw = Inr (info, warned)"
  obtains m pairs t cap where "dget info ''method'' = Some (PStr m)" "method_ok m"
    "dget info ''metadata'' = Some (metadata_val pairs)" "metadata_within pairs"
    "dget info ''timeout'' = Some (PFloat (FFin t))" "0 < t"
    "dget info ''max_response_bytes'' = Some (PInt cap)" "0 < cap" "cap \<le> GRPC_MAX_RECEIVE_BYTES"
proof -
  from assms obtain i m pairs t cap info1 where
    m: "validated_method (dget_or i ''method'' PNone) = Inr m"
    and pairs: "validated_metadata (dget_or i ''metadata'' PNone) = Inr pairs"
    and t: "validated_grpc_timeout (dget_or i ''timeout'' (PInt HTTP_TIMEOUT)) = Inr t"
    and cap: "validated_grpc_max_response_bytes (dget_or i ''max_response_bytes'' (PInt MAX_RESPONSE_BYTES)) = Inr cap"
    and c: "checked_callable g ''request_serializer''
       (info_set (info_set (info_set (info_set i ''method'' (PStr m)) ''metadata'' (metadata_val pairs))
          ''timeout'' (PFloat t)) ''max_response_bytes'' (PInt cap)) = Inr info1"
      "checked_callable g ''response_deserializer'' info1 = Inr info"
    unfolding validated_grpc_info_def rbind_eq_Inr by (auto simp: rbind_eq_Inr split: prod.splits)
  note same = checked_callable_Inr [OF c(2)] checked_callable_Inr [OF c(1)]
  from m have "method_ok m" by (auto simp: validated_method_def split: pyval.splits if_splits)
  moreover from t obtain t' where "t = FFin t'" "0 < t'"
  proof -
    obtain x where x: "validated_timeout (dget_or i ''timeout'' (PInt HTTP_TIMEOUT)) = Inr x"
        "(case x of FFin _ \<Rightarrow> Inr x | _ \<Rightarrow> Inl config_error) = Inr t"
      using t by (auto simp: validated_grpc_timeout_def rbind_eq_Inr)
    with validated_timeout_ok [OF x(1)] that show thesis by (cases x) (auto simp: flt_le_def)
  qed
  moreover from cap have "0 < cap" "cap \<le> GRPC_MAX_RECEIVE_BYTES"
    by (auto simp: validated_grpc_max_response_bytes_def validated_max_response_bytes_def rbind_eq_Inr ensure_eq_Inr
        split: pyval.splits if_splits)
  ultimately show thesis
    using that [of m pairs t' cap] validated_metadata_Inr [OF pairs] by (simp add: same dget_info_set)
qed

definition grpc_well_formed :: "grpc_request \<Rightarrow> bool" where
  "grpc_well_formed q \<longleftrightarrow>
     method_ok (gq_method q) \<and> metadata_within (gq_metadata q) \<and> gq_scheme q \<in> {''grpc'', ''grpcs''} \<and>
     gq_target q \<noteq> [] \<and> (\<exists>t. gq_deadline q = PFloat (FFin t) \<and> 0 < t) \<and> 0 < gq_cap q \<and>
     gq_cap q \<le> GRPC_MAX_RECEIVE_BYTES \<and> br_auth (gq_base q) = PNone"

lemma grpc_target_Inr: "grpc_target ip6 url = Inr (scheme, target) \<Longrightarrow> scheme \<in> {''grpc'', ''grpcs''} \<and> target \<noteq> []"
  by (auto simp: grpc_target_def rbind_eq_Inr ensure_eq_Inr su_hostname_def host_and_port_def Let_def
      str_rpartition_def str_partition_def split: if_splits sum.splits)

text \<open>
  C18. A gRPC request that is constructed from accepted options is within every limit: a method name of
  the documented form, at most 64 pairs of metadata with allowed keys, printable values and 32768
  characters in all, a finite positive deadline, a response limit below 2 to the 31, a plain or TLS
  target with a host, and no credentials object. One that is refused for its target, its credentials
  or its body has not touched the registry of breakers.
\<close>

theorem grpc_requests_are_well_formed:
  assumes "validated_grpc_info g raw = Inr (info, warned)"
    and "new_grpc_request ip6 g now clock sleep url auth response info redact_params reg = (made, reg')"
  shows "case made of
      Inr q \<Rightarrow> grpc_well_formed q
    | Inl e \<Rightarrow> is_ok (grpc_preflight ip6 g url auth response info) \<or> reg' = reg"
proof (cases "grpc_preflight ip6 g url auth response info")
  case (Inl e)
  with assms(2) show ?thesis by (auto simp: new_grpc_request_def)
next
  case (Inr parts)
  obtain scheme target body where parts: "parts = (scheme, target, body)" by (cases parts)
  show ?thesis
  proof (cases made)
    case (Inr q)
    from assms(2) obtain b reg1 where
      b: "new_request ip6 now clock sleep url auth response (PDict (entries info)) redact_params reg = (Inr b, reg1)"
      and q: "q = grpc_request_of scheme target body b"
      using \<open>grpc_preflight ip6 g url auth response info = Inr parts\<close> Inr
      by (auto simp: new_grpc_request_def parts Let_def rbind_eq_Inr split: prod.splits)
    have "br_info b = PDict (entries info)" "br_auth b = auth"
      using b by (auto simp: new_request_def split: sum.splits prod.splits)
    moreover have "auth = PNone" "scheme \<in> {''grpc'', ''grpcs''}" "target \<noteq> []"
      using \<open>grpc_preflight ip6 g url auth response info = Inr parts\<close> grpc_target_Inr [of ip6 url scheme target]
      by (auto simp: grpc_preflight_def parts rbind_eq_Inr ensure_eq_Inr split: prod.splits)
    ultimately show ?thesis
      using assms(1)
      by (elim validated_grpc_info_ok)
        (auto simp: q Inr grpc_well_formed_def grpc_request_of_def Let_def dget_or_def dget_def str_of_val_def int_of_val_def)
  next
    case (Inl e)
    with \<open>grpc_preflight ip6 g url auth response info = Inr parts\<close> show ?thesis by (simp add: is_ok_def)
  qed
qed

section \<open>Echoes\<close>

text \<open>
  The strings of the details that the peer or the caller chose: the method, the peer's sentence, and
  below both lists of metadata the keys and the values that are not bytes in base64.
\<close>

definition item_strings :: "pyval \<Rightarrow> string list" where
  "item_strings item =
     value_strings (dget_or item ''key'' PNone) @
     (if dget_or item ''encoding'' PNone = PNone then value_strings (dget_or item ''value'' PNone) else [])"

definition own_sentence :: pyval where
  "own_sentence = PStr ''response exceeded max_response_bytes''"

definition grpc_strings :: "(string, pyval) dict \<Rightarrow> string list" where
  "grpc_strings d = concat (map (\<lambda>(k, v).
     if k = ''method'' \<or> k = ''grpc_details'' \<and> v \<noteq> own_sentence then value_strings v
     else if k = ''initial_metadata'' \<or> k = ''trailing_metadata'' then concat (map item_strings (elements v))
     else []) d)"

text \<open>A secret of the call: the value of a pair whose key is sensitive.\<close>

definition grpc_secret :: "base_request \<Rightarrow> string \<Rightarrow> bool" where
  "grpc_secret b t \<longleftrightarrow>
     (\<exists>k. (k, t) \<in> set (metadata_pairs (dget_or (br_info b) ''metadata'' PNone)) \<and>
       sensitive_key (grpc_sensitive_names (br_redact b)) k)"

lemma grpc_text_hides:
  assumes "grpc_secret b t" "clear_of PEER_REDACTED t"
  shows "\<not> contains_str t (grpc_text (grpc_request_of scheme target body b) s)"
proof -
  have "t \<noteq> []" using assms(2) by (simp add: clear_of_def)
  with assms(1) show ?thesis
    unfolding grpc_text_def
    by (intro hide_secrets_hides [OF _ assms(2)]) (auto simp: grpc_request_of_def Let_def grpc_secret_def image_iff)
qed

lemma peer_item_free:
  assumes "grpc_secret b t" "clear_of PEER_REDACTED t"
  shows "free_of t (item_strings (peer_item (grpc_request_of scheme target body b) pair))"
  using grpc_text_hides [OF assms] assms(2)
  by (auto simp: peer_item_def item_strings_def dget_or_def dget_def clear_of_def Let_def split: prod.splits peer_value.splits if_splits)

lemma view_free:
  assumes "grpc_secret b t" "clear_of PEER_REDACTED t"
  shows "\<forall>item \<in> set (fst (shown_metadata (grpc_request_of scheme target body b) pairs)). free_of t (item_strings item)"
  using peer_item_free [OF assms] by (auto simp: shown_metadata_def)

definition details_free :: "string \<Rightarrow> grpc_event list \<Rightarrow> bool" where
  "details_free t l \<longleftrightarrow> (\<forall>d. Details_set d \<in> set l \<longrightarrow> free_of t (grpc_strings d))"

lemma details_free_append [simp]:
  "details_free t (l @ [ev]) \<longleftrightarrow> details_free t l \<and> (\<forall>d. ev = Details_set d \<longrightarrow> free_of t (grpc_strings d))"
  by (auto simp: details_free_def)

definition view_hides :: "string \<Rightarrow> peer_view \<Rightarrow> bool" where
  "view_hides t v \<longleftrightarrow>
     (\<forall>item \<in> set (fst (pv_initial v)) \<union> set (fst (pv_trailing v)). free_of t (item_strings item))"

lemma view_of_hides:
  "grpc_secret b t \<Longrightarrow> clear_of PEER_REDACTED t \<Longrightarrow> view_hides t (view_of (grpc_request_of scheme target body b) i j)"
  using view_free by (auto simp: view_hides_def view_of_def)

lemma grpc_details_free:
  assumes "grpc_secret b t" "clear_of PEER_REDACTED t" "view_hides t v"
    and "detail = own_sentence \<or> free_of t (value_strings detail)"
  shows "free_of t (grpc_strings (grpc_details (grpc_request_of scheme target body b) name detail encoding v))"
  using assms(3,4) grpc_text_hides [OF assms(1,2)]
  by (auto simp: grpc_strings_def grpc_details_def view_hides_def)

definition snapshot_hides :: "string \<Rightarrow> grpc_snapshot \<Rightarrow> bool" where
  "snapshot_hides t s \<longleftrightarrow> view_hides t (sn_view s) \<and> (sn_details s = own_sentence \<or> free_of t (value_strings (sn_details s)))"

lemma snapshot_of_hides:
  assumes "grpc_secret b t" "clear_of PEER_REDACTED t"
  shows "snapshot_hides t (snapshot_of p (grpc_request_of scheme target body b) attempt)"
  using view_of_hides [OF assms] grpc_text_hides [OF assms]
  by (auto simp: snapshot_hides_def snapshot_of_def status_snapshot_def local_resource_exhausted_def own_sentence_def
      split: option.splits outcome.splits pyval.splits)

lemma log_status_error:
  assumes "grpc_secret b t" "clear_of PEER_REDACTED t" "snapshot_hides t s"
  shows "keeps_log (details_free t) (public_status_error (grpc_request_of scheme target body b) s)"
  unfolding public_status_error_def
  using grpc_details_free [OF assms(1,2)] assms(3)
  by (intro log_rules log_say) (auto simp: snapshot_hides_def)

lemma log_raise_bare [log_rules]: "keeps_log I (sc_raise_bare i)"
  by (rule keeps_logI) (auto simp: sc_raise_bare_def Let_def)

lemma log_raise_grpc:
  assumes "grpc_secret b t" "clear_of PEER_REDACTED t"
  shows "keeps_log (details_free t) (raise_grpc_error p (grpc_request_of scheme target body b) url err attempt)"
proof (rule keeps_logI)
  let ?q = "grpc_request_of scheme target body b"
  fix r x r' assume run: "raise_grpc_error p ?q url err attempt r = Some (x, r')" and l: "details_free t (ru_log r)"
  note status = log_status_error [OF assms snapshot_of_hides [OF assms]]
  have say: "details_free t (ru_log r')" if "public_status_error ?q (snapshot_of p ?q attempt) r = Some (x, r')"
    using keeps_logD [OF status that l] .
  have bare: "details_free t (ru_log r')" if "sc_raise_bare i r = Some (x, r')" for i
    using that l by (auto simp: sc_raise_bare_def Let_def)
  show "details_free t (ru_log r')"
    using run say bare l
    by (auto simp: raise_grpc_error_def Let_def split: if_splits option.splits dest!: same_log)
qed

lemma grpc_answer_of:
  assumes "run_grpc_attempts p q url r = Some (Inr (response, v), r')"
  obtains turn where "turn \<in> set (gp_turns p)" "grpc_attempt p q (t_outcome turn) = Returns (response, v)"
proof -
  have raises: "raise_grpc_error p q url err attempt r1 \<noteq> Some (Inr y, r2)" for err attempt r1 r2 and y :: "pyval \<times> peer_view"
    by (auto simp: raise_grpc_error_def public_status_error_def sc_raise_bare_def sc_bind_def sc_say_def sc_raise_def Let_def
        split: option.splits if_splits)
  let ?attempts = "sc_attempts (gp_failsafe p) (Called (gq_method q) (gq_body q) (gq_deadline q) (gq_metadata q))
      (grpc_attempt p q) (gp_turns p)"
  obtain x r1 where x: "?attempts r = Some (Inr x, r1)" and y: "(case x of Inr y \<Rightarrow> sc_return y
      | Inl (err, attempt) \<Rightarrow> sc_bind (if was_cancelled attempt then sc_say Call_cancelled else sc_return ())
          (\<lambda>_. raise_grpc_error p q url err attempt)) r1 = Some (Inr (response, v), r')"
    using assms unfolding run_grpc_attempts_def sc_bind_Inr by blast
  from y have "x = Inr (response, v)" by (cases x) (auto simp: sc_bind_Inr raises)
  with x have "?attempts r = Some (Inr (Inr (response, v)), r1)" by simp
  from attempts_value [OF this] that show thesis by blast
qed

lemma grpc_answer_hides:
  assumes "grpc_secret b t" "clear_of PEER_REDACTED t"
    and "run_grpc_attempts p (grpc_request_of scheme target body b) url r = Some (Inr (response, v), r')"
  shows "view_hides t v"
proof -
  from assms(3) obtain turn where "turn \<in> set (gp_turns p)"
    "grpc_attempt p (grpc_request_of scheme target body b) (t_outcome turn) = Returns (response, v)"
    by (rule grpc_answer_of)
  then show ?thesis using view_of_hides [OF assms(1,2)] by (auto simp: grpc_attempt_def split: outcome.splits if_splits)
qed

lemma log_grpc_answer:
  assumes "grpc_secret b t" "clear_of PEER_REDACTED t" "view_hides t v"
  shows "keeps_log (details_free t) (show_grpc_answer p (grpc_request_of scheme target body b) (response, v))"
  unfolding show_grpc_answer_def deserialize_def
  using grpc_details_free [OF assms, of PNone]
  by (cases response) (auto intro!: log_rules log_say simp: own_sentence_def split: deserialized.splits)

lemma log_grpc_attempts:
  assumes "grpc_secret b t" "clear_of PEER_REDACTED t"
  shows "keeps_log (details_free t) (run_grpc_attempts p (grpc_request_of scheme target body b) url)"
  unfolding run_grpc_attempts_def
  by (intro log_bind log_attempts) (auto intro!: log_rules log_say log_raise_grpc [OF assms] split: sum.split)

lemma log_grpc_execute:
  assumes "grpc_secret b t" "clear_of PEER_REDACTED t"
  shows "keeps_log (details_free t) (grpc_execute p (grpc_request_of scheme target body b) url)"
proof (rule keeps_logI)
  let ?q = "grpc_request_of scheme target body b"
  fix r x r' assume run: "grpc_execute p ?q url r = Some (x, r')" and l: "details_free t (ru_log r)"
  obtain y r1 where y: "run_grpc_attempts p ?q url r = Some (y, r1)"
    using run by (auto simp: grpc_execute_def sc_bind_def split: option.splits)
  from keeps_logD [OF log_grpc_attempts [OF assms] y l] have l1: "details_free t (ru_log r1)" .
  show "details_free t (ru_log r')"
  proof (cases y)
    case (Inl i)
    with run y l1 show ?thesis by (simp add: grpc_execute_def sc_bind_def)
  next
    case (Inr z)
    obtain response v where z: "z = (response, v)" by (cases z)
    note h = grpc_answer_hides [OF assms y [unfolded Inr z]]
    from run y Inr z have "show_grpc_answer p ?q (response, v) r1 = Some (x, r')"
      by (simp add: grpc_execute_def sc_bind_def)
    from keeps_logD [OF log_grpc_answer [OF assms h] this l1] show ?thesis .
  qed
qed

lemma log_run_channel:
  assumes "grpc_secret b t" "clear_of PEER_REDACTED t"
  shows "keeps_log (details_free t) (run_channel p (grpc_request_of scheme target body b) url)"
  unfolding run_channel_def open_channel_def
  by (intro log_bind log_catch log_await log_lifecycle log_grpc_execute [OF assms] log_if_run log_rules)
    (auto intro: keeps_logI dest!: same_log)

lemma shown_details:
  "env_details (fold (shown_by str_of now started) l env) = d \<Longrightarrow> d = env_details env \<or> Details_set d \<in> set l"
  by (induction l arbitrary: d rule: rev_induct) (auto simp: shown_by_def finalise_ok_def seal_def split: grpc_event.splits)

text \<open>
  C15. No secret of a gRPC call is echoed. The value of a metadata pair whose key is sensitive occurs
  neither in the URL of the envelope nor in the method, the sentence of the peer, or the keys and
  texts of its metadata, however the call ended. Left out are the empty value and values that hold an
  asterisk, which the marks put in can show again (\<open>asterisk_secret_is_shown\<close>), the library's own
  sentence, and bytes, which are in base64.
\<close>

theorem grpc_secrets_are_not_echoed:
  assumes "handle_grpc_request p str_of now (grpc_request_of scheme target body b) br env xs
      = Some ((ended, env', xs', br'), calls)"
    and "grpc_secret b t" "clear_of PEER_REDACTED t" "env_details env = []"
  shows "\<not> contains_str t (env_url env') \<and> free_of t (grpc_strings (env_details env'))"
proof -
  let ?q = "grpc_request_of scheme target body b"
  obtain x r where run: "run_channel p ?q (env_url env) \<lparr>ru_log = [], ru_store = xs, ru_breaker = br\<rparr> = Some (x, r)"
      and env': "env' = (fold (shown_by str_of now (br_start (gq_base ?q))) (ru_log r) env)
        \<lparr>env_url := grpc_text ?q (env_url (fold (shown_by str_of now (br_start (gq_base ?q))) (ru_log r) env))\<rparr>"
    using assms(1) by (auto simp: handle_grpc_request_def Let_def split: option.splits)
  have "details_free t (ru_log r)"
    by (rule keeps_logD [OF log_run_channel [OF assms(2,3)] run]) (simp add: details_free_def)
  then have "free_of t (grpc_strings (env_details env'))"
    using shown_details [of str_of now "br_start (gq_base ?q)" "ru_log r" env] assms(4)
    by (auto simp: env' details_free_def grpc_strings_def)
  then show ?thesis using grpc_text_hides [OF assms(2,3)] by (simp add: env')
qed

section \<open>Successes\<close>

lemma lifecycle_Inr:
  assumes "sc_lifecycle left fw when_suppressed body r = Some (Inr y, r2)"
  obtains r1 where "body r = Some (Inr y, r1)" "ru_log r2 = ru_log r1 @ [left]"
proof -
  from assms obtain x r1 where body: "body r = Some (x, r1)"
    by (cases "body r") (auto simp: sc_lifecycle_def)
  have "x = Inr y"
    using assms
    by (cases x) (auto simp: sc_lifecycle_def body Let_def raise_exact_def sc_throw_def
        split: prod.splits option.splits sum.splits if_splits)
  with body lifecycle_log [OF body assms] that show thesis by simp
qed

lemma answer_log:
  assumes "show_grpc_answer p q (response, v) r = Some (Inr u, r')"
  obtains raw d l where "response = PBytes raw"
    "ru_log r' = ru_log r @ [Text_set (b64encode raw), Json_set PNone, Details_set d] @ l @ [Finalised]"
    "l = [] \<or> (\<exists>w. l = [Json_set w])"
  using assms
  by (cases response)
    (auto simp: show_grpc_answer_def deserialize_def sc_bind_Inr sc_say_def split: if_splits deserialized.splits)

lemma grpc_execute_Inr:
  assumes "grpc_execute p q url r = Some (Inr u, r')"
  obtains turn answered raw d l where "turn \<in> set (gp_turns p)" "t_outcome turn = Returns answered"
    "gy_response answered = PBytes raw" "int (length raw) \<le> gq_cap q"
    "\<exists>l1. ru_log r' = l1 @ [Text_set (b64encode raw), Json_set PNone, Details_set d] @ l @ [Finalised]"
    "l = [] \<or> (\<exists>w. l = [Json_set w])"
proof -
  from assms obtain response v r1 where
    a: "run_grpc_attempts p q url r = Some (Inr (response, v), r1)" "show_grpc_answer p q (response, v) r1 = Some (Inr u, r')"
    by (auto simp: grpc_execute_def sc_bind_Inr)
  from answer_log [OF a(2)] obtain raw d l where
    raw: "response = PBytes raw"
      "ru_log r' = ru_log r1 @ [Text_set (b64encode raw), Json_set PNone, Details_set d] @ l @ [Finalised]"
      "l = [] \<or> (\<exists>w. l = [Json_set w])" .
  from grpc_answer_of [OF a(1)] obtain turn where
    turn: "turn \<in> set (gp_turns p)" "grpc_attempt p q (t_outcome turn) = Returns (response, v)" .
  then obtain answered where "t_outcome turn = Returns answered" "gy_response answered = PBytes raw"
      "int (length raw) \<le> gq_cap q"
    using raw(1) by (auto simp: grpc_attempt_def oversized_def split: outcome.splits if_splits)
  with turn(1) raw that show thesis by blast
qed

lemma grpc_call_succeeds:
  assumes "handle_grpc_request p str_of now q br env xs = Some ((None, env', xs', br'), calls)"
  obtains turn answered raw where "turn \<in> set (gp_turns p)" "t_outcome turn = Returns answered"
    "gy_response answered = PBytes raw" "int (length raw) \<le> gq_cap q" "env_text env' = b64encode raw"
    "sealed str_of env' \<and> env_ok env' \<and> env_status env' = 200"
proof -
  let ?fold = "\<lambda>r. fold (shown_by str_of now (br_start (gq_base q))) (ru_log r) env"
  obtain r u where run: "run_channel p q (env_url env) \<lparr>ru_log = [], ru_store = xs, ru_breaker = br\<rparr> = Some (Inr u, r)"
      and env': "env' = (?fold r)\<lparr>env_url := grpc_text q (env_url (?fold r))\<rparr>"
    using assms by (auto simp: handle_grpc_request_def Let_def split: option.splits sum.splits)
  from run obtain r1 where "sc_lifecycle Channel_closed (channel_farewell p) cancelled_error
      (grpc_execute p q (env_url env)) r1 = Some (Inr u, r)"
    by (auto simp: run_channel_def sc_bind_Inr)
  from lifecycle_Inr [OF this] obtain r2 where
    body: "grpc_execute p q (env_url env) r1 = Some (Inr u, r2)" and closed: "ru_log r = ru_log r2 @ [Channel_closed]" .
  from grpc_execute_Inr [OF body] obtain turn answered raw d l l1 where
    turn: "turn \<in> set (gp_turns p)" "t_outcome turn = Returns answered" "gy_response answered = PBytes raw"
      "int (length raw) \<le> gq_cap q"
    and log: "ru_log r2 = l1 @ [Text_set (b64encode raw), Json_set PNone, Details_set d] @ l @ [Finalised]"
    and l: "l = [] \<or> (\<exists>w. l = [Json_set w])" by metis
  have "sealed str_of env' \<and> env_ok env' \<and> env_status env' = 200" "env_text env' = b64encode raw"
    using l finalise_ok_sealed [of str_of now 200 "br_start (gq_base q)"]
    by (auto simp: env' closed log shown_by_def sealed_def finalise_ok_def seal_def)
  with turn that show thesis by blast
qed

lemma grpc_answered:
  assumes "handle_grpc_request p str_of now q br env xs = Some ((None, env', xs', br'), calls)"
  shows "sealed str_of env' \<and> env_ok env' \<and> env_status env' = 200"
  using assms by (rule grpc_call_succeeds)

text \<open>
  C17. A gRPC call that succeeds returns a sealed envelope with status 200 whose text is the base64 of
  exactly the bytes the peer answered to one of its attempts, and they are within the caller's limit.
\<close>

theorem grpc_success_is_the_answer:
  assumes "handle_grpc_request p str_of now q br env xs = Some ((None, env', xs', br'), calls)"
  shows "sealed str_of env' \<and> env_ok env' \<and> env_status env' = 200 \<and>
    (\<exists>turn \<in> set (gp_turns p). \<exists>answered. t_outcome turn = Returns answered \<and>
       gy_response answered = PBytes (b64decode (env_text env')) \<and>
       env_text env' = b64encode (b64decode (env_text env')) \<and> int (length (b64decode (env_text env'))) \<le> gq_cap q)"
  using assms by (elim grpc_call_succeeds) (auto simp: b64_round_trip)

section \<open>Statuses\<close>

lemma throw_fresh: "sc_throw e r = Some (Inl i, r') \<Longrightarrow> i < xs_next (ru_store r') \<and> xs_heap (ru_store r') i = e \<and> ru_log r' = ru_log r"
  by (auto simp: sc_throw_def new_exc_def Let_def)

lemma retryable_status_class [simp]:
  "is_instance (ex_mro retryable_status) [RetryableGrpcStatusFailure]"
  "\<not> is_instance (ex_mro retryable_status) [AioRpcError]" "\<not> is_instance (ex_mro retryable_status) [CancelledError]"
  by (code_simp, code_simp, code_simp)

lemma abortable_status_class [simp]:
  "is_instance (ex_mro abortable_status) [GrpcAbortableStatusFailure]" "\<not> is_instance (ex_mro abortable_status) [CircuitOpen]"
  "\<not> is_instance (ex_mro abortable_status) [AioRpcError]" "\<not> is_instance (ex_mro abortable_status) [CancelledError]"
  by (code_simp, code_simp, code_simp, code_simp)

definition of_library :: "'a turn \<Rightarrow> bool" where
  "of_library turn = (case t_outcome turn of Raises e \<Rightarrow> is_instance (ex_mro e) [AsyncGatewayError] | Returns _ \<Rightarrow> False)"

lemma private_of_library [simp]:
  "is_instance (ex_mro retryable_status) [AsyncGatewayError]" "is_instance (ex_mro abortable_status) [AsyncGatewayError]"
  "retryable_status \<noteq> abortable_status" "abortable_status \<noteq> retryable_status"
  by (code_simp, code_simp, code_simp, code_simp)

text \<open>The private exception an attempt raised tells what the peer said.\<close>

lemma attempt_says:
  assumes "grpc_attempt p q (t_outcome turn) = Raises e" "e = retryable_status \<or> e = abortable_status" "\<not> of_library turn"
  shows "sn_status (snapshot_of p q (Some turn)) \<in> set (dict_keys GRPC_HTTP_STATUS)"
    "e = retryable_status \<longleftrightarrow> sn_status (snapshot_of p q (Some turn)) \<in> set GRPC_RETRYABLE_STATUSES"
    "\<not> was_cancelled (Some turn)"
proof -
  have "''RESOURCE_EXHAUSTED'' \<in> set (dict_keys GRPC_HTTP_STATUS)" "''RESOURCE_EXHAUSTED'' \<notin> set GRPC_RETRYABLE_STATUSES"
    "''UNKNOWN'' \<in> set (dict_keys GRPC_HTTP_STATUS)"
    by code_simp+
  note table = this
  show "sn_status (snapshot_of p q (Some turn)) \<in> set (dict_keys GRPC_HTTP_STATUS)"
    using table by (auto simp: snapshot_of_def status_snapshot_def local_resource_exhausted_def split: outcome.splits)
  show "e = retryable_status \<longleftrightarrow> sn_status (snapshot_of p q (Some turn)) \<in> set GRPC_RETRYABLE_STATUSES"
    using assms table
    by (auto simp: grpc_attempt_def snapshot_of_def local_resource_exhausted_def of_library_def split: outcome.splits if_splits)
  show "\<not> was_cancelled (Some turn)"
    using assms by (auto simp: grpc_attempt_def was_cancelled_def of_library_def split: outcome.splits if_splits)
qed

definition status_exception :: "grpc_request \<Rightarrow> grpc_snapshot \<Rightarrow> exc_obj" where
  "status_exception q s = new_gateway_error GrpcStatusError
     (grpc_text q (''gRPC status '' @ sn_status s @ '' for method '' @ gq_method q)) (map_of GRPC_HTTP_STATUS (sn_status s))"

definition status_events :: "grpc_request \<Rightarrow> grpc_snapshot \<Rightarrow> grpc_event list" where
  "status_events q s = [Text_set [], Json_set PNone, Details_set (grpc_details q (sn_status s) (sn_details s) PNone (sn_view s))]"

lemma status_error_raised:
  obtains i r' where "public_status_error q s r = Some (Inl i, r')" "xs_heap (ru_store r') i = status_exception q s"
    "i < xs_next (ru_store r')" "ru_log r' = ru_log r @ status_events q s"
  by (simp add: public_status_error_def sc_bind_def sc_say_def sc_throw_def new_exc_def status_exception_def status_events_def)

lemma raised_status:
  assumes "leave_run f (ru_store r) = (Inl err, xs1)" "f = Exhausted retryable_status \<or> f = Propagated abortable_status"
  shows "raise_grpc_error p q url err attempt (r\<lparr>ru_store := xs1, ru_breaker := b\<rparr>)
    = public_status_error q (snapshot_of p q attempt) (r\<lparr>ru_store := xs1, ru_breaker := b\<rparr>)"
proof -
  have "\<not> is_instance [RetriesExhausted, FailsafeError, Ext ''Exception'', Ext ''BaseException''] [CircuitOpen]"
    "\<not> is_instance [RetriesExhausted, FailsafeError, Ext ''Exception'', Ext ''BaseException''] [GrpcAbortableStatusFailure]"
    "is_instance [RetriesExhausted, FailsafeError, Ext ''Exception'', Ext ''BaseException''] [RetriesExhausted]"
    by (code_simp, code_simp, code_simp)
  with assms show ?thesis
    by (auto simp: leave_run_def new_exc_def raise_grpc_error_def sc_mro_def failsafe_error_def Let_def)
qed

lemma status_run:
  fixes p :: grpc_peer and q :: grpc_request
  defines "ts \<equiv> map (map_turn (grpc_attempt p q)) (gp_turns p)"
  assumes "run_alone (gp_failsafe p) (ru_breaker r) 0 None ts = Some (b, f)"
    and "f = Exhausted retryable_status \<or> f = Propagated abortable_status"
    and "\<forall>turn \<in> set (gp_turns p). quiet_turn turn \<and> \<not> of_library turn"
  obtains k turn i r' where "turn \<in> set (gp_turns p)" "run_grpc_attempts p q url r = Some (Inl i, r')"
    "xs_heap (ru_store r') i = status_exception q (snapshot_of p q (Some turn))" "i < xs_next (ru_store r')"
    "\<exists>l. ru_log r' = l @ status_events q (snapshot_of p q (Some turn))"
    "sn_status (snapshot_of p q (Some turn)) \<in> set (dict_keys GRPC_HTTP_STATUS)"
    "f = Exhausted retryable_status \<longleftrightarrow> sn_status (snapshot_of p q (Some turn)) \<in> set GRPC_RETRYABLE_STATUSES"
    "attempts_made (gp_failsafe p) (ru_breaker r) 0 None ts = Suc k" "k < length (gp_turns p)" "turn = gp_turns p ! k"
proof -
  define e where "e = (case f of Exhausted x \<Rightarrow> x | Propagated x \<Rightarrow> x | _ \<Rightarrow> retryable_status)"
  have f: "f = Exhausted e \<or> f = Propagated e" "e = retryable_status \<or> e = abortable_status"
    "f = Exhausted retryable_status \<longleftrightarrow> e = retryable_status"
    using assms(3) by (auto simp: e_def)
  have quiet: "\<forall>t \<in> set ts. quiet_turn t" using assms(4) by (auto simp: ts_def)
  from run_ends_with_last [OF assms(2) f(1) quiet] obtain k where
    k: "attempts_made (gp_failsafe p) (ru_breaker r) 0 None ts = Suc k" "k < length ts" "t_outcome (ts ! k) = Raises e" by blast
  define turn where "turn = gp_turns p ! k"
  have turn: "turn \<in> set (gp_turns p)" "grpc_attempt p q (t_outcome turn) = Raises e"
    using k by (auto simp: ts_def turn_def)
  note says = attempt_says [OF turn(2) f(2)]
  obtain err xs1 where left: "leave_run f (ru_store r) = (Inl err, xs1)"
    using assms(3) by (auto simp: leave_run_def new_exc_def Let_def)
  let ?r = "r\<lparr>ru_log := ru_log r @ [Called (gq_method q) (gq_body q) (gq_deadline q) (gq_metadata q)]\<rparr>"
  let ?r1 = "?r\<lparr>ru_store := xs1, ru_breaker := b\<rparr>"
  obtain i r' where raised:
      "(public_status_error q (snapshot_of p q (Some turn)) :: (grpc_event, pyval \<times> peer_view) script) ?r1 = Some (Inl i, r')"
      "xs_heap (ru_store r') i = status_exception q (snapshot_of p q (Some turn))" "i < xs_next (ru_store r')"
      "ru_log r' = ru_log ?r1 @ status_events q (snapshot_of p q (Some turn))"
    by (rule status_error_raised)
  have "(raise_grpc_error p q url err (Some turn) :: (grpc_event, pyval \<times> peer_view) script) ?r1 = Some (Inl i, r')"
    unfolding raised(1) [symmetric] by (rule raised_status [OF _ assms(3)]) (simp add: left)
  then have "run_grpc_attempts p q url r = Some (Inl i, r')"
    using assms(2) left k(1) says(3) turn(1) assms(4)
    by (simp add: run_grpc_attempts_def sc_attempts_def sc_bind_def sc_say_def sc_return_def ts_def [symmetric] turn_def [symmetric] Let_def)
  moreover have "k < length (gp_turns p)" using k(2) by (simp add: ts_def)
  ultimately show thesis
    using that [OF turn(1) _ raised(2,3) _ says(1) _ k(1) _ turn_def] says(2) f(3) raised(4) turn(1) assms(4) by auto
qed

lemma status_exception_class [simp]:
  "ex_class (status_exception q s) = GrpcStatusError"
  "\<not> is_instance (ex_mro (status_exception q s)) [CancelledError]"
proof -
  have "take 1 (lib_mro GrpcStatusError) = [GrpcStatusError]" "\<not> is_instance (lib_mro GrpcStatusError) [CancelledError]" by code_simp+
  then show "ex_class (status_exception q s) = GrpcStatusError" "\<not> is_instance (ex_mro (status_exception q s)) [CancelledError]"
    by (cases "lib_mro GrpcStatusError"; simp add: status_exception_def ex_class_def new_gateway_error_def)+
qed

lemma status_exception_status:
  "sn_status s \<in> set (dict_keys GRPC_HTTP_STATUS) \<Longrightarrow> map_of GRPC_HTTP_STATUS (sn_status s) = Some (ex_status (status_exception q s))"
  by (auto simp: status_exception_def new_gateway_error_def status_for_def map_of_eq_None_iff split: option.splits)

text \<open>
  C16. A gRPC status becomes the exception that belongs to it: when the attempts are used up on a status
  that may pass, or end on one that will not, the channel opens and closes undisturbed, and neither a
  callback or sleep of the breaker nor an attempt raises an exception of its own (of the library's, for
  the attempt), the call raises \<open>GrpcStatusError\<close> with the HTTP status of the table,
  and the envelope holds the status, the sentence and the metadata of the last attempt that was made,
  and no text or JSON of an earlier one. (A configuration of the caller that names the private class of
  a passing status as one to stop at is left out: that class then leaves as it is.)
\<close>

theorem grpc_statuses_become_exceptions:
  assumes "handle_grpc_request p str_of now q br env xs = Some ((ended, env', xs', br'), calls)"
    and "gp_open p = None" "gp_interrupts p = 0" "gp_close p = None"
    and "\<forall>turn \<in> set (gp_turns p). quiet_turn turn \<and> \<not> of_library turn"
    and "run_alone (gp_failsafe p) br 0 None (map (map_turn (grpc_attempt p q)) (gp_turns p)) = Some (b, f)"
    and "f = Exhausted retryable_status \<or> f = Propagated abortable_status"
  shows "\<exists>k i. attempts_made (gp_failsafe p) br 0 None (map (map_turn (grpc_attempt p q)) (gp_turns p)) = Suc k \<and>
    k < length (gp_turns p) \<and> ended = Some i \<and> ex_class (xs_heap xs' i) = GrpcStatusError \<and>
    (let s = snapshot_of p q (Some (gp_turns p ! k)) in
       map_of GRPC_HTTP_STATUS (sn_status s) = Some (ex_status (xs_heap xs' i)) \<and>
       (f = Exhausted retryable_status \<longleftrightarrow> sn_status s \<in> set GRPC_RETRYABLE_STATUSES) \<and>
       env_text env' = [] \<and> env_json env' = PNone \<and>
       env_details env' = grpc_details q (sn_status s) (sn_details s) PNone (sn_view s))"
proof -
  let ?opened = "\<lparr>ru_log = [Channel_opened (gq_scheme q = ''grpcs'') (gq_target q) (gq_cap q)], ru_store = xs, ru_breaker = br\<rparr>"
  have run_alone: "run_alone (gp_failsafe p) (ru_breaker ?opened) 0 None (map (map_turn (grpc_attempt p q)) (gp_turns p)) = Some (b, f)"
    using assms(6) by simp
  from status_run [OF run_alone assms(7,5), of "env_url env"] obtain k turn i r1 where
    turn: "turn \<in> set (gp_turns p)" and run: "run_grpc_attempts p q (env_url env) ?opened = Some (Inl i, r1)"
    and e: "xs_heap (ru_store r1) i = status_exception q (snapshot_of p q (Some turn))" "i < xs_next (ru_store r1)"
    and l: "\<exists>l. ru_log r1 = l @ status_events q (snapshot_of p q (Some turn))"
    and s: "sn_status (snapshot_of p q (Some turn)) \<in> set (dict_keys GRPC_HTTP_STATUS)"
      "f = Exhausted retryable_status \<longleftrightarrow> sn_status (snapshot_of p q (Some turn)) \<in> set GRPC_RETRYABLE_STATUSES"
    and k: "attempts_made (gp_failsafe p) (ru_breaker ?opened) 0 None (map (map_turn (grpc_attempt p q)) (gp_turns p)) = Suc k"
      "k < length (gp_turns p)" "turn = gp_turns p ! k" .
  have body: "grpc_execute p q (env_url env) ?opened = Some (Inl i, r1)"
    using run by (simp add: grpc_execute_def sc_bind_def)
  have "open_channel p q (env_url env) \<lparr>ru_log = [], ru_store = xs, ru_breaker = br\<rparr> = Some (Inr (), ?opened)"
    by (simp add: open_channel_def assms(2) raised_def sc_catch_def sc_await_def sc_bind_def sc_say_def sc_outcome_def sc_return_def)
  then obtain x r where "sc_lifecycle Channel_closed (channel_farewell p) cancelled_error
        (grpc_execute p q (env_url env)) ?opened = Some (x, r)"
      and h: "ended = (case x of Inl i \<Rightarrow> Some i | Inr _ \<Rightarrow> None)" "xs' = ru_store r"
        "env' = (let shown = fold (shown_by str_of now (br_start (gq_base q))) (ru_log r) env
           in shown\<lparr>env_url := grpc_text q (env_url shown)\<rparr>)"
    using assms(1) by (auto simp: handle_grpc_request_def run_channel_def sc_bind_def Let_def split: option.splits sum.splits)
  from lifecycle_after_failure [OF body this(1) e(2)]
  have "ru_log r = ru_log r1 @ [Channel_closed]" "x = Inl i" "xs_heap xs' i = status_exception q (snapshot_of p q (Some turn))"
    using e(1) by (auto simp: lifecycle_end_def channel_farewell_def assms(3,4) h(2) split: sum.splits)
  with h turn l s k show ?thesis
    by (intro exI [of _ k] exI [of _ i])
      (auto simp: Let_def status_exception_status status_events_def shown_by_def)
qed

section \<open>Examples\<close>

text \<open>A call with a bearer token that the peer refuses, echoing it, and one that is answered.\<close>

definition plain_objects :: grpc_objects where
  "plain_objects = \<lparr>go_async = (\<lambda>_. False), go_buffer = (\<lambda>_. None), go_serialize = (\<lambda>_ v. Serialized v)\<rparr>"

definition grpc_example_info :: pyval where
  "grpc_example_info =
     PDict [(PStr ''method'', PStr ''/a.B/c''), (PStr ''metadata'', PList [PTuple [PStr ''authorization'', PStr ''hunter2'']]),
       (PStr ''timeout'', PFloat (FFin 5)), (PStr ''max_response_bytes'', PInt 9)]"

definition grpc_example_env :: envelope where
  "grpc_example_env = plain_env\<lparr>env_url := ''grpc://h:1'', env_protocol := ''GRPC'', env_payload := PBytes ''hi''\<rparr>"

definition grpc_example_base :: base_request where
  "grpc_example_base = \<lparr>br_url = ''grpc://h:1'', br_auth = PNone,
     br_info = PDict [(PStr ''method'', PStr ''/a.B/c''), (PStr ''metadata'', metadata_val [(''authorization'', ''hunter2'')]),
       (PStr ''timeout'', PFloat (FFin 5)), (PStr ''max_response_bytes'', PInt 9)],
     br_redact = [], br_start = 0, br_timeout = PInt 15, br_certificate = PNone, br_breaker = 0\<rparr>"

definition answering :: "grpc_reply outcome \<Rightarrow> grpc_peer" where
  "answering out =
     \<lparr>gp_failsafe = willing_failsafe, gp_open = None,
      gp_turns = [\<lparr>t_enter = 0, t_outcome = out, t_failed = 0, t_callbacks = (\<lambda>_. None), t_sleep = None\<rparr>],
      gp_failure = (\<lambda>_. \<lparr>gf_code = ''NOT_FOUND'', gf_details = PStr ''hunter2'', gf_initial = [], gf_trailing = []\<rparr>),
      gp_interrupts = 0, gp_close = None, gp_deserialize = (\<lambda>_. Deserializer_raised)\<rparr>"

definition rpc_refused :: "grpc_reply outcome" where
  "rpc_refused = Raises \<lparr>ex_mro = [AioRpcError, Ext ''Exception''], ex_text = [], ex_status = 0, ex_cause = None,
     ex_context = None\<rparr>"

definition rpc_answered :: "grpc_reply outcome" where
  "rpc_answered = Returns \<lparr>gy_response = PBytes ''hi'', gy_initial = [], gy_trailing = []\<rparr>"

definition grpc_example_request :: grpc_request where
  "grpc_example_request = grpc_request_of ''grpc'' ''h:1'' ''hi'' grpc_example_base"

definition grpc_example_call :: "grpc_reply outcome \<Rightarrow> (exchanged \<times> grpc_event list) option" where
  "grpc_example_call out = handle_grpc_request (answering out) (\<lambda>_. []) 1 grpc_example_request
     plain_breaker grpc_example_env no_exceptions"

lemma grpc_example_limits: "gq_deserializer grpc_example_request = PNone" "gq_cap grpc_example_request = 9"
  by (simp_all add: grpc_example_request_def grpc_request_of_def grpc_example_base_def Let_def dget_or_def dget_def int_of_val_def)

abbreviation single_turn :: "'a outcome \<Rightarrow> 'a turn" where
  "single_turn out \<equiv> \<lparr>t_enter = 0, t_outcome = out, t_failed = 0, t_callbacks = (\<lambda>_. None), t_sleep = None\<rparr>"

lemma example_attempts:
  "map (map_turn (grpc_attempt (answering rpc_refused) q)) (gp_turns (answering rpc_refused)) = [single_turn (Raises abortable_status)]"
  "map (map_turn (grpc_attempt (answering rpc_answered) grpc_example_request)) (gp_turns (answering rpc_answered))
   = [single_turn (Returns (PBytes ''hi'', view_of grpc_example_request [] []))]"
  using grpc_example_limits
  by (auto simp: answering_def map_turn_def rpc_refused_def rpc_answered_def grpc_attempt_def is_instance_def oversized_def
      status_snapshot_def GRPC_HTTP_STATUS_def GRPC_RETRYABLE_STATUSES_def)

lemma example_runs:
  "\<exists>b. run_alone willing_failsafe plain_breaker 0 None [single_turn (Raises abortable_status)] = Some (b, Propagated abortable_status)"
  "\<exists>b. run_alone willing_failsafe plain_breaker 0 None [single_turn (Returns x)] = Some (b, Returned x)"
proof -
  have "is_instance (ex_mro abortable_status) DEFAULT_ABORTABLE_EXCEPTIONS" by code_simp
  then show "\<exists>b. run_alone willing_failsafe plain_breaker 0 None [single_turn (Raises abortable_status)] = Some (b, Propagated abortable_status)"
    by (simp add: begin_attempt_def finish_call_def plain_breaker_def new_breaker_def allows_execution_def should_abort_def invoke_def)
  show "\<exists>b. run_alone willing_failsafe plain_breaker 0 None [single_turn (Returns x)] = Some (b, Returned x)"
    by (simp add: begin_attempt_def finish_call_def plain_breaker_def new_breaker_def allows_execution_def record_success_def)
qed

lemma raise_grpc_ends: "raise_grpc_error p q url err attempt r \<noteq> None"
  by (auto simp: raise_grpc_error_def public_status_error_def sc_raise_bare_def sc_bind_def sc_say_def sc_raise_def
      sc_throw_def new_exc_def Let_def split: option.splits)

lemma show_answer_ends: "show_grpc_answer p q (response, v) r \<noteq> None"
  by (cases response)
    (auto simp: show_grpc_answer_def deserialize_def sc_bind_def sc_say_def sc_return_def sc_throw_def new_exc_def Let_def
      split: option.splits sum.splits deserialized.splits)

lemma grpc_call_ends:
  assumes "gp_open p = None" "run_alone (gp_failsafe p) br 0 None (map (map_turn (grpc_attempt p q)) (gp_turns p)) \<noteq> None"
  shows "handle_grpc_request p str_of now q br env xs \<noteq> None"
proof -
  let ?r = "\<lparr>ru_log = [Channel_opened (gq_scheme q = ''grpcs'') (gq_target q) (gq_cap q)], ru_store = xs, ru_breaker = br\<rparr>"
  have opened: "open_channel p q url \<lparr>ru_log = [], ru_store = xs, ru_breaker = br\<rparr> = Some (Inr (), ?r)" for url
    by (simp add: open_channel_def assms(1) raised_def sc_catch_def sc_await_def sc_bind_def sc_say_def sc_outcome_def sc_return_def)
  have "run_grpc_attempts p q url ?r \<noteq> None" for url
    using assms(2) raise_grpc_ends
    by (auto simp: run_grpc_attempts_def sc_attempts_def sc_bind_def sc_say_def sc_return_def Let_def
        split: option.splits sum.splits prod.splits)
  then have "grpc_execute p q url ?r \<noteq> None" for url
    using show_answer_ends by (auto simp: grpc_execute_def sc_bind_def split: option.splits sum.splits)
  from lifecycle_ends [where body = "grpc_execute p q (env_url env)" and r = ?r, OF this] show ?thesis
    by (auto simp: handle_grpc_request_def run_channel_def sc_bind_def opened Let_def split: option.splits)
qed

lemma grpc_example_calls:
  obtains r env xs b calls where "grpc_example_call rpc_refused = Some ((r, env, xs, b), calls)"
proof -
  have "grpc_example_call rpc_refused \<noteq> None"
    unfolding grpc_example_call_def
    by (rule grpc_call_ends, simp add: answering_def, unfold example_attempts)
      (use example_runs(1) in \<open>auto simp: answering_def simp del: run_alone.simps\<close>)
  then show thesis using that by auto
qed

lemma grpc_example_answered:
  obtains env xs b calls where "grpc_example_call rpc_answered = Some ((None, env, xs, b), calls)"
proof -
  let ?p = "answering rpc_answered" and ?q = grpc_example_request
  obtain b where run: "run_alone (gp_failsafe ?p) plain_breaker 0 None (map (map_turn (grpc_attempt ?p ?q)) (gp_turns ?p))
      = Some (b, Returned (PBytes ''hi'', view_of ?q [] []))"
    using example_runs(2) [of "(PBytes ''hi'', view_of ?q [] [])"] unfolding example_attempts by (auto simp: answering_def simp del: run_alone.simps)
  have calm: "gp_open ?p = None" "gp_close ?p = None" "gp_interrupts ?p = 0" by (simp_all add: answering_def)
  show thesis
    using that
    by (simp add: grpc_example_call_def handle_grpc_request_def run_channel_def open_channel_def raised_def calm sc_bind_def
        sc_catch_def sc_await_def sc_say_def sc_outcome_def sc_return_def sc_lifecycle_def grpc_execute_def run_grpc_attempts_def
        sc_attempts_def run leave_run_def show_grpc_answer_def deserialize_def grpc_example_limits Let_def
        channel_farewell_def capture_client_exit_def del: map_map)
qed

theorem grpc_requests_are_well_formed_witness:
  "case validated_grpc_info plain_objects grpc_example_info of Inl e \<Rightarrow> False
   | Inr (info, _) \<Rightarrow>
     (case fst (new_grpc_request (\<lambda>_. False) plain_objects 0 (PFun 0) (PFun 1) ''grpc://h:1'' PNone grpc_example_env info []
          empty_registry) of Inl e \<Rightarrow> False | Inr q \<Rightarrow> grpc_well_formed q)"
proof -
  have "is_ok (validated_grpc_info plain_objects grpc_example_info)" by code_simp
  then obtain info w where v: "validated_grpc_info plain_objects grpc_example_info = Inr (info, w)"
    by (cases "validated_grpc_info plain_objects grpc_example_info") (auto simp: is_ok_def)
  have "case validated_grpc_info plain_objects grpc_example_info of Inl e \<Rightarrow> False
    | Inr (info, _) \<Rightarrow> is_ok (fst (new_grpc_request (\<lambda>_. False) plain_objects 0 (PFun 0) (PFun 1) ''grpc://h:1'' PNone
        grpc_example_env info [] empty_registry))"
    by code_simp
  then obtain q reg where q: "new_grpc_request (\<lambda>_. False) plain_objects 0 (PFun 0) (PFun 1) ''grpc://h:1'' PNone
      grpc_example_env info [] empty_registry = (Inr q, reg)"
    unfolding v by (cases "new_grpc_request (\<lambda>_. False) plain_objects 0 (PFun 0) (PFun 1) ''grpc://h:1'' PNone
      grpc_example_env info [] empty_registry") (auto simp: is_ok_def split: sum.splits)
  from grpc_requests_are_well_formed [OF v q] show ?thesis unfolding v sum.case prod.case q by simp
qed

text \<open>A secret with an asterisk can stand where a mark meets the text next to it.\<close>

lemma asterisk_secret_is_shown: "contains_str ''*a'' (hide_secrets [''*a''] PEER_REDACTED ''**aa'')"
  by code_simp

theorem grpc_secrets_are_not_echoed_witness:
  "case grpc_example_call rpc_refused of
     Some ((r, env, xs, b), calls) \<Rightarrow> free_of ''hunter2'' (grpc_strings (env_details env)) | None \<Rightarrow> False"
proof -
  obtain r env xs b calls where d: "grpc_example_call rpc_refused = Some ((r, env, xs, b), calls)"
    by (rule grpc_example_calls)
  have "(''authorization'', ''hunter2'') \<in> set (metadata_pairs (dget_or (br_info grpc_example_base) ''metadata'' PNone))"
    "sensitive_key (grpc_sensitive_names (br_redact grpc_example_base)) ''authorization''" by code_simp+
  then have s: "grpc_secret grpc_example_base ''hunter2''" by (auto simp: grpc_secret_def)
  have c: "clear_of PEER_REDACTED ''hunter2''" "env_details grpc_example_env = []" by code_simp+
  from grpc_secrets_are_not_echoed [OF d [unfolded grpc_example_call_def grpc_example_request_def] s c] show ?thesis unfolding d option.case prod.case by simp
qed

theorem grpc_success_is_the_answer_witness:
  "case grpc_example_call rpc_answered of
     Some ((None, env, xs, b), calls) \<Rightarrow> env_ok env \<and> env_status env = 200 | _ \<Rightarrow> False"
proof -
  obtain env xs b calls where d: "grpc_example_call rpc_answered = Some ((None, env, xs, b), calls)"
    by (rule grpc_example_answered)
  from grpc_success_is_the_answer [OF d [unfolded grpc_example_call_def]] show ?thesis
    unfolding d option.case prod.case by simp
qed

theorem grpc_statuses_become_exceptions_witness:
  "case grpc_example_call rpc_refused of
     Some ((Some i, env, xs, b), calls) \<Rightarrow> ex_class (xs_heap xs i) = GrpcStatusError \<and> ex_status (xs_heap xs i) = 404
   | _ \<Rightarrow> False"
proof -
  let ?p = "answering rpc_refused" and ?q = grpc_example_request
  obtain r env xs b calls where d: "grpc_example_call rpc_refused = Some ((r, env, xs, b), calls)"
    by (rule grpc_example_calls)
  obtain b' where run: "run_alone (gp_failsafe ?p) plain_breaker 0 None (map (map_turn (grpc_attempt ?p ?q)) (gp_turns ?p))
      = Some (b', Propagated abortable_status)"
    using example_runs(1) unfolding example_attempts by (auto simp: answering_def simp del: run_alone.simps)
  have calm: "gp_open ?p = None" "gp_interrupts ?p = 0" "gp_close ?p = None" by (simp_all add: answering_def)
  have quiet: "\<forall>turn \<in> set (gp_turns ?p). quiet_turn turn \<and> \<not> of_library turn"
    by (simp add: answering_def quiet_turn_def of_library_def rpc_refused_def is_instance_def)
  have code: "sn_status (snapshot_of ?p ?q (Some turn)) = ''NOT_FOUND''" if "turn \<in> set (gp_turns ?p)" for turn
    using that by (simp add: answering_def snapshot_of_def rpc_refused_def status_snapshot_def GRPC_HTTP_STATUS_def)
  have "map_of GRPC_HTTP_STATUS ''NOT_FOUND'' = Some 404" by code_simp
  with grpc_statuses_become_exceptions [OF d [unfolded grpc_example_call_def] calm quiet run] code show ?thesis
    unfolding d option.case prod.case by (fastforce simp: Let_def)
qed

end
