(* ===== verification/Xml.thy ===== *)
theory Xml
  imports Base
begin

text \<open>
  The XML side of \<open>logic/soap_client.py\<close>: elements as \<open>xml.etree.ElementTree\<close> has them, the scan of
  the prolog that keeps a document type declaration from the parser, and the walk that bounds the
  depth of what is written out again. The parser and the writer of the standard library are
  arguments.
\<close>

section \<open>Elements\<close>

datatype element = Element
  (el_tag: string) (el_attrib: "(string \<times> string) list") (el_text: "string option")
  (el_children: "element list") (el_tail: "string option")

definition el_find :: "string \<Rightarrow> element \<Rightarrow> element option" where
  "el_find tag e = find (\<lambda>c. el_tag c = tag) (el_children e)"

definition el_findtext :: "string \<Rightarrow> element \<Rightarrow> string option" where
  "el_findtext tag e = map_option (\<lambda>c. case el_text c of None \<Rightarrow> [] | Some s \<Rightarrow> s) (el_find tag e)"

lemma el_find_child: "el_find tag e = Some c \<Longrightarrow> c \<in> set (el_children e)"
  by (auto simp: el_find_def find_Some_iff)

lemma child_smaller: "c \<in> set (el_children e) \<Longrightarrow> size c < size e"
  by (cases e) (auto dest: size_list_estimation' [of c _ "size c" size])

section \<open>The prolog\<close>

text \<open>\<open>s.find(p, start)\<close>.\<close>

function find_from :: "string \<Rightarrow> string \<Rightarrow> nat \<Rightarrow> nat option" where
  "find_from p s start =
     (if start + length p \<le> length s
      then (if starts_with p (drop start s) then Some start else if p = [] then None else find_from p s (Suc start))
      else None)"
  by auto

termination by (relation "measure (\<lambda>(p, s, start). length s - start)") (auto simp: neq_Nil_conv)

declare find_from.simps [simp del]

lemma find_from_Some: "find_from p s start = Some i \<Longrightarrow> start \<le> i \<and> starts_with p (drop i s) \<and> i + length p \<le> length s"
  by (induction p s start rule: find_from.induct) (subst (asm) find_from.simps, auto split: if_splits)

definition doctype_error :: exn where
  "doctype_error = Exn UnsafeXmlError None"

text \<open>
  \<open>scan_prolog\<close>: where the root element starts, or nowhere, or the error. (A byte order mark is not in
  the Latin-1 range of this model.)
\<close>

function scan_from :: "string \<Rightarrow> nat \<Rightarrow> exn + nat option" where
  "scan_from s cursor =
     (if cursor < length s then
        let rest = drop cursor s in
        if is_space (s ! cursor) then scan_from s (cursor + 1)
        else if \<not> starts_with ''<'' rest then Inr None
        else if starts_with ''<?'' rest then
          (case find_from ''?>'' s (cursor + 2) of None \<Rightarrow> Inr None | Some stop_at \<Rightarrow> scan_from s (stop_at + 2))
        else if starts_with ''<!--'' rest then
          (case find_from ''-->'' s (cursor + 4) of None \<Rightarrow> Inr None | Some stop_at \<Rightarrow> scan_from s (stop_at + 3))
        else if starts_with ''<!'' rest then Inl doctype_error
        else Inr (Some cursor)
      else Inr None)"
  by auto

termination
  by (relation "measure (\<lambda>(s, cursor). length s - cursor)") (auto dest!: find_from_Some)

declare scan_from.simps [simp del]

definition scan_prolog :: "string \<Rightarrow> exn + nat option" where
  "scan_prolog xml_text = scan_from xml_text 0"

text \<open>What may stand before the root: white space, processing instructions and comments, nothing else.\<close>

inductive prolog :: "string \<Rightarrow> bool" where
  nothing: "prolog []"
| space: "prolog p \<Longrightarrow> is_space c \<Longrightarrow> prolog (p @ [c])"
| instruction: "prolog p \<Longrightarrow> prolog (p @ ''<?'' @ body @ ''?>'')"
| comment: "prolog p \<Longrightarrow> prolog (p @ ''<!--'' @ body @ ''-->'')"

lemma starts_with_take: "starts_with p (drop c s) \<Longrightarrow> take (c + length p) s = take c s @ p"
  by (simp add: starts_with_def take_add)

lemma bracketed:
  assumes "starts_with p (drop c s)" "starts_with e (drop i s)" "c + length p \<le> i"
  shows "take (i + length e) s = take c s @ p @ drop (c + length p) (take i s) @ e"
proof -
  have "take i s = take (c + length p) s @ drop (c + length p) (take i s)"
    using assms(3) append_take_drop_id [of "c + length p" "take i s"] by (simp add: min_def)
  then show ?thesis using starts_with_take [OF assms(1)] starts_with_take [OF assms(2)] by simp
qed

lemma scan_from_prolog:
  "scan_from s cursor = Inr (Some i) \<Longrightarrow> prolog (take cursor s) \<Longrightarrow>
     prolog (take i s) \<and> i < length s \<and> starts_with ''<'' (drop i s) \<and> \<not> starts_with ''<?'' (drop i s) \<and>
     \<not> starts_with ''<!'' (drop i s)"
proof (induction s cursor rule: scan_from.induct)
  case (1 s cursor)
  let ?rest = "drop cursor s"
  have len: "cursor < length s" using 1(4) by (subst (asm) scan_from.simps) (auto split: if_splits)
  note step = 1(4) [unfolded scan_from.simps [of s cursor] Let_def]
  consider (space) "is_space (s ! cursor)"
    | (instruction) stop_at where "\<not> is_space (s ! cursor)" "starts_with ''<'' ?rest" "starts_with ''<?'' ?rest"
        "find_from ''?>'' s (cursor + 2) = Some stop_at" "scan_from s (stop_at + 2) = Inr (Some i)"
    | (comment) stop_at where "\<not> is_space (s ! cursor)" "starts_with ''<'' ?rest" "\<not> starts_with ''<?'' ?rest"
        "starts_with ''<!--'' ?rest" "find_from ''-->'' s (cursor + 4) = Some stop_at" "scan_from s (stop_at + 3) = Inr (Some i)"
    | (root) "i = cursor" "starts_with ''<'' ?rest" "\<not> starts_with ''<?'' ?rest" "\<not> starts_with ''<!'' ?rest"
    using step len by (auto split: if_splits option.splits)
  then show ?case
  proof cases
    case space
    have "take (cursor + 1) s = take cursor s @ [s ! cursor]" using len by (simp add: take_Suc_conv_app_nth)
    with 1(5) space have "prolog (take (cursor + 1) s)" by (simp add: prolog.space)
    with 1(1) [OF len refl space] step len space show ?thesis by simp
  next
    case instruction
    from find_from_Some [OF instruction(4)] bracketed [OF instruction(3), of "''?>''" stop_at] have
      "take (stop_at + 2) s = take cursor s @ ''<?'' @ drop (cursor + 2) (take stop_at s) @ ''?>''" by (simp add: eval_nat_numeral)
    with prolog.instruction [OF 1(5)] have "prolog (take (stop_at + 2) s)" by metis
    with 1(2) [OF len refl instruction(1) _ instruction(3,4)] instruction(2,5) show ?thesis by simp
  next
    case comment
    from find_from_Some [OF comment(5)] bracketed [OF comment(4), of "''-->''" stop_at] have
      "take (stop_at + 3) s = take cursor s @ ''<!--'' @ drop (cursor + 4) (take stop_at s) @ ''-->''" by (simp add: eval_nat_numeral)
    with prolog.comment [OF 1(5)] have "prolog (take (stop_at + 3) s)" by metis
    with 1(3) [OF len refl comment(1) _ comment(3,4,5)] comment(2,6) show ?thesis by simp
  next
    case root
    with 1(5) len show ?thesis by simp
  qed
qed

text \<open>\<open>root_element_name\<close>: the local name of the root of a text, before it is parsed.\<close>

definition root_element_name :: "string \<Rightarrow> exn + string" where
  "root_element_name xml_text = rbind (scan_prolog xml_text) (\<lambda>start. case start of
     None \<Rightarrow> Inr []
   | Some i \<Rightarrow>
       let name = takeWhile (\<lambda>c. \<not> is_space c \<and> c \<noteq> CHR ''>'' \<and> c \<noteq> CHR ''/'') (drop (i + 1) xml_text)
       in Inr (snd (snd (str_rpartition (CHR '':'') name))))"

section \<open>Depth\<close>

lemma stack_smaller:
  "sum_list (map (\<lambda>(e, _). size e) (rev (map (\<lambda>c. (c, n)) (el_children e)) @ stack))
   < size e + sum_list (map (\<lambda>(e, _). size e) stack)"
proof -
  have "sum_list (map (\<lambda>(e, _). size e) (rev (map (\<lambda>c. (c, n)) cs))) \<le> size_list size cs" for cs :: "element list"
    by (induction cs) auto
  from this [of "el_children e"] show ?thesis by (cases e) simp
qed

text \<open>The top of the stack comes first; the last child is walked first.\<close>

function deeper :: "nat \<Rightarrow> (element \<times> nat) list \<Rightarrow> bool" where
  "deeper max_depth [] = False"
| "deeper max_depth ((node, depth) # stack) =
     (if depth > max_depth then True
      else deeper max_depth (rev (map (\<lambda>c. (c, depth + 1)) (el_children node)) @ stack))"
  by pat_completeness auto

termination
  by (relation "measure (\<lambda>(_, stack). sum_list (map (\<lambda>(e, _). size e) stack))")
    (auto simp: stack_smaller simp del: map_append sum_list_append)

definition exceeds_depth :: "element \<Rightarrow> nat \<Rightarrow> bool" where
  "exceeds_depth whole max_depth = deeper max_depth [(whole, 1)]"

fun height :: "element \<Rightarrow> nat" where
  "height (Element tag attrib txt children tail) = Suc (fold max (map height children) 0)"

lemma height_pos: "0 < height e"
  by (cases e) simp

lemma fold_max_greater: "b < fold max xs a \<longleftrightarrow> (\<exists>x \<in> set xs. b < x) \<or> b < a" for a b :: nat
  by (induction xs arbitrary: a) (auto simp: less_max_iff_disj)

lemma height_children: "Suc n < height e \<longleftrightarrow> (\<exists>c \<in> set (el_children e). n < height c)"
  using fold_max_greater [of n "map height (el_children e)" 0] by (cases e) auto

lemma deeper_height: "deeper m stack \<longleftrightarrow> (\<exists>(e, d) \<in> set stack. m < d + height e - 1)"
proof (induction m stack rule: deeper.induct)
  case (2 m node depth stack)
  show ?case
  proof (cases "depth > m")
    case True
    then have "m < depth + height node - 1" using height_pos [of node] by linarith
    with True show ?thesis by auto
  next
    case False
    have "m < depth + height node - 1 \<longleftrightarrow> Suc (m - depth) < height node" using False by linarith
    moreover have "m - depth < height c \<longleftrightarrow> m < depth + 1 + height c - 1" for c using False by linarith
    ultimately have "m < depth + height node - 1 \<longleftrightarrow> (\<exists>c \<in> set (el_children node). m < depth + 1 + height c - 1)"
      by (simp add: height_children)
    moreover have "(\<exists>(e, d) \<in> set (rev (map (\<lambda>c. (c, depth + 1)) (el_children node)) @ stack). m < d + height e - 1) \<longleftrightarrow>
        (\<exists>c \<in> set (el_children node). m < depth + 1 + height c - 1) \<or> (\<exists>(e, d) \<in> set stack. m < d + height e - 1)"
      by (simp add: bex_Un)
    ultimately show ?thesis using 2 [OF False] False by simp
  qed
qed simp

text \<open>
  The walk that decides whether an element may be written out again, with its stack and its early
  end, decides the height of the element.
\<close>

theorem exceeds_depth_is_height: "exceeds_depth whole max_depth \<longleftrightarrow> max_depth < height whole"
  by (simp add: exceeds_depth_def deeper_height)

end
