(* ===== verification/Soap.thy ===== *)
theory Soap
  imports Xml Services
begin

text \<open>
  \<open>logic/soap_client.py\<close>: the options, the request envelope and its transport headers, the reading of
  the answer as an envelope with a body or a fault, and the exchange, which judges an answer by its
  fault first and by its status after that. What \<open>ElementTree\<close> does is the record \<open>xml_library\<close>; what is
  logged about odd answers is left out.
\<close>

section \<open>Constants\<close>

definition SOAP_11 :: string where
  "SOAP_11 = ''1.1''"

definition SOAP_12 :: string where
  "SOAP_12 = ''1.2''"

definition ENVELOPE_NAMESPACE :: "(string, string) dict" where
  "ENVELOPE_NAMESPACE =
    [(SOAP_11, ''http://schemas.xmlsoap.org/soap/envelope/''), (SOAP_12, ''http://www.w3.org/2003/05/soap-envelope'')]"

definition VERSION_BY_NAMESPACE :: "(string, string) dict" where
  "VERSION_BY_NAMESPACE = map (\<lambda>(version, namespace). (namespace, version)) ENVELOPE_NAMESPACE"

definition REQUEST_MEDIA_TYPE :: "(string, string) dict" where
  "REQUEST_MEDIA_TYPE = [(SOAP_11, ''text/xml''), (SOAP_12, ''application/soap+xml'')]"

definition ENVELOPE_PREFIX :: string where
  "ENVELOPE_PREFIX = ''soap''"

abbreviation double_quote :: char where
  "double_quote \<equiv> CHR 0x22"

definition EMPTY_SOAP_ACTION :: string where
  "EMPTY_SOAP_ACTION = [double_quote, double_quote]"

definition FORBIDDEN_ACTION_CHARS :: string where
  "FORBIDDEN_ACTION_CHARS = [double_quote, CHR 0x0D, CHR 0x0A]"

definition BODY_EXCERPT_CHARS :: nat where
  "BODY_EXCERPT_CHARS = 200"

definition MAX_FAULT_DETAIL_DEPTH :: nat where
  "MAX_FAULT_DETAIL_DEPTH = 64"

section \<open>Options\<close>

text \<open>
  \<open>isinstance(v, Element)\<close> with the element; the element as an object of the caller; \<open>fromstring\<close>,
  with the text of its \<open>ParseError\<close>; \<open>tostring(element, encoding='unicode')\<close>.
\<close>

record xml_library =
  xm_element :: "pyval \<Rightarrow> element option"
  xm_object :: "element \<Rightarrow> pyval"
  xm_parse :: "string \<Rightarrow> string + element"
  xm_write :: "element \<Rightarrow> string"

definition validated_soap_version :: "pyval \<Rightarrow> exn + string" where
  "validated_soap_version v = (case v of
     PStr s \<Rightarrow> if s \<in> set (dict_keys ENVELOPE_NAMESPACE) then Inr s else Inl config_error
   | _ \<Rightarrow> Inl config_error)"

definition validated_soap_action :: "pyval \<Rightarrow> exn + string option" where
  "validated_soap_action v = (case v of
     PNone \<Rightarrow> Inr None
   | PStr s \<Rightarrow>
       if s = [] then Inr None
       else if list_ex (\<lambda>c. c \<in> set s) FORBIDDEN_ACTION_CHARS then Inl config_error else Inr (Some s)
   | _ \<Rightarrow> Inl config_error)"

definition validated_soap_headers :: "xml_library \<Rightarrow> pyval \<Rightarrow> exn + element option" where
  "validated_soap_headers x v =
     (if v = PNone then Inr None
      else (case xm_element x v of None \<Rightarrow> Inl config_error | Some e \<Rightarrow> Inr (Some e)))"

definition validated_soap_body :: "xml_library \<Rightarrow> pyval \<Rightarrow> exn + string" where
  "validated_soap_body x payload = (case xm_element x payload of
     Some e \<Rightarrow> Inr (xm_write x e)
   | None \<Rightarrow> (case payload of PStr s \<Rightarrow> Inr s | PDict [] \<Rightarrow> Inr [] | _ \<Rightarrow> Inl config_error))"

section \<open>The request\<close>

definition quoted :: "string \<Rightarrow> string" where
  "quoted s = double_quote # s @ [double_quote]"

definition build_envelope :: "xml_library \<Rightarrow> string \<Rightarrow> string \<Rightarrow> element option \<Rightarrow> exn + string" where
  "build_envelope x body version headers =
     rbind (root_element_name body) (\<lambda>name.
     if name = ''Envelope'' then Inr body
     else
       let namespace = dict_get_or ENVELOPE_NAMESPACE version [];
           header_text = (case headers of None \<Rightarrow> []
             | Some e \<Rightarrow> ''<'' @ ENVELOPE_PREFIX @ '':Header>'' @ xm_write x e @ ''</'' @ ENVELOPE_PREFIX @ '':Header>'')
       in Inr (''<?xml version='' @ quoted ''1.0'' @ '' encoding='' @ quoted ''utf-8'' @ ''?>'' @
            ''<'' @ ENVELOPE_PREFIX @ '':Envelope xmlns:'' @ ENVELOPE_PREFIX @ ''='' @ quoted namespace @ ''>'' @
            header_text @ ''<'' @ ENVELOPE_PREFIX @ '':Body>'' @ body @ ''</'' @ ENVELOPE_PREFIX @ '':Body>'' @
            ''</'' @ ENVELOPE_PREFIX @ '':Envelope>''))"

definition soap_transport_headers :: "string \<Rightarrow> string option \<Rightarrow> (string, string) dict" where
  "soap_transport_headers version action =
     (let media_type = dict_get_or REQUEST_MEDIA_TYPE version [] in
      if version = SOAP_11 then
        [(''Content-Type'', media_type @ ''; charset=utf-8''),
         (''SOAPAction'', case action of Some a \<Rightarrow> quoted a | None \<Rightarrow> EMPTY_SOAP_ACTION)]
      else [(''Content-Type'', media_type @ ''; charset=utf-8'' @
         (case action of Some a \<Rightarrow> ''; action='' @ quoted a | None \<Rightarrow> []))])"

section \<open>The answer\<close>

text \<open>An error of the library with its message, and the text of what caused it, if anything did.\<close>

type_synonym soap_error = "exc_class \<times> string \<times> string option"

definition DOCTYPE_MESSAGE :: string where
  "DOCTYPE_MESSAGE =
     ''refusing an XML response whose prolog declares a DOCTYPE: a document type declaration is what makes '' @
     ''entity-expansion attacks (billion laughs, quadratic blowup) possible, and a SOAP envelope never carries one''"

definition parse_document :: "xml_library \<Rightarrow> string \<Rightarrow> soap_error + element option" where
  "parse_document x xml_text = (case scan_prolog xml_text of
     Inl e \<Rightarrow> Inl (UnsafeXmlError, DOCTYPE_MESSAGE, None)
   | Inr None \<Rightarrow> Inr None
   | Inr (Some start) \<Rightarrow>
       (case xm_parse x (drop start xml_text) of
          Inl err \<Rightarrow> Inl (SerializationError, ''SOAP response is not well-formed XML: '' @ err, Some err)
        | Inr e \<Rightarrow> Inr (Some e)))"

record soap_fault =
  sf_code :: string
  sf_subcodes :: "string list"
  sf_reason :: string
  sf_actor :: "string option"
  sf_detail :: "string option"

definition fault_detail_text :: "xml_library \<Rightarrow> element option \<Rightarrow> string option" where
  "fault_detail_text x detail = (case detail of
     None \<Rightarrow> None
   | Some e \<Rightarrow> if exceeds_depth e MAX_FAULT_DETAIL_DEPTH then None else Some (xm_write x e))"

definition stripped_text :: "string \<Rightarrow> element \<Rightarrow> string" where
  "stripped_text tag e = str_strip (case el_findtext tag e of None \<Rightarrow> [] | Some s \<Rightarrow> s)"

definition fault_from_11 :: "xml_library \<Rightarrow> element \<Rightarrow> soap_fault" where
  "fault_from_11 x fault =
     \<lparr>sf_code = stripped_text ''faultcode'' fault, sf_subcodes = [], sf_reason = stripped_text ''faultstring'' fault,
      sf_actor = map_option str_strip (el_findtext ''faultactor'' fault),
      sf_detail = fault_detail_text x (el_find ''detail'' fault)\<rparr>"

definition in_namespace :: "string \<Rightarrow> string \<Rightarrow> string" where
  "in_namespace namespace name = ''{'' @ namespace @ ''}'' @ name"

text \<open>The chain of subcodes below a code; it is as long as the document is deep at most.\<close>

function subcode_values :: "string \<Rightarrow> element \<Rightarrow> string list" where
  "subcode_values namespace code = (case el_find (in_namespace namespace ''Subcode'') code of
     None \<Rightarrow> []
   | Some subcode \<Rightarrow> stripped_text (in_namespace namespace ''Value'') subcode # subcode_values namespace subcode)"
  by auto

termination
  by (relation "measure (\<lambda>(_, e). size e)") (auto dest: el_find_child child_smaller)

declare subcode_values.simps [simp del]

definition fault_from_12 :: "xml_library \<Rightarrow> string \<Rightarrow> element \<Rightarrow> soap_fault" where
  "fault_from_12 x namespace fault =
     (let qualified = in_namespace namespace; code = el_find (qualified ''Code'') fault in
      \<lparr>sf_code = (case code of None \<Rightarrow> [] | Some c \<Rightarrow> stripped_text (qualified ''Value'') c),
       sf_subcodes = (case code of None \<Rightarrow> [] | Some c \<Rightarrow> subcode_values namespace c),
       sf_reason = (case el_find (qualified ''Reason'') fault of None \<Rightarrow> [] | Some r \<Rightarrow> stripped_text (qualified ''Text'') r),
       sf_actor = map_option str_strip (el_findtext (qualified ''Role'') fault),
       sf_detail = fault_detail_text x (el_find (qualified ''Detail'') fault)\<rparr>)"

definition tag_namespace :: "string \<Rightarrow> string" where
  "tag_namespace tag = lstrip_by (\<lambda>c. c = CHR ''{'') (fst (str_partition (CHR ''}'') tag))"

definition not_an_envelope :: "string \<Rightarrow> string \<Rightarrow> soap_error" where
  "not_an_envelope tag raw =
     (SerializationError,
      ''SOAP response is well-formed XML but is not a SOAP envelope: its root element is '' @ py_repr tag @
      ''. First 200 characters of the body: '' @ py_repr (take BODY_EXCERPT_CHARS raw), None)"

definition parse_soap_response :: "xml_library \<Rightarrow> string \<Rightarrow> soap_error + (element option \<times> soap_fault option)" where
  "parse_soap_response x raw = rbind (parse_document x raw) (\<lambda>document. case document of
     None \<Rightarrow> Inr (None, None)
   | Some whole \<Rightarrow>
       let namespace = tag_namespace (el_tag whole) in
       (case map_of VERSION_BY_NAMESPACE namespace of
          None \<Rightarrow> Inl (not_an_envelope (el_tag whole) raw)
        | Some version \<Rightarrow>
            if \<not> ends_with ''}Envelope'' (el_tag whole) then Inl (not_an_envelope (el_tag whole) raw)
            else (case el_find (in_namespace namespace ''Body'') whole of
               None \<Rightarrow> Inr (None, None)
             | Some body \<Rightarrow>
                 (case el_find (in_namespace namespace ''Fault'') body of
                    Some fault \<Rightarrow> Inr (None, Some (if version = SOAP_11 then fault_from_11 x fault else fault_from_12 x namespace fault))
                  | None \<Rightarrow> Inr (case el_children body of [] \<Rightarrow> None | c # _ \<Rightarrow> Some c, None)))))"

section \<open>The client\<close>

definition SOAP_ACCEPTED_INFO_KEYS :: "string list" where
  "SOAP_ACCEPTED_INFO_KEYS = COMMON_PROTOCOL_INFO_KEYS @
    [''allow_redirects'', ''allowed_schemes'', ''cookies'', ''cross_origin_headers'', ''headers'',
     ''http_file_download_config'', ''http_file_upload_config'', ''max_redirects'', ''max_response_bytes'',
     ''request_type'', ''serialization'', ''session'', ''soap_action'', ''soap_headers'', ''soap_version'',
     ''trace_config'', ''verify_ssl'']"

definition SOAP_UNSUPPORTED_INFO_KEYS :: "string list" where
  "SOAP_UNSUPPORTED_INFO_KEYS = [''http_file_download_config'', ''http_file_upload_config'', ''request_type'']"

text \<open>The transport's options are those of an HTTP call.\<close>

record soap_request =
  so_http :: http_request
  so_version :: string
  so_action :: "string option"
  so_envelope :: string

definition dict_merge :: "('k, 'v) dict \<Rightarrow> ('k, 'v) dict \<Rightarrow> ('k, 'v) dict" where
  "dict_merge a b = fold (\<lambda>(k, v) d. dict_set d k v) b a"

definition soap_http ::
  "(string \<Rightarrow> bool) \<Rightarrow> foreign \<Rightarrow> base_request \<Rightarrow> (string, string) dict \<Rightarrow> exn + http_request" where
  "soap_http ip6 f b transport =
     (let info = br_info b; get = (\<lambda>k d. dget_or info k d) in
      rbind (validated_headers (get ''headers'' PNone)) (\<lambda>headers.
      rbind (validated_http_auth ip6 (br_auth b) (br_url b)) (\<lambda>auth.
      rbind (validated_cookies (get ''cookies'' PNone)) (\<lambda>cookies.
      rbind (validated_timeout (br_timeout b)) (\<lambda>timeout.
      rbind (validated_cross_origin_headers (get ''cross_origin_headers'' PNone)) (\<lambda>forward.
      rbind (validated_session f (get ''session'' PNone) forward) (\<lambda>se.
      rbind (ensure (\<not> dhas info ''serialization'') config_error) (\<lambda>_.
      rbind (validated_trace_config f info se) (\<lambda>tracers.
      rbind (validated_max_response_bytes (get ''max_response_bytes'' (PInt MAX_RESPONSE_BYTES))) (\<lambda>cap.
      rbind (validated_allow_redirects (get ''allow_redirects'' (PBool True))) (\<lambda>allow.
      rbind (validated_max_redirects (get ''max_redirects'' (PInt MAX_REDIRECTS))) (\<lambda>maxr.
      rbind (validated_allowed_schemes (get ''allowed_schemes'' (PSet (map PStr ALLOWED_SCHEMES)))) (\<lambda>allowed.
      Inr \<lparr>hq_base = b, hq_request_type = ''POST'', hq_auth = auth, hq_cookies = cookies,
           hq_headers = dict_merge headers transport, hq_verify_ssl = get ''verify_ssl'' (PBool True),
           hq_upload = PDict [], hq_download = PNone, hq_timeout = timeout, hq_forward = forward, hq_session = se,
           hq_serializer = DefaultSerializer, hq_tracers = tracers, hq_cap = cap, hq_allow_redirects = allow,
           hq_max_redirects = maxr, hq_allowed = allowed\<rparr>)))))))))))))"

definition soap_request_of ::
  "(string \<Rightarrow> bool) \<Rightarrow> foreign \<Rightarrow> xml_library \<Rightarrow> pyval \<Rightarrow> base_request \<Rightarrow> exn + soap_request" where
  "soap_request_of ip6 f x payload b =
     (let info = br_info b in
      rbind (ensure (list_all (\<lambda>k. \<not> dhas info k) SOAP_UNSUPPORTED_INFO_KEYS) config_error) (\<lambda>_.
      rbind (validated_soap_version (dget_or info ''soap_version'' (PStr SOAP_11))) (\<lambda>version.
      rbind (validated_soap_action (dget_or info ''soap_action'' PNone)) (\<lambda>action.
      rbind (validated_soap_headers x (dget_or info ''soap_headers'' PNone)) (\<lambda>headers.
      rbind (validated_soap_body x payload) (\<lambda>body.
      rbind (build_envelope x body version headers) (\<lambda>envelope_text.
      rbind (soap_http ip6 f b (soap_transport_headers version action)) (\<lambda>h.
      Inr \<lparr>so_http = h, so_version = version, so_action = action, so_envelope = envelope_text\<rparr>))))))))"

definition new_soap_request ::
  "(string \<Rightarrow> bool) \<Rightarrow> foreign \<Rightarrow> xml_library \<Rightarrow> rat \<Rightarrow> pyval \<Rightarrow> pyval \<Rightarrow> string \<Rightarrow> pyval \<Rightarrow> envelope \<Rightarrow> pyval
    \<Rightarrow> string list \<Rightarrow> registry \<Rightarrow> (exn + soap_request) \<times> registry" where
  "new_soap_request ip6 f x now clock sleep url auth response info redact_params reg =
     (let (b, reg') = new_request ip6 now clock sleep url auth response info redact_params reg
      in (rbind b (soap_request_of ip6 f x (env_payload response)), reg'))"

section \<open>The exchange\<close>

definition optional_text :: "string option \<Rightarrow> pyval" where
  "optional_text t = (case t of None \<Rightarrow> PNone | Some s \<Rightarrow> PStr s)"

definition fault_val :: "soap_fault \<Rightarrow> pyval" where
  "fault_val f = PDict
     [(PStr ''code'', PStr (sf_code f)), (PStr ''subcodes'', PList (map PStr (sf_subcodes f))),
      (PStr ''reason'', PStr (sf_reason f)), (PStr ''actor'', optional_text (sf_actor f)),
      (PStr ''detail'', optional_text (sf_detail f))]"

definition soap_details :: "xml_library \<Rightarrow> string \<Rightarrow> element option \<Rightarrow> soap_fault option \<Rightarrow> (string, pyval) dict" where
  "soap_details x version body fault =
     [(''soap_version'', PStr version),
      (''soap_body'', case body of None \<Rightarrow> PNone | Some e \<Rightarrow> xm_object x e),
      (''soap_fault'', case fault of None \<Rightarrow> PNone | Some f \<Rightarrow> fault_val f)]"

definition parse_error_object :: "string \<Rightarrow> exc_obj" where
  "parse_error_object t =
     \<lparr>ex_mro = [Ext ''xml.etree.ElementTree.ParseError'', Ext ''SyntaxError'', Ext ''Exception''], ex_text = t,
      ex_status = 0, ex_cause = None, ex_context = None\<rparr>"

definition raise_soap_error :: "soap_error \<Rightarrow> exc_store \<Rightarrow> nat \<times> exc_store" where
  "raise_soap_error e xs = (case e of
     (c, message, None) \<Rightarrow> new_exc (new_gateway_error c message None) xs
   | (c, message, Some t) \<Rightarrow>
       let (j, xs1) = new_exc (parse_error_object t) xs in raise_from c message None j xs1)"

definition fault_message :: "string \<Rightarrow> string list \<Rightarrow> soap_fault \<Rightarrow> string" where
  "fault_message url redact_params f =
     ''SOAP Fault from '' @ redact_url url redact_params @ '': '' @
     (if sf_code f = [] then ''<no code>'' else sf_code f) @ '' '' @
     (if sf_reason f = [] then ''<no reason>'' else sf_reason f)"

definition soap_answer ::
  "xml_library \<Rightarrow> decoding \<Rightarrow> (pyval \<Rightarrow> string) \<Rightarrow> rat \<Rightarrow> soap_request \<Rightarrow> http_result \<Rightarrow> envelope \<Rightarrow> exc_store
    \<Rightarrow> nat option \<times> envelope \<times> exc_store" where
  "soap_answer x dc str_of now q result env xs =
     (let base = hq_base (so_http q); status = hr_status result;
          env1 = env\<lparr>env_status := status, env_headers := redact_headers (hr_headers result),
            env_cookies := redact_cookies (hr_cookies result), env_text := hr_text result,
            env_details := soap_details x (so_version q) None None\<rparr>
      in if hr_decode_error result then
           let (i, xs1) = new_exc (new_gateway_error SerializationError (dc_charset_text dc) None) xs
           in (Some i, env1, xs1)
         else (case parse_soap_response x (hr_text result) of
             Inl e \<Rightarrow> let (i, xs1) = raise_soap_error e xs in (Some i, env1, xs1)
           | Inr (body, fault) \<Rightarrow>
               let env2 = env1\<lparr>env_details := soap_details x (so_version q) body fault\<rparr> in
               (case fault of
                  Some f \<Rightarrow>
                    let (i, xs1) = new_exc (new_gateway_error SoapFaultError
                          (fault_message (br_url base) (br_redact base) f) (Some status)) xs
                    in (Some i, env2, xs1)
                | None \<Rightarrow>
                    if status \<ge> HTTP_ERROR_STATUS then
                      let (i, xs1) = status_error ''POST'' (br_url base) (br_redact base) status xs in (Some i, env2, xs1)
                    else (None, finalise_ok str_of now status (br_start base) env2, xs))))"

definition soap_options :: "soap_request \<Rightarrow> http_options" where
  "soap_options q = (options_of (so_http q))\<lparr>ho_refuse_multipart := True\<rparr>"

definition soap_exchange ::
  "xml_library \<Rightarrow> surround \<Rightarrow> soap_request \<Rightarrow> breaker \<Rightarrow> envelope \<Rightarrow> exc_store \<Rightarrow> exchanged option" where
  "soap_exchange x su q b env xs =
     (let base = hq_base (so_http q) in
      case handle_http_request (su_failsafe su) (su_hierarchy su) (su_files su) b (su_texts su) (soap_options q)
             (br_url base) ''POST'' (PDict []) (PStr (so_envelope q)) (su_attempts su) of
        None \<Rightarrow> None
      | Some (b', f) \<Rightarrow>
          Some (case leave_run f xs of
              (Inl err, xs1) \<Rightarrow>
                let (i, xs2) = exchange_error (br_url base) (br_redact base) err xs1
                in (Some i, env, xs2, b')
            | (Inr result, xs1) \<Rightarrow>
                let (r, env', xs2) = soap_answer x (su_decoding su) (su_str_of su) (su_now su) q result env xs1
                in (r, env', xs2, b')))"

definition handle_soap_request ::
  "xml_library \<Rightarrow> surround \<Rightarrow> soap_request \<Rightarrow> breaker \<Rightarrow> envelope \<Rightarrow> exc_store \<Rightarrow> exchanged option" where
  "handle_soap_request x su q b env xs =
     soap_exchange x su q b (env\<lparr>env_tracer := if hq_session (so_http q) = None then su_traced su else []\<rparr>) xs"

end
