(* ===== verification/Soap_Guarantees.thy ===== *)
theory Soap_Guarantees
  imports Soap Jsonrpc
begin

text \<open>
  What is shown of the SOAP client: which text reaches the parser, what a constructed request sends
  and under which media type, and how an answer is judged.
\<close>

section \<open>The parser\<close>

lemma parse_document_parses:
  assumes "parse_document x t \<noteq> parse_document x' t"
  obtains i where "scan_prolog t = Inr (Some i)" "xm_parse x (drop i t) \<noteq> xm_parse x' (drop i t)"
  using assms by (auto simp: parse_document_def split: sum.splits option.splits)

text \<open>
  C20. What an XML library does can only show on a text that begins, after white space, processing
  instructions and comments, with an element: a document type declaration never reaches a parser,
  and neither does anything else that starts with an exclamation mark.
\<close>

theorem only_an_element_is_parsed:
  assumes "parse_document x t \<noteq> parse_document x' t"
  shows "\<exists>before rest. t = before @ rest \<and> prolog before \<and> starts_with ''<'' rest \<and> \<not> starts_with ''<!'' rest
    \<and> \<not> starts_with ''<?'' rest \<and> xm_parse x rest \<noteq> xm_parse x' rest"
proof -
  from parse_document_parses [OF assms] obtain i where
    i: "scan_prolog t = Inr (Some i)" "xm_parse x (drop i t) \<noteq> xm_parse x' (drop i t)" .
  from scan_from_prolog [OF i(1) [unfolded scan_prolog_def]] prolog.nothing i(2) show ?thesis
    by (intro exI [of _ "take i t"] exI [of _ "drop i t"]) simp
qed

definition no_xml :: xml_library where
  "no_xml = \<lparr>xm_element = (\<lambda>_. None), xm_object = (\<lambda>_. PNone), xm_parse = (\<lambda>_. Inl ''no element found''), xm_write = (\<lambda>_. [])\<rparr>"

definition one_element :: "element \<Rightarrow> xml_library" where
  "one_element e = no_xml\<lparr>xm_parse := (\<lambda>_. Inr e)\<rparr>"

definition plain_text :: string where
  "plain_text = ''<?xml?> <!--a--><a/>''"

theorem only_an_element_is_parsed_witness:
  "\<exists>before rest. plain_text = before @ rest \<and> prolog before \<and> starts_with ''<'' rest \<and> \<not> starts_with ''<!'' rest"
proof -
  have "parse_document no_xml plain_text \<noteq> parse_document (one_element (Element ''a'' [] None [] None)) plain_text"
    by code_simp
  from only_an_element_is_parsed [OF this] show ?thesis by blast
qed

section \<open>The request\<close>

lemma media_type_of_find:
  "media_type_of hs = (case find (\<lambda>(n, _). str_lower n = CONTENT_TYPE_HEADER) hs of
     None \<Rightarrow> [] | Some (n, v) \<Rightarrow> normalise_media_type v)"
  by (induction hs rule: media_type_of.induct) auto

lemma find_dict_set:
  assumes "P k"
  shows "find (\<lambda>(n, _). P n) (dict_set d k v) = (case find (\<lambda>(n, _). P n) d of
     None \<Rightarrow> Some (k, v) | Some (n, w) \<Rightarrow> if n = k then Some (k, v) else Some (n, w))"
  using assms by (induction d k v rule: dict_set.induct) auto

lemma find_dict_set_other:
  assumes "\<not> P k"
  shows "find (\<lambda>(n, _). P n) (dict_set d k v) = find (\<lambda>(n, _). P n) d"
  using assms by (induction d k v rule: dict_set.induct) auto

lemma content_type_names [simp]:
  "str_lower ''Content-Type'' = CONTENT_TYPE_HEADER" "str_lower ''SOAPAction'' \<noteq> CONTENT_TYPE_HEADER"
  by code_simp+

lemma transport_headers_cases:
  "soap_transport_headers version action =
     (''Content-Type'', dict_get_or (soap_transport_headers version action) ''Content-Type'' [])
     # (if version = SOAP_11 then [(''SOAPAction'', case action of Some a \<Rightarrow> quoted a | None \<Rightarrow> EMPTY_SOAP_ACTION)] else [])"
  by (simp add: soap_transport_headers_def Let_def dict_get_or_def)

lemma merged_media_type:
  "media_type_of (dict_merge headers (soap_transport_headers version action)) =
     (case find (\<lambda>(n, _). str_lower n = CONTENT_TYPE_HEADER) headers of
        Some (n, v) \<Rightarrow> if n = ''Content-Type'' then media_type_of (soap_transport_headers version action)
                      else normalise_media_type v
      | None \<Rightarrow> media_type_of (soap_transport_headers version action))"
  by (subst (1 2 3) transport_headers_cases)
    (auto simp: dict_merge_def media_type_of_find find_dict_set_other find_dict_set split: option.splits)

lemma partition_upto:
  "c \<notin> set s \<Longrightarrow> str_partition c (s @ c # t) = (s, True, t)"
  by (induction s) (auto simp: str_partition_def)

lemma transport_media_type:
  assumes "version \<in> {SOAP_11, SOAP_12}"
  shows "media_type_of (soap_transport_headers version action) = dict_get_or REQUEST_MEDIA_TYPE version []"
proof -
  let ?m = "dict_get_or REQUEST_MEDIA_TYPE version []"
  have m: "CHR '';'' \<notin> set ?m" "str_lower (str_strip ?m) = ?m"
    using assms by (elim insertE emptyE; simp; code_simp)+
  have "normalise_media_type (?m @ '';'' @ t) = ?m" for t
    using partition_upto [OF m(1), of t] m(2) by (simp add: normalise_media_type_def)
  from this [of "'' charset=utf-8''"] this [of "'' charset=utf-8; action='' @ quoted a" for a] show ?thesis
    by (auto simp: soap_transport_headers_def Let_def split: option.split)
qed

lemma soap_media_types_are_raw:
  assumes "version \<in> {SOAP_11, SOAP_12}"
  shows "filter_for_media_type (dict_get_or REQUEST_MEDIA_TYPE version []) payload = RawFilter"
proof -
  have "dict_get_or REQUEST_MEDIA_TYPE version [] \<noteq> FORM_MEDIA_TYPE"
    "\<not> is_json_media_type (dict_get_or REQUEST_MEDIA_TYPE version [])"
    "dict_get_or REQUEST_MEDIA_TYPE version [] \<in> set RAW_BODY_MEDIA_TYPES"
    using assms by (elim insertE emptyE; simp; code_simp)+
  then show ?thesis by (simp add: filter_for_media_type_def)
qed

lemma map_of_merge:
  "distinct (map fst b) \<Longrightarrow> map_of (dict_merge a b) k = (case map_of b k of None \<Rightarrow> map_of a k | Some v \<Rightarrow> Some v)"
proof (induction b arbitrary: a)
  case (Cons kv b)
  obtain k' v where kv: "kv = (k', v)" by fastforce
  have "map_of b k' = None" using Cons.prems by (simp add: kv map_of_eq_None_iff)
  with Cons kv show ?case by (auto simp: dict_merge_def split: option.splits)
qed (simp add: dict_merge_def)

lemma validated_soap_version_ok: "validated_soap_version v = Inr s \<Longrightarrow> s \<in> {SOAP_11, SOAP_12}"
  by (auto simp: validated_soap_version_def ENVELOPE_NAMESPACE_def split: pyval.splits if_splits)

lemma validated_soap_action_ok:
  "validated_soap_action v = Inr (Some a) \<Longrightarrow> v = PStr a \<and> a \<noteq> [] \<and> set a \<inter> {double_quote, CHR 0x0D, CHR 0x0A} = {}"
  by (auto simp: validated_soap_action_def FORBIDDEN_ACTION_CHARS_def split: pyval.splits if_splits)

lemma merge_safe:
  "list_all (\<lambda>(n, t). header_safe n \<and> header_safe t) a \<Longrightarrow> list_all (\<lambda>(n, t). header_safe n \<and> header_safe t) b \<Longrightarrow>
     list_all (\<lambda>(n, t). header_safe n \<and> header_safe t) (dict_merge a b)"
  by (induction b arbitrary: a) (auto simp: dict_merge_def intro: canonical_set_safe)

lemma soap_http_fields:
  assumes "soap_http ip6 f b transport = Inr h"
  obtains headers where "validated_headers (dget_or (br_info b) ''headers'' PNone) = Inr headers"
    "hq_headers h = dict_merge headers transport" "hq_request_type h = ''POST''" "hq_base h = b" "hq_upload h = PDict []"
    "list_all (\<lambda>(n, t). header_safe n \<and> header_safe t) transport \<longrightarrow> wf_http_request h"
proof -
  let ?get = "\<lambda>k d. dget_or (br_info b) k d"
  obtain headers where
    hd: "validated_headers (?get ''headers'' PNone) = Inr headers" "hq_headers h = dict_merge headers transport"
    and parts: "validated_http_auth ip6 (br_auth b) (br_url b) = Inr (hq_auth h)"
    "validated_cookies (?get ''cookies'' PNone) = Inr (hq_cookies h)"
    "validated_timeout (br_timeout b) = Inr (hq_timeout h)"
    "validated_allowed_schemes (?get ''allowed_schemes'' (PSet (map PStr ALLOWED_SCHEMES))) = Inr (hq_allowed h)"
    and fwd: "validated_cross_origin_headers (?get ''cross_origin_headers'' PNone) = Inr (hq_forward h)"
    and ses: "validated_session f (?get ''session'' PNone) (hq_forward h) = Inr (hq_session h)"
    and caps: "validated_max_response_bytes (?get ''max_response_bytes'' (PInt MAX_RESPONSE_BYTES)) = Inr (hq_cap h)"
    "validated_max_redirects (?get ''max_redirects'' (PInt MAX_REDIRECTS)) = Inr (hq_max_redirects h)"
    and fixed: "hq_request_type h = ''POST''" "hq_base h = b" "hq_upload h = PDict []"
    using assms unfolding soap_http_def Let_def by (auto simp only: rbind_eq_Inr) auto
  have "0 < hq_cap h" "0 \<le> hq_max_redirects h"
    using caps by (auto simp: validated_max_response_bytes_def validated_max_redirects_def split: pyval.splits if_splits)
  moreover have "str_lower (str_strip ''POST'') \<in> set HTTP_VERBS" by code_simp
  moreover have "list_all (\<lambda>(n, t). header_safe n \<and> header_safe t) (hq_headers h)"
    if "list_all (\<lambda>(n, t). header_safe n \<and> header_safe t) transport"
    unfolding hd(2) by (rule merge_safe [OF validated_headers_ok [OF hd(1)] that])
  ultimately have "wf_http_request h" if "list_all (\<lambda>(n, t). header_safe n \<and> header_safe t) transport"
    using that fixed parts fwd ses validated_session_ok [of f "?get ''session'' PNone" "hq_forward h"]
      validated_cross_origin_headers_ok [OF fwd]
    unfolding wf_http_request_def
    by (auto dest: validated_timeout_ok validated_http_auth_ok validated_allowed_schemes_ok validated_cookies_ok
        split: option.split)
  with that hd fixed show thesis by blast
qed

lemma header_safe_append [simp]: "header_safe (a @ b) \<longleftrightarrow> header_safe a \<and> header_safe b"
  by (simp add: header_safe_def)

lemma transport_safe:
  assumes "version \<in> {SOAP_11, SOAP_12}" "list_all header_safe (case action of None \<Rightarrow> [] | Some a \<Rightarrow> [a])"
  shows "list_all (\<lambda>(n, t). header_safe n \<and> header_safe t) (soap_transport_headers version action)"
proof -
  have fixed: "header_safe ''Content-Type''" "header_safe ''SOAPAction''" "header_safe ''; charset=utf-8''"
    "header_safe ''; action=''" "header_safe EMPTY_SOAP_ACTION" "header_safe [double_quote]" "header_safe []"
    by code_simp+
  have media: "header_safe (dict_get_or REQUEST_MEDIA_TYPE version [])"
    using assms(1) by (elim insertE emptyE; simp only:; code_simp)
  have quoted: "header_safe (quoted a)" if "header_safe a" for a
    using that fixed(6) unfolding quoted_def header_safe_def by simp
  from media fixed quoted assms(2) show ?thesis
    unfolding soap_transport_headers_def Let_def
    by (cases action) (simp_all only: header_safe_append list.pred_inject prod.case option.case if_split simp_thms)
qed

lemma soap_request_made:
  assumes "new_soap_request ip6 f x now clock sleep url auth response info params reg = (Inr q, reg')"
  obtains b action_value where "fst (new_request ip6 now clock sleep url auth response info params reg) = Inr b"
    "so_version q \<in> {SOAP_11, SOAP_12}" "validated_soap_action action_value = Inr (so_action q)"
    "soap_http ip6 f b (soap_transport_headers (so_version q) (so_action q)) = Inr (so_http q)"
proof -
  from assms obtain b where b: "fst (new_request ip6 now clock sleep url auth response info params reg) = Inr b"
      and q: "soap_request_of ip6 f x (env_payload response) b = Inr q"
    by (auto simp: new_soap_request_def rbind_eq_Inr split: prod.splits)
  from q show thesis
    by (auto simp: soap_request_of_def Let_def rbind_eq_Inr ensure_eq_Inr dest: validated_soap_version_ok
      intro!: that [OF b])
qed

text \<open>
  C22. A SOAP call that is constructed is a POST whose two protocol headers are the library's, whatever
  the caller passed under those names: the media type of the version, and the action in quotes that it
  cannot leave, in its own header (1.1) or as a parameter (1.2). The envelope is sent byte for
  byte unless the caller's headers hold a content type in another spelling: that one comes first
  and picks the encoding of the body instead. The request is well formed if the action holds no character
  that headers refuse, which the check of the action does not ask for.
\<close>

theorem soap_requests_are_posts:
  assumes "new_soap_request ip6 f x now clock sleep url auth response info params reg = (Inr q, reg')"
  shows "hq_request_type (so_http q) = ''POST'' \<and> hq_upload (so_http q) = PDict []
    \<and> (\<forall>a. so_action q = Some a \<longrightarrow> a \<noteq> [] \<and> set a \<inter> {double_quote, CHR 0x0D, CHR 0x0A} = {})
    \<and> (let action = (case so_action q of None \<Rightarrow> [] | Some a \<Rightarrow> a) in
        if so_version q = ''1.1'' then map_of (hq_headers (so_http q)) ''Content-Type'' = Some ''text/xml; charset=utf-8''
          \<and> map_of (hq_headers (so_http q)) ''SOAPAction'' = Some (quoted action)
        else so_version q = ''1.2'' \<and> map_of (hq_headers (so_http q)) ''Content-Type'' =
          Some (''application/soap+xml; charset=utf-8'' @ (if action = [] then [] else ''; action='' @ quoted action)))
    \<and> (\<exists>headers. validated_headers (dget_or (br_info (hq_base (so_http q))) ''headers'' PNone) = Inr headers \<and>
        filter_for_media_type (media_type_of (hq_headers (so_http q))) (PStr (so_envelope q)) =
          (case find (\<lambda>(n, _). str_lower n = ''content-type'') headers of
             Some (n, v) \<Rightarrow> if n = ''Content-Type'' then RawFilter
                           else filter_for_media_type (normalise_media_type v) (PStr (so_envelope q))
           | None \<Rightarrow> RawFilter))
    \<and> (list_all header_safe (case so_action q of None \<Rightarrow> [] | Some a \<Rightarrow> [a]) \<longrightarrow> wf_http_request (so_http q))"
proof -
  from soap_request_made [OF assms] obtain b action_value where
    version: "so_version q \<in> {SOAP_11, SOAP_12}" and action: "validated_soap_action action_value = Inr (so_action q)"
    and h: "soap_http ip6 f b (soap_transport_headers (so_version q) (so_action q)) = Inr (so_http q)" .
  let ?transport = "soap_transport_headers (so_version q) (so_action q)"
  from soap_http_fields [OF h] obtain headers where
    hd: "validated_headers (dget_or (br_info b) ''headers'' PNone) = Inr headers" "hq_headers (so_http q) = dict_merge headers ?transport"
    and fixed: "hq_request_type (so_http q) = ''POST''" "hq_base (so_http q) = b" "hq_upload (so_http q) = PDict []"
    and wf: "list_all (\<lambda>(n, t). header_safe n \<and> header_safe t) ?transport \<longrightarrow> wf_http_request (so_http q)" .
  have act: "\<forall>a. so_action q = Some a \<longrightarrow> a \<noteq> [] \<and> set a \<inter> {double_quote, CHR 0x0D, CHR 0x0A} = {}"
    using validated_soap_action_ok action by metis
  have "map_of (hq_headers (so_http q)) k = (case map_of ?transport k of None \<Rightarrow> map_of headers k | Some v \<Rightarrow> Some v)" for k
    unfolding hd(2) by (rule map_of_merge) (simp add: soap_transport_headers_def Let_def)
  then have own: "let action = (case so_action q of None \<Rightarrow> [] | Some a \<Rightarrow> a) in
        if so_version q = ''1.1'' then map_of (hq_headers (so_http q)) ''Content-Type'' = Some ''text/xml; charset=utf-8''
          \<and> map_of (hq_headers (so_http q)) ''SOAPAction'' = Some (quoted action)
        else so_version q = ''1.2'' \<and> map_of (hq_headers (so_http q)) ''Content-Type'' =
          Some (''application/soap+xml; charset=utf-8'' @ (if action = [] then [] else ''; action='' @ quoted action))"
    using version act
    by (auto simp: soap_transport_headers_def Let_def SOAP_11_def SOAP_12_def REQUEST_MEDIA_TYPE_def dict_get_or_def
        EMPTY_SOAP_ACTION_def quoted_def split: option.split)
  have raw: "filter_for_media_type (media_type_of (hq_headers (so_http q))) (PStr (so_envelope q)) =
      (case find (\<lambda>(n, _). str_lower n = ''content-type'') headers of
         Some (n, v) \<Rightarrow> if n = ''Content-Type'' then RawFilter
                       else filter_for_media_type (normalise_media_type v) (PStr (so_envelope q))
       | None \<Rightarrow> RawFilter)"
    unfolding hd(2) merged_media_type transport_media_type [OF version]
    using soap_media_types_are_raw [OF version] by (auto simp: CONTENT_TYPE_HEADER_def split: option.split)
  have "list_all (\<lambda>(n, t). header_safe n \<and> header_safe t) ?transport"
    if "list_all header_safe (case so_action q of None \<Rightarrow> [] | Some a \<Rightarrow> [a])"
    using transport_safe [OF version that] .
  with wf fixed act own raw hd(1) show ?thesis by blast
qed

text \<open>A caller whose content type is spelled in small letters: the envelope is encoded as JSON.\<close>

definition soap_call :: "(exn + soap_request) \<times> registry" where
  "soap_call = new_soap_request (\<lambda>_. False) plain_foreign no_xml 0 (PFun 0) (PFun 1) ''https://h/'' PNone
     (new_envelope ''t'' ''https://h/'' ''SOAP'' (PStr ''<a/>'') [])
     (PDict [(PStr ''soap_action'', PStr ''urn:a''),
        (PStr ''headers'', PDict [(PStr ''content-type'', PStr ''application/json'')])]) [] empty_registry"

lemma soap_call_ok:
  "case fst soap_call of Inl _ \<Rightarrow> False
   | Inr q \<Rightarrow> so_action q = Some ''urn:a'' \<and> so_version q = SOAP_11
       \<and> dget_or (br_info (hq_base (so_http q))) ''headers'' PNone = PDict [(PStr ''content-type'', PStr ''application/json'')]"
  by code_simp

theorem soap_requests_are_posts_witness:
  "case fst soap_call of Inl _ \<Rightarrow> False
   | Inr q \<Rightarrow> hq_request_type (so_http q) = ''POST'' \<and> wf_http_request (so_http q)
       \<and> map_of (hq_headers (so_http q)) ''Content-Type'' = Some ''text/xml; charset=utf-8''
       \<and> filter_for_media_type (media_type_of (hq_headers (so_http q))) (PStr (so_envelope q)) = JsonFilter"
proof -
  obtain q where q: "fst soap_call = Inr q" "so_action q = Some ''urn:a''" "so_version q = ''1.1''"
      and info: "dget_or (br_info (hq_base (so_http q))) ''headers'' PNone = PDict [(PStr ''content-type'', PStr ''application/json'')]"
    using soap_call_ok by (cases "fst soap_call") (auto simp: SOAP_11_def)
  then have call: "soap_call = (Inr q, snd soap_call)" by (metis prod.collapse)
  have hd: "validated_headers (PDict [(PStr ''content-type'', PStr ''application/json'')]) =
      Inr [(''content-type'', ''application/json'')]" by code_simp
  have json: "normalise_media_type ''application/json'' = JSON_MEDIA_TYPE" "str_lower ''content-type'' = ''content-type''"
    "JSON_MEDIA_TYPE \<noteq> FORM_MEDIA_TYPE" "header_safe ''urn:a''"
    by code_simp+
  from soap_requests_are_posts [OF call [unfolded soap_call_def]] show ?thesis
    using q info hd json
    by (simp add: Let_def filter_for_media_type_def is_json_media_type_def)
qed

text \<open>The action is checked for less than headers refuse: a null character passes.\<close>

lemma null_passes_as_action:
  "validated_soap_action (PStr [CHR 0x00]) = Inr (Some [CHR 0x00])"
  "\<not> header_safe (quoted [CHR 0x00])"
  by code_simp+

section \<open>The answer\<close>

lemma parse_errors:
  assumes "parse_soap_response x raw = Inl (c, message, cause)"
  shows "c \<in> {UnsafeXmlError, SerializationError}"
  using assms
  by (auto simp: parse_soap_response_def parse_document_def not_an_envelope_def Let_def rbind_eq_Inl
      split: sum.splits option.splits if_splits)

lemma raise_soap_class:
  "raise_soap_error (c, message, cause) xs = (i, xs') \<Longrightarrow> is_lib c \<Longrightarrow> ex_class (xs_heap xs' i) = c"
  by (auto simp: raise_soap_error_def Let_def split: option.splits prod.splits dest!: new_exc_eq raise_from_eq)

text \<open>How an answer is judged, by what it parses to.\<close>

definition soap_judgement :: "(soap_error + element option \<times> soap_fault option) \<Rightarrow> http_result \<Rightarrow> exc_class option" where
  "soap_judgement parsed result =
     (if hr_decode_error result then Some SerializationError
      else case parsed of
          Inl (c, _, _) \<Rightarrow> Some c
        | Inr (_, Some _) \<Rightarrow> Some SoapFaultError
        | Inr (_, None) \<Rightarrow> if 400 \<le> hr_status result then Some HttpStatusError else None)"

lemma finalise_ok_keeps [simp]:
  "env_text (finalise_ok str_of now status started env) = env_text env"
  "env_headers (finalise_ok str_of now status started env) = env_headers env"
  "env_cookies (finalise_ok str_of now status started env) = env_cookies env"
  "env_details (finalise_ok str_of now status started env) = env_details env"
  by (simp_all add: finalise_ok_def seal_def)

lemma soap_answer_judged:
  assumes "soap_answer x dc str_of now q result env xs = (r, env', xs')"
  shows "map_option (\<lambda>i. ex_class (xs_heap xs' i)) r = soap_judgement (parse_soap_response x (hr_text result)) result
    \<and> env_status env' = hr_status result \<and> env_text env' = hr_text result
    \<and> env_headers env' = redact_headers (hr_headers result) \<and> env_cookies env' = redact_cookies (hr_cookies result)
    \<and> (r = None \<longrightarrow> sealed str_of env' \<and> env_ok env')
    \<and> (\<forall>body fault. \<not> hr_decode_error result \<and> parse_soap_response x (hr_text result) = Inr (body, fault) \<longrightarrow>
         env_details env' = soap_details x (so_version q) body fault \<and>
         (\<forall>i f. r = Some i \<and> fault = Some f \<longrightarrow> ex_status (xs_heap xs' i) = hr_status result
            \<and> ex_text (xs_heap xs' i) = fault_message (br_url (hq_base (so_http q))) (br_redact (hq_base (so_http q))) f))"
proof (cases "hr_decode_error result")
  case True
  with assms show ?thesis
    by (auto simp: soap_answer_def Let_def soap_judgement_def split: prod.splits dest!: new_exc_eq)
next
  case decoded: False
  show ?thesis
  proof (cases "parse_soap_response x (hr_text result)")
    case (Inl e)
    obtain c message cause where e: "e = (c, message, cause)" by (cases e)
    with Inl parse_errors [of x "hr_text result" c message cause] have "is_lib c" by auto
    with decoded Inl assms show ?thesis
      by (auto simp: e soap_answer_def Let_def soap_judgement_def split: prod.splits dest!: raise_soap_class)
  next
    case (Inr p)
    obtain body fault where p: "p = (body, fault)" by (cases p)
    show ?thesis
    proof (cases fault)
      case None
      with decoded Inr p assms show ?thesis
        by (auto simp: soap_answer_def Let_def soap_judgement_def HTTP_ERROR_STATUS_def status_error_def
            finalise_ok_sealed split: prod.splits if_splits dest!: new_exc_eq)
    next
      case (Some f)
      with decoded Inr p assms show ?thesis
        by (auto simp: soap_answer_def Let_def soap_judgement_def new_gateway_error_status split: prod.splits
            dest!: new_exc_eq)
    qed
  qed
qed

lemma soap_exchange_returned:
  assumes "handle_soap_request x su q b env xs = Some (r, env', xs', b')" 
    and "handle_http_request (su_failsafe su) (su_hierarchy su) (su_files su) b (su_texts su) (soap_options q)
        (br_url (hq_base (so_http q))) ''POST'' (PDict []) (PStr (so_envelope q)) (su_attempts su) = Some (b1, Returned result)"
  obtains env1 where "soap_answer x (su_decoding su) (su_str_of su) (su_now su) q result env1 xs = (r, env', xs')"
  using assms by (auto simp: handle_soap_request_def soap_exchange_def Let_def leave_run_def split: prod.splits)

lemma soap_answered:
  assumes "handle_soap_request x su q b env xs = Some (None, env', xs', b')"
  shows "sealed (su_str_of su) env' \<and> env_ok env' \<and> env_status env' < HTTP_ERROR_STATUS"
proof -
  from assms obtain result env1 xs1 where
    a: "soap_answer x (su_decoding su) (su_str_of su) (su_now su) q result env1 xs1 = (None, env', xs')"
    by (auto simp: handle_soap_request_def soap_exchange_def Let_def split: option.splits prod.splits sum.splits)
  from soap_answer_judged [OF this] show ?thesis
    by (auto simp: soap_judgement_def HTTP_ERROR_STATUS_def split: if_splits sum.splits prod.splits option.splits)
qed

text \<open>
  C21. A SOAP answer is judged by what it says before what it is marked with: a body that does not decode, is
  no envelope or begins with a document type is an error of its own; a fault is a \<open>SoapFaultError\<close> with
  the status of the answer, 200 included, named by its code and reason to a redacted URL; only without
  a fault does the status decide, and a success is an answer below 400 whose envelope has no fault. The envelope
  holds what was answered, the body and the fault, in every case.
\<close>

theorem soap_answers_are_judged_by_their_fault:
  assumes "handle_soap_request x su q b env xs = Some (r, env', xs', b')"
    and "handle_http_request (su_failsafe su) (su_hierarchy su) (su_files su) b (su_texts su) (soap_options q)
        (br_url (hq_base (so_http q))) ''POST'' (PDict []) (PStr (so_envelope q)) (su_attempts su) = Some (b1, Returned result)"
  shows "map_option (\<lambda>i. ex_class (xs_heap xs' i)) r = soap_judgement (parse_soap_response x (hr_text result)) result
    \<and> env_status env' = hr_status result \<and> env_text env' = hr_text result
    \<and> env_headers env' = redact_headers (hr_headers result) \<and> env_cookies env' = redact_cookies (hr_cookies result)
    \<and> (r = None \<longrightarrow> sealed (su_str_of su) env' \<and> env_ok env')
    \<and> (\<forall>body fault. \<not> hr_decode_error result \<and> parse_soap_response x (hr_text result) = Inr (body, fault) \<longrightarrow>
         env_details env' = soap_details x (so_version q) body fault \<and>
         (\<forall>i f. r = Some i \<and> fault = Some f \<longrightarrow> ex_status (xs_heap xs' i) = hr_status result
            \<and> ex_text (xs_heap xs' i) = fault_message (br_url (hq_base (so_http q))) (br_redact (hq_base (so_http q))) f))"
proof -
  from soap_exchange_returned [OF assms] obtain env1 where
    "soap_answer x (su_decoding su) (su_str_of su) (su_now su) q result env1 xs = (r, env', xs')" .
  from soap_answer_judged [OF this] show ?thesis .
qed

text \<open>A fault under status 200.\<close>

definition fault_document :: element where
  "fault_document =
     (let namespace = ''http://schemas.xmlsoap.org/soap/envelope/'' in
      Element (in_namespace namespace ''Envelope'') [] None
        [Element (in_namespace namespace ''Body'') [] None
          [Element (in_namespace namespace ''Fault'') [] None
            [Element ''faultcode'' [] (Some ''soap:Client'') [] None, Element ''faultstring'' [] (Some '' no '') [] None] None] None] None)"

definition plain_soap :: soap_request where
  "plain_soap = \<lparr>so_http = plain_request\<lparr>hq_headers := soap_transport_headers SOAP_11 None\<rparr>, so_version = SOAP_11,
     so_action = None, so_envelope = ''<Envelope/>''\<rparr>"

definition fault_surround :: surround where
  "fault_surround = plain_surround (one_host 200 ''text/xml'' ''<f/>'') (\<lambda>_. None)"

definition fault_answer :: "exchanged option" where
  "fault_answer = handle_soap_request (one_element fault_document) fault_surround plain_soap plain_breaker plain_env no_exceptions"

lemma fault_exchange:
  "handle_http_request (su_failsafe fault_surround) (su_hierarchy fault_surround) (su_files fault_surround) plain_breaker
     (su_texts fault_surround) (soap_options plain_soap) (br_url (hq_base (so_http plain_soap))) ''POST'' (PDict [])
     (PStr (so_envelope plain_soap)) (su_attempts fault_surround)
     = Some (plain_breaker, Returned (plain_result 200 ''text/xml'' ''<f/>''))"
proof -
  let ?w = "one_host 200 ''text/xml'' ''<f/>''" and ?o = "soap_options plain_soap"
  have build: "body_factory (su_files fault_surround) (PDict [])
      (case ho_headers ?o of Some hs \<Rightarrow> hs | None \<Rightarrow> []) (PStr (so_envelope plain_soap)) ''POST''
      = Inr (Inr (DataBody (PStr ''<Envelope/>'')))"
    by code_simp
  have ssl: "get_ssl_config (w_load (at_world (one_attempt ?w))) (ho_certificate ?o) (ho_verify_ssl ?o) = Inr Verify"
    by code_simp
  have step: "snd (hop_step ((at_world (one_attempt ?w))\<lparr>w_build := \<lambda>_. Inr (DataBody (PStr ''<Envelope/>''))\<rparr>)
      (start_call ?o Verify (at_now (one_attempt ?w)))
      (start_state ?o (br_url (hq_base (so_http plain_soap))) ''POST'' (DataBody (PStr ''<Envelope/>''))))
    = Some (Inr (plain_result 200 ''text/xml'' ''<f/>''), None)"
    by code_simp
  have "br_state plain_breaker = Closed" by (simp add: plain_breaker_def new_breaker_def)
  moreover have "su_attempts fault_surround = [one_attempt ?w]" by (simp add: fault_surround_def plain_surround_def)
  ultimately show ?thesis
    using handle_one_turn [OF build _ ssl refl step] plain_breaker_success by simp
qed

theorem soap_answers_are_judged_by_their_fault_witness:
  "case fault_answer of Some (Some i, env, xs, b) \<Rightarrow>
       ex_class (xs_heap xs i) = SoapFaultError \<and> ex_status (xs_heap xs i) = 200 \<and> env_text env = ''<f/>''
     | _ \<Rightarrow> False"
proof -
  have "fault_answer \<noteq> None" using fault_exchange by (simp add: fault_answer_def handle_soap_request_def soap_exchange_def Let_def)
  then obtain r env xs b where f: "fault_answer = Some (r, env, xs, b)" by auto
  have parsed: "parse_soap_response (one_element fault_document) ''<f/>'' =
      Inr (None, Some \<lparr>sf_code = ''soap:Client'', sf_subcodes = [], sf_reason = ''no'', sf_actor = None, sf_detail = None\<rparr>)"
    by code_simp
  show ?thesis
    using soap_answers_are_judged_by_their_fault [OF f [unfolded fault_answer_def] fault_exchange] parsed
    unfolding f by (auto simp: plain_result_def soap_judgement_def split: option.splits)
qed

end
