(* ===== verification/Protocols.thy ===== *)
theory Protocols
  imports Entry Grpc_Guarantees Soap_Guarantees
begin

text \<open>
  The SOAP, FTP, SFTP, S3 and gRPC clients as protocol classes of the entry point: their validation of
  \<open>protocol_info\<close>, their constructors with the lookup in the registry, and their coroutines under the
  breaker of the destination. With the HTTP classes they keep the contract \<open>sealed_client\<close>.
\<close>

text \<open>What they take from outside beside the setting of the HTTP classes.\<close>

record transfer_setting =
  ts_ip6 :: "string \<Rightarrow> bool"
  ts_attr :: "pyval \<Rightarrow> string \<Rightarrow> pyval"
  ts_typed :: "pyval \<Rightarrow> sftp_auth option"
  ts_started :: rat
  ts_clock :: pyval
  ts_sleep :: pyval
  ts_str_of :: "pyval \<Rightarrow> string"
  ts_now :: rat
  ts_ftp :: ftp_peer
  ts_sftp :: sftp_peer
  ts_s3 :: s3_peer
  ts_objects :: grpc_objects
  ts_grpc :: grpc_peer
  ts_xml :: xml_library

definition ftp_class :: "transfer_setting \<Rightarrow> client" where
  "ftp_class st =
     \<lparr>cl_validate = (\<lambda>info. validated_protocol_info info [] None (Some FTP_ACCEPTED_INFO_KEYS)),
      cl_new = (\<lambda>url auth env info params reg.
        let (made, reg') = new_ftp_request (ts_ip6 st) (ts_attr st) (ts_started st) (ts_clock st) (ts_sleep st)
              url auth env info params reg
        in (rbind made (\<lambda>q. Inr (br_start (fr_base q), with_breaker (br_breaker (fr_base q))
              (\<lambda>b env xs. map_option fst (handle_ftp_request (ts_ftp st) (ts_str_of st) (ts_now st) q b env xs)))),
            env, reg'))\<rparr>"

definition sftp_class :: "transfer_setting \<Rightarrow> client" where
  "sftp_class st =
     \<lparr>cl_validate = (\<lambda>info. validated_protocol_info info [] None (Some SFTP_ACCEPTED_INFO_KEYS)),
      cl_new = (\<lambda>url auth env info params reg.
        let (made, reg') = new_sftp_request (ts_ip6 st) (ts_typed st) (ts_attr st) (ts_started st) (ts_clock st)
              (ts_sleep st) url auth env info params reg
        in (rbind made (\<lambda>q. Inr (br_start (sr_base q), with_breaker (br_breaker (sr_base q))
              (\<lambda>b env xs. map_option fst (handle_sftp_request (ts_sftp st) (ts_str_of st) (ts_now st) q b env xs)))),
            env, reg'))\<rparr>"

definition s3_class :: "transfer_setting \<Rightarrow> client" where
  "s3_class st =
     \<lparr>cl_validate = validated_s3_info,
      cl_new = (\<lambda>url auth env info params reg.
        let (made, reg') = new_s3_request (ts_ip6 st) (ts_attr st) (ts_started st) (ts_clock st) (ts_sleep st)
              url auth env info params reg
        in (rbind made (\<lambda>q. Inr (br_start (s3_base q), with_breaker (br_breaker (s3_base q))
              (\<lambda>b env xs. map_option fst (handle_s3_request (ts_s3 st) (ts_str_of st) (ts_now st) q b env xs)))),
            env, reg'))\<rparr>"

definition grpc_class :: "transfer_setting \<Rightarrow> client" where
  "grpc_class st =
     \<lparr>cl_validate = validated_grpc_info (ts_objects st),
      cl_new = (\<lambda>url auth env info params reg.
        let (made, reg') = new_grpc_request (ts_ip6 st) (ts_objects st) (ts_started st) (ts_clock st) (ts_sleep st)
              url auth env info params reg
        in (rbind made (\<lambda>q. Inr (br_start (gq_base q), with_breaker (br_breaker (gq_base q))
              (\<lambda>b env xs. map_option fst (handle_grpc_request (ts_grpc st) (ts_str_of st) (ts_now st) q b env xs)))),
            env, reg'))\<rparr>"

definition soap_class :: "setting \<Rightarrow> xml_library \<Rightarrow> client" where
  "soap_class st x =
     \<lparr>cl_validate = (\<lambda>info. validated_protocol_info info [] None (Some SOAP_ACCEPTED_INFO_KEYS)),
      cl_new = (\<lambda>url auth env info params reg.
        let (made, reg') = new_soap_request (se_ip6 st) (se_foreign st) x (se_started st) (se_clock st) (se_sleep st)
              url auth env info params reg
        in (rbind made (\<lambda>q. Inr (br_start (hq_base (so_http q)), with_breaker (br_breaker (hq_base (so_http q)))
              (handle_soap_request x (se_surround st) q))),
            env, reg'))\<rparr>"

context reporting_client
begin

lemma handler_seals:
  assumes "with_breaker i (\<lambda>b env xs. map_option fst (concluded (script p q) (answer str_of now q) b env xs))
      env xs reg = Some (None, env', xs', reg')"
  shows "sealed str_of env' \<and> env_ok env' \<and> env_status env' < HTTP_ERROR_STATUS"
  using assms concluded_answer [of p q str_of now]
  by (auto simp: with_breaker_def split: option.splits)

end

interpretation ftp_entry: sealed_client "ftp_class st" "ts_str_of st" for st
  by unfold_locales
    (auto simp: ftp_class_def handle_ftp_request_def Let_def rbind_eq_Inr split: prod.splits dest!: ftp.handler_seals)

interpretation sftp_entry: sealed_client "sftp_class st" "ts_str_of st" for st
  by unfold_locales
    (auto simp: sftp_class_def handle_sftp_request_def Let_def rbind_eq_Inr split: prod.splits
      dest!: sftp.handler_seals)

lemma s3_handler_seals:
  assumes "with_breaker i (\<lambda>b env xs. map_option fst (handle_s3_request p str_of now q b env xs))
      env xs reg = Some (None, env', xs', reg')"
  shows "sealed str_of env' \<and> env_ok env' \<and> env_status env' < HTTP_ERROR_STATUS"
proof -
  from assms obtain b b' calls where
    "handle_s3_request p str_of now q b env xs = Some ((None, env', xs', b'), calls)"
    by (auto simp: with_breaker_def split: option.splits)
  from s3_answered [OF this] show ?thesis by (simp add: HTTP_ERROR_STATUS_def)
qed

interpretation s3_entry: sealed_client "s3_class st" "ts_str_of st" for st
  by unfold_locales
    (auto simp: s3_class_def Let_def rbind_eq_Inr split: prod.splits dest!: s3_handler_seals)

lemma grpc_handler_seals:
  assumes "with_breaker i (\<lambda>b env xs. map_option fst (handle_grpc_request p str_of now q b env xs))
      env xs reg = Some (None, env', xs', reg')"
  shows "sealed str_of env' \<and> env_ok env' \<and> env_status env' < HTTP_ERROR_STATUS"
proof -
  from assms obtain b b' calls where
    "handle_grpc_request p str_of now q b env xs = Some ((None, env', xs', b'), calls)"
    by (auto simp: with_breaker_def split: option.splits)
  from grpc_answered [OF this] show ?thesis by (simp add: HTTP_ERROR_STATUS_def)
qed

interpretation grpc_entry: sealed_client "grpc_class st" "ts_str_of st" for st
  by unfold_locales
    (auto simp: grpc_class_def Let_def rbind_eq_Inr split: prod.splits dest!: grpc_handler_seals)

lemma soap_handler_seals:
  assumes "with_breaker i (handle_soap_request x su q) env xs reg = Some (None, env', xs', reg')"
  shows "sealed (su_str_of su) env' \<and> env_ok env' \<and> env_status env' < HTTP_ERROR_STATUS"
  using assms soap_answered [of x su q] by (auto simp: with_breaker_def split: option.splits)

interpretation soap_entry: sealed_client "soap_class st x" "su_str_of (se_surround st)" for st x
  by unfold_locales
    (auto simp: soap_class_def Let_def rbind_eq_Inr split: prod.splits dest!: soap_handler_seals)

text \<open>
  C1. A call that returns, over any of the modelled protocols, returns a sealed envelope: \<open>ok\<close> exactly
  when there is no error, a masked payload, a message for every error; a success has a status below
  400; and a failure is logged exactly once, a success never. It holds for every argument, server,
  breaker and pre-processor. Left out are a call with a post-processor, which may rewrite what it is
  shown, the GCS protocol, and an error whose class has an empty name.
\<close>

theorem calls_return_sealed_envelopes:
  assumes "request en c xs reg = Some (Inr env, xs', reg', logs)"
    and "admit (en_mapping en) c = Inr a"
    and "ad_class a \<in> {http_class st, jsonrpc_class st, graphql_class st, ftp_class ts, sftp_class ts, s3_class ts, grpc_class ts,
      soap_class st (ts_xml ts)}"
    and "ad_protocol a \<noteq> ''GCS''"
    and "su_str_of (se_surround st) = en_str_of en" and "ts_str_of ts = en_str_of en" and "ad_post a = None"
    and "map_option ge_type (env_error env) \<noteq> Some []"
  shows "sealed (en_str_of en) env \<and> (env_ok env \<longrightarrow> env_status env < 400)
    \<and> length logs = (if env_ok env then 0 else 1)"
proof -
  have d: "dispatch en c a xs reg = Some (Inr env, xs', reg', logs)"
    using assms(1,2) by (simp add: request_def)
  have "sealed_client (ad_class a) (en_str_of en)"
    using assms(3) http_entry.sealed_client_axioms [of st] jsonrpc_entry.sealed_client_axioms [of st]
      graphql_entry.sealed_client_axioms [of st] ftp_entry.sealed_client_axioms [of ts]
      sftp_entry.sealed_client_axioms [of ts] s3_entry.sealed_client_axioms [of ts] grpc_entry.sealed_client_axioms [of ts]
      soap_entry.sealed_client_axioms [of st "ts_xml ts"] unfolding assms(5,6) by auto
  from sealed_client.dispatch_seals [OF this d refl refl assms(7,4,8)] show ?thesis
    by (simp add: HTTP_ERROR_STATUS_def)
qed

text \<open>A call that ends at the scheme of its URL, seen with both settings.\<close>

definition example_transfers :: transfer_setting where
  "example_transfers =
     \<lparr>ts_ip6 = (\<lambda>_. False), ts_attr = (\<lambda>_ _. PNone), ts_typed = (\<lambda>_. None), ts_started = 0, ts_clock = PNone,
      ts_sleep = PNone, ts_str_of = en_str_of example_entry, ts_now = 1, ts_ftp = willing_server,
      ts_sftp = sftp_server, ts_s3 = echoing_service, ts_objects = plain_objects,
      ts_grpc = answering rpc_refused, ts_xml = no_xml\<rparr>"

theorem calls_return_sealed_envelopes_witness:
  "case example_answer of Some (Inr env, xs, reg, logs) \<Rightarrow> sealed (\<lambda>_. []) env \<and> length logs = (if env_ok env then 0 else 1)
   | _ \<Rightarrow> False"
proof -
  obtain r xs reg logs where e: "example_answer = Some (r, xs, reg, logs)"
    using example_answered by (cases example_answer) auto
  then obtain env where r: "r = Inr env" and name: "map_option ge_type (env_error env) = Some ''ConfigurationError''"
    using example_answered unfolding e by (cases r) auto
  obtain a where a: "admit (en_mapping example_entry) example_call = Inr a"
      and ad: "ad_protocol a = ''HTTPS''" "ad_post a = None"
    using example_admitted by (cases "admit (en_mapping example_entry) example_call") auto
  have "request example_entry example_call no_exceptions empty_registry = Some (Inr env, xs, reg, logs)"
    using e r by (simp add: example_answer_def)
  from calls_return_sealed_envelopes [OF this a, of example_setting example_transfers] show ?thesis
    using example_class [OF a] ad name unfolding e r
    by (simp add: example_setting_def example_transfers_def example_entry_def plain_surround_def)
qed

end
