(* ===== verification/Stream_Leaks.thy ===== *)
theory Stream_Leaks
  imports Streams
begin

text \<open>
  Reading and streaming leave the table of open descriptors as it was, for every answer of
  the kernel and every cancellation of the caller.
\<close>

lemma fresh_gone: "X d = None \<Longrightarrow> (X(d \<mapsto> b))(d := None) = X"
  by auto

section \<open>Awaits\<close>

lemma wf_fds_tick [simp]: "wf_fds (await_tick s) = wf_fds s"
  by (simp add: wf_fds_def await_tick_def)

lemma fd_table_tick [simp]: "fd_table (await_tick s) = fd_table s"
  by (simp add: fd_table_def await_tick_def)

lemma fdp_ticked:
  assumes "fdp w m X Q" "wf_fds s" "fd_table s = X" "m w (await_tick s) = (r, s')"
  shows "wf_fds s' \<and> Q r (fd_table s')"
proof -
  have "wp m (\<lambda>r s'. wf_fds s' \<and> Q r (fd_table s')) w (await_tick s)"
    using assms(1-3) unfolding fdp_def by simp
  then show ?thesis using assms(4) by (rule wpD)
qed

lemma fdp_shielded:
  assumes "fdp w m X (\<lambda>r Y. Q r Y \<and> (\<not> sc \<longrightarrow> Q (Inl Cancelled_error) Y))"
  shows "fdp w (await_shielded sc m) X Q"
  unfolding fdp_def
proof (intro allI impI wpI)
  fix s r s'
  assume s: "wf_fds s" "fd_table s = X" and a: "await_shielded sc m w s = (r, s')"
  obtain r1 where "m w (await_tick s) = (r1, s')"
    using a by (auto simp: await_shielded_def Let_def split: prod.splits if_splits)
  with fdp_ticked [OF assms s] a show "wf_fds s' \<and> Q r (fd_table s')"
    by (auto simp: await_shielded_def Let_def split: if_splits)
qed

lemma fdp_to_thread:
  assumes "fdp w m X (\<lambda>r Y. Q r Y \<and> Q (Inl Cancelled_error) Y)"
  shows "fdp w (to_thread m) X Q"
  unfolding fdp_def
proof (intro allI impI wpI)
  fix s r s'
  assume s: "wf_fds s" "fd_table s = X" and a: "to_thread m w s = (r, s')"
  obtain r1 where "m w (await_tick s) = (r1, s')"
    using a by (auto simp: to_thread_def split: prod.splits)
  with fdp_ticked [OF assms s] a show "wf_fds s' \<and> Q r (fd_table s')"
    by (auto simp: to_thread_def split: if_splits)
qed

lemma fdp_await_or_undo:
  assumes "fdp w m X (\<lambda>r Y. Q r Y \<and> (case r of
      Inl _ \<Rightarrow> Q (Inl Cancelled_error) Y
    | Inr x \<Rightarrow> fdp w (sbind (undo x) (\<lambda>_. sraise Cancelled_error)) Y Q))"
  shows "fdp w (await_or_undo m undo) X Q"
  unfolding fdp_def
proof (intro allI impI wpI)
  fix s r s'
  assume s: "wf_fds s" "fd_table s = X" and a: "await_or_undo m undo w s = (r, s')"
  obtain r1 s1 where m: "m w (await_tick s) = (r1, s1)" by (cases "m w (await_tick s)")
  note post = fdp_ticked [OF assms s m]
  show "wf_fds s' \<and> Q r (fd_table s')"
  proof (cases "interrupted (w_wakes w (os_tick s))")
    case False
    with post a m show ?thesis by (auto simp: await_or_undo_def)
  next
    case True
    with post a m show ?thesis
      by (cases r1) (auto simp: await_or_undo_def fdp_def wp_def)
  qed
qed

lemma quiet_shielded:
  assumes "quiet m"
  shows "quiet (await_shielded sc m)" "quiet (to_thread m)"
  by (rule quietI, auto simp: await_shielded_def to_thread_def Let_def
      dest: quietD [OF assms] split: prod.splits if_splits)+

lemma fdp_close_descriptor:
  assumes "X d = Some b" "Q (Inr ()) (X(d := None))" "\<And>e. Q (Inl e) (X(d := None))"
  shows "fdp w (close_descriptor sc d) X Q"
  unfolding close_descriptor_def run_thread_call_def
  by (rule fdp_shielded, rule fdp_close [where b = b]) (use assms in auto)

lemma fdp_close_quietly:
  assumes "X d = Some b" "Q (Inr ()) (X(d := None))" "\<not> sc \<Longrightarrow> Q (Inl Cancelled_error) (X(d := None))"
  shows "fdp w (close_quietly sc d) X Q"
  unfolding close_quietly_def close_descriptor_def run_thread_call_def
  by (rule fdp_suppress, rule fdp_shielded, rule fdp_close [where b = b]) (use assms in auto)

lemma quiet_suppress: "quiet m \<Longrightarrow> quiet (suppress_os m)"
  unfolding suppress_os_def by (auto intro!: quiet_catch quiet_return)

lemma quiet_unlinks [intro!]:
  "quiet (unlink_at p n)" "quiet (unlink_if_there p n)" "quiet (unlink_quietly p n)"
  unfolding unlink_quietly_def unlink_at_def unlink_if_there_def run_thread_call_def
  by (auto intro!: quiet_suppress quiet_shielded quiet_catch quiet_return quiet_calls)

text \<open>The unlinking of a cleanup neither opens nor raises.\<close>

lemma sys_unlink_errors: "sys_unlink p n w s = (Inl e, s') \<Longrightarrow> is_os_error e"
  by (auto simp: sys_unlink_def syscall_def split: option.splits node.splits)

lemma unlink_at_errors: "unlink_at p n w s = (Inl e, s') \<Longrightarrow> is_os_error e"
  by (auto simp: unlink_at_def scatch_def sreturn_def sraise_def dest: sys_unlink_errors
      split: prod.splits sum.splits if_splits)

lemma unlink_quietly_returns: "\<exists>s'. unlink_quietly p n w s = (Inr (), s')"
proof -
  obtain r s' where u: "unlink_at p n w (await_tick s) = (r, s')"
    by (cases "unlink_at p n w (await_tick s)")
  have "is_os_error e" if "r = Inl e" for e using u that unlink_at_errors by blast
  with u show ?thesis
    by (cases r) (auto simp: unlink_quietly_def run_thread_call_def await_shielded_def
        suppress_os_def scatch_def sreturn_def Let_def)
qed

lemma fdp_unlink_quietly: "Q (Inr ()) X \<Longrightarrow> fdp w (unlink_quietly p n) X Q"
  unfolding fdp_def
proof (intro allI impI wpI)
  fix s r s'
  assume q: "Q (Inr ()) X" and s: "wf_fds s" "fd_table s = X" and u: "unlink_quietly p n w s = (r, s')"
  have "r = Inr ()" using unlink_quietly_returns [of p n w s] u by auto
  with q s quietD [OF quiet_unlinks(3) u] show "wf_fds s' \<and> Q r (fd_table s')" by simp
qed

lemma acquires_await:
  assumes "acquires w b m X"
  shows "acquires w b (await_open_descriptor m) X"
proof (rule acquiresI)
  fix Q
  assume e: "\<And>e. Q (Inl e :: fail + nat) X" and d: "\<And>d. X d = None \<Longrightarrow> Q (Inr d) (X(d \<mapsto> b))"
  have "fdp w (sbind (close_quietly True d) (\<lambda>_. sraise Cancelled_error)) (X(d \<mapsto> b)) Q"
    if "X d = None" for d
  proof -
    have gone: "(X(d \<mapsto> b))(d := None) = X" using that by auto
    have "fdp w (close_quietly True d) (X(d \<mapsto> b)) (\<lambda>r Y. case r of Inl e \<Rightarrow> Q (Inl e) Y
        | Inr _ \<Rightarrow> fdp w (sraise Cancelled_error) Y Q)"
      by (rule fdp_close_quietly [where b = b], simp, unfold gone) (auto intro: fdp_raise e)
    then show ?thesis by (rule fdp_bind)
  qed
  with e d show "fdp w (await_open_descriptor m) X Q"
    unfolding await_open_descriptor_def
    by (intro fdp_await_or_undo acquiresD [OF assms]) auto
qed

section \<open>Reading\<close>

text \<open>An operation that leaves the table as it found it.\<close>

definition balanced :: "world \<Rightarrow> 'a sys \<Rightarrow> fd_table \<Rightarrow> bool" where
  "balanced w m X \<longleftrightarrow> fdp w m X (\<lambda>r Y. Y = X)"

lemma balancedI: "(\<And>Q. (\<And>r. Q r X) \<Longrightarrow> fdp w m X Q) \<Longrightarrow> balanced w m X"
  by (simp add: balanced_def)

lemma balancedD: "balanced w m X \<Longrightarrow> (\<And>r. Q r X) \<Longrightarrow> fdp w m X Q"
  unfolding balanced_def by (erule fdp_mono) simp

lemma balanced_quiet: "quiet m \<Longrightarrow> balanced w m X"
  unfolding balanced_def by (rule fdp_quiet) auto

lemma balanced_bind: "balanced w m X \<Longrightarrow> (\<And>x. balanced w (f x) X) \<Longrightarrow> balanced w (sbind m f) X"
  by (rule balancedI, rule fdp_bind) (auto intro: balancedD split: sum.splits)

lemma balanced_catch: "balanced w m X \<Longrightarrow> (\<And>e. balanced w (h e) X) \<Longrightarrow> balanced w (scatch m h) X"
  by (rule balancedI, rule fdp_catch) (auto intro: balancedD split: sum.splits)

lemma balanced_acquire:
  assumes "acquires w b m X" "\<And>d Q. X d = None \<Longrightarrow> (\<And>r. Q r X) \<Longrightarrow> fdp w (f d) (X(d \<mapsto> b)) Q"
  shows "balanced w (sbind m f) X"
  by (rule balancedI, rule fdp_bind, rule acquiresD [OF assms(1)]) (auto intro: assms(2))

lemma quiet_read_loop: "quiet (read_loop d read_size limit observed chunks)"
proof (induction d read_size limit observed chunks rule: read_loop.induct)
  case (1 d read_size limit observed chunks)
  then show ?case
    by (subst read_loop.simps)
      (auto simp: run_thread_call_def intro!: quiet_bind quiet_shielded quiet_return quiet_calls)
qed

lemma quiet_resolve [intro!]: "quiet (resolve_caller_path path)"
proof -
  have "quiet (\<lambda>w s. let s' = advance w s in (caller_path (os_nodes s') (os_cwd s') path, s'))"
    by (rule quietI) (auto simp: Let_def)
  then show ?thesis unfolding resolve_caller_path_def by (rule quiet_shielded(2))
qed

text \<open>Use a descriptor, close it on a raise, and then close it.\<close>

lemma fdp_or_close_quietly:
  assumes "X d = None" "quiet m" "\<And>e. Q (Inl e) X" "\<And>x. Q (Inr x) (X(d \<mapsto> b))"
  shows "fdp w (scatch m (\<lambda>e. sbind (close_quietly True d) (\<lambda>_. sraise e))) (X(d \<mapsto> b)) Q"
proof -
  have gone: "(X(d \<mapsto> b))(d := None) = X" using assms(1) by auto
  have "fdp w (close_quietly True d) (X(d \<mapsto> b)) (\<lambda>r Y. case r of Inl e \<Rightarrow> Q (Inl e) Y
      | Inr _ \<Rightarrow> fdp w (sraise e) Y Q)" for e
    by (rule fdp_close_quietly [where b = b], simp, unfold gone) (auto intro: fdp_raise assms(3))
  with assms(4) show ?thesis
    by (intro fdp_catch fdp_quiet [OF assms(2)]) (auto intro: fdp_bind split: sum.splits)
qed

lemma balanced_read:
  assumes "dirs_close w"
  shows "balanced w (read_guarded_file path max_bytes chunk_size) X"
proof -
  let ?rest = "\<lambda>read_size limit d. sbind (scatch (read_loop d read_size limit 0 []) (\<lambda>e.
       sbind (close_quietly True d) (\<lambda>_. sraise e))) (\<lambda>chunks.
     sbind (close_descriptor False d) (\<lambda>_. sreturn (concat chunks)))"
  have rest: "fdp w (?rest read_size limit d) (X(d \<mapsto> False)) Q"
    if "X d = None" "\<And>r. Q r X" for d Q read_size limit
  proof -
    have gone: "(X(d \<mapsto> False))(d := None) = X" using that(1) by (rule fresh_gone)
    have "fdp w (close_descriptor False d) (X(d \<mapsto> False)) (\<lambda>r Y. case r of Inl e \<Rightarrow> Q (Inl e) Y
        | Inr _ \<Rightarrow> fdp w (sreturn c) Y Q)" for c
      by (rule fdp_close_descriptor [where b = False], simp, unfold gone)
        (auto intro: fdp_return that(2))
    then show ?thesis
      by (intro fdp_bind fdp_or_close_quietly that(1) quiet_read_loop) (auto intro: fdp_bind that(2))
  qed
  have "acquires w False (await_open_descriptor (open_read_descriptor source NOFOLLOW)) X" for source
    by (intro acquires_await acquires_open_read assms) (simp add: NOFOLLOW_def)
  from balanced_acquire [OF this rest]
  have "balanced w (sbind (await_open_descriptor (open_read_descriptor source NOFOLLOW))
    (?rest read_size limit)) X" for source read_size limit .
  then show ?thesis
    unfolding read_guarded_file_def
    by (intro balanced_bind [OF balanced_quiet [OF quiet_return(3)]]
        balanced_bind [OF balanced_quiet [OF quiet_resolve]])
qed

section \<open>Streaming\<close>

lemma quiet_write_all: "quiet (write_all d remaining)"
proof (induction d remaining rule: write_all.induct)
  case (1 d remaining)
  then show ?case
    by (subst write_all.simps) (auto intro!: quiet_bind quiet_return quiet_calls)
qed

lemma quiet_copy_items: "quiet (copy_items d limit items written)"
  by (induction d limit items written rule: copy_items.induct)
    (auto simp: Let_def run_thread_call_def
      intro!: quiet_bind quiet_return quiet_shielded quiet_write_all)

lemma quiet_outcome: "quiet m \<Longrightarrow> quiet (outcome_of m)"
  by (auto simp: quiet_def outcome_of_def split: prod.splits)

lemma quiet_stream: "quiet (stream_descriptor d chunks limit)"
  unfolding stream_descriptor_def finalize_iterator_def
  by (auto intro!: quiet_bind quiet_outcome quiet_copy_items quiet_catch quiet_return quiet_shielded
      split: closing.splits option.splits)

lemma quiet_replace_at: "quiet (atomic_replace_at p a b)"
  unfolding atomic_replace_at_def checkpoint_def
  by (auto intro!: quiet_bind quiet_shielded quiet_return quiet_calls)

lemma CREATE_FLAGS_not_dir: "(O_DIRECTORY \<in> CREATE_FLAGS) = False"
  by (simp add: CREATE_FLAGS_def)

lemma fdp_restrict_mode:
  assumes "X d = None" "\<And>e. Q (Inl e) X" "Q (Inr ()) (X(d \<mapsto> False))"
  shows "fdp w (restrict_mode parent d name) (X(d \<mapsto> False)) Q"
proof -
  have gone: "(X(d \<mapsto> False))(d := None) = X" using assms(1) by auto
  have u: "fdp w (sbind (unlink_if_there parent name) (\<lambda>_. sraise e)) X Q" for e
    by (intro fdp_bind fdp_quiet quiet_unlinks) (auto intro: fdp_raise assms(2) split: sum.splits)
  have "fdp w (sys_close d) (X(d \<mapsto> False)) (\<lambda>r Y. case r of Inl e \<Rightarrow> Q (Inl e) Y
      | Inr _ \<Rightarrow> fdp w (sbind (unlink_if_there parent name) (\<lambda>_. sraise e)) Y Q)" for e
    by (rule fdp_close [where b = False], simp, unfold gone) (auto intro: u assms(2))
  then show ?thesis
    unfolding restrict_mode_def
    by (intro fdp_catch fdp_quiet [OF quiet_fchmod]) (auto intro: fdp_bind assms(3) split: sum.splits)
qed

lemma fdp_temporary_file:
  assumes "\<And>e. Q (Inl e) X" "\<And>d name. X d = None \<Longrightarrow> Q (Inr (d, name)) (X(d \<mapsto> False))"
  shows "fdp w (temporary_file_for parent k) X Q"
proof (induction k)
  case 0
  with assms(1) show ?case by (simp add: fdp_raise)
next
  case (Suc k)
  have kept: "fdp w (sbind (restrict_mode parent d name) (\<lambda>_. sreturn (d, name))) (X(d \<mapsto> False)) Q"
    if "X d = None" for d name
    by (intro fdp_bind fdp_restrict_mode that) (auto intro: assms fdp_return that)
  have q: "quiet temporary_name" by (rule quietI) (auto simp: temporary_name_def)
  have "fdp w (scatch (sbind (sys_openat parent name CREATE_FLAGS) (\<lambda>d. sreturn (Some d)))
      (\<lambda>e. if e = Os_error EEXIST then sreturn None else sraise e)) X
      (\<lambda>r Y. case r of Inl e \<Rightarrow> Q (Inl e) Y | Inr x \<Rightarrow> fdp w (case x of
         None \<Rightarrow> temporary_file_for parent k
       | Some d \<Rightarrow> sbind (restrict_mode parent d name) (\<lambda>_. sreturn (d, name))) Y Q)" for name
    by (intro fdp_catch fdp_bind fdp_openat)
      (auto intro!: fdp_return fdp_raise simp: CREATE_FLAGS_not_dir kept Suc assms(1))
  then show ?case
    unfolding temporary_file_for.simps
    by (intro fdp_bind fdp_quiet [OF q]) (auto intro: fdp_bind assms(1) split: sum.splits)
qed

lemma acquires_exclusive_file: "acquires w False (exclusive_file_for parent name) X"
proof (rule acquiresI)
  fix Q
  assume e: "\<And>e. Q (Inl e :: fail + nat) X" and d: "\<And>d. X d = None \<Longrightarrow> Q (Inr d) (X(d \<mapsto> False))"
  have "fdp w (sbind (restrict_mode parent d name) (\<lambda>_. sreturn d)) (X(d \<mapsto> False)) Q"
    if "X d = None" for d
    by (intro fdp_bind fdp_restrict_mode that) (auto intro: e d fdp_return that)
  then show "fdp w (exclusive_file_for parent name) X Q"
    unfolding exclusive_file_for_def
    by (intro fdp_bind fdp_openat) (auto simp: CREATE_FLAGS_not_dir e)
qed

text \<open>Undoing a creation closes what was created.\<close>

lemma fdp_undo:
  assumes "X d = None" "\<And>e. Q (Inl e) X"
  shows "fdp w (sbind (sbind (close_quietly True d) (\<lambda>_. unlink_quietly parent name))
    (\<lambda>_. sraise Cancelled_error)) (X(d \<mapsto> False)) Q"
proof -
  have gone: "(X(d \<mapsto> False))(d := None) = X" using assms(1) by auto
  have u: "fdp w (unlink_quietly parent name) X (\<lambda>r Y. case r of Inl e \<Rightarrow> Q (Inl e) Y
      | Inr _ \<Rightarrow> fdp w (sraise Cancelled_error) Y Q)"
    by (rule fdp_quiet) (auto intro: fdp_raise assms(2) split: sum.splits)
  have "fdp w (close_quietly True d) (X(d \<mapsto> False)) (\<lambda>r Y. case r of
      Inl e \<Rightarrow> (case Inl e of Inl e \<Rightarrow> Q (Inl e) Y | Inr _ \<Rightarrow> fdp w (sraise Cancelled_error) Y Q)
    | Inr _ \<Rightarrow> fdp w (unlink_quietly parent name) Y
        (\<lambda>r Y. case r of Inl e \<Rightarrow> Q (Inl e) Y | Inr _ \<Rightarrow> fdp w (sraise Cancelled_error) Y Q))"
    by (rule fdp_close_quietly [where b = False], simp, unfold gone) (auto intro: u)
  then show ?thesis by (intro fdp_bind) auto
qed

text \<open>The cleanups close the descriptors they are given.\<close>

lemma fdp_cleanups:
  assumes "X p = None" "\<And>r. Q r X"
  shows "(X(p \<mapsto> True)) d = None \<Longrightarrow>
      fdp w (overwrite_cleanup p (Some d) n c f) (X(p \<mapsto> True, d \<mapsto> False)) Q"
    "fdp w (overwrite_cleanup p None n c f) (X(p \<mapsto> True)) Q"
    "(X(p \<mapsto> True)) d = None \<Longrightarrow>
      fdp w (exclusive_cleanup p t (Some d) c s f) (X(p \<mapsto> True, d \<mapsto> False)) Q"
    "fdp w (exclusive_cleanup p t None c s f) (X(p \<mapsto> True)) Q"
proof -
  have gone: "(X(p \<mapsto> True))(p := None) = X" using assms by auto
  have last: "fdp w (close_quietly sc p) (X(p \<mapsto> True)) Q" for sc
    by (rule fdp_close_quietly [where b = True], simp, unfold gone) (auto intro: assms(2))
  have tail: "fdp w (sbind (case n of Some n \<Rightarrow> if c then sreturn () else unlink_quietly p n
      | None \<Rightarrow> sreturn ()) (\<lambda>_. close_quietly sc p)) (X(p \<mapsto> True)) Q"
    "fdp w (sbind (if b then unlink_quietly p t else sreturn ()) (\<lambda>_. close_quietly sc p))
      (X(p \<mapsto> True)) Q" for n c b sc
    by (auto intro!: fdp_bind fdp_unlink_quietly fdp_return last split: option.splits)
  have start: "fdp w (sbind (close_quietly True d) (\<lambda>_. m)) (X(p \<mapsto> True, d \<mapsto> False)) Q"
    if "fdp w m (X(p \<mapsto> True)) Q" "(X(p \<mapsto> True)) d = None" for m
  proof -
    have gone: "(X(p \<mapsto> True, d \<mapsto> False))(d := None) = X(p \<mapsto> True)" using that(2) by (rule fresh_gone)
    have "fdp w (close_quietly True d) (X(p \<mapsto> True, d \<mapsto> False)) (\<lambda>r Y. case r of
        Inl e \<Rightarrow> Q (Inl e) Y | Inr _ \<Rightarrow> fdp w m Y Q)"
      by (rule fdp_close_quietly [where b = False], simp, unfold gone) (auto intro: that(1))
    then show ?thesis by (rule fdp_bind)
  qed
  have skip: "fdp w (sbind (sreturn ()) (\<lambda>_. m)) (X(p \<mapsto> True)) Q"
    if "fdp w m (X(p \<mapsto> True)) Q" for m
    by (intro fdp_bind fdp_return) (simp add: that)
  show "fdp w (overwrite_cleanup p None n c f) (X(p \<mapsto> True)) Q"
    "fdp w (exclusive_cleanup p t None c s f) (X(p \<mapsto> True)) Q"
    unfolding overwrite_cleanup_def exclusive_cleanup_def option.case
    by (rule skip, rule tail)+
  assume "(X(p \<mapsto> True)) d = None"
  note d = this
  show "fdp w (overwrite_cleanup p (Some d) n c f) (X(p \<mapsto> True, d \<mapsto> False)) Q"
    "fdp w (exclusive_cleanup p t (Some d) c s f) (X(p \<mapsto> True, d \<mapsto> False)) Q"
    unfolding overwrite_cleanup_def exclusive_cleanup_def option.case
    by (rule start, rule tail, rule d)+
qed

lemma fdp_or_cleanup:
  assumes "fdp w m X (\<lambda>r Y. case r of
      Inl e \<Rightarrow> fdp w c Y (\<lambda>u Z. case u of Inl e' \<Rightarrow> Q (Inl e') Z | Inr _ \<Rightarrow> Q (Inl e) Z)
    | Inr x \<Rightarrow> Q (Inr x) Y)"
  shows "fdp w (or_cleanup c m) X Q"
  unfolding or_cleanup_def
proof (rule fdp_catch, rule fdp_mono [OF assms])
  fix r Y
  assume "case r of Inl e \<Rightarrow> fdp w c Y (\<lambda>u Z. case u of Inl e' \<Rightarrow> Q (Inl e') Z | Inr _ \<Rightarrow> Q (Inl e) Z)
    | Inr x \<Rightarrow> Q (Inr x) Y"
  then show "case r of Inl e \<Rightarrow> fdp w (sbind c (\<lambda>_. sraise e)) Y Q | Inr x \<Rightarrow> Q (Inr x) Y"
    by (auto intro!: fdp_bind elim!: fdp_mono intro: fdp_raise split: sum.splits)
qed

text \<open>Both policies, once the parent is held.\<close>

lemma fdp_hold_parent:
  assumes "dirs_close w" "\<And>r. Q r X"
    "\<And>p. X p = None \<Longrightarrow> fdp w (f p) (X(p \<mapsto> True)) Q"
  shows "fdp w (sbind (await_open_descriptor (open_parent_descriptor t)) f) X Q"
  by (intro fdp_bind acquiresD [OF acquires_await [OF acquires_open_parent [OF assms(1)]]])
    (simp_all add: assms(2,3))

lemma quiet_stream_and_sync:
  "quiet (sbind (stream_descriptor d chunks limit) (\<lambda>written.
     sbind (run_thread_call False (sys_fsync d)) (\<lambda>_. sreturn written)))"
  by (auto simp: run_thread_call_def
      intro!: quiet_bind quiet_stream quiet_shielded quiet_return quiet_calls)

lemma fdp_guarded_quiet:
  assumes "quiet m" "fdp w c X (\<lambda>u Z. \<forall>e. Q (Inl e) Z)" "\<And>x. Q (Inr x) X"
  shows "fdp w (or_cleanup c m) X Q"
  by (rule fdp_or_cleanup, rule fdp_quiet [OF assms(1)])
    (auto intro!: fdp_mono [OF assms(2)] assms(3) split: sum.splits)

lemma fdp_guarded_close:
  assumes "X d = None" "quiet m" "fdp w c X (\<lambda>u Z. \<forall>e. Q (Inl e) Z)" "\<And>x. Q (Inr x) X"
  shows "fdp w (or_cleanup c (sbind (close_descriptor False d) (\<lambda>_. m))) (X(d \<mapsto> False)) Q"
proof -
  let ?R = "\<lambda>r Y. case r of
      Inl e \<Rightarrow> fdp w c Y (\<lambda>u Z. case u of Inl e' \<Rightarrow> Q (Inl e') Z | Inr _ \<Rightarrow> Q (Inl e) Z)
    | Inr x \<Rightarrow> Q (Inr x) Y"
  have gone: "(X(d \<mapsto> False))(d := None) = X" using assms(1) by auto
  have R: "?R r X" for r
    by (auto intro!: fdp_mono [OF assms(3)] assms(4) split: sum.splits)
  have "fdp w (close_descriptor False d) (X(d \<mapsto> False)) (\<lambda>r Y. case r of Inl e \<Rightarrow> ?R (Inl e) Y
      | Inr _ \<Rightarrow> fdp w m Y ?R)"
    by (rule fdp_close_descriptor [where b = False], simp, unfold gone)
      (use R in \<open>auto intro: fdp_quiet [OF assms(2)]\<close>)
  then show ?thesis by (intro fdp_or_cleanup fdp_bind)
qed

lemma fdp_await_temporary:
  assumes "\<And>e. Q (Inl e) X" "\<And>d name. X d = None \<Longrightarrow> Q (Inr (d, name)) (X(d \<mapsto> False))"
  shows "fdp w (await_temporary_file (temporary_file_for parent k) parent) X Q"
  unfolding await_temporary_file_def
  by (intro fdp_await_or_undo fdp_temporary_file) (auto intro: assms fdp_undo)

lemma acquires_await_exclusive:
  "acquires w False (await_exclusive_file (exclusive_file_for parent name) parent name) X"
  unfolding await_exclusive_file_def
  by (rule acquiresI, intro fdp_await_or_undo acquiresD [OF acquires_exclusive_file])
    (auto intro: fdp_undo)

lemma fdp_then_return: "fdp w m X (\<lambda>u Z. \<forall>r. Q r Z) \<Longrightarrow> fdp w (sbind m (\<lambda>_. sreturn x)) X Q"
  by (rule fdp_bind, erule fdp_mono) (auto intro: fdp_return split: sum.splits)

lemma balanced_overwrite:
  assumes "dirs_close w"
  shows "balanced w (stream_overwrite target chunks limit) X"
  unfolding stream_overwrite_def
proof (rule balancedI, rule fdp_hold_parent [OF assms])
  fix Q :: "fail + int \<Rightarrow> fd_table \<Rightarrow> bool" and p
  assume q: "\<And>r. Q r X" and p: "X p = None"
  let ?X = "X(p \<mapsto> True)" and ?n = "path_name target"
  let ?finish = "\<lambda>name written. sbind (overwrite_cleanup p None (Some name) True False) (\<lambda>_. sreturn written)"
  let ?commit = "\<lambda>d name written. sbind (or_cleanup (overwrite_cleanup p None (Some name) False True)
       (sbind (close_descriptor False d) (\<lambda>_. atomic_replace_at p name ?n))) (\<lambda>_. ?finish name written)"
  have finish: "fdp w (?finish name written) ?X Q" for name written
    by (rule fdp_then_return, rule fdp_cleanups(2)) (auto simp: q p)
  have after: "fdp w (overwrite_cleanup p None n c f) ?X (\<lambda>u Z. \<forall>e. Q (Inl e) Z)" for n c f
    by (rule fdp_cleanups(2)) (auto simp: q p)
  have commit: "fdp w (?commit d name written) (?X(d \<mapsto> False)) Q" if "?X d = None" for d name written
    using that
    by (intro fdp_bind fdp_guarded_close quiet_replace_at) (auto simp: finish after)
  have sync: "fdp w (sbind (or_cleanup (overwrite_cleanup p (Some d) (Some name) False True)
       (sbind (stream_descriptor d chunks limit) (\<lambda>written.
        sbind (run_thread_call False (sys_fsync d)) (\<lambda>_. sreturn written)))) (?commit d name))
      (?X(d \<mapsto> False)) Q" if "?X d = None" for d name
  proof -
    have "fdp w (overwrite_cleanup p (Some d) (Some name) False True) (?X(d \<mapsto> False))
        (\<lambda>u Z. \<forall>e. Q (Inl e) Z)"
      by (rule fdp_cleanups(1)) (use that q p in auto)
    then show ?thesis
      by (intro fdp_bind fdp_guarded_quiet quiet_stream_and_sync) (simp_all add: commit [OF that])
  qed
  show "fdp w (sbind (or_cleanup (overwrite_cleanup p None None False True)
       (await_temporary_file (temporary_file_for p TEMPORARY_ATTEMPTS) p))
       (\<lambda>(descriptor, name).
     sbind (or_cleanup (overwrite_cleanup p (Some descriptor) (Some name) False True)
       (sbind (stream_descriptor descriptor chunks limit) (\<lambda>written.
        sbind (run_thread_call False (sys_fsync descriptor)) (\<lambda>_. sreturn written))))
       (?commit descriptor name))) (X(p \<mapsto> True)) Q"
    by (intro fdp_bind fdp_or_cleanup fdp_await_temporary)
      (auto intro!: sync fdp_mono [OF after] simp del: fun_upd_apply split: sum.splits)
qed (simp add: balanced_def)

lemma balanced_exclusive:
  assumes "dirs_close w"
  shows "balanced w (stream_exclusive target chunks limit) X"
  unfolding stream_exclusive_def Let_def
proof (rule balancedI, rule fdp_hold_parent [OF assms])
  fix Q :: "fail + int \<Rightarrow> fd_table \<Rightarrow> bool" and p
  assume q: "\<And>r. Q r X" and p: "X p = None"
  let ?X = "X(p \<mapsto> True)" and ?n = "path_name target"
  let ?finish = "\<lambda>written. sbind (exclusive_cleanup p ?n None True True False) (\<lambda>_. sreturn written)"
  let ?commit = "\<lambda>d written. sbind (or_cleanup (exclusive_cleanup p ?n None True False True)
       (close_descriptor False d)) (\<lambda>_. ?finish written)"
  have finish: "fdp w (?finish written) ?X Q" for written
    by (rule fdp_then_return, rule fdp_cleanups(4)) (auto simp: q p)
  have after: "fdp w (exclusive_cleanup p ?n None c s f) ?X (\<lambda>u Z. \<forall>e. Q (Inl e) Z)" for c s f
    by (rule fdp_cleanups(4)) (auto simp: q p)
  have commit: "fdp w (?commit d written) (?X(d \<mapsto> False)) Q" if "?X d = None" for d written
  proof -
    have "sbind (close_descriptor False d) (\<lambda>_. sreturn ()) = close_descriptor False d"
      by (auto simp: sbind_def sreturn_def fun_eq_iff split: prod.splits sum.splits)
    moreover have "fdp w (or_cleanup (exclusive_cleanup p ?n None True False True)
        (sbind (close_descriptor False d) (\<lambda>_. sreturn ()))) (?X(d \<mapsto> False))
        (\<lambda>r Y. case r of Inl e \<Rightarrow> Q (Inl e) Y | Inr _ \<Rightarrow> fdp w (?finish written) Y Q)"
      using that by (intro fdp_guarded_close) (auto simp: finish after)
    ultimately show ?thesis by (intro fdp_bind) simp
  qed
  have sync: "fdp w (sbind (or_cleanup (exclusive_cleanup p ?n (Some d) True False True)
       (sbind (stream_descriptor d chunks limit) (\<lambda>written.
        sbind (run_thread_call False (sys_fsync d)) (\<lambda>_. sreturn written)))) (?commit d))
      (?X(d \<mapsto> False)) Q" if "?X d = None" for d
  proof -
    have "fdp w (exclusive_cleanup p ?n (Some d) True False True) (?X(d \<mapsto> False))
        (\<lambda>u Z. \<forall>e. Q (Inl e) Z)"
      by (rule fdp_cleanups(3)) (use that q p in auto)
    then show ?thesis
      by (intro fdp_bind fdp_guarded_quiet quiet_stream_and_sync) (simp_all add: commit [OF that])
  qed
  show "fdp w (sbind (or_cleanup (exclusive_cleanup p ?n None False False True)
       (await_exclusive_file (exclusive_file_for p ?n) p ?n)) (\<lambda>descriptor.
     sbind (or_cleanup (exclusive_cleanup p ?n (Some descriptor) True False True)
       (sbind (stream_descriptor descriptor chunks limit) (\<lambda>written.
        sbind (run_thread_call False (sys_fsync descriptor)) (\<lambda>_. sreturn written))))
       (?commit descriptor))) (X(p \<mapsto> True)) Q"
    by (intro fdp_bind fdp_or_cleanup acquiresD [OF acquires_await_exclusive])
      (auto intro!: sync fdp_mono [OF after] simp del: fun_upd_apply split: sum.splits)
qed (simp add: balanced_def)

lemma balanced_stream_to_path:
  assumes "dirs_close w"
  shows "balanced w (stream_to_path path chunks overwrite max_bytes advertised) X"
proof -
  have "balanced w (scatch (if overwrite = PBool True then stream_overwrite target chunks limit
          else stream_exclusive target chunks limit)
        (\<lambda>e. case e of Os_error n \<Rightarrow> sbind (to_thread (classify_refusal (path_str target) n)) sraise
          | _ \<Rightarrow> sraise e)) X" for target limit
    by (rule balanced_catch, simp add: balanced_overwrite balanced_exclusive assms)
      (auto intro!: balanced_quiet quiet_bind quiet_shielded quiet_return split: fail.splits)
  then show ?thesis
    unfolding stream_to_path_def
    by (auto intro!: balanced_bind balanced_quiet [OF quiet_return(2)]
        balanced_quiet [OF quiet_return(3)] balanced_quiet [OF quiet_resolve])
qed

lemma balanced_table: "balanced w m (fd_table s) \<Longrightarrow> wf_fds s \<Longrightarrow> fd_table (snd (m w s)) = fd_table s"
  by (cases "m w s") (auto simp: balanced_def fdp_def wp_def)

text \<open>
  C8. Local transfers leak no descriptor: whatever the kernel answers to any call but the close of a
  directory, which is taken to succeed, wherever the body breaks off, and whenever the caller is
  cancelled, reading a guarded file and streaming to a path (under either policy) end with exactly
  the descriptors open that were open before. Without that condition it is false:
  \<open>failed_directory_close_leaks\<close> below.
\<close>

theorem transfers_leak_no_descriptor:
  assumes "dirs_close w" "wf_fds s"
  shows "fd_table (snd (stream_to_path path chunks overwrite max_bytes advertised w s)) = fd_table s \<and>
    fd_table (snd (read_guarded_file path max_bytes chunk_size w s)) = fd_table s"
  by (intro conjI balanced_table balanced_stream_to_path balanced_read assms)

text \<open>
  When the base cannot be closed after the walk, what the walk returned is lost: its descriptor
  stays open.
\<close>

definition unclosed_at :: "nat \<Rightarrow> world" where
  "unclosed_at k = still_world\<lparr>w_fault := (\<lambda>c t. if c = Call_close_dir \<and> t = k then Some EIO else None)\<rparr>"

lemma failed_directory_close_leaks:
  "case read_guarded_file ''/srv/data/report'' (PInt 100) (PInt 10) (unclosed_at 9) machine of
     (r, s) \<Rightarrow> r = Inl (Os_error EIO) \<and> fd_table machine 6 = None \<and> fd_table s 6 = Some True"
  by code_simp

theorem transfers_leak_no_descriptor_witness:
  "fd_table (snd (stream_to_path ''/srv/data/report'' \<lparr>b_items = [Chunk ''ab''], b_closing = No_aclose\<rparr>
      (PBool True) PNone PNone still_world machine)) = fd_table machine"
  by (rule conjunct1 [OF transfers_leak_no_descriptor [OF machine_wf(4,1)]])

end
