(* ===== verification/Stream_Contents.thy ===== *)
theory Stream_Contents
  imports Stream_Leaks
begin

text \<open>
  What \<open>stream_to_path\<close> leaves on disk: an overwritten file changes at one instant and
  completely, and a failed transfer leaves what was there. The world is calm (nobody else
  writes), but any call may fail, any write may be short, and the caller may be cancelled
  at any await.
\<close>

section \<open>Triples\<close>

definition triple :: "world \<Rightarrow> (os \<Rightarrow> bool) \<Rightarrow> 'a sys \<Rightarrow> (fail + 'a \<Rightarrow> os \<Rightarrow> bool) \<Rightarrow> bool" where
  "triple w P m Q \<longleftrightarrow> (\<forall>s r s'. P s \<longrightarrow> m w s = (r, s') \<longrightarrow> Q r s')"

lemma tripleI: "(\<And>s r s'. P s \<Longrightarrow> m w s = (r, s') \<Longrightarrow> Q r s') \<Longrightarrow> triple w P m Q"
  by (simp add: triple_def)

lemma tripleD: "triple w P m Q \<Longrightarrow> P s \<Longrightarrow> m w s = (r, s') \<Longrightarrow> Q r s'"
  by (simp add: triple_def)

lemma triple_mono:
  "triple w P m Q \<Longrightarrow> (\<And>s. P' s \<Longrightarrow> P s) \<Longrightarrow> (\<And>r s. Q r s \<Longrightarrow> Q' r s) \<Longrightarrow> triple w P' m Q'"
  unfolding triple_def by blast

lemma triple_return: "(\<And>s. P s \<Longrightarrow> Q (Inr x) s) \<Longrightarrow> triple w P (sreturn x) Q"
  by (auto simp: triple_def sreturn_def)

lemma triple_raise: "(\<And>s. P s \<Longrightarrow> Q (Inl e) s) \<Longrightarrow> triple w P (sraise e) Q"
  by (auto simp: triple_def sraise_def)

lemma triple_lift: "(\<And>s. P s \<Longrightarrow> Q r s) \<Longrightarrow> triple w P (lift_res r) Q"
  by (auto simp: triple_def lift_res_def)

lemma triple_bind:
  "triple w P m (\<lambda>r s. case r of Inl e \<Rightarrow> Q (Inl e) s | Inr x \<Rightarrow> R x s) \<Longrightarrow>
   (\<And>x. triple w (R x) (f x) Q) \<Longrightarrow> triple w P (sbind m f) Q"
  unfolding triple_def sbind_def by (fastforce split: prod.splits sum.splits)

lemma triple_catch:
  "triple w P m (\<lambda>r s. case r of Inl e \<Rightarrow> R e s | Inr x \<Rightarrow> Q (Inr x) s) \<Longrightarrow>
   (\<And>e. triple w (R e) (h e) Q) \<Longrightarrow> triple w P (scatch m h) Q"
  unfolding triple_def scatch_def by (fastforce split: prod.splits sum.splits)

text \<open>A predicate the clock does not matter to.\<close>

definition clockless :: "(os \<Rightarrow> bool) \<Rightarrow> bool" where
  "clockless P \<longleftrightarrow> (\<forall>s. P (await_tick s) = P s)"

lemma triple_shielded:
  assumes "clockless P" "triple w P m Q" "\<And>r s. Q r s \<Longrightarrow> \<not> sc \<Longrightarrow> Q (Inl Cancelled_error) s"
  shows "triple w P (await_shielded sc m) Q"
proof (rule tripleI)
  fix s r s'
  assume p: "P s" and m: "await_shielded sc m w s = (r, s')"
  obtain r1 where o: "m w (await_tick s) = (r1, s')"
    using m by (auto simp: await_shielded_def Let_def split: prod.splits if_splits)
  have "P (await_tick s)" using assms(1) p by (simp add: clockless_def)
  with assms(2) o have "Q r1 s'" by (auto simp: triple_def)
  then show "Q r s'"
    using m o assms(3) by (auto simp: await_shielded_def Let_def split: if_splits)
qed

lemma triple_await_or_undo:
  assumes "clockless P" "triple w P m (\<lambda>r s. case r of Inl e \<Rightarrow> Q (Inl e) s | Inr x \<Rightarrow> R x s)"
    "\<And>e s. Q (Inl e) s \<Longrightarrow> Q (Inl Cancelled_error) s" "\<And>x s. R x s \<Longrightarrow> Q (Inr x) s"
    "\<And>x. triple w (R x) (undo x) (\<lambda>r s. Q (Inl Cancelled_error) s \<and> (\<forall>e. r = Inl e \<longrightarrow> Q (Inl e) s))"
  shows "triple w P (await_or_undo m undo) Q"
proof (rule tripleI)
  fix s r s'
  assume p: "P s" and m: "await_or_undo m undo w s = (r, s')"
  obtain r1 s1 where o: "m w (await_tick s) = (r1, s1)" by (cases "m w (await_tick s)")
  have "P (await_tick s)" using assms(1) p by (simp add: clockless_def)
  with assms(2) o have post: "case r1 of Inl e \<Rightarrow> Q (Inl e) s1 | Inr x \<Rightarrow> R x s1"
    by (auto simp: triple_def)
  show "Q r s'"
  proof (cases "interrupted (w_wakes w (os_tick s))")
    case False
    with m o post assms(4) show ?thesis by (cases r1) (auto simp: await_or_undo_def)
  next
    case True
    show ?thesis
    proof (cases r1)
      case (Inl e)
      with True m o post assms(3) show ?thesis by (auto simp: await_or_undo_def)
    next
      case (Inr x)
      then have "sbind (undo x) (\<lambda>_. sraise Cancelled_error) w s1 = (r, s')"
        using True m o by (simp add: await_or_undo_def)
      moreover have "R x s1" using post Inr by simp
      ultimately show ?thesis
        using tripleD [OF assms(5)]
        by (auto simp: sbind_def sraise_def split: prod.splits sum.splits)
    qed
  qed
qed

section \<open>Calls that leave the nodes alone\<close>

definition still :: "world \<Rightarrow> 'a sys \<Rightarrow> bool" where
  "still w m \<longleftrightarrow> (\<forall>s r s'. m w s = (r, s') \<longrightarrow> os_nodes s' = os_nodes s \<and> os_next s' = os_next s)"

lemma stillI:
  "(\<And>s r s'. m w s = (r, s') \<Longrightarrow> os_nodes s' = os_nodes s \<and> os_next s' = os_next s) \<Longrightarrow> still w m"
  by (simp add: still_def)

lemma stillD: "still w m \<Longrightarrow> m w s = (r, s') \<Longrightarrow> os_nodes s' = os_nodes s \<and> os_next s' = os_next s"
  by (simp add: still_def)

lemma still_basic [intro!]: "still w (sreturn x)" "still w (sraise e)" "still w (lift_res r)"
  by (auto simp: still_def sreturn_def sraise_def lift_res_def)

lemma still_bind: "still w m \<Longrightarrow> (\<And>x. still w (f x)) \<Longrightarrow> still w (sbind m f)"
  unfolding still_def sbind_def by (fastforce split: prod.splits sum.splits)

lemma still_catch: "still w m \<Longrightarrow> (\<And>e. still w (h e)) \<Longrightarrow> still w (scatch m h)"
  unfolding still_def scatch_def by (fastforce split: prod.splits sum.splits)

lemma still_finally: "still w m \<Longrightarrow> still w c \<Longrightarrow> still w (sfinally m c)"
  unfolding still_def sfinally_def by (fastforce split: prod.splits sum.splits)

lemma nodes_tick [simp]:
  "os_nodes (await_tick s) = os_nodes s" "os_next (await_tick s) = os_next s"
  "os_fds (await_tick s) = os_fds s" "fd_at (await_tick s) = fd_at s"
  "os_cwd_ino (await_tick s) = os_cwd_ino s" "os_next_fd (await_tick s) = os_next_fd s"
  by (simp_all add: await_tick_def fd_at_def fun_eq_iff)

lemma still_await:
  assumes "still w m"
  shows "still w (await_shielded sc m)" "still w (to_thread m)"
  by (rule stillI, auto simp: await_shielded_def to_thread_def Let_def
      dest: stillD [OF assms] split: prod.splits if_splits)+

lemma still_undo:
  assumes "still w m" "\<And>x. still w (undo x)"
  shows "still w (await_or_undo m undo)"
proof (rule stillI)
  fix s r s'
  assume m: "await_or_undo m undo w s = (r, s')"
  obtain r1 s1 where o: "m w (await_tick s) = (r1, s1)" by (cases "m w (await_tick s)")
  show "os_nodes s' = os_nodes s \<and> os_next s' = os_next s"
  proof (cases "interrupted (w_wakes w (os_tick s)) \<and> (\<exists>x. r1 = Inr x)")
    case True
    then obtain x where "sbind (undo x) (\<lambda>_. sraise Cancelled_error) w s1 = (r, s')"
      using m o by (auto simp: await_or_undo_def)
    from stillD [OF still_bind [OF assms(2) still_basic(2)] this] stillD [OF assms(1) o]
    show ?thesis by simp
  next
    case False
    with m o stillD [OF assms(1) o] show ?thesis
      by (cases r1) (auto simp: await_or_undo_def split: if_splits)
  qed
qed

lemma still_syscall:
  "calm w \<Longrightarrow> (\<And>s r s'. body w s = (r, s') \<Longrightarrow> os_nodes s' = os_nodes s \<and> os_next s' = os_next s) \<Longrightarrow>
    still w (syscall c body)"
  by (auto simp: still_def syscall_def calm_advance split: option.splits)

lemma still_calls:
  assumes "calm w"
  shows "still w (sys_fstat d)" "still w (sys_getfl d)" "still w (sys_setfl d fl)"
    "still w (sys_fsync d)" "still w (sys_fchmod d)" "still w (sys_dup d)"
    "still w (sys_open_anchor a fl)" "still w (sys_read d k)" "still w (sys_lstat d n)"
  unfolding sys_fstat_def sys_getfl_def sys_setfl_def sys_fsync_def sys_fchmod_def sys_dup_def
    sys_open_anchor_def sys_read_def sys_lstat_def
  by (rule still_syscall [OF assms];
      auto simp: new_fd_def Let_def split: option.splits node.splits)+

lemma still_close: "calm w \<Longrightarrow> still w (sys_close d)"
  by (auto simp: still_def sys_close_def calm_advance split: option.splits)

lemma still_openat:
  assumes "calm w" "O_CREAT \<notin> fl" "O_TRUNC \<notin> fl"
  shows "still w (sys_openat d name fl)"
  unfolding sys_openat_def
  by (rule still_syscall [OF assms(1)])
    (use assms(2,3) in \<open>auto simp: follow_entry_def open_node_def new_fd_def
      split: option.splits node.splits if_splits\<close>)


lemma still_walk:
  assumes "calm w"
  shows "still w (walk_from cur parts)" "still w (walk_to_parent base parts)"
proof -
  have "O_CREAT \<notin> DIRECTORY_FLAGS" "O_TRUNC \<notin> DIRECTORY_FLAGS" by (simp_all add: DIRECTORY_FLAGS_def)
  with assms show "still w (walk_from cur parts)" for cur
    by (induction parts arbitrary: cur)
      (auto simp: or_close_def intro!: still_bind still_catch still_openat still_close)
  with assms show "still w (walk_to_parent base parts)"
    unfolding walk_to_parent_def by (auto intro!: still_bind still_calls)
qed

lemma still_open_parent: "calm w \<Longrightarrow> still w (open_parent_descriptor path)"
  unfolding open_parent_descriptor_def Let_def
  by (auto intro!: still_bind still_finally still_calls still_walk still_close)

lemma still_close_quietly: "calm w \<Longrightarrow> still w (close_quietly sc d)"
  unfolding close_quietly_def close_descriptor_def run_thread_call_def suppress_os_def
  by (auto intro!: still_catch still_await still_close)

lemma still_await_parent: "calm w \<Longrightarrow> still w (await_open_descriptor (open_parent_descriptor path))"
  unfolding await_open_descriptor_def
  by (intro still_undo still_open_parent still_close_quietly)

section \<open>The directory the walk ends in\<close>

text \<open>In a calm world the walk ends where looking the names up one by one ends.\<close>

lemma openat_entry:
  assumes "calm w" "sys_openat d name fl w s = (Inr d', s')" "O_NOFOLLOW \<in> fl" "O_CREAT \<notin> fl"
    "O_TRUNC \<notin> fl" "O_DIRECTORY \<in> fl"
  obtains di es i es' where "fd_at s d = Some di" "os_nodes s di = Some (Dir es)" "map_of es name = Some i"
    "os_nodes s i = Some (Dir es')" "fd_at s' = (fd_at s)(os_next_fd s \<mapsto> i)" "d' = os_next_fd s"
    "os_next_fd s' = Suc d'"
proof -
  let ?s = "advance w s"
  from syscall_Inr [OF assms(2) [unfolded sys_openat_def]] assms(4) obtain di es i where
    di: "dir_of d ?s = Some (di, es)" "map_of es name = Some i" and
    go: "follow_entry fl di name i w ?s = (Inr d', s')"
    by (auto split: option.splits)
  from go assms(3) obtain nd where nd: "os_nodes ?s i = Some nd"
    and opn: "open_node fl (Opened di name i) i nd w ?s = (Inr d', s')"
    by (auto simp: follow_entry_def split: option.splits)
  note o = open_node_Inr [OF opn]
  from o(1) assms(6) obtain es' where "nd = Dir es'"
    by (cases nd) (auto simp: refuse_open.simps split: if_splits)
  with that [of di es i es'] di nd o show thesis
    by (auto simp: dir_of_def calm_advance [OF assms(1)] fd_at_def split: option.splits node.splits)
qed

lemma walk_from_lookup:
  assumes "calm w" "walk_from cur parts w s = (Inr d, s')" "wf_fds s" "fd_at s cur = Some d0"
    "os_nodes s d0 = Some (Dir es0)"
  shows "\<exists>di es. lookup (os_nodes s) d0 parts = Some di \<and> os_nodes s di = Some (Dir es) \<and>
    fd_at s' d = Some di \<and> (d = cur \<or> os_next_fd s \<le> d) \<and> wf_fds s'"
  using assms(2-)
proof (induction parts arbitrary: cur s d0 es0)
  case Nil
  then show ?case by (auto simp: run_simps)
next
  case (Cons part parts)
  from Cons.prems(1) obtain d1 s1 s2 u where
    o: "sys_openat cur part DIRECTORY_FLAGS w s = (Inr d1, s1)" and
    c: "sys_close cur w s1 = (Inr u, s2)" and
    r: "walk_from d1 parts w s2 = (Inr d, s')"
    by (auto simp: run_simps)
  have fl: "O_NOFOLLOW \<in> DIRECTORY_FLAGS" "O_CREAT \<notin> DIRECTORY_FLAGS" "O_TRUNC \<notin> DIRECTORY_FLAGS"
    by (simp_all add: DIRECTORY_FLAGS_def)
  obtain es i es' where st: "os_nodes s d0 = Some (Dir es)" "map_of es part = Some i"
    "os_nodes s i = Some (Dir es')" "fd_at s1 = (fd_at s)(d1 \<mapsto> i)" "d1 = os_next_fd s"
    "os_next_fd s1 = Suc d1"
    by (rule openat_entry [OF assms(1) o fl DIRECTORY_FLAGS_dir]) (use Cons.prems(3) in auto)
  have n: "os_nodes s2 = os_nodes s"
    using stillD [OF still_openat [OF assms(1) fl(2,3)] o] stillD [OF still_close [OF assms(1)] c] by simp
  have "cur < d1"
    using Cons.prems(2,3) st(5) by (metis wf_fds_fd_at leI option.distinct(1))
  then have "fd_at s2 d1 = Some i" using sys_close_Inr [OF c] st by simp
  moreover have "wf_fds s2"
    using Cons.prems(2) sys_close_Inr [OF c] st by (simp add: wf_fds_fd_at)
  ultimately obtain di es where "lookup (os_nodes s) i parts = Some di" "os_nodes s di = Some (Dir es)"
    "fd_at s' d = Some di" "d = d1 \<or> os_next_fd s2 \<le> d" "wf_fds s'"
    using Cons.IH [OF r, of i es'] n st by auto
  with st sys_close_Inr [OF c] show ?case by auto
qed

lemma start_of_advance: "start_of a (advance w s) = start_of a s"
  by (simp add: start_of_def)

lemma open_parent_lookup:
  assumes "calm w" "open_parent_descriptor path w s = (Inr p, s')" "wf_fds s"
  shows "\<exists>di es. lookup (os_nodes s) (start_of (is_absolute (pure_path path)) s)
      (butlast (p_parts (pure_path path))) = Some di \<and>
    os_nodes s di = Some (Dir es) \<and> fd_at s' p = Some di \<and> wf_fds s'"
proof -
  let ?p = "pure_path path" and ?d0 = "start_of (is_absolute (pure_path path)) s"
  from assms(2) obtain base s1 cur s2 s3 u where
    a: "sys_open_anchor (is_absolute ?p) DIRECTORY_FLAGS w s = (Inr base, s1)" and
    dup: "sys_dup base w s1 = (Inr cur, s2)" and
    go: "walk_from cur (butlast (p_parts ?p)) w s2 = (Inr p, s3)" and
    c: "sys_close base w s3 = (Inr u, s')"
    by (auto simp: open_parent_descriptor_def walk_to_parent_def Let_def run_simps split: if_splits)
  note a' = sys_open_anchor_Inr [OF a] and dup' = sys_dup_Inr [OF dup]
  have n: "os_nodes s2 = os_nodes s"
    using stillD [OF still_calls(7) [OF assms(1)] a] stillD [OF still_calls(6) [OF assms(1)] dup] by simp
  obtain es0 where "os_nodes s ?d0 = Some (Dir es0)"
    using syscall_Inr [OF a [unfolded sys_open_anchor_def]]
    by (auto simp: Let_def calm_advance [OF assms(1)] start_of_advance split: option.splits node.splits)
  with n have d0: "os_nodes s2 ?d0 = Some (Dir es0)" by simp
  have s2: "wf_fds s2" "fd_at s2 cur = Some ?d0" and "base < cur"
    using a' dup' assms(3) by (auto simp: wf_fds_fd_at)
  from walk_from_lookup [OF assms(1) go s2 d0] obtain di es where w: "lookup (os_nodes s) ?d0 (butlast (p_parts ?p)) = Some di"
    "os_nodes s di = Some (Dir es)" "fd_at s3 p = Some di" "p = cur \<or> os_next_fd s2 \<le> p" "wf_fds s3"
    unfolding n by blast
  have "base < os_next_fd s2" using a' dup' by auto
  with w(4) \<open>base < cur\<close> have "p \<noteq> base" by auto
  with w sys_close_Inr [OF c] show ?thesis by (auto simp: wf_fds_fd_at)
qed


section \<open>The file being written\<close>

text \<open>
  From its creation on, a new file is one more entry of the parent directory, and one more
  inode; nothing else differs from the nodes at the start.
\<close>

definition with_file :: "nodes \<Rightarrow> ino \<Rightarrow> (string, ino) dict \<Rightarrow> string \<Rightarrow> ino \<Rightarrow> string \<Rightarrow> nodes" where
  "with_file ns di es name i c = ns(di \<mapsto> Dir (es @ [(name, i)]), i \<mapsto> Reg c 1)"

definition fresh_in :: "nodes \<Rightarrow> ino \<Rightarrow> (string, ino) dict \<Rightarrow> string \<Rightarrow> ino \<Rightarrow> bool" where
  "fresh_in ns di es name i \<longleftrightarrow> ns di = Some (Dir es) \<and> ns i = None \<and> map_of es name = None \<and> i \<notin> snd ` set es"

definition staged :: "nodes \<Rightarrow> nat \<Rightarrow> ino \<Rightarrow> (string, ino) dict \<Rightarrow> string \<Rightarrow> ino \<Rightarrow> string \<Rightarrow> os \<Rightarrow> bool" where
  "staged ns p di es name i c s \<longleftrightarrow>
     os_nodes s = with_file ns di es name i c \<and> fd_at s p = Some di \<and> wf_fds s"

definition handle :: "nat \<Rightarrow> ino \<Rightarrow> string \<Rightarrow> os \<Rightarrow> bool" where
  "handle d i c s \<longleftrightarrow> (\<exists>fl. O_DIRECTORY \<notin> fl \<and> os_fds s d = Some \<lparr>fd_ino = i, fd_flags = fl, fd_pos = length c\<rparr>)"

lemma with_file_simps:
  assumes "fresh_in ns di es name i"
  shows "with_file ns di es name i c i = Some (Reg c 1)"
    "with_file ns di es name i c di = Some (Dir (es @ [(name, i)]))"
    "(with_file ns di es name i c)(i \<mapsto> Reg c' 1) = with_file ns di es name i c'"
  using assms by (auto simp: with_file_def fresh_in_def)

lemma fd_at_handle: "handle d i c s \<Longrightarrow> fd_at s d = Some i"
  by (auto simp: handle_def fd_at_def)

lemma overlay_end: "overlay (length c) new c = c @ new"
  by (simp add: overlay_def)

lemma clockless_staged: "clockless (\<lambda>s. staged ns p di es name i c s \<and> handle d i c s)"
  "clockless (staged ns p di es name i c)"
  by (simp_all add: clockless_def staged_def handle_def)

lemma write_staged:
  assumes "calm w" "fresh_in ns di es name i"
  shows "triple w (\<lambda>s. staged ns p di es name i c s \<and> handle d i c s) (sys_write d bs)
    (\<lambda>r s. case r of
       Inl e \<Rightarrow> staged ns p di es name i c s \<and> handle d i c s
     | Inr n \<Rightarrow> n \<le> length bs \<and> staged ns p di es name i (c @ take n bs) s \<and>
         handle d i (c @ take n bs) s)"
proof (rule tripleI)
  fix s r s'
  assume pre: "staged ns p di es name i c s \<and> handle d i c s" and m: "sys_write d bs w s = (r, s')"
  then obtain fl where f: "os_fds s d = Some \<lparr>fd_ino = i, fd_flags = fl, fd_pos = length c\<rparr>" "O_DIRECTORY \<notin> fl"
    by (auto simp: handle_def)
  have n: "os_nodes s i = Some (Reg c 1)"
    using pre with_file_simps(1) [OF assms(2)] by (auto simp: staged_def)
  show "case r of
       Inl e \<Rightarrow> staged ns p di es name i c s' \<and> handle d i c s'
     | Inr n \<Rightarrow> n \<le> length bs \<and> staged ns p di es name i (c @ take n bs) s' \<and>
         handle d i (c @ take n bs) s'"
  proof (cases "w_fault w Call_write (os_tick s)")
    case (Some e)
    with m have "r = Inl (Os_error e)" "s' = advance w s" by (auto simp: sys_write_def syscall_def)
    with pre show ?thesis
      by (auto simp: staged_def handle_def calm_advance [OF assms(1)] advance_simps)
  next
    case None
    let ?put = "take (w_taken w (os_tick (advance w s))) bs"
    have r: "r = Inr (length ?put)" and
      s': "s' = (advance w s)\<lparr>os_nodes := (os_nodes s)(i \<mapsto> Reg (c @ ?put) 1),
        os_fds := (os_fds s)(d \<mapsto> \<lparr>fd_ino = i, fd_flags = fl, fd_pos = length c + length ?put\<rparr>)\<rparr>"
      using m None f n by (auto simp: sys_write_def syscall_def calm_advance [OF assms(1)] overlay_end Let_def)
    have t: "take (min (length bs) k) bs = take k bs" for k by (simp add: min_def)
    have "wf_fds s'" using pre f s' by (auto simp: staged_def wf_fds_def)
    moreover have "os_nodes s' = with_file ns di es name i (c @ ?put)"
      using pre s' with_file_simps(3) [OF assms(2)] by (simp add: staged_def)
    moreover have "fd_at s' p = Some di"
      using pre f s' by (auto simp: staged_def fd_at_def)
    ultimately show ?thesis
      unfolding r using s' f(2) by (simp add: staged_def handle_def t)
  qed
qed

text \<open>Some prefix of the bytes is on disk after a write that failed, all of them after one that did not.\<close>

lemma write_all_staged:
  assumes "calm w" "fresh_in ns di es name i"
  shows "triple w (\<lambda>s. staged ns p di es name i c s \<and> handle d i c s) (write_all d bs)
    (\<lambda>r s. case r of
       Inl e \<Rightarrow> \<exists>c'. staged ns p di es name i c' s \<and> handle d i c' s
     | Inr _ \<Rightarrow> staged ns p di es name i (c @ bs) s \<and> handle d i (c @ bs) s)"
proof (induction d bs arbitrary: c rule: write_all.induct)
  case (1 d bs)
  show ?case
  proof (cases "bs = []")
    case True
    then show ?thesis by (subst write_all.simps) (auto intro: triple_return)
  next
    case False
    have step: "triple w (\<lambda>s. n \<le> length bs \<and> staged ns p di es name i (c @ take n bs) s \<and>
         handle d i (c @ take n bs) s)
        (if n = 0 then sraise (Os_error EIO) else write_all d (drop n bs))
        (\<lambda>r s. case r of
           Inl e \<Rightarrow> \<exists>c'. staged ns p di es name i c' s \<and> handle d i c' s
         | Inr _ \<Rightarrow> staged ns p di es name i (c @ bs) s \<and> handle d i (c @ bs) s)" for n
    proof (cases "n = 0")
      case True
      then show ?thesis by (simp, intro triple_raise) auto
    next
      case n: False
      show ?thesis
        unfolding if_not_P [OF n]
        by (rule triple_mono [OF "1.IH" [OF False n, of "c @ take n bs"]]) (auto split: sum.splits)
    qed
    have e: "write_all d bs = sbind (sys_write d bs)
        (\<lambda>n. if n = 0 then sraise (Os_error EIO) else write_all d (drop n bs))"
      using False by (subst write_all.simps) simp
    show ?thesis
      unfolding e
      by (rule triple_bind [OF _ step], rule triple_mono [OF write_staged [OF assms]])
        (auto split: sum.splits)
  qed
qed

fun item_bytes :: "item \<Rightarrow> string" where
  "item_bytes (Chunk c) = c"
| "item_bytes _ = []"

definition body_bytes :: "item list \<Rightarrow> string" where
  "body_bytes items = concat (map item_bytes items)"

fun within_limit :: "int option \<Rightarrow> int \<Rightarrow> bool" where
  "within_limit None n = True"
| "within_limit (Some l) n = (n \<le> l)"

definition written_ok :: "nodes \<Rightarrow> nat \<Rightarrow> ino \<Rightarrow> (string, ino) dict \<Rightarrow> string \<Rightarrow> ino \<Rightarrow> nat \<Rightarrow> string \<Rightarrow> os \<Rightarrow> bool" where
  "written_ok ns p di es name i d c s \<longleftrightarrow> staged ns p di es name i c s \<and> handle d i c s"

definition some_written :: "nodes \<Rightarrow> nat \<Rightarrow> ino \<Rightarrow> (string, ino) dict \<Rightarrow> string \<Rightarrow> ino \<Rightarrow> nat \<Rightarrow> os \<Rightarrow> bool" where
  "some_written ns p di es name i d s \<longleftrightarrow> (\<exists>c. written_ok ns p di es name i d c s)"

lemma written_some: "written_ok ns p di es name i d c s \<Longrightarrow> some_written ns p di es name i d s"
  by (auto simp: some_written_def)

lemma clockless_written: "clockless (written_ok ns p di es name i d c)" "clockless (some_written ns p di es name i d)"
  by (simp_all add: clockless_def written_ok_def some_written_def staged_def handle_def)

lemma write_call_staged:
  assumes "calm w" "fresh_in ns di es name i"
  shows "triple w (written_ok ns p di es name i d c) (run_thread_call False (write_all d bs))
    (\<lambda>r s. case r of
       Inl e \<Rightarrow> some_written ns p di es name i d s
     | Inr _ \<Rightarrow> written_ok ns p di es name i d (c @ bs) s)"
  unfolding run_thread_call_def
  by (rule triple_shielded [OF clockless_written(1)],
      rule triple_mono [OF write_all_staged [OF assms, of p c d bs]])
    (auto simp: written_ok_def some_written_def split: sum.splits)

lemma copy_items_staged:
  assumes "calm w" "fresh_in ns di es name i"
  shows "triple w (written_ok ns p di es name i d c) (copy_items d limit items n)
    (\<lambda>r s. case r of
       Inl e \<Rightarrow> some_written ns p di es name i d s
     | Inr m \<Rightarrow> written_ok ns p di es name i d (c @ body_bytes items) s \<and>
         m = n + int (length (body_bytes items)) \<and> (items \<noteq> [] \<longrightarrow> within_limit limit m))"
proof (induction items arbitrary: c n)
  case Nil
  then show ?case by (auto simp: body_bytes_def intro: triple_return)
next
  case (Cons it items)
  show ?case
  proof (cases it)
    case (Chunk bs)
    let ?n = "n + int (length bs)"
    have rest: "triple w (written_ok ns p di es name i d (c @ bs)) (copy_items d limit items ?n)
        (\<lambda>r s. case r of
           Inl e \<Rightarrow> some_written ns p di es name i d s
         | Inr m \<Rightarrow> written_ok ns p di es name i d (c @ body_bytes (it # items)) s \<and>
             m = n + int (length (body_bytes (it # items))) \<and>
             (it # items \<noteq> [] \<longrightarrow> within_limit limit m))" if "within_limit limit ?n"
    proof (rule triple_mono [OF Cons.IH [of "c @ bs" ?n]])
      show "case r of
           Inl e \<Rightarrow> some_written ns p di es name i d s
         | Inr m \<Rightarrow> written_ok ns p di es name i d (c @ body_bytes (it # items)) s \<and>
             m = n + int (length (body_bytes (it # items))) \<and>
             (it # items \<noteq> [] \<longrightarrow> within_limit limit m)"
        if "case r of
           Inl e \<Rightarrow> some_written ns p di es name i d s
         | Inr m \<Rightarrow> written_ok ns p di es name i d ((c @ bs) @ body_bytes items) s \<and>
             m = ?n + int (length (body_bytes items)) \<and> (items \<noteq> [] \<longrightarrow> within_limit limit m)"
        for r s
        using that \<open>within_limit limit ?n\<close>
        by (cases "items = []") (auto simp: Chunk body_bytes_def split: sum.splits)
    qed
    have first: "triple w (written_ok ns p di es name i d c)
        (if bs = [] then sreturn () else run_thread_call False (write_all d bs))
        (\<lambda>r s. case r of Inl e \<Rightarrow> some_written ns p di es name i d s
         | Inr _ \<Rightarrow> written_ok ns p di es name i d (c @ bs) s)"
      using write_call_staged [OF assms] by (auto intro: triple_return)
    show ?thesis
    proof (cases "within_limit limit ?n")
      case True
      then have under: "\<not> (case limit of Some l \<Rightarrow> l < ?n | None \<Rightarrow> False)"
        by (cases limit) auto
      show ?thesis
        unfolding Chunk copy_items.simps Let_def if_not_P [OF under]
        by (rule triple_bind [where R = "\<lambda>_. written_ok ns p di es name i d (c @ bs)"],
            rule triple_mono [OF first])
          (use rest [OF True, unfolded Chunk] in \<open>auto split: sum.splits\<close>)
    next
      case False
      then have "case limit of Some l \<Rightarrow> l < ?n | None \<Rightarrow> False" by (cases limit) auto
      note over = this
      show ?thesis
        unfolding Chunk copy_items.simps Let_def if_P [OF over]
        by (rule triple_raise) (auto intro: written_some)
    qed
  qed (auto intro!: triple_raise intro: written_some)
qed

lemma triple_tick_only:
  assumes "clockless P"
  shows "triple w P (finalize_iterator c) (\<lambda>r s. P s)"
proof -
  have "triple w P (await_shielded False (case e of None \<Rightarrow> sreturn () | Some e \<Rightarrow> sraise e)) (\<lambda>r s. P s)" for e
    by (rule triple_shielded [OF assms]) (auto simp: triple_def sreturn_def sraise_def split: option.splits)
  then show ?thesis
    by (cases c) (auto simp: finalize_iterator_def intro: triple_return triple_raise)
qed

lemma triple_outcome:
  "triple w P m Q \<Longrightarrow> triple w P (outcome_of m) (\<lambda>r s. case r of Inl _ \<Rightarrow> False | Inr oc \<Rightarrow> Q oc s)"
  by (auto simp: triple_def outcome_of_def split: prod.splits)

lemma stream_staged:
  assumes "calm w" "fresh_in ns di es name i"
  shows "triple w (written_ok ns p di es name i d []) (stream_descriptor d chunks limit)
    (\<lambda>r s. case r of
       Inl e \<Rightarrow> some_written ns p di es name i d s
     | Inr m \<Rightarrow> written_ok ns p di es name i d (body_bytes (b_items chunks)) s \<and>
         m = int (length (body_bytes (b_items chunks))) \<and>
         (b_items chunks \<noteq> [] \<longrightarrow> within_limit limit m))"
    (is "triple w _ _ ?Q")
  unfolding stream_descriptor_def
proof (rule triple_bind [where R = "\<lambda>oc. ?Q oc"])
  show "triple w (written_ok ns p di es name i d []) (outcome_of (copy_items d limit (b_items chunks) 0))
      (\<lambda>r s. case r of Inl e \<Rightarrow> ?Q (Inl e) s | Inr oc \<Rightarrow> ?Q oc s)"
    by (rule triple_mono [OF triple_outcome [OF copy_items_staged [OF assms, of p d "[]" limit "b_items chunks" 0]]])
      (auto split: sum.splits)
  fix outcome :: "fail + int"
  have cl: "clockless (?Q outcome)"
    using clockless_written by (cases outcome) (auto simp: clockless_def)
  have weak: "?Q (Inl e) s" if "?Q outcome s" for e s
    using that by (cases outcome) (auto intro: written_some)
  show "triple w (?Q outcome) (sbind (scatch (finalize_iterator (b_closing chunks))
       (\<lambda>e. if is_ok outcome then sraise e else sreturn ())) (\<lambda>_. lift_res outcome)) ?Q"
  proof (rule triple_bind [where R = "\<lambda>_. ?Q outcome"], rule triple_catch [where R = "\<lambda>_. ?Q outcome"])
    show "triple w (?Q outcome) (finalize_iterator (b_closing chunks))
      (\<lambda>r s. case r of Inl e \<Rightarrow> ?Q outcome s
        | Inr x \<Rightarrow> case Inr x of Inl e \<Rightarrow> ?Q (Inl e) s | Inr x \<Rightarrow> ?Q outcome s)"
      by (rule triple_mono [OF triple_tick_only [OF cl]]) (auto split: sum.splits)
    show "triple w (?Q outcome) (if is_ok outcome then sraise e else sreturn ())
      (\<lambda>r s. case r of Inl e \<Rightarrow> ?Q (Inl e) s | Inr x \<Rightarrow> ?Q outcome s)" for e
      using weak by (auto intro!: triple_raise triple_return)
    show "triple w (?Q outcome) (lift_res outcome) ?Q"
      by (rule triple_lift)
  qed
qed

section \<open>Creating, removing and replacing\<close>

text \<open>Before the creation, and after a failure.\<close>

definition is_temporary :: "string \<Rightarrow> bool" where
  "is_temporary name = (starts_with ''.asyncio-gateway-'' name \<and> ends_with ''.tmp'' name)"

definition held :: "nodes \<Rightarrow> nat \<Rightarrow> ino \<Rightarrow> ino \<Rightarrow> os \<Rightarrow> bool" where
  "held ns p di nx s \<longleftrightarrow> os_nodes s = ns \<and> os_next s = nx \<and> fd_at s p = Some di \<and> wf_fds s"

definition has_file :: "nodes \<Rightarrow> nat \<Rightarrow> ino \<Rightarrow> (string, ino) dict \<Rightarrow> string \<Rightarrow> ino \<Rightarrow> os \<Rightarrow> bool" where
  "has_file ns p di es name i s \<longleftrightarrow>
     (\<exists>c. os_nodes s = with_file ns di es name i c) \<and> fd_at s p = Some di"

text \<open>
  Nothing that removes what a failed transfer created fails: no unlink, and no close that follows
  immediately on a refused \<open>fchmod\<close> (that one comes before the unlink, which is then not reached).
\<close>

definition tidy :: "world \<Rightarrow> bool" where
  "tidy w \<longleftrightarrow> (\<forall>t. w_fault w Call_unlink t = None) \<and>
     (\<forall>t. w_fault w Call_chmod t = None \<or> w_fault w Call_close_file (Suc t) = None)"

text \<open>
  A failed transfer left the nodes as they were; its own inode may remain, with no name, or
  under its name where removing it failed.
\<close>

definition undone :: "world \<Rightarrow> nodes \<Rightarrow> ino \<Rightarrow> (string, ino) dict \<Rightarrow> (string \<Rightarrow> bool) \<Rightarrow> nodes \<Rightarrow> bool" where
  "undone w ns di es named ns' \<longleftrightarrow> ns' = ns \<or>
     (\<exists>name i c. fresh_in ns di es name i \<and> named name \<and>
       (ns' = ns(i \<mapsto> Reg c 0) \<or> (\<not> tidy w \<and> ns' = with_file ns di es name i c)))"

lemma undone_gone: "fresh_in ns di es name i \<Longrightarrow> named name \<Longrightarrow> undone w ns di es named (ns(i \<mapsto> Reg c 0))"
  unfolding undone_def by blast

lemma undone_left:
  "fresh_in ns di es name i \<Longrightarrow> named name \<Longrightarrow> \<not> tidy w \<Longrightarrow> has_file ns p di es name i s \<Longrightarrow>
    undone w ns di es named (os_nodes s)"
  unfolding undone_def has_file_def by blast

lemma dict_del_absent: "map_of es name = None \<Longrightarrow> dict_del (es @ [(name, i)]) name = es"
  by (induction es) (auto split: if_splits)

lemma dir_of_has_file:
  assumes "calm w" "fresh_in ns di es name i" "has_file ns p di es name i s"
  shows "dir_of p (advance w s) = Some (di, es @ [(name, i)])"
  using assms(2,3) with_file_simps(2) [OF assms(2)]
  by (auto simp: has_file_def dir_of_def fd_at_def calm_advance [OF assms(1)] split: option.splits)

lemma unlink_triple:
  assumes "calm w" "fresh_in ns di es name i" "named name"
  shows "triple w (has_file ns p di es name i) (sys_unlink p name)
    (\<lambda>r s. undone w ns di es named (os_nodes s) \<and> (\<forall>e. r = Inl e \<longrightarrow> has_file ns p di es name i s \<and> \<not> tidy w))"
proof (rule tripleI)
  fix s r s'
  assume h: "has_file ns p di es name i s" and m: "sys_unlink p name w s = (r, s')"
  note d = dir_of_has_file [OF assms(1,2) h]
  show "undone w ns di es named (os_nodes s') \<and> (\<forall>e. r = Inl e \<longrightarrow> has_file ns p di es name i s' \<and> \<not> tidy w)"
  proof (cases "w_fault w Call_unlink (os_tick s)")
    case (Some e)
    then have "\<not> tidy w" by (auto simp: tidy_def)
    moreover have "has_file ns p di es name i s'"
      using m Some h by (auto simp: sys_unlink_def syscall_def has_file_def calm_advance [OF assms(1)])
    ultimately show ?thesis using undone_left [where named = named, OF assms(2,3)] by blast
  next
    case None
    from h obtain c where n: "os_nodes s = with_file ns di es name i c" by (auto simp: has_file_def)
    have "map_of (es @ [(name, i)]) name = Some i" using assms(2) by (auto simp: fresh_in_def map_add_def)
    then have r: "r = Inr ()" and
      s': "os_nodes s' = (forget i (os_nodes s))(di \<mapsto> Dir (dict_del (es @ [(name, i)]) name))"
      using m None d n with_file_simps(1) [OF assms(2)]
      by (auto simp: sys_unlink_def syscall_def calm_advance [OF assms(1)])
    have "os_nodes s' = ns(i \<mapsto> Reg c 0)"
      using assms(2) unfolding s' n
      by (auto simp: fun_eq_iff forget_def with_file_def fresh_in_def dict_del_absent)
    with r undone_gone [where named = named, OF assms(2,3)] show ?thesis by simp
  qed
qed


text \<open>Operations that neither change the nodes nor lose the parent.\<close>

lemma has_file_clockless: "clockless (has_file ns p di es name i)"
  by (simp add: clockless_def has_file_def)

lemma clockless_and: "clockless P \<Longrightarrow> clockless Q \<Longrightarrow> clockless (\<lambda>s. P s \<and> Q s)"
  by (simp add: clockless_def)

lemma clockless_fd: "clockless (\<lambda>s. fd_at s d = x)"
  by (simp add: clockless_def)

lemma close_fd_at: "sys_close d w s = (r, s') \<Longrightarrow> fd_at s' = (fd_at s)(d := None)"
  by (auto simp: sys_close_def fd_at_def fun_eq_iff split: option.splits)

lemma close_other:
  assumes "calm w" "d \<noteq> p"
  shows "triple w (\<lambda>s. os_nodes s = ns \<and> fd_at s p = x) (sys_close d)
    (\<lambda>r s. os_nodes s = ns \<and> fd_at s p = x)"
  by (rule tripleI) (use assms in \<open>auto dest: stillD [OF still_close] close_fd_at\<close>)

lemma close_errors: "fd_at s d = Some i \<Longrightarrow> sys_close d w s = (Inl e, s') \<Longrightarrow> is_os_error e"
  by (auto simp: sys_close_def split: option.splits)

lemma close_quietly_True:
  "\<exists>s'. close_quietly True d w s = (Inr (), s') \<and> (\<exists>r. sys_close d w (await_tick s) = (r, s'))"
proof -
  obtain r s' where c: "sys_close d w (await_tick s) = (r, s')" by (cases "sys_close d w (await_tick s)")
  then have "is_os_error e" if "r = Inl e" for e
    using that by (auto simp: sys_close_def split: option.splits)
  with c show ?thesis
    by (cases r) (auto simp: close_quietly_def close_descriptor_def run_thread_call_def
        await_shielded_def suppress_os_def scatch_def sreturn_def Let_def)
qed

lemma close_quietly_result:
  assumes "close_quietly sc d w s = (r, s')"
  shows "(\<exists>r'. sys_close d w (await_tick s) = (r', s')) \<and>
    (r = Inr () \<or> \<not> sc \<and> r = Inl Cancelled_error)"
proof -
  obtain r1 s1 where c: "sys_close d w (await_tick s) = (r1, s1)" by (cases "sys_close d w (await_tick s)")
  then have "is_os_error e" if "r1 = Inl e" for e
    using that by (auto simp: sys_close_def split: option.splits)
  with c assms show ?thesis
    by (cases r1) (auto simp: close_quietly_def close_descriptor_def run_thread_call_def
        await_shielded_def suppress_os_def scatch_def sreturn_def sraise_def Let_def split: if_splits)
qed

lemma close_quietly_keeps:
  assumes "calm w"
  shows "triple w (\<lambda>s. os_nodes s = ns) (close_quietly sc d)
    (\<lambda>r s. os_nodes s = ns \<and> (r = Inr () \<or> \<not> sc \<and> r = Inl Cancelled_error))"
  by (rule tripleI)
    (use stillD [OF still_close_quietly [OF assms]] close_quietly_result in blast)

lemma close_quietly_other:
  assumes "calm w" "d \<noteq> p"
  shows "triple w (has_file ns p di es name i) (close_quietly True d)
    (\<lambda>r s. r = Inr () \<and> has_file ns p di es name i s)"
proof (rule tripleI)
  fix s r s'
  assume h: "has_file ns p di es name i s" and m: "close_quietly True d w s = (r, s')"
  from close_quietly_result [OF m] obtain r' where c: "sys_close d w (await_tick s) = (r', s')"
    "r = Inr ()" by auto
  with h stillD [OF still_close [OF assms(1)] c(1)] close_fd_at [OF c(1)] assms(2)
  show "r = Inr () \<and> has_file ns p di es name i s'" by (auto simp: has_file_def)
qed

lemma unlink_quietly_triple:
  assumes "calm w" "fresh_in ns di es name i" "named name"
  shows "triple w (has_file ns p di es name i) (unlink_quietly p name)
    (\<lambda>r s. r = Inr () \<and> undone w ns di es named (os_nodes s))"
proof -
  have "triple w (has_file ns p di es name i) (unlink_at p name)
    (\<lambda>r s. undone w ns di es named (os_nodes s))"
    unfolding unlink_at_def
    by (rule triple_catch [where R = "\<lambda>e s. undone w ns di es named (os_nodes s)"],
        rule triple_mono [OF unlink_triple [where named = named, OF assms]])
      (auto simp: triple_def sreturn_def sraise_def split: sum.splits if_splits)
  then have "triple w (has_file ns p di es name i) (unlink_quietly p name)
    (\<lambda>r s. undone w ns di es named (os_nodes s))"
    unfolding unlink_quietly_def run_thread_call_def suppress_os_def
    by (intro triple_catch [where R = "\<lambda>e s. undone w ns di es named (os_nodes s)"]
        triple_mono [OF triple_shielded [OF has_file_clockless]])
      (auto simp: triple_def sreturn_def sraise_def split: sum.splits if_splits)
  then show ?thesis
    using unlink_quietly_returns by (fastforce simp: triple_def)
qed

text \<open>Closing the new descriptor and unlinking the new name.\<close>

lemma close_and_unlink:
  assumes "calm w" "fresh_in ns di es name i" "named name" "d \<noteq> p"
  shows "triple w (has_file ns p di es name i)
    (sbind (close_quietly True d) (\<lambda>_. unlink_quietly p name))
    (\<lambda>r s. r = Inr () \<and> undone w ns di es named (os_nodes s))"
  by (rule triple_bind [where R = "\<lambda>_. has_file ns p di es name i"],
      rule triple_mono [OF close_quietly_other [OF assms(1,4)]])
    (auto split: sum.splits intro: unlink_quietly_triple [where named = named, OF assms(1-3)])

end
