(* ===== verification/Stream_Atomic.thy ===== *)
theory Stream_Atomic
  imports Stream_Contents
begin

text \<open>
  The two write policies of \<open>stream_to_path\<close>, from creation to commit: an overwrite is all
  or nothing, an exclusive creation never touches what is there.
\<close>

section \<open>Creating the file\<close>

lemma create_held:
  assumes "calm w" "ns di = Some (Dir es)" "ns nx = None" "nx \<notin> snd ` set es"
  shows "triple w (held ns p di nx) (sys_openat p name CREATE_FLAGS)
    (\<lambda>r s. case r of
       Inl e \<Rightarrow> held ns p di nx s
     | Inr d \<Rightarrow> fresh_in ns di es name nx \<and> d \<noteq> p \<and> written_ok ns p di es name nx d [] s)"
proof (rule tripleI)
  fix s r s'
  assume h: "held ns p di nx s" and m: "sys_openat p name CREATE_FLAGS w s = (r, s')"
  let ?s = "advance w s"
  have adv: "held ns p di nx ?s" using h by (simp add: held_def calm_advance [OF assms(1)])
  have dir: "dir_of p ?s = Some (di, es)"
    using adv assms(2) by (auto simp: held_def dir_of_def fd_at_def split: option.splits)
  have fl: "O_CREAT \<in> CREATE_FLAGS" "O_EXCL \<in> CREATE_FLAGS" "O_NOFOLLOW \<in> CREATE_FLAGS"
    by (simp_all add: CREATE_FLAGS_def)
  show "case r of
       Inl e \<Rightarrow> held ns p di nx s'
     | Inr d \<Rightarrow> fresh_in ns di es name nx \<and> d \<noteq> p \<and> written_ok ns p di es name nx d [] s'"
  proof (cases "w_fault w Call_open (os_tick s)")
    case (Some e)
    with m adv show ?thesis by (auto simp: sys_openat_def syscall_def)
  next
    case none: None
    show ?thesis
    proof (cases "map_of es name")
      case (Some i)
      then have "follow_entry CREATE_FLAGS di name i w ?s = (r, s')"
        using m none dir by (simp add: sys_openat_def syscall_def)
      moreover have "refuse_open CREATE_FLAGS nd = Some (Os_error EEXIST)" for nd
        using fl by (simp add: refuse_open.simps)
      ultimately have "s' = ?s" "\<exists>e. r = Inl e"
        using fl by (auto simp: follow_entry_def open_node_def split: option.splits)
      with adv show ?thesis by auto
    next
      case None
      then have c: "create_entry CREATE_FLAGS di es name w ?s = (r, s')"
        using m none dir fl by (simp add: sys_openat_def syscall_def)
      have fresh: "fresh_in ns di es name nx" using assms(2-4) None by (simp add: fresh_in_def)
      have keys: "name \<notin> set (dict_keys es)" using None by (simp add: map_of_eq_None_iff)
      obtain d where d: "r = Inr d" "d = os_next_fd s"
        and nodes: "os_nodes s' = ns(di \<mapsto> Dir (dict_set es name nx), nx \<mapsto> Reg [] 1)"
        and fds: "os_fds s' = (os_fds s)(d \<mapsto> \<lparr>fd_ino = nx, fd_flags = CREATE_FLAGS, fd_pos = 0\<rparr>)"
        and next_fd: "os_next_fd s' = Suc d"
        using c adv by (auto simp: create_entry_def new_fd_def Let_def held_def)
      have "p < d" using h d(2) by (auto simp: held_def wf_fds_fd_at) (metis leI option.distinct(1))
      moreover have "os_nodes s' = with_file ns di es name nx []"
        using nodes dict_set_absent [OF keys] by (simp add: with_file_def)
      moreover have "fd_at s' p = Some di"
        using h fds \<open>p < d\<close> by (auto simp: held_def fd_at_def)
      moreover have "wf_fds s'" using h fds next_fd d(2) by (auto simp: held_def wf_fds_def)
      moreover have "O_DIRECTORY \<notin> CREATE_FLAGS" by (simp add: CREATE_FLAGS_def)
      ultimately show ?thesis
        using d(1) fresh fds by (simp add: written_ok_def staged_def handle_def)
    qed
  qed
qed

lemma written_has_file:
  "written_ok ns p di es name i d c s \<Longrightarrow> has_file ns p di es name i s"
  "some_written ns p di es name i d s \<Longrightarrow> has_file ns p di es name i s"
  by (auto simp: written_ok_def some_written_def staged_def has_file_def)

text \<open>The call just made was a refused \<open>fchmod\<close>.\<close>

definition mode_refused :: "world \<Rightarrow> os \<Rightarrow> bool" where
  "mode_refused w s \<longleftrightarrow> (\<exists>t. os_tick s = Suc t \<and> w_fault w Call_chmod t \<noteq> None)"

lemma tick_advance [simp]: "os_tick (advance w s) = Suc (os_tick s)"
  by (simp add: advance_def)

lemma chmod_written:
  assumes "calm w"
  shows "triple w (written_ok ns p di es name i d c) (sys_fchmod d)
    (\<lambda>r s. written_ok ns p di es name i d c s \<and> (\<forall>e. r = Inl e \<longrightarrow> mode_refused w s))"
  by (rule tripleI)
    (auto simp: sys_fchmod_def syscall_def written_ok_def staged_def handle_def mode_refused_def
      advance_simps calm_advance [OF assms] split: option.splits)

text \<open>
  When the mode cannot be set the file is closed and unlinked; only a close or an unlink that fails
  leaves it.
\<close>

lemma close_after_refusal:
  assumes "calm w" "d \<noteq> p"
  shows "triple w (\<lambda>s. written_ok ns p di es name i d c s \<and> mode_refused w s) (sys_close d)
    (\<lambda>r s. has_file ns p di es name i s \<and> (\<forall>e. r = Inl e \<longrightarrow> \<not> tidy w))"
proof (rule tripleI)
  fix s r s'
  assume h: "written_ok ns p di es name i d c s \<and> mode_refused w s" and m: "sys_close d w s = (r, s')"
  then have kept: "has_file ns p di es name i s" by (auto intro: written_has_file)
  with assms(2) stillD [OF still_close [OF assms(1)] m] close_fd_at [OF m]
  have "has_file ns p di es name i s'" by (auto simp: has_file_def)
  moreover have "\<not> tidy w" if "r = Inl e" for e
    using that h m by (auto simp: sys_close_def written_ok_def staged_def handle_def CREATE_FLAGS_def mode_refused_def
        tidy_def split: option.splits)
  ultimately show "has_file ns p di es name i s' \<and> (\<forall>e. r = Inl e \<longrightarrow> \<not> tidy w)" by blast
qed

lemma restrict_mode_triple:
  assumes "calm w" "fresh_in ns di es name i" "named name" "d \<noteq> p"
  shows "triple w (written_ok ns p di es name i d []) (restrict_mode p d name)
    (\<lambda>r s. case r of
       Inl e \<Rightarrow> undone w ns di es named (os_nodes s)
     | Inr _ \<Rightarrow> written_ok ns p di es name i d [] s)"
proof -
  let ?U = "\<lambda>s. undone w ns di es named (os_nodes s)"
  let ?H = "has_file ns p di es name i" and ?M = "\<lambda>s. written_ok ns p di es name i d [] s \<and> mode_refused w s"
  have left: "?U s" if "?H s" "\<not> tidy w" for s
    using that undone_left [where named = named, OF assms(2,3)] by blast
  have unlink: "triple w ?H (unlink_if_there p name) (\<lambda>r s. ?U s)"
    unfolding unlink_if_there_def
    by (rule triple_catch [where R = "\<lambda>e s. ?U s"],
        rule triple_mono [OF unlink_triple [where named = named, OF assms(1-3)]])
      (auto simp: triple_def sreturn_def sraise_def split: sum.splits if_splits)
  have undo: "triple w ?M (sbind (sys_close d) (\<lambda>_. sbind (unlink_if_there p name) (\<lambda>_. sraise e)))
      (\<lambda>r s. case r of Inl e \<Rightarrow> ?U s | Inr _ \<Rightarrow> written_ok ns p di es name i d [] s)" for e
    by (rule triple_bind [where R = "\<lambda>_. ?H"], rule triple_mono [OF close_after_refusal [OF assms(1,4)]],
        assumption, use left in \<open>auto split: sum.splits\<close>)
      (rule triple_bind [where R = "\<lambda>_. ?U"], rule triple_mono [OF unlink],
        auto intro: triple_raise split: sum.splits)
  show ?thesis
    unfolding restrict_mode_def
  proof (rule triple_catch [where R = "\<lambda>_. ?M", OF _ undo],
      rule triple_mono [OF chmod_written [OF assms(1)]])
  qed (auto split: sum.splits)
qed

text \<open>Both creations, of a temporary and of the target itself.\<close>

lemma is_temporary_name: "is_temporary (''.asyncio-gateway-'' @ t @ ''.tmp'')"
  by (simp add: is_temporary_def starts_with_def ends_with_def)

lemma temporary_triple:
  assumes "calm w" "ns di = Some (Dir es)" "ns nx = None" "nx \<notin> snd ` set es"
  shows "triple w (held ns p di nx) (temporary_file_for p k)
    (\<lambda>r s. case r of
       Inl e \<Rightarrow> undone w ns di es is_temporary (os_nodes s)
     | Inr (d, name) \<Rightarrow> fresh_in ns di es name nx \<and> is_temporary name \<and> d \<noteq> p \<and>
         written_ok ns p di es name nx d [] s)"
    (is "triple w _ _ ?Q")
proof (induction k)
  case 0
  then show ?case by (auto intro!: triple_raise simp: held_def undone_def)
next
  case (Suc k)
  let ?C = "\<lambda>name fd0 s. case fd0 of
      None \<Rightarrow> held ns p di nx s
    | Some d \<Rightarrow> fresh_in ns di es name nx \<and> d \<noteq> p \<and> written_ok ns p di es name nx d [] s"
  have name: "triple w (held ns p di nx) temporary_name
      (\<lambda>r s. case r of Inl e \<Rightarrow> ?Q (Inl e) s | Inr n \<Rightarrow> held ns p di nx s \<and> is_temporary n)"
    using is_temporary_name by (auto simp: triple_def temporary_name_def)
  have attempt: "triple w (\<lambda>s. held ns p di nx s \<and> is_temporary name)
      (scatch (sbind (sys_openat p name CREATE_FLAGS) (\<lambda>d. sreturn (Some d)))
        (\<lambda>e. if e = Os_error EEXIST then sreturn None else sraise e))
      (\<lambda>r s. case r of Inl e \<Rightarrow> ?Q (Inl e) s | Inr fd0 \<Rightarrow> ?C name fd0 s \<and> is_temporary name)" for name
  proof (rule triple_catch [where R = "\<lambda>e s. held ns p di nx s \<and> is_temporary name"],
      rule triple_bind [where R = "\<lambda>d s. ?C name (Some d) s \<and> is_temporary name"])
    show "triple w (\<lambda>s. held ns p di nx s \<and> is_temporary name) (sys_openat p name CREATE_FLAGS)
      (\<lambda>r s. case r of
         Inl e \<Rightarrow> case Inl e of
             Inl e \<Rightarrow> held ns p di nx s \<and> is_temporary name
           | Inr x \<Rightarrow> case Inr x of Inl e \<Rightarrow> ?Q (Inl e) s
               | Inr fd0 \<Rightarrow> ?C name fd0 s \<and> is_temporary name
       | Inr d \<Rightarrow> ?C name (Some d) s \<and> is_temporary name)"
      using create_held [OF assms, of p name] by (fastforce simp: triple_def split: sum.splits)
  qed (auto simp: triple_def sreturn_def sraise_def undone_def held_def)
  have keep: "triple w (\<lambda>s. ?C name fd0 s \<and> is_temporary name) (case fd0 of
       None \<Rightarrow> temporary_file_for p k
     | Some d \<Rightarrow> sbind (restrict_mode p d name) (\<lambda>_. sreturn (d, name))) ?Q" for name fd0
  proof (cases fd0)
    case None
    then show ?thesis using Suc by (auto simp: triple_def)
  next
    case (Some d)
    show ?thesis
    proof (cases "fresh_in ns di es name nx \<and> d \<noteq> p \<and> is_temporary name")
      case True
      then have "triple w (written_ok ns p di es name nx d []) (restrict_mode p d name)
          (\<lambda>r s. case r of Inl e \<Rightarrow> undone w ns di es is_temporary (os_nodes s)
            | Inr _ \<Rightarrow> written_ok ns p di es name nx d [] s)"
        by (intro restrict_mode_triple assms(1)) auto
      then have "triple w (written_ok ns p di es name nx d [])
          (sbind (restrict_mode p d name) (\<lambda>_. sreturn (d, name))) ?Q"
        by (intro triple_bind [where R = "\<lambda>_. written_ok ns p di es name nx d []"])
          (use True in \<open>auto simp: triple_def sreturn_def split: sum.splits\<close>)
      then show ?thesis by (auto simp: Some triple_def)
    next
      case False
      then show ?thesis by (auto simp: Some triple_def)
    qed
  qed
  show ?case
    unfolding temporary_file_for.simps
    by (rule triple_bind [where R = "\<lambda>n s. held ns p di nx s \<and> is_temporary n", OF name],
        rule triple_bind [where R = "\<lambda>fd0 s. ?C _ fd0 s \<and> is_temporary _", OF attempt keep])
qed

lemma exclusive_triple:
  assumes "calm w" "ns di = Some (Dir es)" "ns nx = None" "nx \<notin> snd ` set es"
  shows "triple w (held ns p di nx) (exclusive_file_for p name)
    (\<lambda>r s. case r of
       Inl e \<Rightarrow> undone w ns di es (\<lambda>n. n = name) (os_nodes s)
     | Inr d \<Rightarrow> fresh_in ns di es name nx \<and> d \<noteq> p \<and> written_ok ns p di es name nx d [] s)"
    (is "triple w _ _ ?Q")
  unfolding exclusive_file_for_def
proof (rule triple_bind [where R = "\<lambda>d. ?Q (Inr d)"])
  show "triple w (held ns p di nx) (sys_openat p name CREATE_FLAGS)
      (\<lambda>r s. case r of Inl e \<Rightarrow> ?Q (Inl e) s | Inr d \<Rightarrow> ?Q (Inr d) s)"
    by (rule triple_mono [OF create_held [OF assms]]) (auto simp: undone_def held_def split: sum.splits)
  fix d
  show "triple w (?Q (Inr d)) (sbind (restrict_mode p d name) (\<lambda>_. sreturn d)) ?Q"
  proof (cases "fresh_in ns di es name nx \<and> d \<noteq> p")
    case True
    then have "triple w (written_ok ns p di es name nx d []) (restrict_mode p d name)
        (\<lambda>r s. case r of Inl e \<Rightarrow> undone w ns di es (\<lambda>n. n = name) (os_nodes s)
          | Inr _ \<Rightarrow> written_ok ns p di es name nx d [] s)"
      by (intro restrict_mode_triple assms(1)) auto
    then show ?thesis
      using True by (intro triple_bind [where R = "\<lambda>_. ?Q (Inr d)"])
        (auto simp: triple_def sreturn_def split: sum.splits)
  qed (auto simp: triple_def)
qed

text \<open>The same, behind the awaits that undo a creation the caller did not wait for.\<close>

lemma held_clockless: "clockless (held ns p di nx)"
  by (simp add: clockless_def held_def)

lemma await_temporary_triple:
  assumes "calm w" "ns di = Some (Dir es)" "ns nx = None" "nx \<notin> snd ` set es"
  shows "triple w (held ns p di nx) (await_temporary_file (temporary_file_for p k) p)
    (\<lambda>r s. case r of
       Inl e \<Rightarrow> undone w ns di es is_temporary (os_nodes s)
     | Inr (d, name) \<Rightarrow> fresh_in ns di es name nx \<and> is_temporary name \<and> d \<noteq> p \<and>
         written_ok ns p di es name nx d [] s)"
    (is "triple w _ _ ?Q")
  unfolding await_temporary_file_def
proof (rule triple_await_or_undo [where R = "\<lambda>x. ?Q (Inr x)", OF held_clockless])
  show "triple w (held ns p di nx) (temporary_file_for p k)
      (\<lambda>r s. case r of Inl e \<Rightarrow> ?Q (Inl e) s | Inr x \<Rightarrow> ?Q (Inr x) s)"
    by (rule triple_mono [OF temporary_triple [OF assms]]) (auto split: sum.splits)
  fix x :: "nat \<times> string"
  obtain d name where x: "x = (d, name)" by (cases x)
  show "triple w (?Q (Inr x)) (case x of (d, name) \<Rightarrow> sbind (close_quietly True d) (\<lambda>_. unlink_quietly p name))
      (\<lambda>r s. ?Q (Inl Cancelled_error) s \<and> (\<forall>e. r = Inl e \<longrightarrow> ?Q (Inl e) s))"
  proof (cases "fresh_in ns di es name nx \<and> is_temporary name \<and> d \<noteq> p")
    case True
    then have "triple w (has_file ns p di es name nx)
        (sbind (close_quietly True d) (\<lambda>_. unlink_quietly p name))
        (\<lambda>r s. r = Inr () \<and> undone w ns di es is_temporary (os_nodes s))"
      by (intro close_and_unlink assms(1)) auto
    then show ?thesis unfolding x prod.case by (rule triple_mono) (auto intro: written_has_file)
  qed (auto simp: triple_def x)
qed auto

lemma await_exclusive_triple:
  assumes "calm w" "ns di = Some (Dir es)" "ns nx = None" "nx \<notin> snd ` set es"
  shows "triple w (held ns p di nx) (await_exclusive_file (exclusive_file_for p name) p name)
    (\<lambda>r s. case r of
       Inl e \<Rightarrow> undone w ns di es (\<lambda>n. n = name) (os_nodes s)
     | Inr d \<Rightarrow> fresh_in ns di es name nx \<and> d \<noteq> p \<and> written_ok ns p di es name nx d [] s)"
    (is "triple w _ _ ?Q")
  unfolding await_exclusive_file_def
proof (rule triple_await_or_undo [where R = "\<lambda>x. ?Q (Inr x)", OF held_clockless])
  show "triple w (held ns p di nx) (exclusive_file_for p name)
      (\<lambda>r s. case r of Inl e \<Rightarrow> ?Q (Inl e) s | Inr x \<Rightarrow> ?Q (Inr x) s)"
    by (rule triple_mono [OF exclusive_triple [OF assms]]) (auto split: sum.splits)
  fix d
  show "triple w (?Q (Inr d)) (sbind (close_quietly True d) (\<lambda>_. unlink_quietly p name))
      (\<lambda>r s. ?Q (Inl Cancelled_error) s \<and> (\<forall>e. r = Inl e \<longrightarrow> ?Q (Inl e) s))"
  proof (cases "fresh_in ns di es name nx \<and> d \<noteq> p")
    case True
    then have "triple w (has_file ns p di es name nx)
        (sbind (close_quietly True d) (\<lambda>_. unlink_quietly p name))
        (\<lambda>r s. r = Inr () \<and> undone w ns di es (\<lambda>n. n = name) (os_nodes s))"
      by (intro close_and_unlink assms(1)) auto
    then show ?thesis by (rule triple_mono) (auto intro: written_has_file)
  qed (auto simp: triple_def)
qed auto

section \<open>Committing\<close>

definition committed ::
  "nodes \<Rightarrow> ino \<Rightarrow> (string, ino) dict \<Rightarrow> string \<Rightarrow> ino \<Rightarrow> string \<Rightarrow> nodes \<Rightarrow> bool"
where
  "committed ns di es target i c ns' \<longleftrightarrow>
     ns' = (case map_of es target of None \<Rightarrow> ns | Some j \<Rightarrow> forget j ns)
       (di \<mapsto> Dir (dict_set es target i), i \<mapsto> Reg c 1)"

definition full_file ::
  "nodes \<Rightarrow> nat \<Rightarrow> ino \<Rightarrow> (string, ino) dict \<Rightarrow> string \<Rightarrow> ino \<Rightarrow> string \<Rightarrow> os \<Rightarrow> bool"
where
  "full_file ns p di es name i c s \<longleftrightarrow> os_nodes s = with_file ns di es name i c \<and> fd_at s p = Some di"

lemma full_has_file: "full_file ns p di es name i c s \<Longrightarrow> has_file ns p di es name i s"
  by (auto simp: full_file_def has_file_def)

lemma clockless_full: "clockless (full_file ns p di es name i c)"
  by (simp add: clockless_def full_file_def)

lemma replace_triple:
  assumes "calm w" "fresh_in ns di es name i"
  shows "triple w (full_file ns p di es name i c) (sys_replace p name target)
    (\<lambda>r s. case r of
       Inl e \<Rightarrow> has_file ns p di es name i s
     | Inr _ \<Rightarrow> committed ns di es target i c (os_nodes s))"
proof (rule tripleI)
  fix s r s'
  assume f: "full_file ns p di es name i c s" and m: "sys_replace p name target w s = (r, s')"
  note d = dir_of_has_file [OF assms full_has_file [OF f]]
  have adv: "full_file ns p di es name i c (advance w s)"
    using f by (simp add: full_file_def calm_advance [OF assms(1)])
  have name: "map_of (es @ [(name, i)]) name = Some i"
    using assms(2) by (simp add: fresh_in_def map_add_def)
  have keys: "name \<notin> set (dict_keys es)"
    using assms(2) by (simp add: fresh_in_def map_of_eq_None_iff)
  have del: "dict_del (es @ [(name, i)]) name = es"
    using assms(2) by (simp add: fresh_in_def dict_del_absent)
  have di: "ns di = Some (Dir es)" "di \<noteq> i" using assms(2) by (auto simp: fresh_in_def)
  let ?w = "with_file ns di es name i c" and ?a = "advance w s"
  let ?put = "\<lambda>n. ?a\<lparr>os_nodes := n(di \<mapsto> Dir (dict_set es target i))\<rparr>"
  show "case r of
       Inl e \<Rightarrow> has_file ns p di es name i s'
     | Inr _ \<Rightarrow> committed ns di es target i c (os_nodes s')"
  proof (cases "w_fault w Call_replace (os_tick s)")
    case (Some e)
    with m adv show ?thesis by (auto simp: sys_replace_def syscall_def intro: full_has_file)
  next
    case none: None
    have nodes: "os_nodes ?a = ?w" using adv by (simp add: full_file_def)
    have eq: "(r, s') = (case map_of (es @ [(name, i)]) target of
        None \<Rightarrow> (Inr (), ?put ?w)
      | Some j \<Rightarrow> if i = j then (Inr (), ?a) else (case ?w j of
            Some (Dir _) \<Rightarrow> (Inl (Os_error EISDIR), ?a) | _ \<Rightarrow> (Inr (), ?put (forget j ?w))))"
      using m unfolding sys_replace_def syscall_def none option.case d prod.case name nodes del
      by (rule sym)
    show ?thesis
    proof (cases "target = name")
      case True
      then have "r = Inr ()" "s' = ?a" using eq name by (simp_all del: map_of_append)
      moreover have "dict_set es name i = es @ [(name, i)]" using keys by (rule dict_set_absent)
      ultimately show ?thesis
        using adv True assms(2) by (simp add: committed_def full_file_def with_file_def fresh_in_def)
    next
      case False
      then have tgt: "map_of (es @ [(name, i)]) target = map_of es target"
        by (auto simp: map_add_def split: option.splits)
      show ?thesis
      proof (cases "map_of es target")
        case None
        then have "r = Inr ()" "s' = ?put ?w" using eq unfolding tgt by simp_all
        then show ?thesis
          using None di by (auto simp: committed_def with_file_def fun_eq_iff)
      next
        case (Some j)
        have "(target, j) \<in> set es" using Some by (rule map_of_SomeD)
        then have "j \<noteq> i" using assms(2) by (force simp: fresh_in_def)
        then have eq': "(r, s') = (case ?w j of
            Some (Dir _) \<Rightarrow> (Inl (Os_error EISDIR), ?a) | _ \<Rightarrow> (Inr (), ?put (forget j ?w)))"
          using eq unfolding tgt Some by simp
        show ?thesis
        proof (cases "\<exists>es'. ?w j = Some (Dir es')")
          case True
          then have "\<exists>e. r = Inl e" "s' = ?a" using eq' by auto
          with adv show ?thesis by (auto intro: full_has_file)
        next
          case nodir: False
          then have "j \<noteq> di" using with_file_simps(2) [OF assms(2)] by auto
          have "r = Inr () \<and> s' = ?put (forget j ?w)"
            using eq' nodir by (cases "?w j" rule: option.exhaust) (auto split: node.splits)
          then show ?thesis
            using Some di \<open>j \<noteq> i\<close> \<open>j \<noteq> di\<close>
            by (auto simp: committed_def with_file_def forget_def fun_eq_iff)
        qed
      qed
    qed
  qed
qed

lemma checkpoint_triple: "clockless P \<Longrightarrow> triple w P checkpoint (\<lambda>r s. P s)"
  by (auto simp: triple_def checkpoint_def to_thread_def sreturn_def clockless_def)

lemma atomic_replace_triple:
  assumes "calm w" "fresh_in ns di es name i"
  shows "triple w (full_file ns p di es name i c) (atomic_replace_at p name target)
    (\<lambda>r s. case r of
       Inl e \<Rightarrow> has_file ns p di es name i s
     | Inr _ \<Rightarrow> committed ns di es target i c (os_nodes s))"
  unfolding atomic_replace_at_def
proof (rule triple_bind [where R = "\<lambda>_. full_file ns p di es name i c"])
  show "triple w (full_file ns p di es name i c) checkpoint
    (\<lambda>r s. case r of Inl e \<Rightarrow> (case Inl e of Inl e \<Rightarrow> has_file ns p di es name i s
        | Inr _ \<Rightarrow> committed ns di es target i c (os_nodes s))
      | Inr _ \<Rightarrow> full_file ns p di es name i c s)"
    by (rule triple_mono [OF checkpoint_triple [OF clockless_full]], assumption)
      (auto intro: full_has_file split: sum.splits)
  show "triple w (full_file ns p di es name i c) (await_shielded True (sys_replace p name target))
    (\<lambda>r s. case r of Inl e \<Rightarrow> has_file ns p di es name i s
      | Inr _ \<Rightarrow> committed ns di es target i c (os_nodes s))"
    by (rule triple_shielded [OF clockless_full replace_triple [OF assms]]) simp
qed

section \<open>Cleaning up\<close>

definition nodes_are :: "(nodes \<Rightarrow> bool) \<Rightarrow> os \<Rightarrow> bool" where
  "nodes_are P s = P (os_nodes s)"

lemma close_parent:
  assumes "calm w"
  shows "triple w (nodes_are P) (close_quietly sc p)
    (\<lambda>r s. nodes_are P s \<and> (r = Inr () \<or> \<not> sc \<and> r = Inl Cancelled_error))"
  using close_quietly_keeps [OF assms] by (fastforce simp: triple_def nodes_are_def)

lemma unlink_then_close_parent:
  assumes "calm w" "fresh_in ns di es name i" "named name"
  shows "triple w (has_file ns p di es name i) (sbind (unlink_quietly p name) (\<lambda>_. close_quietly True p))
    (\<lambda>r s. r = Inr () \<and> nodes_are (undone w ns di es named) s)"
proof (rule triple_bind [where R = "\<lambda>_. nodes_are (undone w ns di es named)"])
  show "triple w (has_file ns p di es name i) (unlink_quietly p name)
    (\<lambda>r s. case r of Inl e \<Rightarrow> Inl e = Inr () \<and> nodes_are (undone w ns di es named) s
      | Inr _ \<Rightarrow> nodes_are (undone w ns di es named) s)"
    by (rule triple_mono [OF unlink_quietly_triple [where named = named, OF assms]])
      (auto simp: nodes_are_def)
  show "triple w (nodes_are (undone w ns di es named)) (close_quietly True p)
    (\<lambda>r s. r = Inr () \<and> nodes_are (undone w ns di es named) s)"
    by (rule triple_mono [OF close_parent [OF assms(1)]]) auto
qed

lemma skip_bind: "sbind (sreturn x) f = f x"
  by (simp add: sbind_def sreturn_def fun_eq_iff)

lemma bind_assoc: "sbind (sbind m f) g = sbind m (\<lambda>x. sbind (f x) g)"
  by (auto simp: sbind_def fun_eq_iff split: prod.splits sum.splits)

text \<open>Each cleanup, at the point of the body it stands for.\<close>

lemma cleanup_with_file:
  assumes "calm w" "fresh_in ns di es name i" "named name" "d \<noteq> p"
  shows "triple w (has_file ns p di es name i) (overwrite_cleanup p (Some d) (Some name) False True)
      (\<lambda>r s. r = Inr () \<and> nodes_are (undone w ns di es named) s)"
    "triple w (has_file ns p di es name i) (overwrite_cleanup p None (Some name) False True)
      (\<lambda>r s. r = Inr () \<and> nodes_are (undone w ns di es named) s)"
    "triple w (has_file ns p di es name i) (exclusive_cleanup p name (Some d) True False True)
      (\<lambda>r s. r = Inr () \<and> nodes_are (undone w ns di es named) s)"
    "triple w (has_file ns p di es name i) (exclusive_cleanup p name None True False True)
      (\<lambda>r s. r = Inr () \<and> nodes_are (undone w ns di es named) s)"
proof -
  let ?post = "\<lambda>r s. r = Inr () \<and> nodes_are (undone w ns di es named) s"
  note tail = unlink_then_close_parent [where named = named and p = p, OF assms(1-3)]
  have start: "triple w (has_file ns p di es name i)
      (sbind (close_quietly True d) (\<lambda>_. sbind (unlink_quietly p name) (\<lambda>_. close_quietly True p))) ?post"
    by (rule triple_bind [where R = "\<lambda>_. has_file ns p di es name i", OF _ tail],
        rule triple_mono [OF close_quietly_other [OF assms(1,4)]]) (auto split: sum.splits)
  show "triple w (has_file ns p di es name i) (overwrite_cleanup p (Some d) (Some name) False True) ?post"
    "triple w (has_file ns p di es name i) (exclusive_cleanup p name (Some d) True False True) ?post"
    using start by (simp_all add: overwrite_cleanup_def exclusive_cleanup_def)
  show "triple w (has_file ns p di es name i) (overwrite_cleanup p None (Some name) False True) ?post"
    "triple w (has_file ns p di es name i) (exclusive_cleanup p name None True False True) ?post"
    using tail by (simp_all add: overwrite_cleanup_def exclusive_cleanup_def skip_bind)
qed

lemma cleanup_parent_only:
  "overwrite_cleanup p None None False True = close_quietly True p"
  "overwrite_cleanup p None (Some n) True False = close_quietly True p"
  "exclusive_cleanup p n None False False True = close_quietly True p"
  "exclusive_cleanup p n None True True False = close_quietly False p"
  by (simp_all add: overwrite_cleanup_def exclusive_cleanup_def skip_bind)

lemma triple_or_cleanup:
  assumes "triple w P m (\<lambda>r s. case r of Inl e \<Rightarrow> R s | Inr x \<Rightarrow> Q (Inr x) s)"
    "triple w R c (\<lambda>r s. r = Inr () \<and> (\<forall>e. Q (Inl e) s))"
  shows "triple w P (or_cleanup c m) Q"
  unfolding or_cleanup_def
proof (rule triple_catch [where R = "\<lambda>_. R", OF assms(1)],
    rule triple_bind [where R = "\<lambda>_ s. \<forall>e. Q (Inl e) s"])
  show "triple w R c (\<lambda>r s. case r of Inl e \<Rightarrow> Q (Inl e) s | Inr _ \<Rightarrow> \<forall>e. Q (Inl e) s)"
    by (rule triple_mono [OF assms(2)]) auto
  show "triple w (\<lambda>s. \<forall>e. Q (Inl e) s) (sraise e) Q" for e
    by (rule triple_raise) simp
qed

section \<open>The two policies\<close>

definition streamed :: "body \<Rightarrow> int option \<Rightarrow> int \<Rightarrow> bool" where
  "streamed chunks limit n \<longleftrightarrow> n = int (length (body_bytes (b_items chunks))) \<and>
     (b_items chunks \<noteq> [] \<longrightarrow> within_limit limit n)"

lemma stream_and_sync_triple:
  assumes "calm w" "fresh_in ns di es name i"
  shows "triple w (written_ok ns p di es name i d [])
    (sbind (stream_descriptor d chunks limit) (\<lambda>written.
      sbind (run_thread_call False (sys_fsync d)) (\<lambda>_. sreturn written)))
    (\<lambda>r s. case r of
       Inl e \<Rightarrow> has_file ns p di es name i s
     | Inr m \<Rightarrow> full_file ns p di es name i (body_bytes (b_items chunks)) s \<and> streamed chunks limit m)"
    (is "triple w _ _ ?Q")
proof (rule triple_bind [where R = "\<lambda>m. ?Q (Inr m)"])
  show "triple w (written_ok ns p di es name i d []) (stream_descriptor d chunks limit)
      (\<lambda>r s. case r of Inl e \<Rightarrow> ?Q (Inl e) s | Inr m \<Rightarrow> ?Q (Inr m) s)"
    by (rule triple_mono [OF stream_staged [OF assms]])
      (auto simp: streamed_def full_file_def written_ok_def staged_def
        intro: written_has_file(2) split: sum.splits)
  fix m
  have cl: "clockless (?Q (Inr m))" by (simp add: clockless_def full_file_def)
  have sync: "triple w (?Q (Inr m)) (sys_fsync d) (\<lambda>r s. ?Q (Inr m) s)"
    by (rule tripleI)
      (auto simp: sys_fsync_def syscall_def full_file_def calm_advance [OF assms(1)] split: option.splits)
  show "triple w (?Q (Inr m)) (sbind (run_thread_call False (sys_fsync d)) (\<lambda>_. sreturn m)) ?Q"
  proof (rule triple_bind [where R = "\<lambda>_. ?Q (Inr m)"])
    show "triple w (?Q (Inr m)) (run_thread_call False (sys_fsync d))
        (\<lambda>r s. case r of Inl e \<Rightarrow> ?Q (Inl e) s | Inr _ \<Rightarrow> ?Q (Inr m) s)"
      unfolding run_thread_call_def
      by (rule triple_mono [OF triple_shielded [OF cl sync]])
        (auto intro: full_has_file split: sum.splits)
  qed (auto simp: triple_def sreturn_def)
qed

lemma close_then_full:
  assumes "calm w" "d \<noteq> p"
  shows "triple w (full_file ns p di es name i c) (close_descriptor False d)
    (\<lambda>r s. full_file ns p di es name i c s)"
  unfolding close_descriptor_def run_thread_call_def
proof (rule triple_shielded [OF clockless_full])
  show "triple w (full_file ns p di es name i c) (sys_close d) (\<lambda>r s. full_file ns p di es name i c s)"
    unfolding full_file_def by (rule triple_mono [OF close_other [OF assms]]) auto
qed auto

lemma overwrite_triple:
  assumes "calm w" "ns di = Some (Dir es)" "ns nx = None" "nx \<notin> snd ` set es"
  shows "triple w (held ns p di nx)
    (sbind (or_cleanup (overwrite_cleanup p None None False True)
       (await_temporary_file (temporary_file_for p TEMPORARY_ATTEMPTS) p))
       (\<lambda>(descriptor, name).
     sbind (or_cleanup (overwrite_cleanup p (Some descriptor) (Some name) False True)
       (sbind (stream_descriptor descriptor chunks limit) (\<lambda>written.
        sbind (run_thread_call False (sys_fsync descriptor)) (\<lambda>_. sreturn written))))
       (\<lambda>written.
     sbind (or_cleanup (overwrite_cleanup p None (Some name) False True)
       (sbind (close_descriptor False descriptor) (\<lambda>_.
        atomic_replace_at p name target))) (\<lambda>_.
     sbind (overwrite_cleanup p None (Some name) True False) (\<lambda>_.
     sreturn written)))))
    (\<lambda>r s. case r of
       Inl e \<Rightarrow> nodes_are (undone w ns di es is_temporary) s
     | Inr m \<Rightarrow> nodes_are (committed ns di es target nx (body_bytes (b_items chunks))) s \<and>
         streamed chunks limit m)"
    (is "triple w _ (sbind ?create ?rest) ?Q")
proof (rule triple_bind [where R = "\<lambda>(d, name) s. fresh_in ns di es name nx \<and> is_temporary name \<and>
    d \<noteq> p \<and> written_ok ns p di es name nx d [] s"])
  have q: "nodes_are (undone w ns di es is_temporary) s \<Longrightarrow> ?Q (Inl e) s" for e s by simp
  show "triple w (held ns p di nx) ?create (\<lambda>r s. case r of Inl e \<Rightarrow> ?Q (Inl e) s
      | Inr x \<Rightarrow> (\<lambda>(d, name) s. fresh_in ns di es name nx \<and> is_temporary name \<and>
          d \<noteq> p \<and> written_ok ns p di es name nx d [] s) x s)"
    unfolding cleanup_parent_only
    by (rule triple_or_cleanup [where R = "nodes_are (undone w ns di es is_temporary)"],
        rule triple_mono [OF await_temporary_triple [OF assms]], assumption,
        auto simp: nodes_are_def split: sum.splits)
      (rule triple_mono [OF close_parent [OF assms(1)]], auto simp: nodes_are_def)
  fix x :: "nat \<times> string"
  obtain d name where x: "x = (d, name)" by (cases x)
  let ?c = "body_bytes (b_items chunks)"
  let ?commit = "\<lambda>written. sbind (or_cleanup (overwrite_cleanup p None (Some name) False True)
       (sbind (close_descriptor False d) (\<lambda>_. atomic_replace_at p name target))) (\<lambda>_.
     sbind (overwrite_cleanup p None (Some name) True False) (\<lambda>_. sreturn written))"
  have go: "triple w (written_ok ns p di es name nx d []) (?rest (d, name)) ?Q"
    if f: "fresh_in ns di es name nx" "is_temporary name" "d \<noteq> p"
  proof -
    note clean = cleanup_with_file [where named = is_temporary, OF assms(1) f]
    have commit: "triple w (\<lambda>s. full_file ns p di es name nx ?c s \<and> streamed chunks limit m) (?commit m) ?Q" for m
    proof (cases "streamed chunks limit m")
      case m: True
      have replace: "triple w (full_file ns p di es name nx ?c)
          (sbind (close_descriptor False d) (\<lambda>_. atomic_replace_at p name target))
          (\<lambda>r s. case r of Inl e \<Rightarrow> has_file ns p di es name nx s
            | Inr _ \<Rightarrow> nodes_are (committed ns di es target nx ?c) s)"
      proof (rule triple_bind [where R = "\<lambda>_. full_file ns p di es name nx ?c"])
        show "triple w (full_file ns p di es name nx ?c) (close_descriptor False d)
          (\<lambda>r s. case r of
              Inl e \<Rightarrow> (case Inl e of Inl e \<Rightarrow> has_file ns p di es name nx s
                | Inr _ \<Rightarrow> nodes_are (committed ns di es target nx ?c) s)
            | Inr _ \<Rightarrow> full_file ns p di es name nx ?c s)"
          by (rule triple_mono [OF close_then_full [OF assms(1) f(3)]], assumption)
            (auto intro: full_has_file split: sum.splits)
        show "triple w (full_file ns p di es name nx ?c) (atomic_replace_at p name target)
          (\<lambda>r s. case r of Inl e \<Rightarrow> has_file ns p di es name nx s
            | Inr _ \<Rightarrow> nodes_are (committed ns di es target nx ?c) s)"
          by (rule triple_mono [OF atomic_replace_triple [OF assms(1) f(1)]])
            (auto simp: nodes_are_def split: sum.splits)
      qed
      have guarded: "triple w (full_file ns p di es name nx ?c)
          (or_cleanup (overwrite_cleanup p None (Some name) False True)
            (sbind (close_descriptor False d) (\<lambda>_. atomic_replace_at p name target)))
          (\<lambda>r s. case r of Inl e \<Rightarrow> ?Q (Inl e) s
            | Inr _ \<Rightarrow> nodes_are (committed ns di es target nx ?c) s)"
        by (rule triple_or_cleanup [OF triple_mono [OF replace] triple_mono [OF clean(2)]])
          (auto split: sum.splits)
      have finish: "triple w (nodes_are (committed ns di es target nx ?c))
          (sbind (close_quietly True p) (\<lambda>_. sreturn m)) ?Q"
        by (rule triple_bind [where R = "\<lambda>_. nodes_are (committed ns di es target nx ?c)"],
            rule triple_mono [OF close_parent [OF assms(1)]], assumption)
          (use m in \<open>auto simp: triple_def sreturn_def\<close>)
      show ?thesis
        unfolding cleanup_parent_only
        by (rule triple_mono [OF triple_bind [OF guarded [unfolded cleanup_parent_only] finish]]) auto
    qed (simp add: triple_def)
    have sync: "triple w (written_ok ns p di es name nx d [])
        (or_cleanup (overwrite_cleanup p (Some d) (Some name) False True)
         (sbind (stream_descriptor d chunks limit) (\<lambda>written.
          sbind (run_thread_call False (sys_fsync d)) (\<lambda>_. sreturn written))))
        (\<lambda>r s. case r of Inl e \<Rightarrow> ?Q (Inl e) s
          | Inr m \<Rightarrow> full_file ns p di es name nx ?c s \<and> streamed chunks limit m)"
      by (rule triple_or_cleanup [OF triple_mono [OF stream_and_sync_triple [OF assms(1) f(1)]]
            triple_mono [OF clean(1)]])
        (auto split: sum.splits)
    show ?thesis unfolding prod.case by (rule triple_bind [OF sync commit])
  qed
  show "triple w (case x of (d, name) \<Rightarrow> \<lambda>s. fresh_in ns di es name nx \<and> is_temporary name \<and> d \<noteq> p \<and>
      written_ok ns p di es name nx d [] s) (?rest x) ?Q"
    unfolding x prod.case using go by (auto simp: triple_def)
qed

text \<open>A new file, complete.\<close>

definition created :: "nodes \<Rightarrow> ino \<Rightarrow> (string, ino) dict \<Rightarrow> string \<Rightarrow> ino \<Rightarrow> string \<Rightarrow> nodes \<Rightarrow> bool" where
  "created ns di es name i c ns' \<longleftrightarrow> fresh_in ns di es name i \<and> ns' = with_file ns di es name i c"

lemma exclusive_policy_triple:
  assumes "calm w" "ns di = Some (Dir es)" "ns nx = None" "nx \<notin> snd ` set es"
  shows "triple w (held ns p di nx)
    (sbind (or_cleanup (exclusive_cleanup p target None False False True)
       (await_exclusive_file (exclusive_file_for p target) p target)) (\<lambda>descriptor.
     sbind (or_cleanup (exclusive_cleanup p target (Some descriptor) True False True)
       (sbind (stream_descriptor descriptor chunks limit) (\<lambda>written.
        sbind (run_thread_call False (sys_fsync descriptor)) (\<lambda>_. sreturn written))))
       (\<lambda>written.
     sbind (or_cleanup (exclusive_cleanup p target None True False True)
       (close_descriptor False descriptor)) (\<lambda>_.
     sbind (exclusive_cleanup p target None True True False) (\<lambda>_.
     sreturn written)))))
    (\<lambda>r s. case r of
       Inl e \<Rightarrow> nodes_are (undone w ns di es (\<lambda>n. n = target)) s \<or>
         (e = Cancelled_error \<and> nodes_are (created ns di es target nx (body_bytes (b_items chunks))) s)
     | Inr m \<Rightarrow> nodes_are (created ns di es target nx (body_bytes (b_items chunks))) s \<and>
         streamed chunks limit m)"
    (is "triple w _ (sbind ?create ?rest) ?Q")
proof (rule triple_bind [where R = "\<lambda>d s. fresh_in ns di es target nx \<and>
    d \<noteq> p \<and> written_ok ns p di es target nx d [] s"])
  let ?U = "undone w ns di es (\<lambda>n. n = target)"
  show "triple w (held ns p di nx) ?create (\<lambda>r s. case r of Inl e \<Rightarrow> ?Q (Inl e) s
      | Inr d \<Rightarrow> fresh_in ns di es target nx \<and> d \<noteq> p \<and> written_ok ns p di es target nx d [] s)"
    unfolding cleanup_parent_only
    by (rule triple_or_cleanup [where R = "nodes_are ?U"],
        rule triple_mono [OF await_exclusive_triple [OF assms]], assumption,
        auto simp: nodes_are_def split: sum.splits)
      (rule triple_mono [OF close_parent [OF assms(1)]], auto simp: nodes_are_def)
  fix d
  let ?c = "body_bytes (b_items chunks)"
  let ?F = "full_file ns p di es target nx ?c"
  let ?commit = "\<lambda>written. sbind (or_cleanup (exclusive_cleanup p target None True False True)
       (close_descriptor False d)) (\<lambda>_.
     sbind (exclusive_cleanup p target None True True False) (\<lambda>_. sreturn written))"
  have go: "triple w (written_ok ns p di es target nx d []) (?rest d) ?Q"
    if f: "fresh_in ns di es target nx" "d \<noteq> p"
  proof -
    note clean = cleanup_with_file [where named = "\<lambda>n. n = target", OF assms(1) f(1) refl f(2)]
    have commit: "triple w (\<lambda>s. ?F s \<and> streamed chunks limit m) (?commit m) ?Q" for m
    proof (cases "streamed chunks limit m")
      case m: True
      have close: "triple w ?F (or_cleanup (exclusive_cleanup p target None True False True)
          (close_descriptor False d)) (\<lambda>r s. case r of Inl e \<Rightarrow> ?Q (Inl e) s | Inr _ \<Rightarrow> ?F s)"
      proof (rule triple_or_cleanup [OF triple_mono [OF close_then_full [OF assms(1) f(2)]]
            triple_mono [OF clean(4)]])
        show "case r of Inl e \<Rightarrow> has_file ns p di es target nx s
            | Inr x \<Rightarrow> case Inr x of Inl e \<Rightarrow> ?Q (Inl e) s | Inr _ \<Rightarrow> ?F s" if "?F s" for r s
          using that by (auto intro: full_has_file split: sum.splits)
      qed auto
      have finish: "triple w ?F (sbind (close_quietly False p) (\<lambda>_. sreturn m)) ?Q"
      proof (rule triple_bind [where R = "\<lambda>_. nodes_are (created ns di es target nx ?c)"])
        show "triple w ?F (close_quietly False p) (\<lambda>r s. case r of Inl e \<Rightarrow> ?Q (Inl e) s
            | Inr _ \<Rightarrow> nodes_are (created ns di es target nx ?c) s)"
          by (rule triple_mono [OF close_parent [where P = "created ns di es target nx ?c", OF assms(1)]])
            (auto simp: full_file_def nodes_are_def created_def f(1) split: sum.splits)
      qed (use m in \<open>auto simp: triple_def sreturn_def\<close>)
      show ?thesis
        unfolding cleanup_parent_only
        by (rule triple_mono [OF triple_bind [OF close finish]]) auto
    qed (simp add: triple_def)
    have sync: "triple w (written_ok ns p di es target nx d [])
        (or_cleanup (exclusive_cleanup p target (Some d) True False True)
         (sbind (stream_descriptor d chunks limit) (\<lambda>written.
          sbind (run_thread_call False (sys_fsync d)) (\<lambda>_. sreturn written))))
        (\<lambda>r s. case r of Inl e \<Rightarrow> ?Q (Inl e) s | Inr m \<Rightarrow> ?F s \<and> streamed chunks limit m)"
      by (rule triple_or_cleanup [OF triple_mono [OF stream_and_sync_triple [OF assms(1) f(1)]]
            triple_mono [OF clean(3)]])
        (auto split: sum.splits)
    show ?thesis by (rule triple_bind [OF sync commit])
  qed
  show "triple w (\<lambda>s. fresh_in ns di es target nx \<and> d \<noteq> p \<and> written_ok ns p di es target nx d [] s)
      (?rest d) ?Q"
    using go by (auto simp: triple_def)
qed

text \<open>Entries name inodes that exist.\<close>

definition wf_entries :: "os \<Rightarrow> bool" where
  "wf_entries s \<longleftrightarrow> (\<forall>d es n i. os_nodes s d = Some (Dir es) \<longrightarrow> (n, i) \<in> set es \<longrightarrow> i < os_next s)"

definition wf_machine :: "os \<Rightarrow> bool" where
  "wf_machine s \<longleftrightarrow> wf_fds s \<and> wf_nodes s \<and> wf_entries s"

text \<open>The parent is held, or nothing happened.\<close>

lemma hold_parent_result:
  assumes "calm w" "wf_machine s"
    "await_open_descriptor (open_parent_descriptor path) w s = (r, s')"
  shows "os_nodes s' = os_nodes s \<and> (\<forall>p. r = Inr p \<longrightarrow> (\<exists>di es.
    lookup (os_nodes s) (start_of (is_absolute (pure_path path)) s)
      (butlast (p_parts (pure_path path))) = Some di \<and> os_nodes s di = Some (Dir es) \<and>
    os_nodes s (os_next s) = None \<and> os_next s \<notin> snd ` set es \<and>
    held (os_nodes s) p di (os_next s) s'))"
proof -
  have st: "os_nodes s' = os_nodes s" "os_next s' = os_next s"
    using stillD [OF still_await_parent [OF assms(1)] assms(3)] by auto
  have "\<exists>di es. lookup (os_nodes s) (start_of (is_absolute (pure_path path)) s)
      (butlast (p_parts (pure_path path))) = Some di \<and> os_nodes s di = Some (Dir es) \<and>
    os_nodes s (os_next s) = None \<and> os_next s \<notin> snd ` set es \<and>
    held (os_nodes s) p di (os_next s) s'" if "r = Inr p" for p
  proof -
    have o: "open_parent_descriptor path w (await_tick s) = (Inr p, s')"
      using assms(3) that
      by (auto simp: await_open_descriptor_def await_or_undo_def sbind_def sraise_def
          split: prod.splits if_splits sum.splits)
    have "start_of a (await_tick s) = start_of a s" for a by (simp add: start_of_def)
    with open_parent_lookup [OF assms(1) o] assms(2) obtain di es where
      p: "lookup (os_nodes s) (start_of (is_absolute (pure_path path)) s)
        (butlast (p_parts (pure_path path))) = Some di"
      "os_nodes s di = Some (Dir es)" "fd_at s' p = Some di" "wf_fds s'"
      by (auto simp: wf_machine_def)
    moreover have "os_nodes s (os_next s) = None" "os_next s \<notin> snd ` set es"
      using assms(2) p(2) by (auto simp: wf_machine_def wf_nodes_def wf_entries_def) fastforce
    ultimately show ?thesis using st by (auto simp: held_def)
  qed
  with st show ?thesis by blast
qed

text \<open>
  C5. Overwriting a file is all or nothing, in a world where no other process writes to the file
  system, whose calls may fail and whose writes may be short, and however often the caller is cancelled. If \<open>_stream_overwrite\<close>
  returns, then in the directory the target's parent names the target's entry was replaced,
  in place, by a new inode that holds exactly the bytes of the body, within the limit, and
  the number returned is their count; nothing else changed but the link count of the file
  that was there. If it raises, every node is as it was, but for an inode without a name; and only in
  a world where an unlink fails, or a close that follows at once on a refused \<open>fchmod\<close> (the source
  then raises before it unlinks), may one more entry be left, under a temporary name. (A run sees no
  more of its world than the calls it makes, so it is one of these that failed.)
\<close>

theorem overwriting_is_all_or_nothing:
  assumes "calm w" "wf_machine s" "stream_overwrite target chunks limit w s = (r, s')"
    "path = pure_path (path_str target)"
    "parent = lookup (os_nodes s) (start_of (is_absolute path) s) (butlast (p_parts path))"
  shows "case r of
      Inr n \<Rightarrow> streamed chunks limit n \<and> (\<exists>di es. parent = Some di \<and> os_nodes s di = Some (Dir es) \<and>
        committed (os_nodes s) di es (path_name target) (os_next s)
          (body_bytes (b_items chunks)) (os_nodes s'))
    | Inl e \<Rightarrow> \<exists>di es. undone w (os_nodes s) di es is_temporary (os_nodes s')"
proof -
  obtain r1 s1 where h: "await_open_descriptor (open_parent_descriptor (path_str target)) w s = (r1, s1)"
    by (cases "await_open_descriptor (open_parent_descriptor (path_str target)) w s")
  note hold = hold_parent_result [OF assms(1,2) h]
  show ?thesis
  proof (cases r1)
    case (Inl e)
    with assms(3) h have "r = Inl e" "s' = s1" by (auto simp: stream_overwrite_def sbind_def)
    with hold show ?thesis by (auto simp: undone_def)
  next
    case (Inr p)
    with hold obtain di es where d: "parent = Some di" "os_nodes s di = Some (Dir es)"
      "os_nodes s (os_next s) = None" "os_next s \<notin> snd ` set es" "held (os_nodes s) p di (os_next s) s1"
      using assms(4,5) by auto
    from tripleD [OF overwrite_triple [OF assms(1) d(2-4)] d(5)] assms(3) h Inr d(1,2) show ?thesis
      by (fastforce simp: stream_overwrite_def sbind_def [of "await_open_descriptor _"] nodes_are_def
          split: sum.splits)
  qed
qed

text \<open>
  C32. Exclusive creation never touches what is there, under the same conditions. If
  \<open>_stream_exclusive\<close> returns, the directory had no entry of that name and has one now, of a
  new inode with exactly the bytes of the body, within the limit. If it raises, every node is
  as it was, but for an inode without a name; only in a world where an unlink fails, or a close
  that follows at once on a refused \<open>fchmod\<close>, may the partial file be left; and only a cancellation
  that arrives while the parent is closed leaves the complete file.
\<close>

theorem exclusive_creation_replaces_nothing:
  assumes "calm w" "wf_machine s" "stream_exclusive target chunks limit w s = (r, s')"
    "path = pure_path (path_str target)"
    "parent = lookup (os_nodes s) (start_of (is_absolute path) s) (butlast (p_parts path))"
  shows "case r of
      Inr n \<Rightarrow> streamed chunks limit n \<and> (\<exists>di es. parent = Some di \<and>
        created (os_nodes s) di es (path_name target) (os_next s)
          (body_bytes (b_items chunks)) (os_nodes s'))
    | Inl e \<Rightarrow> \<exists>di es. undone w (os_nodes s) di es (\<lambda>n. n = path_name target) (os_nodes s') \<or>
        (e = Cancelled_error \<and> created (os_nodes s) di es (path_name target) (os_next s)
          (body_bytes (b_items chunks)) (os_nodes s'))"
proof -
  obtain r1 s1 where h: "await_open_descriptor (open_parent_descriptor (path_str target)) w s = (r1, s1)"
    by (cases "await_open_descriptor (open_parent_descriptor (path_str target)) w s")
  note hold = hold_parent_result [OF assms(1,2) h]
  show ?thesis
  proof (cases r1)
    case (Inl e)
    with assms(3) h have "r = Inl e" "s' = s1"
      by (auto simp: stream_exclusive_def Let_def sbind_def)
    with hold show ?thesis by (auto simp: undone_def)
  next
    case (Inr p)
    with hold obtain di es where d: "parent = Some di" "os_nodes s di = Some (Dir es)"
      "os_nodes s (os_next s) = None" "os_next s \<notin> snd ` set es" "held (os_nodes s) p di (os_next s) s1"
      using assms(4,5) by auto
    from tripleD [OF exclusive_policy_triple [OF assms(1) d(2-4)] d(5)] assms(3) h Inr d(1,2) show ?thesis
      by (fastforce simp: stream_exclusive_def Let_def sbind_def [of "await_open_descriptor _"] nodes_are_def
          split: sum.splits)
  qed
qed

section \<open>Examples\<close>

definition report :: ppath where
  "report = \<lparr>p_root = ''/'', p_parts = [''srv'', ''data'', ''report'']\<rparr>"

definition one_chunk :: body where
  "one_chunk = \<lparr>b_items = [Chunk ''abc''], b_closing = Aclose None\<rparr>"

text \<open>A world in which the caller is cancelled at one await.\<close>

definition cancelled_at :: "nat \<Rightarrow> world" where
  "cancelled_at t = still_world\<lparr>w_wakes := (\<lambda>k. if k = t then [Cancelled_pending] else [Woken_returned])\<rparr>"

lemma machine_wf_machine: "wf_machine machine"
  using machine_wf(1,2)
  by (auto simp: wf_machine_def wf_entries_def machine_def served_def split: if_splits)

lemma report_parent:
  "lookup (os_nodes machine) (start_of (is_absolute (pure_path (path_str report))) machine)
    (butlast (p_parts (pure_path (path_str report)))) = Some 2"
  by code_simp

lemma report_overwritten:
  "fst (stream_overwrite report one_chunk (Some 10) still_world machine) = Inr 3"
  by code_simp

lemma report_created: "fst (stream_exclusive report one_chunk None still_world machine) = Inr 3"
  by code_simp

text \<open>
  Cancelled while the parent descriptor is closed, the exclusive creation
  raises and leaves the complete file under its final name.
\<close>

lemma cancelled_creation_stays:
  "(case stream_exclusive report one_chunk None (cancelled_at 18) machine of
      (Inl e, s) \<Rightarrow> e = Cancelled_error \<and> lookup (os_nodes s) 0 [''srv'', ''data'', ''report''] = Some 5
    | _ \<Rightarrow> False)"
  by code_simp

theorem overwriting_is_all_or_nothing_witness:
  "\<exists>es. committed (os_nodes machine) 2 es ''report'' 5 ''abc''
    (os_nodes (snd (stream_overwrite report one_chunk (Some 10) still_world machine)))"
proof -
  have e: "stream_overwrite report one_chunk (Some 10) still_world machine =
      (Inr 3, snd (stream_overwrite report one_chunk (Some 10) still_world machine))"
    using report_overwritten by (metis prod.collapse)
  have "path_name report = ''report''" "body_bytes (b_items one_chunk) = ''abc''" "os_next machine = 5"
    by (simp_all add: report_def path_name_def one_chunk_def body_bytes_def machine_def)
  with overwriting_is_all_or_nothing [OF machine_wf(3) machine_wf_machine e refl report_parent [symmetric]]
  show ?thesis by auto
qed

theorem exclusive_creation_replaces_nothing_witness:
  "\<exists>es. created (os_nodes machine) 2 es ''report'' 5 ''abc''
    (os_nodes (snd (stream_exclusive report one_chunk None still_world machine)))"
proof -
  have e: "stream_exclusive report one_chunk None still_world machine =
      (Inr 3, snd (stream_exclusive report one_chunk None still_world machine))"
    using report_created by (metis prod.collapse)
  have "path_name report = ''report''" "body_bytes (b_items one_chunk) = ''abc''" "os_next machine = 5"
    by (simp_all add: report_def path_name_def one_chunk_def body_bytes_def machine_def)
  with exclusive_creation_replaces_nothing [OF machine_wf(3) machine_wf_machine e refl report_parent [symmetric]]
  show ?thesis by auto
qed

end
