(* ===== verification/Contained_Guarantees.thy ===== *)
theory Contained_Guarantees
  imports Contained Open_Guarantees
begin

text \<open>
  What the two adapters of \<open>utils/contained_io.py\<close> promise: the library below them is never asked
  about a path outside the directory of the transfer, and what it is given to write stays within
  the budget. Both rest on one contract, the locale \<open>confined_adapter\<close>.
\<close>

section \<open>Confinement\<close>

text \<open>
  A path under the directory with all links resolved, or the entry of the directory itself.
\<close>

definition confined :: "nodes \<Rightarrow> string list \<Rightarrow> ppath \<Rightarrow> ppath \<Rightarrow> bool" where
  "confined ns cwd base p \<longleftrightarrow>
     (\<exists>b. resolve_path ns cwd base = Inr b \<and> p_root p = p_root b \<and> prefix (p_parts b) (p_parts p)
        \<and> (canonical ns cwd \<longrightarrow> canonical ns (butlast (p_parts p)))) \<or>
     (\<exists>parent. resolve_path ns cwd (path_parent (absolute cwd base)) = Inr parent \<and>
        p = path_join parent (pure_path (path_name (absolute cwd base))))"

lemma under_confined:
  assumes "under ns cwd (path_str base) path = Inr p" "pure_path (path_str base) = base"
  shows "confined ns cwd base p"
proof -
  from assms obtain tail where r: "resolve_within ns cwd (path_str base) (path_str tail) = Inr p"
    by (auto simp: under_def Let_def split: option.splits)
  let ?c = "pure_path (path_str tail)"
  show ?thesis
  proof (cases "py_parts ?c = []")
    case True
    from resolve_within_itself [OF r True] assms(2) show ?thesis unfolding confined_def by metis
  next
    case ne: False
    have canon: "canonical ns cwd \<Longrightarrow> canonical ns (butlast (p_parts p))"
      using resolved_inside [OF r _ ne] by auto
    show ?thesis
    proof (cases "names_a_directory ?c")
      case True
      from resolve_within_directory [OF r ne True] canon assms(2) within_base_prefix show ?thesis
        unfolding confined_def by metis
    next
      case False
      from resolve_within_leaf [OF r ne False] obtain b parent where
        b: "resolve_path ns cwd base = Inr b" "within_base b parent"
          "p = parent\<lparr>p_parts := p_parts parent @ [last (p_parts ?c)]\<rparr>"
        using assms(2) by metis
      with within_base_prefix [OF b(2)] canon show ?thesis unfolding confined_def by auto
    qed
  qed
qed

section \<open>The contract\<close>

text \<open>Bytes that were accepted, over a session.\<close>

definition accepted :: "('r \<Rightarrow> nat) \<Rightarrow> 'r list \<Rightarrow> (fault + answer) list \<Rightarrow> int" where
  "accepted cost rs as = (\<Sum>(r, a) \<leftarrow> zip rs as. if is_ok a then int (cost r) else 0)"

locale confined_adapter =
  fixes perform :: "'s \<Rightarrow> 'r \<Rightarrow> answer action"
    and agree :: "ppath \<Rightarrow> 's \<Rightarrow> 's \<Rightarrow> bool"
    and cost :: "'r \<Rightarrow> nat"
  assumes asks_inside:
      "calm w \<Longrightarrow> pure_path (path_str (tr_base t)) = tr_base t \<Longrightarrow> agree (tr_base t) P Q \<Longrightarrow>
       perform P r w (t, s) = perform Q r w (t, s)"
    and keeps_base: "perform P r w (t, s) = (a, t', s') \<Longrightarrow> tr_base t' = tr_base t"
    and charges: "perform P r w (t, s) = (a, t', s') \<Longrightarrow> tr_budget t = Some b \<Longrightarrow>
       \<exists>b'. tr_budget t' = Some b' \<and> bu_limit b' = bu_limit b
          \<and> bu_written b' = bu_written b + int (cost r)
          \<and> (is_ok a \<and> 0 < cost r \<longrightarrow> bu_written b' \<le> bu_limit b)"

context confined_adapter
begin

lemma session_asks_inside:
  assumes "calm w" "pure_path (path_str (tr_base t)) = tr_base t" "agree (tr_base t) P Q"
  shows "session (perform P) rs w (t, s) = session (perform Q) rs w (t, s)"
  using assms(2,3)
proof (induction rs arbitrary: t s)
  case (Cons r rs)
  obtain a t' s' where p: "perform P r w (t, s) = (a, t', s')" by (metis prod.exhaust)
  with asks_inside [OF assms(1) Cons.prems] have "perform Q r w (t, s) = (a, t', s')" by metis
  moreover have "session (perform P) rs w (t', s') = session (perform Q) rs w (t', s')"
    using keeps_base [OF p] Cons.prems by (intro Cons.IH) simp_all
  ultimately show ?case using p by simp
qed simp

lemma accepts_within:
  assumes "session (perform P) rs w (t, s) = (as, t', s')" "tr_budget t = Some b"
  shows "bu_written b + accepted cost rs as \<le> max (bu_limit b) (bu_written b)"
  using assms
proof (induction rs arbitrary: t s b as)
  case (Cons r rs)
  obtain a t1 s1 where p: "perform P r w (t, s) = (a, t1, s1)" by (metis prod.exhaust)
  from Cons.prems(1) p obtain as' where r: "session (perform P) rs w (t1, s1) = (as', t', s')" "as = a # as'"
    by (auto split: prod.splits)
  from charges [OF p Cons.prems(2)] obtain b' where
    b: "tr_budget t1 = Some b'" "bu_limit b' = bu_limit b" "bu_written b' = bu_written b + int (cost r)"
      "is_ok a \<and> 0 < cost r \<longrightarrow> bu_written b' \<le> bu_limit b" by blast
  from Cons.IH [OF r(1) b(1)] b(2-4) show ?case
    by (cases "is_ok a"; cases "cost r = 0") (auto simp: accepted_def r(2) max_def split: if_splits)
qed (simp add: accepted_def)

end

section \<open>The same answers from suppliers that agree inside\<close>

definition agree_io :: "ppath \<Rightarrow> supplier \<Rightarrow> supplier \<Rightarrow> bool" where
  "agree_io base P Q \<longleftrightarrow> (\<forall>r w s.
     (\<forall>p \<in> set_io_request r. confined (os_nodes s) (os_cwd s) base p) \<longrightarrow> P r w s = Q r w s)"

definition agree_fs :: "ppath \<Rightarrow> fs_supplier \<Rightarrow> fs_supplier \<Rightarrow> bool" where
  "agree_fs base P Q \<longleftrightarrow> (\<forall>r w s.
     (\<forall>p \<in> set_fs_request r. confined (os_nodes s) (os_cwd s) base p) \<and> (\<forall>a b. r \<noteq> Fs_symlink a b)
       \<longrightarrow> P r w s = Q r w s)"

lemmas action_defs = abind_def acatch_def areturn_def araise_def on_os_def the_transfer_def
  put_transfer_def

lemma abind_cong_at:
  "m w ts = m' w ts \<Longrightarrow> (\<And>x ts'. m w ts = (Inr x, ts') \<Longrightarrow> f x w ts' = g x w ts') \<Longrightarrow>
     abind m f w ts = abind m' g w ts"
  by (auto simp: abind_def split: prod.splits sum.splits)

lemma acatch_cong_at:
  "m w ts = m' w ts \<Longrightarrow> (\<And>e ts'. m w ts = (Inl e, ts') \<Longrightarrow> h e w ts' = g e w ts') \<Longrightarrow>
     acatch m h w ts = acatch m' g w ts"
  by (auto simp: acatch_def split: prod.splits sum.splits)

lemma contained_Inr:
  assumes "contained path w (t, s) = (Inr p, ts')" "calm w" "pure_path (path_str (tr_base t)) = tr_base t"
  shows "\<exists>s'. ts' = (t, s') \<and> os_nodes s' = os_nodes s \<and> os_cwd s' = os_cwd s \<and>
    confined (os_nodes s) (os_cwd s) (tr_base t) p"
  using assms under_confined [of "os_nodes s" "os_cwd s" "tr_base t" path p]
  by (auto simp: contained_def action_defs look_under_def advance_def calm_def Let_def
      split: prod.splits sum.splits)

lemma inherited_agree:
  "agree_io base P Q \<Longrightarrow> (\<forall>p \<in> set_io_request r. confined (os_nodes s) (os_cwd s) base p) \<Longrightarrow>
     inherited P r w (t, s) = inherited Q r w (t, s)"
  by (simp add: inherited_def agree_io_def)

lemma delegated_agree:
  "agree_fs base P Q \<Longrightarrow> (\<forall>p \<in> set_fs_request r. confined (os_nodes s) (os_cwd s) base p) \<Longrightarrow>
     (\<forall>a b. r \<noteq> Fs_symlink a b) \<Longrightarrow> delegated P r w (t, s) = delegated Q r w (t, s)"
  by (simp add: delegated_def agree_fs_def)

text \<open>A checked path, and what is done with it.\<close>

lemma contained_then:
  assumes "calm w" "pure_path (path_str (tr_base t)) = tr_base t"
    and "\<And>p s'. os_nodes s' = os_nodes s \<Longrightarrow> os_cwd s' = os_cwd s \<Longrightarrow>
      confined (os_nodes s) (os_cwd s) (tr_base t) p \<Longrightarrow> f p w (t, s') = g p w (t, s')"
  shows "abind (contained path) f w (t, s) = abind (contained path) g w (t, s)"
proof (rule abind_cong_at)
  fix p ts'
  assume "contained path w (t, s) = (Inr p, ts')"
  from contained_Inr [OF this assms(1,2)] assms(3) show "f p w ts' = g p w ts'" by blast
qed simp

text \<open>Requests without a path are answered the same everywhere.\<close>

lemma close_agree: "agree_io base P Q \<Longrightarrow> inherited P (Close h) = inherited Q (Close h)"
  by (auto simp: fun_eq_iff inherited_agree)

lemma write_agree: "agree_io base P Q \<Longrightarrow> inherited P (Write h d) = inherited Q (Write h d)"
  by (auto simp: fun_eq_iff inherited_agree)

lemma file_agree:
  assumes "agree_fs base P Q"
  shows "delegated P (Fs_close f) = delegated Q (Fs_close f)"
    "delegated P (Fs_write f d n) = delegated Q (Fs_write f d n)"
    "delegated P (Fs_sparse h) = delegated Q (Fs_sparse h)"
  using assms by (auto simp: fun_eq_iff intro!: delegated_agree)

lemma perform_io_agree:
  assumes "calm w" "pure_path (path_str (tr_base t)) = tr_base t" "agree_io (tr_base t) P Q"
  shows "perform_io P r w (t, s) = perform_io Q r w (t, s)"
proof (cases r)
  case (Make_dir path parents exist_ok)
  show ?thesis
    unfolding Make_dir perform_io.simps pio_mkdir_def classifying_def
    by (intro abind_cong_at refl)
      (auto simp: the_transfer_def on_os_def intro!: contained_then [OF assms(1,2)]
        acatch_cong_at inherited_agree [OF assms(3)])
next
  case (List_dir path)
  show ?thesis
    unfolding List_dir perform_io.simps pio_list_def
    by (rule contained_then [OF assms(1,2)], rule abind_cong_at)
      (auto intro!: inherited_agree [OF assms(3)])
next
  case (Rename source destination)
  show ?thesis
    unfolding Rename perform_io.simps pio_rename_def
    by (rule contained_then [OF assms(1,2)], rule contained_then [OF assms(1,2)])
      (auto intro!: inherited_agree [OF assms(3)])
next
  case (Open path mode)
  show ?thesis
    unfolding Open perform_io.simps pio_open_def
    by (rule contained_then [OF assms(1,2)]) (auto intro!: inherited_agree [OF assms(3)])
next
  case (Write h d)
  show ?thesis
    unfolding Write perform_io.simps pio_write_def discard_def write_agree [OF assms(3)] close_agree [OF assms(3)] ..
next
  case (Close h)
  show ?thesis unfolding Close perform_io.simps pio_close_def close_agree [OF assms(3)] ..
qed (auto simp: pio_exists_def pio_is_dir_def pio_is_file_def pio_rmdir_def pio_unlink_def pio_stat_def
    intro!: contained_then [OF assms(1,2)] inherited_agree [OF assms(3)])

lemma perform_fs_agree:
  assumes "calm w" "pure_path (path_str (tr_base t)) = tr_base t" "agree_fs (tr_base t) P Q"
  shows "perform_fs P r w (t, s) = perform_fs Q r w (t, s)"
proof (cases r)
  case (Fs_mkdir path)
  show ?thesis
    unfolding Fs_mkdir perform_fs.simps fs_mkdir_def
    by (rule contained_then [OF assms(1,2)], rule acatch_cong_at)
      (auto intro!: delegated_agree [OF assms(3)])
next
  case (Fs_open path mode)
  show ?thesis
    unfolding Fs_open perform_fs.simps fs_open_def file_agree(3) [OF assms(3)] ..
next
  case (Fs_write f d n)
  show ?thesis
    unfolding Fs_write perform_fs.simps file_write_def file_discard_def file_agree(1,2) [OF assms(3)] ..
next
  case (Fs_close f)
  show ?thesis unfolding Fs_close perform_fs.simps file_close_def file_agree(1) [OF assms(3)] ..
qed (auto simp: fs_stat_def fs_setstat_def fs_exists_def fs_isdir_def fs_scandir_def fs_readlink_def
    fs_symlink_def file_agree [OF assms(3)]
    intro!: contained_then [OF assms(1,2)] delegated_agree [OF assms(3)])

section \<open>What an action leaves of the object\<close>

definition leaves :: "(transfer \<Rightarrow> 'b) \<Rightarrow> 'a action \<Rightarrow> bool" where
  "leaves f m \<longleftrightarrow> (\<forall>w t s a t' s'. m w (t, s) = (a, t', s') \<longrightarrow> f t' = f t)"

lemma leavesD: "leaves f m \<Longrightarrow> m w (t, s) = (a, t', s') \<Longrightarrow> f t' = f t"
  unfolding leaves_def by blast

named_theorems leaves_rules

lemma leaves_bind [leaves_rules]: "leaves f m \<Longrightarrow> (\<And>x. leaves f (k x)) \<Longrightarrow> leaves f (abind m k)"
  unfolding leaves_def abind_def
  by (auto split: prod.splits sum.splits) metis+

lemma leaves_catch [leaves_rules]: "leaves f m \<Longrightarrow> (\<And>e. leaves f (h e)) \<Longrightarrow> leaves f (acatch m h)"
  unfolding leaves_def acatch_def
  by (auto split: prod.splits sum.splits) metis+

lemma leaves_basic [leaves_rules]:
  "leaves f (areturn x)" "leaves f (araise e)" "leaves f (on_os m)" "leaves f (inherited P r)"
  "leaves f (delegated L q)"
  by (auto simp: leaves_def action_defs inherited_def delegated_def split: prod.splits sum.splits)

lemma leaves_the [leaves_rules]: "leaves f the_transfer"
  by (auto simp: leaves_def the_transfer_def)

lemma leaves_contained [leaves_rules]: "leaves f (contained path)"
  unfolding contained_def by (intro leaves_rules)

definition blind :: "(transfer \<Rightarrow> 'b) \<Rightarrow> bool" where
  "blind f \<longleftrightarrow> (\<forall>t x. f (t\<lparr>tr_targets := x\<rparr>) = f t)"

lemma blind_fields: "blind tr_base" "blind tr_budget"
  by (simp_all add: blind_def)

lemma leaves_record:
  "blind f \<Longrightarrow> (\<And>t. leaves f (k t)) \<Longrightarrow>
     leaves f (abind the_transfer (\<lambda>t. abind (put_transfer (t\<lparr>tr_targets := g t\<rparr>)) (\<lambda>_. k t)))"
  unfolding leaves_def blind_def by (auto simp: abind_def the_transfer_def put_transfer_def)

lemma leaves_pop: "blind f \<Longrightarrow> leaves f (pop_target handle)"
  unfolding pop_target_def by (rule leaves_record) (auto intro: leaves_rules)

lemma leaves_unlink_target [leaves_rules]: "leaves f (unlink_target target)"
  unfolding unlink_target_def by (cases target) (auto intro: leaves_rules)

lemma leaves_discard: "blind f \<Longrightarrow> leaves f (discard P handle)"
  unfolding discard_def by (intro leaves_rules leaves_pop) (auto intro: leaves_rules)

lemma leaves_file_discard [leaves_rules]: "leaves f (file_discard L x)"
  unfolding file_discard_def by (intro leaves_rules) (auto intro: leaves_rules)

lemma leaves_classifying [leaves_rules]: "leaves f m \<Longrightarrow> leaves f (classifying c m)"
  unfolding classifying_def by (intro leaves_rules) (auto intro: leaves_rules split: fault.splits option.splits)

lemma leaves_classifying_base [leaves_rules]: "leaves f m \<Longrightarrow> leaves f (classifying_base m)"
  unfolding classifying_base_def by (intro leaves_rules leaves_the)

lemma leaves_base_charge: "leaves tr_base (charge n)"
  by (auto simp: leaves_def charge_def spend_def split: option.splits prod.splits)

lemma charge_result:
  assumes "charge n w (t, s) = (r, t', s')" "tr_budget t = Some b"
  shows "tr_budget t' = Some (b\<lparr>bu_written := bu_written b + int n\<rparr>) \<and>
    (is_ok r \<longrightarrow> bu_written b + int n \<le> bu_limit b)"
  using assms by (auto simp: charge_def spend_def Let_def split: if_splits)

lemma charged:
  assumes "acatch (abind (charge n) (\<lambda>_. m)) h w (t, s) = (a, t', s')" "tr_budget t = Some b"
    "leaves tr_budget m" "\<And>e. leaves tr_budget (h e)" "\<And>e w ts. \<not> is_ok (fst (h e w ts))"
  shows "\<exists>b'. tr_budget t' = Some b' \<and> bu_limit b' = bu_limit b \<and> bu_written b' = bu_written b + int n
    \<and> (is_ok a \<longrightarrow> bu_written b' \<le> bu_limit b)"
proof -
  obtain r t1 s1 where c: "charge n w (t, s) = (r, t1, s1)" by (metis prod.exhaust)
  from charge_result [OF c assms(2)] have
    b: "tr_budget t1 = Some (b\<lparr>bu_written := bu_written b + int n\<rparr>)"
      "is_ok r \<longrightarrow> bu_written b + int n \<le> bu_limit b" by simp_all
  have "tr_budget t' = tr_budget t1 \<and> (is_ok a \<longrightarrow> is_ok r)"
  proof (cases r)
    case (Inl e)
    with assms(1) c have "h e w (t1, s1) = (a, t', s')" by (simp add: acatch_def abind_def)
    with assms(4,5) [of e] show ?thesis by (metis fst_conv leaves_def)
  next
    case (Inr u)
    obtain x t2 s2 where m: "m w (t1, s1) = (x, t2, s2)" by (metis prod.exhaust)
    with assms(3) have "tr_budget t2 = tr_budget t1" unfolding leaves_def by blast
    with assms(1) c Inr m assms(4) show ?thesis
      by (auto simp: acatch_def abind_def leaves_def split: sum.splits) metis
  qed
  with b show ?thesis by auto
qed

lemma never_ok_raise:
  "\<not> is_ok (fst (abind m (\<lambda>_. araise e) w ts))"
  "\<not> is_ok (fst (abind m (\<lambda>_. on_os (sbind c sraise)) w ts))"
  by (auto simp: abind_def araise_def on_os_def sbind_def sraise_def split: prod.splits sum.splits)

text \<open>Requests other than writes leave the budget alone; all leave the directory.\<close>

fun io_cost :: "string io_request \<Rightarrow> nat" where
  "io_cost (Write handle data) = length data"
| "io_cost _ = 0"

fun fs_cost :: "string fs_request \<Rightarrow> nat" where
  "fs_cost (Fs_write f data offset) = length data"
| "fs_cost _ = 0"

lemma leaves_perform_io:
  assumes "blind f" "\<forall>h d. r \<noteq> Write h d"
  shows "leaves f (perform_io P r)"
proof (cases r)
  case (Open path mode)
  show ?thesis
    unfolding Open perform_io.simps pio_open_def
    by (auto intro!: leaves_rules leaves_record [OF assms(1)] simp del: if_splits)
next
  case (List_dir path)
  show ?thesis
    unfolding List_dir perform_io.simps pio_list_def
    by (intro leaves_rules) (auto intro!: leaves_rules split: answer.splits)
next
  case (Close h)
  show ?thesis
    unfolding Close perform_io.simps pio_close_def by (intro leaves_rules leaves_pop assms(1))
qed (use assms in \<open>auto simp: pio_exists_def pio_is_dir_def pio_is_file_def pio_mkdir_def pio_rmdir_def
    pio_unlink_def pio_stat_def pio_rename_def intro!: leaves_rules\<close>)

lemma leaves_perform_fs:
  assumes "\<forall>x d n. r \<noteq> Fs_write x d n"
  shows "leaves f (perform_fs L r)"
proof (cases r)
  case (Fs_open path mode)
  show ?thesis
    unfolding Fs_open perform_fs.simps fs_open_def by (auto intro!: leaves_rules)
next
  case (Fs_mkdir path)
  show ?thesis
    unfolding Fs_mkdir perform_fs.simps fs_mkdir_def
    by (intro leaves_rules) (auto intro!: leaves_rules split: fault.splits fail.splits)
next
  case (Fs_close x)
  show ?thesis
    unfolding Fs_close perform_fs.simps file_close_def
    by (intro leaves_rules) (auto intro!: leaves_rules split: fault.splits fail.splits)
qed (use assms in \<open>auto simp: fs_stat_def fs_setstat_def fs_exists_def fs_isdir_def fs_scandir_def
    fs_readlink_def fs_symlink_def intro!: leaves_rules\<close>)

lemma leaves_writes:
  "leaves tr_base (perform_io P (Write h d))" "leaves tr_base (perform_fs L (Fs_write x d n))"
  unfolding perform_io.simps perform_fs.simps pio_write_def file_write_def
  by (intro leaves_rules leaves_base_charge leaves_discard blind_fields)
    (auto intro!: leaves_rules leaves_base_charge split: fault.splits fail.splits)

interpretation io: confined_adapter perform_io agree_io io_cost
proof
  fix P :: supplier and Q r w t s a t' s' b
  show "calm w \<Longrightarrow> pure_path (path_str (tr_base t)) = tr_base t \<Longrightarrow> agree_io (tr_base t) P Q \<Longrightarrow>
      perform_io P r w (t, s) = perform_io Q r w (t, s)"
    by (rule perform_io_agree)
  assume p: "perform_io P r w (t, s) = (a, t', s')"
  have "leaves tr_base (perform_io P r)"
    using leaves_perform_io [OF blind_fields(1)] leaves_writes(1) by (cases "\<exists>h d. r = Write h d") auto
  then show "tr_base t' = tr_base t" using p by (rule leavesD)
  assume b: "tr_budget t = Some b"
  show "\<exists>b'. tr_budget t' = Some b' \<and> bu_limit b' = bu_limit b \<and>
      bu_written b' = bu_written b + int (io_cost r) \<and>
      (is_ok a \<and> 0 < io_cost r \<longrightarrow> bu_written b' \<le> bu_limit b)"
  proof (cases "\<exists>h d. r = Write h d")
    case True
    then obtain h d where r: "r = Write h d" by blast
    from p have "acatch (abind (charge (length d)) (\<lambda>_. classifying_base (inherited P (Write h d))))
        (\<lambda>e. abind (discard P h) (\<lambda>_. araise e)) w (t, s) = (a, t', s')"
      unfolding r by (simp add: pio_write_def)
    from charged [OF this b] show ?thesis
      unfolding r by (auto intro!: leaves_rules leaves_discard blind_fields simp: never_ok_raise)
  next
    case False
    then have "leaves tr_budget (perform_io P r)" by (intro leaves_perform_io blind_fields) auto
    with p b have "tr_budget t' = Some b" by (metis leavesD)
    moreover have "io_cost r = 0" using False by (cases r) auto
    ultimately show ?thesis by simp
  qed
qed

interpretation fs: confined_adapter perform_fs agree_fs fs_cost
proof
  fix L :: fs_supplier and Q r w t s a t' s' b
  show "calm w \<Longrightarrow> pure_path (path_str (tr_base t)) = tr_base t \<Longrightarrow> agree_fs (tr_base t) L Q \<Longrightarrow>
      perform_fs L r w (t, s) = perform_fs Q r w (t, s)"
    by (rule perform_fs_agree)
  assume p: "perform_fs L r w (t, s) = (a, t', s')"
  have "leaves tr_base (perform_fs L r)"
    using leaves_perform_fs leaves_writes(2) by (cases "\<exists>x d n. r = Fs_write x d n") auto
  then show "tr_base t' = tr_base t" using p by (rule leavesD)
  assume b: "tr_budget t = Some b"
  show "\<exists>b'. tr_budget t' = Some b' \<and> bu_limit b' = bu_limit b \<and>
      bu_written b' = bu_written b + int (fs_cost r) \<and>
      (is_ok a \<and> 0 < fs_cost r \<longrightarrow> bu_written b' \<le> bu_limit b)"
  proof (cases "\<exists>x d n. r = Fs_write x d n")
    case True
    then obtain x d n where r: "r = Fs_write x d n" by blast
    let ?h = "\<lambda>e. case e of Plain (Os_error n) \<Rightarrow> abind (file_discard L x)
         (\<lambda>_. on_os (sbind (classify_refusal (path_str (lf_path x)) n) sraise))
       | _ \<Rightarrow> abind (file_discard L x) (\<lambda>_. araise e)"
    from p have "acatch (abind (charge (length d)) (\<lambda>_. delegated L (Fs_write x d n))) ?h w (t, s) = (a, t', s')"
      unfolding r by (simp add: file_write_def)
    note c = this
    have h: "leaves tr_budget (?h e)" "\<not> is_ok (fst (?h e w ts))" for e w ts
      by (auto intro!: leaves_rules simp: never_ok_raise split: fault.splits fail.splits)
    have "\<exists>b'. tr_budget t' = Some b' \<and> bu_limit b' = bu_limit b \<and>
        bu_written b' = bu_written b + int (length d) \<and> (is_ok a \<longrightarrow> bu_written b' \<le> bu_limit b)"
      by (rule charged [OF c b leaves_basic(5) h])
    then show ?thesis unfolding r fs_cost.simps by blast
  next
    case False
    then have "leaves tr_budget (perform_fs L r)" by (intro leaves_perform_fs) auto
    with p b have "tr_budget t' = Some b" by (metis leavesD)
    moreover have "fs_cost r = 0" using False by (cases r) auto
    ultimately show ?thesis by simp
  qed
qed

section \<open>Properties\<close>

text \<open>
  C9. Whatever paths a server makes up, the libraries under the adapters only ever act inside the
  directory of the transfer: two suppliers that behave the same on paths confined to that directory,
  and differ in any way elsewhere, give the same answers and leave the same machine over every
  sequence of requests. Nobody else changes the file system meanwhile; what a supplier does with a
  request is not restricted.
\<close>

theorem transfers_stay_in_their_directory:
  assumes "calm w"
  shows "(agree_io (pure_path base) P Q \<longrightarrow>
      session (perform_io P) rs w (contained_path_io (pure_path base) overwrite budget, s) =
      session (perform_io Q) rs w (contained_path_io (pure_path base) overwrite budget, s)) \<and>
    (agree_fs (pure_path base) L M \<longrightarrow>
      session (perform_fs L) qs w (contained_path_io (pure_path base) overwrite budget, s) =
      session (perform_fs M) qs w (contained_path_io (pure_path base) overwrite budget, s))"
  using assms
  by (auto simp: contained_path_io_def pure_path_roundtrip intro!: io.session_asks_inside fs.session_asks_inside)

text \<open>
  C10. A transfer never accepts more bytes than its budget, however many files the server makes of
  it and however the library underneath answers: the writes that succeed carry at most the limit.
\<close>

theorem transfers_stay_within_budget:
  "accepted io_cost rs (fst (session (perform_io P) rs w
      (contained_path_io base overwrite (Some \<lparr>bu_limit = limit, bu_written = 0\<rparr>), s))) \<le> max limit 0 \<and>
   accepted fs_cost qs (fst (session (perform_fs L) qs w
      (contained_path_io base overwrite (Some \<lparr>bu_limit = limit, bu_written = 0\<rparr>), s))) \<le> max limit 0"
proof -
  let ?t = "contained_path_io base overwrite (Some \<lparr>bu_limit = limit, bu_written = 0\<rparr>)"
  have b: "tr_budget ?t = Some \<lparr>bu_limit = limit, bu_written = 0\<rparr>" by (simp add: contained_path_io_def)
  obtain as t' s' where "session (perform_io P) rs w (?t, s) = (as, t', s')" by (metis prod.exhaust)
  moreover obtain bs t'' s'' where "session (perform_fs L) qs w (?t, s) = (bs, t'', s'')" by (metis prod.exhaust)
  ultimately show ?thesis
    using io.accepts_within [OF _ b] fs.accepts_within [OF _ b] by fastforce
qed

section \<open>Examples\<close>

text \<open>A supplier that does what it is asked, and one that balks at everything outside the directory.\<close>

definition obliging :: supplier where
  "obliging r = (\<lambda>w s. (Inr Done, s))"

definition balking :: "ppath \<Rightarrow> supplier" where
  "balking base r = (\<lambda>w s.
     if \<forall>p \<in> set_io_request r. confined (os_nodes s) (os_cwd s) base p then (Inr Done, s)
     else (Inl (Plain Runtime_error), s))"

theorem transfers_stay_in_their_directory_witness:
  "session (perform_io obliging) [Unlink ''/srv/data/x'', Rename ''/srv/data/x'' ''/etc/passwd''] still_world
      (contained_path_io (pure_path ''/srv/data'') False None, machine) =
   session (perform_io (balking (pure_path ''/srv/data'')))
      [Unlink ''/srv/data/x'', Rename ''/srv/data/x'' ''/etc/passwd''] still_world
      (contained_path_io (pure_path ''/srv/data'') False None, machine)"
proof -
  have "agree_io (pure_path ''/srv/data'') obliging (balking (pure_path ''/srv/data''))"
    by (auto simp: agree_io_def obliging_def balking_def)
  with transfers_stay_in_their_directory [OF machine_wf(3), of "''/srv/data''"] show ?thesis by blast
qed

text \<open>In this session the first request is performed and the second refused.\<close>

lemma escape_is_refused:
  "fst (session (perform_io obliging) [Unlink ''/srv/data/x'', Rename ''/srv/data/x'' ''/etc/passwd''] still_world
      (contained_path_io (pure_path ''/srv/data'') False None, machine)) =
   [Inr Done, Inl (Plain (Raised PathContainmentError))]"
  by code_simp

end
