(* ===== verification/Spec2Isabelle.thy ===== *)
theory Spec2Isabelle
  imports Breaker_System Registry Protocols Stream_Atomic Contained_Guarantees S3_Guarantees
begin

text \<open>
  A verification development for \<open>asyncio_gateway\<close>, a library that sends one request over one of
  several protocols and answers with one envelope, whatever happened on the way.

  \<^bold>\<open>The program.\<close> \<open>request()\<close> (\<open>asyncio_gateway.py\<close>) checks its arguments, resolves the protocol to a
  class, validates \<open>protocol_info\<close>, builds the envelope, runs the caller's pre-processor, decides the
  URL to dispatch on, constructs the client and awaits its \<open>handle_request\<close>. The client runs its
  transport call under the circuit breaker of the destination, which a registry keeps; copies the
  answer into the envelope; and judges it. What the client raises is finalised into the envelope and
  logged. Everything that leaves (URLs, headers, cookies, payloads, messages, log records) passes
  the redactor.

  \<^bold>\<open>Theories and sources.\<close>
  \<^item> \<open>Prelude\<close>, \<open>PyString\<close>, \<open>Pyval\<close>: results as sums with \<open>rbind\<close>, insertion-ordered dictionaries,
    Python text (Latin-1) and dynamically typed values. No source file; the language.
  \<^item> \<open>Errors\<close>, \<open>Causes\<close>: \<open>utils/exceptions.py\<close> and \<open>utils/status_map.py\<close>. Classes, codes, statuses,
    reconstruction; the cause chain and the message made of it.
  \<^item> \<open>Breaker_Config\<close>, \<open>Breaker\<close>, \<open>Breaker_System\<close>: \<open>helpers/internal/circuit_breaker_helper.py\<close>.
    Configuration, the three-state machine, the retry loop cut at its two awaits, and a step relation
    for any number of coroutines sharing one breaker.
  \<^item> \<open>Registry\<close>: \<open>helpers/internal/breaker_registry.py\<close>, with the locale \<open>lru_cache\<close> it refines.
  \<^item> \<open>Redaction_Pairs\<close>, \<open>Redaction_Urls\<close>, \<open>Redaction\<close>: \<open>utils/redaction.py\<close>. The regular expressions are
    scanners over the text; the masking of credentials in URLs follows the offsets of the source.
  \<^item> \<open>Envelope\<close>: \<open>utils/envelope.py\<close> and \<open>helpers/common/date_helper.py\<close>.
  \<^item> \<open>Url\<close>: what the source uses of \<open>urllib.parse\<close> (CPython 3.12).
  \<^item> \<open>Base\<close>: \<open>helpers/internal/base.py\<close>. \<open>protocol_info\<close>, credentials, destinations, the constructor
    with its lookup in the registry.
  \<^item> \<open>Filters\<close>: \<open>helpers/internal/__init__.py\<close>, \<open>filters_helper.py\<close>, \<open>response_helper.py\<close>.
  \<^item> \<open>Reads\<close>: the verbs and bounded reads of \<open>utils/http_file_config.py\<close> and the reading of a response
    in \<open>helpers/internal/request_helper.py\<close>.
  \<^item> \<open>Redirects\<close>, \<open>Uploads\<close>: the redirect loop, the three body wrappers and the run under the breaker
    of \<open>request_helper.py\<close>.
  \<^item> \<open>Http_Options\<close>, \<open>Http_Client\<close>: \<open>logic/http_client.py\<close>, validators and constructor, then the exchange.
  \<^item> \<open>Jsonrpc\<close>, \<open>Graphql\<close>: \<open>logic/jsonrpc_client.py\<close> and \<open>logic/graphql_client.py\<close>.
  \<^item> \<open>Entry\<close>: \<open>asyncio_gateway.py\<close> and the protocol table of \<open>logic/__init__.py\<close>.
  \<^item> \<open>Posix\<close>: what the source uses of the \<open>os\<close> module, as calls on a machine of inodes and descriptors.
  \<^item> \<open>Paths\<close>, \<open>Opens\<close>, \<open>Streams\<close>: \<open>utils/paths.py\<close>. Containment of names; the walk to a parent by
    descriptors and the checks on what was opened; awaits, bounded reads and the two streaming
    policies. \<open>Descriptors\<close> (a calculus on the table of open descriptors) and \<open>Open_Guarantees\<close>,
    \<open>Stream_Leaks\<close>, \<open>Stream_Contents\<close>, \<open>Stream_Atomic\<close> hold what is shown of them.
  \<^item> \<open>Contained\<close>: \<open>utils/contained_io.py\<close>. The two adapters put between the file system and \<open>aioftp\<close> or
    \<open>asyncssh\<close>, with their budget, and the settled call of a contained download.
    \<open>Contained_Guarantees\<close>: what is shown of them.
  \<^item> \<open>Scripts\<close>: straight-line code that talks to a peer, as a monad with a log, an exception store and
    the breaker. \<open>Ftp\<close>: \<open>logic/ftp_client.py\<close>. \<open>Sftp\<close>: \<open>logic/sftp_client.py\<close> and \<open>auth.py\<close>. \<open>Transfers\<close>:
    what is shown of the two.
  \<^item> \<open>Services\<close>: what the clients of the remote services share. \<open>S3\<close>: \<open>logic/s3_client.py\<close>, with
    \<open>S3_Guarantees\<close>. \<open>Base64\<close>, \<open>Json_Safe\<close>: the encoding of bytes and the conversion of an arbitrary
    answer to JSON that \<open>logic/grpc_client.py\<close> makes; \<open>Grpc\<close>: the rest of that file; \<open>Runs\<close>: what is
    kept by a run under the breaker; \<open>Grpc_Guarantees\<close>.
  \<^item> \<open>Xml\<close>, \<open>Soap\<close>: \<open>logic/soap_client.py\<close>. Elements, the scan of the prolog and the walk that bounds
    the depth of a fault; options, envelope, headers, the reading of an answer and the exchange.
    \<open>Soap_Guarantees\<close>: what is shown of them.
  \<^item> \<open>Protocols\<close>: all modelled clients as protocol classes of the entry point.

  \<^bold>\<open>State.\<close> A breaker is a record with the fields of \<open>CircuitBreakerHelper\<close>; the registry is a
  dictionary of object identities with a heap of breakers; the envelope is a record with the keys of
  \<open>GatewayResponse\<close>; exceptions are objects in a store, linked by cause and context; one call of the
  redirect loop carries the state of its hop and the log of the requests it issued. An exception is
  a value (\<open>exn\<close>, a class and a status) until its object matters. What is outside the library (a
  server's answers, clocks, files, codecs, \<open>pyfailsafe\<close>, the caller's callables, the classes of
  foreign exceptions) is an argument of the definitions, gathered in the records \<open>failsafe\<close>, \<open>world\<close>,
  \<open>foreign\<close>, \<open>surroundings\<close>, \<open>surround\<close>, \<open>setting\<close> and \<open>entry\<close>. The code that touches files runs on a
  machine (\<open>os\<close>: inodes, descriptors, a count of calls) in a world that decides, call by call, which
  of them fail, how much a write takes, what other processes did in between, and at which await the
  caller is cancelled.

  \<^bold>\<open>Interfaces.\<close> \<open>lru_cache\<close> (theory \<open>Registry\<close>) is what a registry promises; \<open>response_verdict\<close> (theory
  \<open>Http_Client\<close>) is what the verdict of an HTTP client promises the exchange, interpreted on the
  three clients; \<open>sealed_client\<close> (theory \<open>Entry\<close>) is what a protocol class promises the entry point,
  interpreted on the same three and, in theory \<open>Protocols\<close>, on SOAP, FTP, SFTP, S3 and gRPC; \<open>confined_adapter\<close> (theory
  \<open>Contained_Guarantees\<close>) is what an adapter keeps of the directory it confines a transfer to;
  \<open>reporting_client\<close> (theory \<open>Scripts\<close>) is what a client made of a script reports and seals.

  \<^bold>\<open>What is shown.\<close>
  \<^item> The call as a whole: an envelope that is returned is sealed, failures are logged once, exceptions of
    the library never leave after dispatch, a pre-processor cannot retarget, \<open>HTTPS\<close> is https.
  \<^item> The clients: constructed requests are well formed; failures of the transport become exceptions of
    the library, named by their cause; answers are judged by status and body; JSON-RPC answers are
    matched to their requests; GraphQL headers are canonical and its success is strict.
  \<^item> The breaker: one trial at a time, no lock-out, attempts within the budget, refusals not counted,
    the threshold, termination of the loop. The registry is a least-recently-used cache of 256
    destinations that never share a breaker.
  \<^item> The redirect loop: no credentials across origins, a bounded number of requests to allowed schemes,
    one deadline for the chain. Reads never exceed their cap; the multipart walk equals its
    recursive form.
  \<^item> Files: names stay below their base; opens follow no link and truncate nothing before the checks;
    an overwriting download replaces the file as a whole or not at all, an exclusive one replaces
    nothing, in a world nobody else writes to; no descriptor is leaked, whatever fails but the close
    of a directory (then one is: a defect) and whenever the caller is cancelled. What a transfer
    library does under an adapter does not depend on anything outside the directory of the
    transfer, and writes no more than its budget.
  \<^item> FTP and SFTP: credentials only inside verified TLS unless plaintext was asked for; host keys are
    checked unless the call says otherwise by name; failures become exceptions of the library.
  \<^item> S3 and gRPC: secrets without asterisks are shown in no field that is not the service's own token, and
    in no message of the library; the S3 client is closed last, and once;
    every gRPC status that ends a call becomes its exception and only a returned call is a success; a constructed gRPC
    request is well formed; the conversion to JSON is exact on what it accepts and refuses the rest.
  \<^item> SOAP: only text that begins with an element reaches the XML parser, so no document type does; the
    depth of a fault is its height; a fault decides before the status; a constructed request is a
    POST with the headers of its version, sent raw unless the caller spelled a content type in
    another way, which is a defect.
  \<^item> Redaction and envelope: passwords in URLs, pairs in text, payload echoes, the cause chain.
  Some theorems state a defect precisely: two trials on one half-open circuit under a short reset
  timeout, a bare \<open>ValueError\<close> for a port out of range, a dropped body that comes back, a first URL
  that is not checked against \<open>allowed_schemes\<close>, a password that a pair hides from the masker, a
  descriptor that a failed close leaks, a secret with an asterisk that is shown.

  \<^bold>\<open>Bounds and fuel.\<close> Loops are functions with a termination proof: the redirect loop by the hops that
  are left, the multipart walk by the size of its stack, the cause chain by its depth of 10, chunks
  by the length of the file. The retry loop takes a list of attempts; \<open>allowed_retries + 1\<close> of them are
  enough (\<open>run_returns\<close>, \<open>handle_http_request_returns\<close>), with fewer the result is \<open>None\<close>.
  Links are resolved by a loop that ends because every link is entered at most once, for paths below
  the limit of the kernel; a temporary name is tried 128 times, as in the source; reads end because
  every chunk lowers what the limit leaves. \<open>unlink_context\<close> follows at most as many links as there are objects. Python integers are \<open>int\<close>;
  finite floats are rationals without rounding, with the infinities and not-a-number apart.

  \<^bold>\<open>Not modelled.\<close> Text outside Latin-1. \<open>logic/gcs_client.py\<close>: it drives a synchronous SDK through a pool
  of worker threads, and what its leases promise is decided between those threads, which one
  coroutine with logged calls does not show; its class is an argument of the entry point. The S3
  download helpers of \<open>utils/http_file_config.py\<close>. What ElementTree parses and writes is a record of
  functions. What \<open>aioftp\<close> and
  \<open>asyncssh\<close> do between the calls that are logged is an argument. \<open>utils/request_tracer.py\<close>: aiohttp
  calls its handlers, and the list it fills is an argument. The exchange is one coroutine;
  interleaving is modelled for the breaker, where it decides, and not for the rest of a call.
  Messages are modelled where they are the library's own composition or where redaction is at stake.
  Examples, scripts, tests and container files hold no logic of the library.
\<close>

end
